(* ===== verification/Prelude.thy ===== *)
theory Prelude
  imports Complex_Main
begin

text \<open>
  What the component theories share: the collections the component lemmas are declared into,
  the shape of a stateful operation (the state it leaves and either the exception it raised or
  the value it returned), the chain of stop gates that many functions of the repository open
  with, and a few generic facts on lists and characters.
\<close>

named_theorems guard_simps \<open>facts that open a chain of stop gates\<close>
named_theorems inv_intros \<open>invariant preservation, one lemma per operation\<close>
named_theorems frame_simps \<open>what an operation leaves unchanged\<close>

section \<open>Results and stateful operations\<close>

text \<open>
  A Python method that mutates its object and returns or raises is a function to the state it
  leaves (also when it raises) paired with \<open>Inl\<close> the exception or \<open>Inr\<close> the value.
\<close>

type_synonym ('s, 'e, 'a) outcome = "'s \<times> ('e + 'a)"

definition is_ok :: "'e + 'a \<Rightarrow> bool" where
  "is_ok r = (case r of Inl _ \<Rightarrow> False | Inr _ \<Rightarrow> True)"

lemma is_ok_simps [simp]: "is_ok (Inl e) = False" "is_ok (Inr a) = True"
  by (simp_all add: is_ok_def)

lemma is_ok_iff: "is_ok r \<longleftrightarrow> (\<exists>a. r = Inr a)"
  by (cases r) auto

lemma not_is_ok_iff: "\<not> is_ok r \<longleftrightarrow> (\<exists>e. r = Inl e)"
  by (cases r) auto

section \<open>Chains of stop gates\<close>

text \<open>
  \<open>require(c1, code1); require(c2, code2); ...\<close> stops at the first condition that fails.
\<close>

fun first_failure :: "(bool \<times> 'e) list \<Rightarrow> 'e option" where
  "first_failure [] = None"
| "first_failure ((c, e) # gs) = (if c then first_failure gs else Some e)"

lemma first_failure_None [guard_simps]:
  "first_failure gs = None \<longleftrightarrow> (\<forall>(c, e) \<in> set gs. c)"
  by (induction gs rule: first_failure.induct) auto

lemma first_failure_append:
  "first_failure (gs @ hs) =
     (case first_failure gs of None \<Rightarrow> first_failure hs | Some e \<Rightarrow> Some e)"
  by (induction gs rule: first_failure.induct) auto

lemma first_failure_Some_code:
  "first_failure gs = Some e \<Longrightarrow> \<exists>c. (c, e) \<in> set gs \<and> \<not> c"
  by (induction gs rule: first_failure.induct) (auto split: if_splits)

definition guarded :: "(bool \<times> 'e) list \<Rightarrow> ('e + 'a) \<Rightarrow> 'e + 'a" where
  "guarded gs k = (case first_failure gs of None \<Rightarrow> k | Some e \<Rightarrow> Inl e)"

lemma guarded_Inr [guard_simps]:
  "guarded gs k = Inr a \<longleftrightarrow> (\<forall>(c, e) \<in> set gs. c) \<and> k = Inr a"
  by (cases "first_failure gs")
     (simp_all add: guarded_def first_failure_None [symmetric])

lemma guarded_Nil [simp]: "guarded [] k = k"
  by (simp add: guarded_def)

lemma guarded_Cons [simp]:
  "guarded ((c, e) # gs) k = (if c then guarded gs k else Inl e)"
  by (simp add: guarded_def)

section \<open>Sequencing fallible computations\<close>

type_synonym ('x, 'r) result = "'x + 'r"

definition rbind :: "('x, 'p) result \<Rightarrow> ('p \<Rightarrow> ('x, 'q) result) \<Rightarrow> ('x, 'q) result" where
  "rbind r f = (case r of Inl e \<Rightarrow> Inl e | Inr a \<Rightarrow> f a)"

lemma rbind_simps [simp]: "rbind (Inl e) f = Inl e" "rbind (Inr a) f = f a"
  by (simp_all add: rbind_def)

lemma rbind_Inr_iff [guard_simps]: "rbind r f = Inr b \<longleftrightarrow> (\<exists>a. r = Inr a \<and> f a = Inr b)"
  by (cases r) auto

lemma rbind_Inl_iff: "rbind r f = Inl e \<longleftrightarrow> r = Inl e \<or> (\<exists>a. r = Inr a \<and> f a = Inl e)"
  by (cases r) auto

lemma rbind_assoc: "rbind (rbind r f) g = rbind r (\<lambda>a. rbind (f a) g)"
  by (cases r) auto

fun each_ok :: "('p \<Rightarrow> ('x, 'q) result) \<Rightarrow> 'p list \<Rightarrow> ('x, 'q list) result" where
  "each_ok f [] = Inr []"
| "each_ok f (x # xs) = rbind (f x) (\<lambda>y. rbind (each_ok f xs) (\<lambda>ys. Inr (y # ys)))"

lemma each_ok_Inr_length: "each_ok f xs = Inr ys \<Longrightarrow> length ys = length xs"
  by (induction xs arbitrary: ys) (auto simp: rbind_Inr_iff)

lemma each_ok_Inr_list_all2: "each_ok f xs = Inr ys \<longleftrightarrow> list_all2 (\<lambda>x y. f x = Inr y) xs ys"
  by (induction xs arbitrary: ys) (auto simp: rbind_Inr_iff list_all2_Cons1)

text \<open>The same for an operation that leaves a state behind, also when it raises.\<close>

definition obind :: "('s, 'e, 'a) outcome \<Rightarrow> ('a \<Rightarrow> 's \<Rightarrow> ('s, 'e, 'b) outcome) \<Rightarrow> ('s, 'e, 'b) outcome" where
  "obind x f = (case x of (s, Inl e) \<Rightarrow> (s, Inl e) | (s, Inr a) \<Rightarrow> f a s)"

lemma obind_simps [simp]: "obind (s, Inl e) f = (s, Inl e)" "obind (s, Inr a) f = f a s"
  by (simp_all add: obind_def)

lemma obind_cases:
  obtains (raised) s e where "x = (s, Inl e)" "obind x f = (s, Inl e)"
  | (returned) s a where "x = (s, Inr a)" "obind x f = f a s"
  by (cases x; cases "snd x") (auto simp: obind_def)

lemma obind_inv: "P (fst x) \<Longrightarrow> (\<And>a s. x = (s, Inr a) \<Longrightarrow> P (fst (f a s))) \<Longrightarrow> P (fst (obind x f))"
  by (cases rule: obind_cases [of x f]) auto

lemma obind_keep: "P (fst x) \<Longrightarrow> (\<And>a s. P s \<Longrightarrow> P (fst (f a s))) \<Longrightarrow> P (fst (obind x f))"
  by (rule obind_inv) auto

lemma obind_Inr: "obind x f = (s', Inr b) \<longleftrightarrow> (\<exists>s a. x = (s, Inr a) \<and> f a s = (s', Inr b))"
  by (cases rule: obind_cases [of x f]) auto

section \<open>Association lists\<close>

text \<open>A Python dict as its items in insertion order: lookup, and overwrite in place.\<close>

fun alist_set :: "'k \<Rightarrow> 'v \<Rightarrow> ('k \<times> 'v) list \<Rightarrow> ('k \<times> 'v) list" where
  "alist_set k v [] = [(k, v)]"
| "alist_set k v ((k', v') # xs) = (if k' = k then (k, v) # xs else (k', v') # alist_set k v xs)"

lemma map_of_alist_set: "map_of (alist_set k v xs) = (map_of xs)(k \<mapsto> v)"
  by (induction xs rule: alist_set.induct) auto

lemma fst_set_alist_set: "fst ` set (alist_set k v xs) = insert k (fst ` set xs)"
  by (induction k v xs rule: alist_set.induct) auto

lemma distinct_alist_set:
  "distinct (map fst xs) \<Longrightarrow> distinct (map fst (alist_set k v xs))"
proof (induction k v xs rule: alist_set.induct)
  case (2 k v k' v' xs)
  then show ?case
    using fst_set_alist_set [of k v xs] by (auto simp: image_iff)
qed auto

definition alist_del :: "'k \<Rightarrow> ('k \<times> 'v) list \<Rightarrow> ('k \<times> 'v) list" where
  "alist_del k xs = filter (\<lambda>p. fst p \<noteq> k) xs"

lemma map_of_alist_del: "map_of (alist_del k xs) = (map_of xs)(k := None)"
  by (induction xs) (auto simp: alist_del_def)

lemma map_of_alist_del_simps [simp]:
  "map_of (alist_del k xs) k = None"
  "j \<noteq> k \<Longrightarrow> map_of (alist_del k xs) j = map_of xs j"
  by (simp_all add: map_of_alist_del)

lemma distinct_alist_del: "distinct (map fst xs) \<Longrightarrow> distinct (map fst (alist_del k xs))"
  unfolding alist_del_def by (rule distinct_map_filter)

lemma map_of_filter_SomeD:
  "map_of (filter P xs) k = Some v \<Longrightarrow> distinct (map fst xs) \<Longrightarrow> map_of xs k = Some v"
  by (induction xs) (auto split: if_splits dest: map_of_SomeD intro: rev_image_eqI)

lemma map_of_filter_in:
  "distinct (map fst xs) \<Longrightarrow>
   map_of (filter P xs) k = (if \<exists>v. map_of xs k = Some v \<and> P (k, v) then map_of xs k else None)"
proof (induction xs)
  case (Cons x xs)
  then show ?case
    by (cases x) (auto split: option.splits simp: map_of_eq_None_iff image_iff dest: map_of_SomeD)
qed simp

section \<open>Characters\<close>

abbreviation hex_alphabet :: string where
  "hex_alphabet \<equiv> ''0123456789abcdef''"

definition is_hex :: "nat \<Rightarrow> string \<Rightarrow> bool" where
  "is_hex n s \<longleftrightarrow> length s = n \<and> list_all (\<lambda>c. c \<in> set hex_alphabet) s"

definition ascii_upper :: "char \<Rightarrow> bool" where
  "ascii_upper c \<longleftrightarrow> c \<in> set ''ABCDEFGHIJKLMNOPQRSTUVWXYZ''"

definition ascii_lower :: "char \<Rightarrow> bool" where
  "ascii_lower c \<longleftrightarrow> c \<in> set ''abcdefghijklmnopqrstuvwxyz''"

definition ascii_digit :: "char \<Rightarrow> bool" where
  "ascii_digit c \<longleftrightarrow> c \<in> set ''0123456789''"

lemma is_hex_replicate: "is_hex n (replicate n (CHR ''0''))"
  by (simp add: is_hex_def list_all_iff)

lemma is_hex_length: "is_hex n s \<Longrightarrow> length s = n"
  by (simp add: is_hex_def)

text \<open>The length in UTF-8; the characters here are below 256.\<close>

definition utf8_length :: "string \<Rightarrow> nat" where
  "utf8_length s = sum_list (map (\<lambda>c. if of_char c < (128::nat) then 1 else 2) s)"

section \<open>Commits\<close>

text \<open>
  What becomes of a database commit: it returns; it takes effect and the acknowledgement is lost; it
  does not take effect.
\<close>

datatype commit_fate = Committed | CommitLost | CommitFailed

end
