(* ===== verification/PyJson.thy ===== *)
theory PyJson
  imports Prelude "HOL-Library.List_Lexorder" "HOL-Library.Char_ord"
begin

text \<open>
  The values \<open>dict[str, Any]\<close>, \<open>list[Any]\<close> and their scalars that the repository stores, compares,
  serialises with \<open>json.dumps\<close> and hashes. A dict is the list of its items in insertion order; a
  non-integer number carries its value and the literal Python prints for it, which is also what
  \<open>rq6/core.py\<close> retains of a source number; \<open>JNonFinite\<close> stands for the infinities and NaN, which
  \<open>allow_nan=False\<close> refuses. The theory gives the canonical encoder (sorted keys, no spaces), the
  equality Python's \<open>==\<close> computes, and the fact that the canonical bytes of exact metadata determine
  the value.
\<close>

section \<open>Values\<close>

datatype json =
    JNull
  | JBool bool
  | JInt int
  | JNum rat string
  | JNonFinite
  | JStr string
  | JList "json list"
  | JObj "(string \<times> json) list"

fun jget :: "string \<Rightarrow> json \<Rightarrow> json option" where
  "jget k (JObj ms) = map_of ms k"
| "jget k _ = None"

fun jkeys :: "json \<Rightarrow> string list" where
  "jkeys (JObj ms) = map fst ms"
| "jkeys _ = []"

definition jget_or :: "json \<Rightarrow> string \<Rightarrow> json \<Rightarrow> json" where
  "jget_or d k v = (case jget k v of None \<Rightarrow> d | Some x \<Rightarrow> x)"

fun is_str :: "json \<Rightarrow> bool" where "is_str (JStr _) = True" | "is_str _ = False"
fun is_bool :: "json \<Rightarrow> bool" where "is_bool (JBool _) = True" | "is_bool _ = False"
fun is_int :: "json \<Rightarrow> bool" where "is_int (JInt _) = True" | "is_int _ = False"
fun is_list :: "json \<Rightarrow> bool" where "is_list (JList _) = True" | "is_list _ = False"
fun is_obj :: "json \<Rightarrow> bool" where "is_obj (JObj _) = True" | "is_obj _ = False"

fun as_str :: "json \<Rightarrow> string option" where "as_str (JStr s) = Some s" | "as_str _ = None"
fun as_int :: "json \<Rightarrow> int option" where "as_int (JInt i) = Some i" | "as_int _ = None"
fun as_list :: "json \<Rightarrow> json list option" where "as_list (JList vs) = Some vs" | "as_list _ = None"

text \<open>\<open>bool(value)\<close>.\<close>

fun truthy :: "json \<Rightarrow> bool" where
  "truthy JNull = False"
| "truthy (JBool b) = b"
| "truthy (JInt i) = (i \<noteq> 0)"
| "truthy (JNum r _) = (r \<noteq> 0)"
| "truthy JNonFinite = True"
| "truthy (JStr s) = (s \<noteq> [])"
| "truthy (JList vs) = (vs \<noteq> [])"
| "truthy (JObj ms) = (ms \<noteq> [])"

definition same_keys :: "json \<Rightarrow> string list \<Rightarrow> bool" where
  "same_keys v ks \<longleftrightarrow> is_obj v \<and> set (jkeys v) = set ks"

section \<open>Equality and key order\<close>

text \<open>
  Python's \<open>==\<close> on these values: dicts regardless of order, and across numeric types
  (\<open>True == 1 == 1.0\<close>). Two values are equal when their normal forms are.
\<close>

fun jsort :: "json \<Rightarrow> json" where
  "jsort (JList vs) = JList (map jsort vs)"
| "jsort (JObj ms) = JObj (sort_key fst (map (\<lambda>(k, v). (k, jsort v)) ms))"
| "jsort v = v"

fun num_norm :: "json \<Rightarrow> json" where
  "num_norm (JBool b) = JInt (if b then 1 else 0)"
| "num_norm (JNum r s) = (if snd (quotient_of r) = 1 then JInt (fst (quotient_of r)) else JNum r [])"
| "num_norm (JList vs) = JList (map num_norm vs)"
| "num_norm (JObj ms) = JObj (map (\<lambda>(k, v). (k, num_norm v)) ms)"
| "num_norm v = v"

definition py_eq :: "json \<Rightarrow> json \<Rightarrow> bool" where
  "py_eq v w \<longleftrightarrow> num_norm (jsort v) = num_norm (jsort w)"

lemma py_eq_refl [simp]: "py_eq v v"
  by (simp add: py_eq_def)

lemma py_eq_sym: "py_eq v w \<Longrightarrow> py_eq w v"
  by (simp add: py_eq_def)

lemma py_eq_trans: "py_eq u v \<Longrightarrow> py_eq v w \<Longrightarrow> py_eq u w"
  by (simp add: py_eq_def)

lemma py_eq_JStr [simp]: "py_eq (JStr s) w \<longleftrightarrow> w = JStr s" "py_eq w (JStr s) \<longleftrightarrow> w = JStr s"
  by (cases w; auto simp: py_eq_def)+

lemma py_eq_JNull [simp]: "py_eq JNull w \<longleftrightarrow> w = JNull" "py_eq w JNull \<longleftrightarrow> w = JNull"
  by (cases w; auto simp: py_eq_def)+

lemma map_of_sort_key:
  fixes xs :: "(string \<times> json) list"
  shows "map_of (sort_key fst xs) k = map_of xs k"
proof -
  have "map_of ys k = map_of (filter (\<lambda>y. fst y = k) ys) k" for ys :: "(string \<times> json) list"
    by (induction ys) auto
  then show ?thesis by (metis sort_key_stable)
qed

lemma jget_jsort: "jget k (jsort v) = map_option jsort (jget k v)"
  by (cases v) (simp_all add: map_of_sort_key map_of_map)

lemma jget_num_norm: "jget k (num_norm v) = map_option num_norm (jget k v)"
  by (cases v) (simp_all add: map_of_map)

lemma py_eq_jget: "py_eq u v \<Longrightarrow> rel_option py_eq (jget k u) (jget k v)"
  unfolding py_eq_def
  by (drule arg_cong [of _ _ "jget k"])
     (cases "jget k u"; cases "jget k v"; simp add: jget_num_norm jget_jsort)

section \<open>Printing\<close>

definition digit :: "nat \<Rightarrow> char" where
  "digit d = hex_alphabet ! d"

fun dec_nat :: "nat \<Rightarrow> string" where
  "dec_nat n = (if n < 10 then [digit n] else dec_nat (n div 10) @ [digit (n mod 10)])"

declare dec_nat.simps [simp del]

definition dec_int :: "int \<Rightarrow> string" where
  "dec_int i = (if i < 0 then CHR ''-'' # dec_nat (nat (- i)) else dec_nat (nat i))"

text \<open>
  One character of a JSON string: the two-character escapes, \<open>\u00XX\<close> for the other control
  characters (and, with \<open>ensure_ascii\<close>, for everything outside space to tilde), itself otherwise.
\<close>

definition quote_chr :: char where "quote_chr = CHR 0x22"
definition bslash :: char where "bslash = CHR 0x5C"

definition short_escape :: "char \<Rightarrow> char option" where
  "short_escape c =
     (if c = CHR 0x22 then Some (CHR 0x22) else if c = CHR 0x5C then Some (CHR 0x5C)
      else if c = CHR 0x0A then Some (CHR ''n'') else if c = CHR 0x0D then Some (CHR ''r'')
      else if c = CHR 0x09 then Some (CHR ''t'') else if c = CHR 0x08 then Some (CHR ''b'')
      else if c = CHR 0x0C then Some (CHR ''f'') else None)"

definition needs_u :: "bool \<Rightarrow> char \<Rightarrow> bool" where
  "needs_u ascii c \<longleftrightarrow> (of_char c < (32::nat)) \<or> (ascii \<and> (of_char c > (126::nat)))"

definition esc :: "bool \<Rightarrow> char \<Rightarrow> string" where
  "esc ascii c = (case short_escape c of
       Some x \<Rightarrow> [bslash, x]
     | None \<Rightarrow> if needs_u ascii c
               then [bslash, CHR ''u'', CHR ''0'', CHR ''0'', digit (of_char c div 16), digit (of_char c mod 16)]
               else [c])"

definition enc_str :: "bool \<Rightarrow> string \<Rightarrow> string" where
  "enc_str ascii s = quote_chr # concat (map (esc ascii) s) @ [quote_chr]"

fun join :: "string \<Rightarrow> string list \<Rightarrow> string" where
  "join sep [] = []"
| "join sep (x # xs) = x @ concat (map (\<lambda>y. sep @ y) xs)"

fun enc :: "bool \<Rightarrow> json \<Rightarrow> string" where
  "enc a JNull = ''null''"
| "enc a (JBool b) = (if b then ''true'' else ''false'')"
| "enc a (JInt i) = dec_int i"
| "enc a (JNum r s) = s"
| "enc a JNonFinite = ''NaN''"
| "enc a (JStr s) = enc_str a s"
| "enc a (JList vs) = ''['' @ join '','' (map (enc a) vs) @ '']''"
| "enc a (JObj ms) = ''{'' @ join '','' (map (\<lambda>(k, v). enc_str a k @ '':'' @ enc a v) ms) @ ''}''"

fun finite_json :: "json \<Rightarrow> bool" where
  "finite_json JNonFinite = False"
| "finite_json (JList vs) = list_all finite_json vs"
| "finite_json (JObj ms) = list_all (\<lambda>(k, v). finite_json v) ms"
| "finite_json _ = True"

text \<open>
  \<open>json.dumps(value, ensure_ascii=a, sort_keys=True, separators=(",", ":"), allow_nan=False)\<close>:
  None where it raises \<open>ValueError\<close>.
\<close>

definition dumps :: "bool \<Rightarrow> json \<Rightarrow> string option" where
  "dumps a v = (if finite_json v then Some (enc a (jsort v)) else None)"

section \<open>The encoder determines exact metadata\<close>

fun plain :: "json \<Rightarrow> bool" where
  "plain (JNum _ _) = False"
| "plain JNonFinite = False"
| "plain (JList vs) = list_all plain vs"
| "plain (JObj ms) = list_all (\<lambda>(k, v). plain v) ms"
| "plain _ = True"

lemma plain_finite: "plain v \<Longrightarrow> finite_json v"
  by (induction v rule: plain.induct) (auto simp: list_all_iff)

fun undec :: "string \<Rightarrow> nat" where
  "undec s = foldl (\<lambda>n c. 10 * n + (of_char c - 48)) 0 s"

lemma digit_cases: "d < 10 \<Longrightarrow> ascii_digit (digit d) \<and> of_char (digit d) - 48 = d"
proof -
  assume "d < 10"
  then have "d \<in> {0,1,2,3,4,5,6,7,8,9}" by auto
  then show ?thesis by (auto simp: digit_def ascii_digit_def)
qed

lemma undec_dec_nat: "undec (dec_nat n) = n"
proof (induction n rule: dec_nat.induct)
  case (1 n)
  show ?case
  proof (cases "n < 10")
    case True
    then show ?thesis by (subst dec_nat.simps) (simp add: digit_cases)
  next
    case False
    with 1 have "undec (dec_nat (n div 10)) = n div 10" by simp
    with False show ?thesis by (subst dec_nat.simps) (simp add: digit_cases)
  qed
qed

lemma dec_nat_digits: "list_all ascii_digit (dec_nat n)"
proof (induction n rule: dec_nat.induct)
  case (1 n)
  then show ?case by (subst dec_nat.simps) (simp add: digit_cases)
qed

lemma dec_nat_nonempty: "dec_nat n \<noteq> []"
  by (subst dec_nat.simps) simp

lemma dec_nat_inject [simp]: "dec_nat m = dec_nat n \<longleftrightarrow> m = n"
  by (metis undec_dec_nat)

lemma dec_nat_Cons: "\<exists>c cs. dec_nat n = c # cs \<and> ascii_digit c"
  using dec_nat_digits [of n] dec_nat_nonempty [of n] by (cases "dec_nat n") auto

definition ends :: "string \<Rightarrow> bool" where
  "ends r \<longleftrightarrow> (case r of [] \<Rightarrow> True | c # _ \<Rightarrow> \<not> ascii_digit c)"

lemma ends_simps [simp]:
  "ends []" "ends (CHR '','' # r)" "ends (CHR '']'' # r)" "ends (CHR ''}'' # r)"
  by (simp_all add: ends_def ascii_digit_def)

lemma takeWhile_dec_nat: "ends r \<Longrightarrow> takeWhile ascii_digit (dec_nat n @ r) = dec_nat n"
  using dec_nat_digits [of n]
  by (auto simp: list_all_iff ends_def takeWhile_append split: list.splits)

lemma dec_nat_append_inject:
  assumes "dec_nat m @ r = dec_nat n @ s" "ends r" "ends s"
  shows "m = n \<and> r = s"
proof -
  from assms have "dec_nat m = dec_nat n"
    by (metis takeWhile_dec_nat)
  with assms(1) show ?thesis by simp
qed

lemma minus_not_digit [simp]: "\<not> ascii_digit (CHR ''-'')"
  by (simp add: ascii_digit_def)

lemma dec_nat_no_minus [simp]: "dec_nat n @ r \<noteq> CHR ''-'' # s"
  using dec_nat_Cons [of n] by auto

lemma dec_int_append_inject:
  assumes "dec_int i @ r = dec_int j @ s" "ends r" "ends s"
  shows "i = j \<and> r = s"
proof (cases "i < 0"; cases "j < 0")
  assume "\<not> i < 0" "j < 0"
  then show ?thesis using assms(1) by (simp add: dec_int_def)
next
  assume "i < 0" "\<not> j < 0"
  then show ?thesis using assms(1) dec_nat_no_minus [of "nat j" s "dec_nat (nat (- i)) @ r"]
    by (simp add: dec_int_def)
next
  assume "i < 0" "j < 0"
  then show ?thesis
    using assms dec_nat_append_inject [of "nat (- i)" r "nat (- j)" s] by (auto simp: dec_int_def)
next
  assume "\<not> i < 0" "\<not> j < 0"
  then show ?thesis
    using assms dec_nat_append_inject [of "nat i" r "nat j" s] by (auto simp: dec_int_def)
qed

lemma dec_int_head: "\<exists>c cs. dec_int i = c # cs \<and> (ascii_digit c \<or> c = CHR ''-'')"
  using dec_nat_Cons [of "nat i"] by (auto simp: dec_int_def)

lemma hexdigit_inject:
  assumes "d < 16" "e < 16"
  shows "digit d = digit e \<longleftrightarrow> d = e"
proof -
  have "distinct hex_alphabet" by simp
  with assms show ?thesis by (simp add: digit_def nth_eq_iff_index_eq del: distinct.simps)
qed

lemma short_escape_inject: "short_escape c = Some x \<Longrightarrow> short_escape d = Some x \<Longrightarrow> c = d"
  unfolding short_escape_def by (auto split: if_splits)

lemma short_escape_range: "short_escape c = Some x \<Longrightarrow> x \<noteq> CHR ''u''"
  unfolding short_escape_def by (auto split: if_splits)

lemma short_escape_None: "short_escape c = None \<Longrightarrow> c \<noteq> quote_chr \<and> c \<noteq> bslash"
  unfolding short_escape_def quote_chr_def bslash_def by (auto split: if_splits)

lemma of_char_hex_inject:
  fixes c d :: char
  assumes "digit (of_char c div 16) = digit (of_char d div 16)"
    and "digit (of_char c mod 16) = digit (of_char d mod 16)"
  shows "c = d"
proof -
  have b: "of_char c < (256::nat)" "of_char d < (256::nat)"
    by (simp_all add: nat_of_char_less_256)
  then have "of_char c div 16 < (16::nat)" "of_char d div 16 < (16::nat)"
    by (simp_all add: less_mult_imp_div_less)
  with assms have "of_char c div 16 = (of_char d div 16 :: nat)"
    and "of_char c mod 16 = (of_char d mod 16 :: nat)"
    by (simp_all add: hexdigit_inject)
  then have "of_char c = (of_char d :: nat)"
    by (metis div_mult_mod_eq)
  then show ?thesis by simp
qed

lemma esc_append_inject: "esc a c @ x = esc a d @ y \<longleftrightarrow> c = d \<and> x = y"
proof
  assume "esc a c @ x = esc a d @ y"
  then show "c = d \<and> x = y"
    by (auto simp: esc_def split: option.splits if_splits
        dest: short_escape_None short_escape_range short_escape_inject of_char_hex_inject)
qed simp

lemma esc_head: "esc a c @ x \<noteq> quote_chr # y"
  by (auto simp: esc_def quote_chr_def bslash_def short_escape_def split: option.splits if_splits)

lemma enc_str_append_inject: "enc_str a s @ x = enc_str a t @ y \<longleftrightarrow> s = t \<and> x = y"
proof -
  have "concat (map (esc a) s) @ quote_chr # x = concat (map (esc a) t) @ quote_chr # y
      \<Longrightarrow> s = t \<and> x = y" for x y
  proof (induction s arbitrary: t)
    case Nil
    then show ?case
      by (cases t) (auto simp: esc_head dest: esc_head [THEN notE, OF sym])
  next
    case (Cons c s)
    then show ?case
      by (cases t) (auto simp: esc_head esc_append_inject)
  qed
  then show ?thesis by (auto simp: enc_str_def)
qed

lemma enc_str_head: "enc_str a s = quote_chr # concat (map (esc a) s) @ [quote_chr]"
  by (simp add: enc_str_def)

text \<open>The first character of an encoding tells the kind of the value.\<close>

definition kind_of :: "char \<Rightarrow> nat" where
  "kind_of c = (if c = CHR ''n'' then 0 else if c = CHR ''t'' then 1 else if c = CHR ''f'' then 2
     else if c = quote_chr then 3 else if c = CHR ''['' then 4 else if c = CHR ''{'' then 5 else 6)"

fun kind :: "json \<Rightarrow> nat" where
  "kind JNull = 0"
| "kind (JBool b) = (if b then 1 else 2)"
| "kind (JStr _) = 3"
| "kind (JList _) = 4"
| "kind (JObj _) = 5"
| "kind _ = 6"

lemma kind_of_digit: "ascii_digit c \<or> c = CHR ''-'' \<Longrightarrow> kind_of c = 6"
  by (auto simp: kind_of_def ascii_digit_def quote_chr_def)

lemma enc_kind: "plain v \<Longrightarrow> \<exists>c cs. enc a v = c # cs \<and> kind_of c = kind v"
proof (cases v)
  case (JInt i)
  then show ?thesis
    using dec_int_head [of i] kind_of_digit by auto
qed (auto simp: kind_of_def enc_str_def quote_chr_def)

lemma enc_kind_eq:
  assumes "enc a v @ r = enc a w @ s" "plain v" "plain w"
  shows "kind v = kind w"
proof -
  obtain c cs where "enc a v = c # cs" "kind_of c = kind v" using assms(2) enc_kind by blast
  moreover obtain d ds where "enc a w = d # ds" "kind_of d = kind w" using assms(3) enc_kind by blast
  ultimately show ?thesis using assms(1) by simp
qed

lemma dec_int_not_bracket: "dec_int i @ r \<noteq> CHR '']'' # s"
  using dec_int_head [of i] by (auto simp: ascii_digit_def)

lemma enc_not_bracket: "plain v \<Longrightarrow> enc a v @ r \<noteq> CHR '']'' # s"
  by (cases v) (auto simp: dec_int_not_bracket enc_str_def quote_chr_def)

lemma enc_str_not_brace: "enc_str a k @ r \<noteq> CHR ''}'' # s"
  by (simp add: enc_str_def quote_chr_def)

text \<open>
  A printer \<open>f\<close> pins \<open>x\<close> when no other printable value can have printed the same text,
  whatever delimiter follows. Lists of pinned items, separated by commas, are pinned.
\<close>

definition pins :: "('a \<Rightarrow> bool) \<Rightarrow> ('a \<Rightarrow> string) \<Rightarrow> 'a \<Rightarrow> bool" where
  "pins Q f x \<longleftrightarrow> (\<forall>y r s. Q y \<longrightarrow> ends r \<longrightarrow> ends s \<longrightarrow> f x @ r = f y @ s \<longrightarrow> x = y \<and> r = s)"

lemma pinsD: "pins Q f x \<Longrightarrow> f x @ r = f y @ s \<Longrightarrow> Q y \<Longrightarrow> ends r \<Longrightarrow> ends s \<Longrightarrow> x = y \<and> r = s"
  unfolding pins_def by blast

definition tail_of :: "('a \<Rightarrow> string) \<Rightarrow> 'a list \<Rightarrow> string \<Rightarrow> string" where
  "tail_of f xs q = concat (map (\<lambda>x. CHR '','' # f x) xs) @ q"

lemma tail_of_simps [simp]:
  "tail_of f [] q = q" "tail_of f (x # xs) q = CHR '','' # f x @ tail_of f xs q"
  by (simp_all add: tail_of_def)

lemma ends_tail_of: "z = CHR '']'' \<or> z = CHR ''}'' \<Longrightarrow> ends (tail_of f us (z # q))"
  by (cases us) auto

lemma tail_inject:
  assumes "\<forall>x \<in> set xs. pins Q f x" "\<forall>y \<in> set ys. Q y" and z: "z = CHR '']'' \<or> z = CHR ''}''"
    and "tail_of f xs (z # r) = tail_of f ys (z # s)"
  shows "xs = ys \<and> r = s"
  using assms(1,2,4)
proof (induction xs arbitrary: ys)
  case Nil
  with z show ?case by (cases ys) auto
next
  case (Cons x xs)
  show ?case
  proof (cases ys)
    case Nil
    with Cons.prems z show ?thesis by auto
  next
    case (Cons y zs)
    have "x = y \<and> tail_of f xs (z # r) = tail_of f zs (z # s)"
      using Cons.prems by (intro pinsD [of Q f]) (auto simp: Cons ends_tail_of [OF z])
    with Cons.IH [of zs] Cons.prems show ?thesis by (simp add: Cons)
  qed
qed

lemma join_tail_of: "join '','' (map f (x # xs)) @ q = f x @ tail_of f xs q"
  by (simp add: tail_of_def comp_def)

lemma join_inject:
  assumes p: "\<forall>x \<in> set xs. pins Q f x" and q: "\<forall>y \<in> set ys. Q y"
    and z: "z = CHR '']'' \<or> z = CHR ''}''"
    and head: "\<forall>x r s. x \<in> set xs \<union> set ys \<longrightarrow> f x @ r \<noteq> z # s"
    and eq: "join '','' (map f xs) @ z # r = join '','' (map f ys) @ z # s"
  shows "xs = ys \<and> r = s"
proof (cases xs; cases ys)
  fix x us y vs
  assume [simp]: "xs = x # us" "ys = y # vs"
  have eq': "f x @ tail_of f us (z # r) = f y @ tail_of f vs (z # s)"
    using eq by (simp only: join_tail_of \<open>xs = _\<close> \<open>ys = _\<close>)
  have "x = y \<and> tail_of f us (z # r) = tail_of f vs (z # s)"
    using p q eq' by (intro pinsD [of Q f]) (auto simp: ends_tail_of [OF z])
  moreover from this have "us = vs \<and> r = s"
    using tail_inject [of us Q f vs z r s] p q z by simp
  ultimately show ?thesis by simp
next
  fix y vs
  assume "xs = []" "ys = y # vs"
  with eq head show ?thesis by (metis join.simps(1) join_tail_of list.set_intros(1) map_is_Nil_conv append_Nil UnI2)
next
  fix x us
  assume "xs = x # us" "ys = []"
  with eq head show ?thesis by (metis join.simps(1) join_tail_of list.set_intros(1) map_is_Nil_conv append_Nil UnI1)
next
  assume "xs = []" "ys = []"
  with eq show ?thesis by simp
qed

lemma enc_append_inject:
  assumes "plain v" "plain w" "ends r" "ends s" "enc a v @ r = enc a w @ s"
  shows "v = w \<and> r = s"
  using assms
proof (induction v arbitrary: w r s)
  case (JInt i)
  then have "kind w = 6" using enc_kind_eq [of a "JInt i" r w s] by simp
  with JInt show ?case
    by (cases w) (auto split: if_splits dest: dec_int_append_inject)
next
  case (JStr t)
  then have "kind w = 3" using enc_kind_eq [of a "JStr t" r w s] by simp
  with JStr show ?case by (cases w) (auto simp: enc_str_append_inject split: if_splits)
next
  case (JList vs)
  then have "kind w = 4" using enc_kind_eq [of a "JList vs" r w s] by simp
  then obtain ws where w: "w = JList ws" by (cases w) (auto split: if_splits)
  have "\<forall>x \<in> set vs. pins plain (enc a) x"
    using JList.IH JList.prems(1) by (auto simp: pins_def list_all_iff)
  moreover have "\<forall>y \<in> set ws. plain y" and "\<forall>x \<in> set vs. plain x"
    using JList.prems(1,2) w by (auto simp: list_all_iff)
  ultimately have "vs = ws \<and> r = s"
    using JList.prems(5) w enc_not_bracket
    by (intro join_inject [where f = "enc a" and z = "CHR '']''" and Q = plain]) auto
  with w show ?case by simp
next
  case (JObj ms)
  let ?f = "\<lambda>(k, v). enc_str a k @ '':'' @ enc a v"
  from JObj have "kind w = 5" using enc_kind_eq [of a "JObj ms" r w s] by simp
  then obtain ns where w: "w = JObj ns" by (cases w) (auto split: if_splits)
  have "pins (\<lambda>(k, v). plain v) ?f x" if "x \<in> set ms" for x
    unfolding pins_def
  proof (intro allI impI)
    fix y r' s'
    assume *: "case y of (k, v) \<Rightarrow> plain v" "ends r'" "ends s'" "?f x @ r' = ?f y @ s'"
    obtain k u where x: "x = (k, u)" by (cases x)
    obtain l t where y: "y = (l, t)" by (cases y)
    from * x y have "k = l" "enc a u @ r' = enc a t @ s'"
      by (auto simp: enc_str_append_inject)
    moreover have "plain u" using JObj.prems(1) that x by (auto simp: list_all_iff)
    ultimately show "x = y \<and> r' = s'"
      using JObj.IH [OF that, of u t r' s'] * x y by simp
  qed
  moreover have "\<forall>y \<in> set ns. case y of (k, v) \<Rightarrow> plain v"
    using JObj.prems(2) w by (auto simp: list_all_iff)
  ultimately have "ms = ns \<and> r = s"
    using JObj.prems(5) w enc_str_not_brace
    by (intro join_inject [where f = "?f" and z = "CHR ''}''"]) (auto split: prod.splits)
  with w show ?case by simp
next
  case JNull
  then have "kind w = 0" using enc_kind_eq [of a JNull r w s] by simp
  with JNull show ?case by (cases w) (auto split: if_splits)
next
  case (JBool b)
  then have "kind w = kind (JBool b)" using enc_kind_eq [of a "JBool b" r w s] by simp
  with JBool show ?case by (cases w) (auto split: if_splits)
qed simp_all

lemma enc_inject: "plain v \<Longrightarrow> plain w \<Longrightarrow> enc a v = enc a w \<longleftrightarrow> v = w"
  using enc_append_inject [of v w "[]" "[]" a] by auto

lemma plain_jsort [simp]: "plain (jsort v) = plain v"
  by (induction v rule: jsort.induct) (auto simp: list_all_iff)

lemma finite_jsort [simp]: "finite_json (jsort v) = finite_json v"
  by (induction v rule: jsort.induct) (auto simp: list_all_iff)

lemma sort_key_map_fst:
  assumes "\<And>x. fst (g x) = fst x"
  shows "sort_key fst (map g xs) = map g (sort_key fst xs)"
proof -
  have "insort_key fst (g x) (map g ys) = map g (insort_key fst x ys)" for x ys
    by (induction ys) (simp_all add: assms)
  then show ?thesis by (induction xs) simp_all
qed

lemma jsort_idem: "jsort (jsort v) = jsort v"
proof (induction v rule: jsort.induct)
  case (2 ms)
  let ?f = "\<lambda>(k, v). (k, jsort v)"
  have f: "fst (?f x) = fst x" for x by (simp add: case_prod_unfold)
  have "map ?f (sort_key fst (map ?f ms)) = sort_key fst (map ?f (map ?f ms))"
    by (rule sort_key_map_fst [OF f, symmetric])
  also have "map ?f (map ?f ms) = map (?f \<circ> ?f) ms" by simp
  also have "map (?f \<circ> ?f) ms = map ?f ms" using 2 by (auto simp: case_prod_unfold)
  finally show ?case by (simp add: sort_key_id_if_sorted)
qed simp_all

lemma py_eq_jsort [simp]: "py_eq (jsort v) v" "py_eq v (jsort v)"
  by (simp_all add: py_eq_def jsort_idem)

theorem dumps_determines:
  "plain v \<Longrightarrow> plain w \<Longrightarrow> dumps a v = dumps a w \<longleftrightarrow> jsort v = jsort w"
  by (simp add: dumps_def plain_finite enc_inject)

lemma dumps_determines_py_eq: "plain v \<Longrightarrow> plain w \<Longrightarrow> dumps a v = dumps a w \<Longrightarrow> py_eq v w"
  by (simp add: dumps_determines py_eq_def)

end
