(* ===== verification/JsonParse.thy ===== *)
theory JsonParse
  imports PyJson
begin

text \<open>
  \<open>json.loads\<close>: a recursive-descent parser with fuel, a proof that twice the length of the text is
  fuel enough for every text, and the round trip with the encoder of \<open>PyJson\<close>. Which double a
  literal with a fraction or an exponent denotes is the argument \<open>flt\<close>. Python's limits on nesting
  and on the digits of an integer are not modelled.
\<close>

section \<open>Strings\<close>

definition hex_value :: "char \<Rightarrow> nat option" where
  "hex_value c =
     (if ascii_digit c then Some (of_char c - 48)
      else if c \<in> set ''abcdef'' then Some (of_char c - 87)
      else if c \<in> set ''ABCDEF'' then Some (of_char c - 55) else None)"

definition plain_escapes :: "(char \<times> char) list" where
  "plain_escapes = [(CHR 0x22, CHR 0x22), (CHR 0x5C, CHR 0x5C), (CHR ''/'', CHR ''/''),
     (CHR ''b'', CHR 0x08), (CHR ''f'', CHR 0x0C), (CHR ''n'', CHR 0x0A),
     (CHR ''r'', CHR 0x0D), (CHR ''t'', CHR 0x09)]"

text \<open>An escape that names a code point above 255 leaves the modelled range: \<open>None\<close>.\<close>

definition u_escape :: "char \<Rightarrow> char \<Rightarrow> char \<Rightarrow> char \<Rightarrow> char option" where
  "u_escape a b c d = (case (hex_value a, hex_value b, hex_value c, hex_value d) of
       (Some x, Some y, Some h, Some l) \<Rightarrow>
          if x = 0 \<and> y = 0 then Some (char_of (16 * h + l)) else None
     | _ \<Rightarrow> None)"

definition push :: "char \<Rightarrow> (string \<times> string) option \<Rightarrow> (string \<times> string) option" where
  "push c = map_option (\<lambda>(s, rest). (c # s, rest))"

text \<open>The text after an opening quote: the decoded string and what follows the closing quote.\<close>

fun p_str :: "string \<Rightarrow> (string \<times> string) option" where
  "p_str [] = None"
| "p_str (c # cs) =
     (if c = quote_chr then Some ([], cs)
      else if c = bslash then
        (case cs of
           [] \<Rightarrow> None
         | x # rest \<Rightarrow>
             if x = CHR ''u'' then
               (case rest of
                  a # b # g # h # rest' \<Rightarrow>
                    (case u_escape a b g h of None \<Rightarrow> None | Some d \<Rightarrow> push d (p_str rest'))
                | _ \<Rightarrow> None)
             else (case map_of plain_escapes x of None \<Rightarrow> None | Some d \<Rightarrow> push d (p_str rest)))
      else if (of_char c :: nat) < 32 then None
      else push c (p_str cs))"

lemma p_str_shorter: "p_str s = Some (v, r) \<Longrightarrow> length r < length s"
proof (induction s arbitrary: v rule: p_str.induct)
  case (2 c cs)
  show ?case
  proof (cases "c = quote_chr \<or> c = bslash")
    case False
    with 2 show ?thesis by (fastforce simp: push_def split: if_splits)
  next
    case True
    with 2 show ?thesis
      by (auto simp: push_def bslash_def quote_chr_def split: if_splits list.splits option.splits)
         (fastforce dest: less_trans [OF _ lessI])+
  qed
qed simp

section \<open>Numbers\<close>

definition p_digits :: "string \<Rightarrow> string \<times> string" where
  "p_digits s = (takeWhile ascii_digit s, dropWhile ascii_digit s)"

definition p_frac :: "string \<Rightarrow> string \<times> string" where
  "p_frac s = (case s of
       c # rest \<Rightarrow> if c = CHR ''.'' \<and> fst (p_digits rest) \<noteq> []
                  then (c # fst (p_digits rest), snd (p_digits rest)) else ([], s)
     | [] \<Rightarrow> ([], s))"

definition p_exp :: "string \<Rightarrow> string \<times> string" where
  "p_exp s = (case s of
       c # rest \<Rightarrow> if c = CHR ''e'' \<or> c = CHR ''E'' then
           (let sign = (case rest of x # _ \<Rightarrow> if x = CHR ''+'' \<or> x = CHR ''-'' then [x] else [] | [] \<Rightarrow> []);
                ds = p_digits (drop (length sign) rest)
            in if fst ds = [] then ([], s) else (c # sign @ fst ds, snd ds))
         else ([], s)
     | [] \<Rightarrow> ([], s))"

definition p_int :: "string \<Rightarrow> (string \<times> string) option" where
  "p_int s = (case s of
       [] \<Rightarrow> None
     | c # cs \<Rightarrow> if c = CHR ''0'' then Some ([c], cs)
                else if ascii_digit c then Some (p_digits s) else None)"

definition p_sign :: "string \<Rightarrow> string \<times> string" where
  "p_sign s = (case s of c # cs \<Rightarrow> if c = CHR ''-'' then ([c], cs) else ([], s) | [] \<Rightarrow> ([], s))"

lemma p_sign_simps [simp]:
  "p_sign [] = ([], [])" "p_sign (c # cs) = (if c = CHR ''-'' then ([c], cs) else ([], c # cs))"
  by (simp_all add: p_sign_def)

definition p_num :: "(string \<Rightarrow> json) \<Rightarrow> string \<Rightarrow> (json \<times> string) option" where
  "p_num flt s =
     (let (sign, s1) = p_sign s in
      case p_int s1 of None \<Rightarrow> None
      | Some (ds, s2) \<Rightarrow>
         (let (fr, s3) = p_frac s2; (ex, s4) = p_exp s3 in
          if fr = [] \<and> ex = []
          then Some (JInt (if sign = [] then int (undec ds) else - int (undec ds)), s2)
          else Some (flt (sign @ ds @ fr @ ex), s4)))"

lemma dropWhile_le: "length (dropWhile P s) \<le> length s"
  by (induction s) auto

lemma p_frac_le: "length (snd (p_frac s)) \<le> length s"
  using dropWhile_le [of ascii_digit "tl s"]
  by (cases s) (auto simp: p_frac_def p_digits_def)

lemma p_exp_le: "length (snd (p_exp s)) \<le> length s"
proof (cases s)
  case (Cons c rest)
  have "length (dropWhile ascii_digit (drop n rest)) \<le> length rest" for n
    using dropWhile_le [of ascii_digit "drop n rest"] by simp
  then show ?thesis by (auto simp: p_exp_def Cons p_digits_def Let_def le_SucI)
qed (simp add: p_exp_def)

lemma p_int_shorter: "p_int s = Some (ds, r) \<Longrightarrow> length r < length s"
  using dropWhile_le [of ascii_digit "tl s"]
  by (cases s) (auto simp: p_int_def p_digits_def less_Suc_eq_le split: if_splits)

lemma p_num_shorter:
  assumes "p_num flt s = Some (v, r)"
  shows "length r < length s"
proof -
  obtain sign s1 where s1: "p_sign s = (sign, s1)"
    by (rule prod.exhaust)
  then have "length s1 \<le> length s" by (cases s) (auto split: if_splits)
  moreover obtain ds s2 where i: "p_int s1 = Some (ds, s2)"
    using assms s1 by (cases "p_int s1") (auto simp: p_num_def)
  moreover have "length r \<le> length s2"
    using assms s1 i p_frac_le [of s2] p_exp_le [of "snd (p_frac s2)"]
    by (auto simp: p_num_def Let_def split: prod.splits if_splits)
  ultimately show ?thesis using p_int_shorter [OF i] by simp
qed

section \<open>Values\<close>

definition ws_char :: "char \<Rightarrow> bool" where
  "ws_char c \<longleftrightarrow> c = CHR '' '' \<or> c = CHR 0x09 \<or> c = CHR 0x0A \<or> c = CHR 0x0D"

abbreviation ws :: "string \<Rightarrow> string" where "ws \<equiv> dropWhile ws_char"

definition constants :: "(string \<times> json) list" where
  "constants = [(''null'', JNull), (''true'', JBool True), (''false'', JBool False), (''NaN'', JNonFinite),
     (''Infinity'', JNonFinite), (''-Infinity'', JNonFinite)]"

definition p_const :: "string \<Rightarrow> (json \<times> string) option" where
  "p_const s = (case filter (\<lambda>(w, v). take (length w) s = w) constants of
       (w, v) # _ \<Rightarrow> Some (v, drop (length w) s)
     | [] \<Rightarrow> None)"

lemma p_const_shorter: "p_const s = Some (v, r) \<Longrightarrow> length r < length s"
  by (cases s) (auto simp: p_const_def constants_def split: if_splits)

text \<open>
  An element list is read after its opening bracket or a comma; members likewise, a later member
  replacing the value of an earlier one of the same name, as Python's dict does.
\<close>

fun p_val :: "(string \<Rightarrow> json) \<Rightarrow> nat \<Rightarrow> string \<Rightarrow> (json \<times> string) option"
  and p_elems :: "(string \<Rightarrow> json) \<Rightarrow> nat \<Rightarrow> json list \<Rightarrow> string \<Rightarrow> (json \<times> string) option"
  and p_members :: "(string \<Rightarrow> json) \<Rightarrow> nat \<Rightarrow> (string \<times> json) list \<Rightarrow> string \<Rightarrow> (json \<times> string) option"
where
  "p_val flt 0 s = None"
| "p_val flt (Suc n) s = (case ws s of
       [] \<Rightarrow> None
     | c # cs \<Rightarrow>
         if c = quote_chr then map_option (\<lambda>(v, r). (JStr v, r)) (p_str cs)
         else if c = CHR ''['' then
           (case ws cs of [] \<Rightarrow> None
            | d # ds \<Rightarrow> if d = CHR '']'' then Some (JList [], ds) else p_elems flt n [] cs)
         else if c = CHR ''{'' then
           (case ws cs of [] \<Rightarrow> None
            | d # ds \<Rightarrow> if d = CHR ''}'' then Some (JObj [], ds) else p_members flt n [] cs)
         else (case p_const (c # cs) of Some x \<Rightarrow> Some x | None \<Rightarrow> p_num flt (c # cs)))"
| "p_elems flt 0 acc s = None"
| "p_elems flt (Suc n) acc s = (case p_val flt n s of
       None \<Rightarrow> None
     | Some (v, r) \<Rightarrow> (case ws r of [] \<Rightarrow> None
         | d # ds \<Rightarrow> if d = CHR '','' then p_elems flt n (acc @ [v]) ds
                    else if d = CHR '']'' then Some (JList (acc @ [v]), ds) else None))"
| "p_members flt 0 acc s = None"
| "p_members flt (Suc n) acc s = (case ws s of
       [] \<Rightarrow> None
     | q # s1 \<Rightarrow> if q \<noteq> quote_chr then None else
        (case p_str s1 of None \<Rightarrow> None
         | Some (k, s2) \<Rightarrow> (case ws s2 of [] \<Rightarrow> None
             | col # s3 \<Rightarrow> if col \<noteq> CHR '':'' then None else
                (case p_val flt n s3 of None \<Rightarrow> None
                 | Some (v, r) \<Rightarrow> (case ws r of [] \<Rightarrow> None
                     | d # ds \<Rightarrow> if d = CHR '','' then p_members flt n (alist_set k v acc) ds
                        else if d = CHR ''}'' then Some (JObj (alist_set k v acc), ds) else None)))))"

definition json_loads :: "(string \<Rightarrow> json) \<Rightarrow> string \<Rightarrow> json option" where
  "json_loads flt s = (case p_val flt (2 * length s + 1) s of
       Some (v, r) \<Rightarrow> if ws r = [] then Some v else None
     | None \<Rightarrow> None)"

section \<open>The fuel is enough\<close>

lemma ws_length: "ws s = c # cs \<Longrightarrow> length cs < length s"
  using dropWhile_le [of ws_char s] by simp

lemma p_val_shorter:
  assumes "\<And>acc s v r. p_elems flt n acc s = Some (v, r) \<Longrightarrow> length r < length s"
    and "\<And>acc s v r. p_members flt n acc s = Some (v, r) \<Longrightarrow> length r < length s"
    and p: "p_val flt (Suc n) s = Some (v, r)"
  shows "length r < length s"
proof (cases "ws s")
  case (Cons c cs)
  note cs = ws_length [OF Cons]
  have "length r < length (c # cs)"
  proof (cases "c = quote_chr \<or> c = CHR ''['' \<or> c = CHR ''{''")
    case False
    with p Cons show ?thesis
      by (auto split: option.splits dest: p_const_shorter p_num_shorter)
  next
    case True
    with p Cons show ?thesis
      by (auto simp: less_Suc_eq quote_chr_def split: if_splits list.splits
          dest!: ws_length p_str_shorter assms(1,2))
  qed
  then show ?thesis using dropWhile_le [of ws_char s] Cons by simp
qed (use p in \<open>simp del: dropWhile_eq_Nil_conv\<close>)

lemma p_elems_shorter:
  assumes "\<And>s v r. p_val flt n s = Some (v, r) \<Longrightarrow> length r < length s"
    and "\<And>acc s v r. p_elems flt n acc s = Some (v, r) \<Longrightarrow> length r < length s"
    and p: "p_elems flt (Suc n) acc s = Some (v, r)"
  shows "length r < length s"
proof -
  obtain u q where "p_val flt n s = Some (u, q)" using p by (auto split: option.splits)
  with p show ?thesis
    by (auto split: list.splits if_splits dest!: ws_length assms(1,2))
qed

lemma p_members_shorter:
  assumes "\<And>s v r. p_val flt n s = Some (v, r) \<Longrightarrow> length r < length s"
    and "\<And>acc s v r. p_members flt n acc s = Some (v, r) \<Longrightarrow> length r < length s"
    and p: "p_members flt (Suc n) acc s = Some (v, r)"
  shows "length r < length s"
  using p by (auto split: list.splits if_splits option.splits dest!: ws_length assms(1,2) p_str_shorter)

lemma p_shorter:
  "(\<forall>s v r. p_val flt n s = Some (v, r) \<longrightarrow> length r < length s)
   \<and> (\<forall>acc s v r. p_elems flt n acc s = Some (v, r) \<longrightarrow> length r < length s)
   \<and> (\<forall>acc s v r. p_members flt n acc s = Some (v, r) \<longrightarrow> length r < length s)"
proof (induction n)
  case (Suc n)
  then show ?case
    using p_val_shorter [of flt n] p_elems_shorter [of flt n] p_members_shorter [of flt n] by meson
qed simp

text \<open>Any two amounts of fuel above twice the length give the same result.\<close>

lemma p_fuel:
  "(\<forall>s m. 2 * length s < n \<longrightarrow> 2 * length s < m \<longrightarrow> p_val flt n s = p_val flt m s)
   \<and> (\<forall>acc s m. 2 * length s + 1 < n \<longrightarrow> 2 * length s + 1 < m \<longrightarrow> p_elems flt n acc s = p_elems flt m acc s)
   \<and> (\<forall>acc s m. 2 * length s + 1 < n \<longrightarrow> 2 * length s + 1 < m \<longrightarrow> p_members flt n acc s = p_members flt m acc s)"
proof (induction n)
  case (Suc n)
  note IHv = Suc [THEN conjunct1, rule_format]
    and IHe = Suc [THEN conjunct2, THEN conjunct1, rule_format]
    and IHm = Suc [THEN conjunct2, THEN conjunct2, rule_format]
  show ?case
  proof (intro conjI allI impI)
    fix s :: string and m
    assume n: "2 * length s < Suc n" and m: "2 * length s < m"
    then obtain m' where m': "m = Suc m'" by (cases m) auto
    show "p_val flt (Suc n) s = p_val flt m s"
    proof (cases "ws s")
      case (Cons c cs)
      have eqs: "p_elems flt n [] cs = p_elems flt m' [] cs" "p_members flt n [] cs = p_members flt m' [] cs"
        using ws_length [OF Cons] n m m' by (auto intro!: IHe IHm)
      show ?thesis unfolding m' p_val.simps Cons list.case(2) eqs ..
    qed (simp add: m' del: dropWhile_eq_Nil_conv)
  next
    fix acc and s :: string and m
    assume n: "2 * length s + 1 < Suc n" and m: "2 * length s + 1 < m"
    then obtain m' where m': "m = Suc m'" by (cases m) auto
    have v: "p_val flt n s = p_val flt m' s" using n m m' by (auto intro!: IHv)
    have e: "p_elems flt n acc' ds = p_elems flt m' acc' ds"
      if "p_val flt m' s = Some (v, r)" "ws r = d # ds" for acc' v r d ds
    proof -
      have "length r < length s" using p_shorter that(1) by blast
      with ws_length [OF that(2)] show ?thesis using n m m' by (intro IHe) auto
    qed
    show "p_elems flt (Suc n) acc s = p_elems flt m acc s"
      by (auto simp: m' v e simp del: dropWhile_eq_Nil_conv dropWhile_eq_Cons_conv
          split: option.split list.split)
  next
    fix acc and s :: string and m
    assume n: "2 * length s + 1 < Suc n" and m: "2 * length s + 1 < m"
    then obtain m' where m': "m = Suc m'" by (cases m) auto
    have v: "p_val flt n s3 = p_val flt m' s3"
      if "ws s = q # s1" "p_str s1 = Some (k, s2)" "ws s2 = col # s3" for q s1 k s2 col s3
      using ws_length [OF that(1)] p_str_shorter [OF that(2)] ws_length [OF that(3)] n m m'
      by (intro IHv) auto
    have e: "p_members flt n acc' ds = p_members flt m' acc' ds"
      if "ws s = q # s1" "p_str s1 = Some (k, s2)" "ws s2 = col # s3"
        "p_val flt m' s3 = Some (v, r)" "ws r = d # ds" for q s1 k s2 col s3 acc' v r d ds
    proof -
      have "length r < length s3" using p_shorter that(4) by blast
      with ws_length [OF that(1)] p_str_shorter [OF that(2)] ws_length [OF that(3)] ws_length [OF that(5)]
      show ?thesis using n m m' by (intro IHm) auto
    qed
    show "p_members flt (Suc n) acc s = p_members flt m acc s"
      by (auto simp: m' v e simp del: dropWhile_eq_Nil_conv dropWhile_eq_Cons_conv
          split: option.split list.split)
  qed
qed simp

text \<open>
  The parser always has the fuel it needs: any amount above twice the length of the text gives the
  same answer.
\<close>

theorem json_loads_fuel_enough:
  "json_loads flt s = (case p_val flt (2 * length s + 1 + extra) s of
       Some (v, r) \<Rightarrow> if ws r = [] then Some v else None | None \<Rightarrow> None)"
proof -
  have "p_val flt (2 * length s + 1) s = p_val flt (2 * length s + 1 + extra) s"
    by (rule p_fuel [THEN conjunct1, rule_format]) simp_all
  then show ?thesis by (simp only: json_loads_def)
qed

section \<open>Round trip\<close>

lemma p_str_Cons_escape:
  "p_str (bslash # x # rest) = (if x = CHR ''u'' then
       (case rest of a # b # g # h # rest' \<Rightarrow>
            (case u_escape a b g h of None \<Rightarrow> None | Some d \<Rightarrow> push d (p_str rest'))
        | _ \<Rightarrow> None)
     else (case map_of plain_escapes x of None \<Rightarrow> None | Some d \<Rightarrow> push d (p_str rest)))"
  by (simp add: bslash_def quote_chr_def)

lemma short_escape_parses: "short_escape c = Some x \<Longrightarrow> x \<noteq> CHR ''u'' \<and> map_of plain_escapes x = Some c"
  by (auto simp: short_escape_def plain_escapes_def split: if_splits)

lemma hex_value_digit:
  assumes "d < 16"
  shows "hex_value (digit d) = Some d"
proof -
  have "\<forall>d \<in> set [0..<16]. hex_value (digit d) = Some d" by code_simp
  with assms show ?thesis by simp
qed

lemma u_escape_parses:
  "u_escape (CHR ''0'') (CHR ''0'') (digit (of_char c div 16)) (digit (of_char c mod 16)) = Some c"
proof -
  have "of_char c < (256::nat)" by (rule nat_of_char_less_256)
  then have "(of_char c :: nat) div 16 < 16" by linarith
  moreover have "hex_value (CHR ''0'') = Some 0" by (simp add: hex_value_def ascii_digit_def)
  ultimately show ?thesis by (simp add: u_escape_def hex_value_digit)
qed

lemma p_str_esc: "p_str (esc a c @ s) = push c (p_str s)"
proof (cases "short_escape c")
  case (Some x)
  then show ?thesis
    using short_escape_parses [OF Some] by (simp add: esc_def p_str_Cons_escape del: p_str.simps)
next
  case None
  from short_escape_None [OF None] None show ?thesis
    by (auto simp: esc_def p_str_Cons_escape u_escape_parses needs_u_def simp del: p_str.simps(2))
       (simp_all)
qed

lemma p_str_enc: "p_str (concat (map (esc a) s) @ quote_chr # r) = Some (s, r)"
  by (induction s) (simp_all add: p_str_esc push_def)

lemma dec_nat_no_leading_zero: "10 \<le> n \<Longrightarrow> hd (dec_nat n) \<noteq> CHR ''0''"
proof (induction n rule: dec_nat.induct)
  case (1 n)
  show ?case
  proof (cases "n div 10 < 10")
    case True
    have small: "d \<in> {1,2,3,4,5,6,7,8,9}" if "0 < d" "d < 10" for d :: nat
      using that by auto
    have "0 < n div 10" using "1.prems" by (simp add: div_greater_zero_iff)
    from small [OF this True] have "digit (n div 10) \<noteq> CHR ''0''" by (auto simp: digit_def)
    moreover have "dec_nat (n div 10) = [digit (n div 10)]"
      using True by (subst dec_nat.simps) simp
    ultimately show ?thesis using 1 by (subst dec_nat.simps) simp
  next
    case False
    with 1 have "hd (dec_nat (n div 10)) \<noteq> CHR ''0''" by simp
    with 1 show ?thesis
      using dec_nat_nonempty [of "n div 10"] by (subst dec_nat.simps) simp
  qed
qed

lemma p_int_dec_nat:
  assumes "ends r"
  shows "p_int (dec_nat n @ r) = Some (dec_nat n, r)"
proof -
  have dw: "dropWhile ascii_digit (dec_nat n @ r) = r"
    using takeWhile_dec_nat [OF assms, of n] takeWhile_dropWhile_id [of ascii_digit "dec_nat n @ r"]
    by simp
  obtain c cs where c: "dec_nat n = c # cs" "ascii_digit c" using dec_nat_Cons [of n] by blast
  show ?thesis
  proof (cases "c = CHR ''0''")
    case True
    have "cs = []"
    proof (cases "n < 10")
      case False
      then show ?thesis using dec_nat_no_leading_zero [of n] c True by simp
    qed (use c in \<open>simp add: dec_nat.simps\<close>)
    with True c show ?thesis by (simp add: p_int_def)
  next
    case False
    with c dw takeWhile_dec_nat [OF assms, of n] show ?thesis
      by (simp add: p_int_def p_digits_def)
  qed
qed

text \<open>What may follow an encoded value: nothing, a comma or a closing bracket.\<close>

definition follows :: "string \<Rightarrow> bool" where
  "follows r \<longleftrightarrow> r = [] \<or> hd r \<in> set '',]}''"

lemma follows_simps [simp]:
  "follows []" "follows (CHR '','' # r)" "follows (CHR '']'' # r)" "follows (CHR ''}'' # r)"
  by (simp_all add: follows_def)

lemma followsD: "follows r \<Longrightarrow> ends r \<and> p_frac r = ([], r) \<and> p_exp r = ([], r)"
  by (cases r) (auto simp: follows_def ends_def ascii_digit_def p_frac_def p_exp_def)

lemma p_num_dec_int:
  assumes "follows r"
  shows "p_num flt (dec_int i @ r) = Some (JInt i, r)"
proof -
  note r = followsD [OF assms, THEN conjunct1] followsD [OF assms, THEN conjunct2]
  have sign: "p_sign (dec_nat n @ r) = ([], dec_nat n @ r)" for n
    using dec_nat_Cons [of n] by (auto simp: ascii_digit_def)
  show ?thesis
  proof (cases "i < 0")
    case True
    then have "p_sign (dec_int i @ r) = (''-'', dec_nat (nat (- i)) @ r)" by (simp add: dec_int_def)
    then show ?thesis using r True by (simp add: p_num_def p_int_dec_nat undec_dec_nat del: undec.simps)
  next
    case False
    then have "p_sign (dec_int i @ r) = ([], dec_nat (nat i) @ r)" by (simp add: dec_int_def sign)
    then show ?thesis using r False by (simp add: p_num_def p_int_dec_nat undec_dec_nat del: undec.simps)
  qed
qed

text \<open>
  A literal with a fraction or an exponent, and the values whose encoding can be read back: those whose
  floats print as such a literal that denotes them.
\<close>

definition float_text :: "string \<Rightarrow> bool" where
  "float_text s \<longleftrightarrow> (case p_int (snd (p_sign s)) of
       None \<Rightarrow> False
     | Some (ds, s2) \<Rightarrow> snd (p_exp (snd (p_frac s2))) = []
         \<and> (fst (p_frac s2) \<noteq> [] \<or> fst (p_exp (snd (p_frac s2))) \<noteq> []))"

lemma p_digits_append:
  assumes "ends r"
  shows "p_digits (s @ r) = (fst (p_digits s), snd (p_digits s) @ r)"
proof (cases "snd (p_digits s) = []")
  case True
  then have all: "\<forall>c \<in> set s. ascii_digit c" by (simp add: p_digits_def)
  then have "takeWhile ascii_digit (s @ r) = s @ takeWhile ascii_digit r"
    "dropWhile ascii_digit (s @ r) = dropWhile ascii_digit r" by simp_all
  moreover have "takeWhile ascii_digit r = [] \<and> dropWhile ascii_digit r = r"
    using assms by (cases r) (auto simp: ends_def)
  ultimately show ?thesis
    using all by (auto simp: p_digits_def intro: takeWhile_eq_all_conv [THEN iffD2, symmetric])
next
  case False
  then obtain c where "c \<in> set s" "\<not> ascii_digit c" by (auto simp: p_digits_def)
  then show ?thesis by (simp add: p_digits_def)
qed

lemma p_digits_split: "fst (p_digits s) @ snd (p_digits s) = s"
  by (simp add: p_digits_def)

lemma p_exp_append:
  assumes "snd (p_exp s) = []" "follows r"
  shows "p_exp (s @ r) = (fst (p_exp s), r) \<and> fst (p_exp s) = s"
proof (cases s)
  case Nil
  then show ?thesis using followsD [OF assms(2)] by (simp add: p_exp_def)
next
  case (Cons c rest)
  let ?sign = "case rest of x # _ \<Rightarrow> if x = CHR ''+'' \<or> x = CHR ''-'' then [x] else [] | [] \<Rightarrow> []"
  let ?ds = "p_digits (drop (length ?sign) rest)"
  have c: "c = CHR ''e'' \<or> c = CHR ''E''" and d: "fst ?ds \<noteq> []" "snd ?ds = []"
    using assms(1) by (auto simp: Cons p_exp_def Let_def split: if_splits)
  then have "rest \<noteq> []" by (auto simp: p_digits_def)
  then have sg: "(case rest @ r of x # _ \<Rightarrow> if x = CHR ''+'' \<or> x = CHR ''-'' then [x] else [] | [] \<Rightarrow> []) = ?sign"
    by (cases rest) auto
  have dr: "drop (length ?sign) (rest @ r) = drop (length ?sign) rest @ r"
    using \<open>rest \<noteq> []\<close> by (cases rest) auto
  have "p_digits (drop (length ?sign) (rest @ r)) = (fst ?ds, r)"
    unfolding dr using p_digits_append [of r "drop (length ?sign) rest"] followsD [OF assms(2)] d by simp
  moreover have "?sign @ fst ?ds = rest"
    using p_digits_split [of "drop (length ?sign) rest"] d(2) by (cases rest) auto
  ultimately show ?thesis using c d sg by (auto simp: Cons p_exp_def Let_def)
qed

lemma p_frac_append:
  assumes "snd (p_exp (snd (p_frac s))) = []" "fst (p_frac s) \<noteq> [] \<or> fst (p_exp (snd (p_frac s))) \<noteq> []"
    and "follows r"
  shows "p_frac (s @ r) = (fst (p_frac s), snd (p_frac s) @ r) \<and> fst (p_frac s) @ snd (p_frac s) = s"
proof (cases s)
  case Nil
  then show ?thesis using assms(2) by (simp add: p_frac_def p_exp_def)
next
  case (Cons c rest)
  show ?thesis
  proof (cases "c = CHR ''.''")
    case True
    show ?thesis
    proof (cases "fst (p_digits rest) = []")
      case True
      then have "p_frac s = ([], s)" by (simp add: p_frac_def Cons)
      then have "snd (p_exp s) = []" "fst (p_exp s) \<noteq> []" using assms by simp_all
      with \<open>c = CHR ''.''\<close> show ?thesis by (simp add: Cons p_exp_def)
    next
      case False
      then show ?thesis
        using True p_digits_append [of r rest] followsD [OF assms(3)] p_digits_split [of rest]
        by (simp add: Cons p_frac_def)
    qed
  next
    case False
    then show ?thesis by (simp add: Cons p_frac_def)
  qed
qed

lemma p_int_append:
  assumes "p_int s = Some (ds, s2)" "s2 \<noteq> []"
  shows "p_int (s @ r) = Some (ds, s2 @ r) \<and> ds @ s2 = s"
proof -
  obtain c cs where s: "s = c # cs" using assms(1) by (cases s) (auto simp: p_int_def)
  show ?thesis
  proof (cases "c = CHR ''0''")
    case True
    with assms(1) show ?thesis by (auto simp: s p_int_def)
  next
    case False
    with assms(1) have d: "ascii_digit c" "p_digits s = (ds, s2)" by (auto simp: s p_int_def split: if_splits)
    then have "\<exists>x \<in> set s. \<not> ascii_digit x" using assms(2) by (auto simp: p_digits_def)
    then have "p_digits (s @ r) = (ds, s2 @ r)" using d(2) by (auto simp: p_digits_def)
    with False d p_digits_split [of s] show ?thesis by (simp add: s p_int_def)
  qed
qed

lemma p_num_float:
  assumes "float_text s" "follows r"
  shows "p_num flt (s @ r) = Some (flt s, r)"
proof -
  obtain ds s2 where i: "p_int (snd (p_sign s)) = Some (ds, s2)"
    and f: "snd (p_exp (snd (p_frac s2))) = []"
      "fst (p_frac s2) \<noteq> [] \<or> fst (p_exp (snd (p_frac s2))) \<noteq> []"
    using assms(1) by (auto simp: float_text_def split: option.splits)
  have ne: "s2 \<noteq> []" using f(2) by (auto simp: p_frac_def p_exp_def)
  have "s \<noteq> []" using i by (auto simp: p_int_def)
  then have sg: "p_sign (s @ r) = (fst (p_sign s), snd (p_sign s) @ r)" "fst (p_sign s) @ snd (p_sign s) = s"
    by (cases s; simp)+
  note e = p_exp_append [OF f(1) assms(2)]
  note fr = p_frac_append [OF f assms(2)]
  note ii = p_int_append [OF i ne, of r]
  have "fst (p_sign s) @ ds @ fst (p_frac s2) @ fst (p_exp (snd (p_frac s2))) = s"
    using sg(2) ii fr e by simp
  moreover have "p_frac s2 \<noteq> ([], s2) \<or> fst (p_exp (snd (p_frac s2))) \<noteq> []" using f(2) by auto
  ultimately show ?thesis
    using sg(1) ii fr e f(2) by (auto simp: p_num_def Let_def)
qed

definition num_start :: "string \<Rightarrow> bool" where
  "num_start s \<longleftrightarrow> (\<exists>c cs. s = c # cs \<and> (ascii_digit c \<or> (c = CHR ''-'' \<and> (\<exists>d ds. cs = d # ds \<and> ascii_digit d))))"

lemma float_text_start: "float_text s \<Longrightarrow> num_start s"
proof -
  assume "float_text s"
  then obtain ds s2 where i: "p_int (snd (p_sign s)) = Some (ds, s2)"
    by (auto simp: float_text_def split: option.splits)
  have head: "\<exists>c cs. u = c # cs \<and> ascii_digit c" if "p_int u = Some (ds, s2)" for u
    using that by (cases u) (auto simp: p_int_def ascii_digit_def split: if_splits)
  show ?thesis
    using head [OF i] by (cases s) (auto simp: num_start_def split: if_splits)
qed

fun readable :: "(string \<Rightarrow> json) \<Rightarrow> json \<Rightarrow> bool" where
  "readable flt (JNum q s) = (float_text s \<and> flt s = JNum q s)"
| "readable flt JNonFinite = False"
| "readable flt (JList vs) = list_all (readable flt) vs"
| "readable flt (JObj ms) = list_all (\<lambda>(k, v). readable flt v) ms"
| "readable flt _ = True"

lemma plain_readable: "plain v \<Longrightarrow> readable flt v"
  by (induction v rule: plain.induct) (auto simp: list_all_iff)

lemma readable_finite: "readable flt v \<Longrightarrow> finite_json v"
  by (induction flt v rule: readable.induct) (auto simp: list_all_iff)

lemma readable_jsort [simp]: "readable flt (jsort v) = readable flt v"
  by (induction v rule: jsort.induct) (auto simp: list_all_iff)

fun keys_distinct :: "json \<Rightarrow> bool" where
  "keys_distinct (JList vs) = list_all keys_distinct vs"
| "keys_distinct (JObj ms) = (distinct (map fst ms) \<and> list_all (\<lambda>(k, v). keys_distinct v) ms)"
| "keys_distinct _ = True"

lemma ws_char_simps [simp]:
  "\<not> ws_char (CHR '','')" "\<not> ws_char (CHR '']'')" "\<not> ws_char (CHR ''}'')" "\<not> ws_char (CHR '':'')"
  "\<not> ws_char quote_chr"
  by (simp_all add: ws_char_def quote_chr_def)

lemma dec_int_start: "num_start (dec_int i)"
  using dec_nat_Cons [of "nat i"] dec_nat_Cons [of "nat (- i)"] by (auto simp: dec_int_def num_start_def)

lemma p_const_num: "num_start s \<Longrightarrow> p_const (s @ r) = None"
  by (auto simp: num_start_def p_const_def constants_def ascii_digit_def)

lemma num_start_head:
  assumes "num_start s"
  obtains c cs where "s = c # cs" "\<not> ws_char c" "c \<noteq> quote_chr" "c \<noteq> CHR ''[''" "c \<noteq> CHR ''{''"
    "c \<noteq> CHR '']''" "c \<noteq> CHR ''}''"
  using assms by (auto simp: num_start_def ascii_digit_def ws_char_def quote_chr_def)

lemma enc_start:
  assumes "readable flt v"
  obtains c cs where "enc a v = c # cs" "\<not> ws_char c" "c \<noteq> CHR '']''" "c \<noteq> CHR ''}''"
proof (cases v)
  case (JInt i)
  then show thesis
    using num_start_head [OF dec_int_start [of i]] that by (metis enc.simps(3))
next
  case (JNum q s)
  then show thesis
    using assms num_start_head [OF float_text_start [of s]] that by (metis enc.simps(4) readable.simps(1))
next
  case (JStr t)
  then show thesis using that by (simp add: enc_str_def quote_chr_def ws_char_def)
next
  case (JBool b)
  then show thesis using that by (cases b) (auto simp: ws_char_def)
qed (use assms that in \<open>auto simp: ws_char_def\<close>)

lemma p_val_num:
  assumes "num_start s" "p_num flt (s @ r) = Some x"
  shows "p_val flt (Suc n) (s @ r) = Some x"
proof -
  obtain c cs where "s = c # cs" "\<not> ws_char c" "c \<noteq> quote_chr" "c \<noteq> CHR ''[''" "c \<noteq> CHR ''{''"
    using num_start_head [OF assms(1)] by blast
  then show ?thesis using assms(2) p_const_num [OF assms(1), of r] by simp
qed

lemma p_val_quote: "p_val flt (Suc n) (enc_str a s @ r) = Some (JStr s, r)"
  using p_str_enc [of a s r] by (simp add: enc_str_def ws_char_def quote_chr_def)

lemma p_val_bracket:
  "p_val flt (Suc n) (CHR ''['' # cs) = (case ws cs of [] \<Rightarrow> None
     | d # ds \<Rightarrow> if d = CHR '']'' then Some (JList [], ds) else p_elems flt n [] cs)"
  "p_val flt (Suc n) (CHR ''{'' # cs) = (case ws cs of [] \<Rightarrow> None
     | d # ds \<Rightarrow> if d = CHR ''}'' then Some (JObj [], ds) else p_members flt n [] cs)"
  by (simp_all add: ws_char_def quote_chr_def)

lemma follows_tail_of: "z = CHR '']'' \<or> z = CHR ''}'' \<Longrightarrow> follows (tail_of f us (z # q))"
  by (cases us) auto

lemma length_tail_of: "length (tail_of f xs q) = length (tail_of f xs []) + length q"
  by (simp add: tail_of_def)

lemma p_elems_enc:
  assumes "\<And>u q m. u \<in> set (v # vs) \<Longrightarrow> follows q \<Longrightarrow> 2 * length (enc a u) \<le> m \<Longrightarrow>
      p_val flt m (enc a u @ q) = Some (u, q)"
    and "2 * length (enc a v @ tail_of (enc a) vs []) + 1 \<le> n"
  shows "p_elems flt n acc (enc a v @ tail_of (enc a) vs (CHR '']'' # r)) = Some (JList (acc @ v # vs), r)"
  using assms
proof (induction vs arbitrary: v n acc)
  case Nil
  then obtain n' where "n = Suc n'" by (cases n) auto
  with Nil show ?case by simp
next
  case (Cons w vs)
  then obtain n' where n: "n = Suc n'" by (cases n) auto
  have "p_elems flt n' (acc @ [v]) (enc a w @ tail_of (enc a) vs (CHR '']'' # r))
      = Some (JList ((acc @ [v]) @ w # vs), r)"
  proof (rule Cons.IH)
    show "p_val flt m (enc a u @ q) = Some (u, q)"
      if "u \<in> set (w # vs)" "follows q" "2 * length (enc a u) \<le> m" for u q m
      using Cons.prems(1) that by simp
    show "2 * length (enc a w @ tail_of (enc a) vs []) + 1 \<le> n'"
      using Cons.prems(2) n by simp
  qed
  moreover have "p_val flt n' (enc a v @ tail_of (enc a) (w # vs) (CHR '']'' # r))
      = Some (v, tail_of (enc a) (w # vs) (CHR '']'' # r))"
    using Cons.prems(2) n by (intro Cons.prems(1)) simp_all
  ultimately show ?case by (simp add: n)
qed

lemma alist_set_fresh: "k \<notin> fst ` set xs \<Longrightarrow> alist_set k v xs = xs @ [(k, v)]"
  by (induction k v xs rule: alist_set.induct) auto

abbreviation enc_member :: "bool \<Rightarrow> string \<times> json \<Rightarrow> string" where
  "enc_member a \<equiv> (\<lambda>(k, v). enc_str a k @ '':'' @ enc a v)"

lemma p_members_step:
  assumes "p_val flt n (enc a u @ q) = Some (u, q)"
  shows "p_members flt (Suc n) acc (enc_str a k @ CHR '':'' # enc a u @ q) = (case ws q of [] \<Rightarrow> None
     | d # ds \<Rightarrow> if d = CHR '','' then p_members flt n (alist_set k u acc) ds
        else if d = CHR ''}'' then Some (JObj (alist_set k u acc), ds) else None)"
  using p_str_enc [of a k "CHR '':'' # enc a u @ q"] assms
  by (simp add: enc_str_def split: list.split)

lemma p_members_enc:
  assumes "\<And>k u q m. (k, u) \<in> set (x # xs) \<Longrightarrow> follows q \<Longrightarrow> 2 * length (enc a u) \<le> m \<Longrightarrow>
      p_val flt m (enc a u @ q) = Some (u, q)"
    and "2 * length (enc_member a x @ tail_of (enc_member a) xs []) + 1 \<le> n"
    and "distinct (map fst (acc @ x # xs))"
  shows "p_members flt n acc (enc_member a x @ tail_of (enc_member a) xs (CHR ''}'' # r))
    = Some (JObj (acc @ x # xs), r)"
  using assms
proof (induction xs arbitrary: x n acc)
  case Nil
  obtain k u where x: "x = (k, u)" by (cases x)
  obtain n' where n: "n = Suc n'" using Nil.prems(2) by (cases n) auto
  have "p_val flt n' (enc a u @ CHR ''}'' # r) = Some (u, CHR ''}'' # r)"
    using Nil.prems(1) [of k u "CHR ''}'' # r" n'] Nil.prems(2) x n by simp
  with Nil.prems(3) show ?case
    by (simp add: x n p_members_step alist_set_fresh del: p_members.simps)
next
  case (Cons y ys)
  obtain k u where x: "x = (k, u)" by (cases x)
  obtain n' where n: "n = Suc n'" using Cons.prems(2) by (cases n) auto
  have v: "p_val flt n' (enc a u @ tail_of (enc_member a) (y # ys) (CHR ''}'' # r))
      = Some (u, tail_of (enc_member a) (y # ys) (CHR ''}'' # r))"
    using Cons.prems(1) [of k u] Cons.prems(2) x n by (simp add: follows_tail_of)
  have "p_members flt n' (acc @ [x]) (enc_member a y @ tail_of (enc_member a) ys (CHR ''}'' # r))
      = Some (JObj ((acc @ [x]) @ y # ys), r)"
  proof (rule Cons.IH)
    show "p_val flt m (enc a u @ q) = Some (u, q)"
      if "(k, u) \<in> set (y # ys)" "follows q" "2 * length (enc a u) \<le> m" for k u q m
      using Cons.prems(1) [of k u q m] that by simp
    show "2 * length (enc_member a y @ tail_of (enc_member a) ys []) + 1 \<le> n'"
      using Cons.prems(2) n by simp
    show "distinct (map fst ((acc @ [x]) @ y # ys))"
      using Cons.prems(3) by simp
  qed
  moreover have "alist_set k u acc = acc @ [x]"
    using Cons.prems(3) x by (simp add: alist_set_fresh)
  ultimately show ?case
    using p_members_step [OF v, of acc k] by (simp add: x n del: p_members.simps)
qed

lemma p_val_enc:
  "readable flt v \<Longrightarrow> keys_distinct v \<Longrightarrow> follows r \<Longrightarrow> 2 * length (enc a v) \<le> n \<Longrightarrow>
     p_val flt n (enc a v @ r) = Some (v, r)"
proof (induction v arbitrary: n r)
  case (JNull)
  then show ?case by (cases n) (simp_all add: ws_char_def quote_chr_def p_const_def constants_def)
next
  case (JBool b)
  then show ?case
    by (cases n; cases b) (simp_all add: ws_char_def quote_chr_def p_const_def constants_def)
next
  case (JInt i)
  then obtain n' where "n = Suc n'" using dec_int_start [of i] by (cases n) (auto simp: num_start_def)
  with JInt show ?case using p_val_num [OF dec_int_start p_num_dec_int] by simp
next
  case (JNum q s)
  then have f: "float_text s" "flt s = JNum q s" by simp_all
  then obtain n' where "n = Suc n'"
    using float_text_start [OF f(1)] JNum.prems(4) by (cases n) (auto simp: num_start_def)
  then show ?case
    using p_val_num [OF float_text_start [OF f(1)] p_num_float [OF f(1) JNum.prems(3)], of flt n'] f(2) by simp
next
  case (JStr s)
  then obtain n' where "n = Suc n'" by (cases n) (auto simp: enc_str_def)
  then show ?case by (simp add: p_val_quote del: p_val.simps)
next
  case (JList vs)
  obtain n' where n: "n = Suc n'" using JList.prems(4) by (cases n) auto
  show ?case
  proof (cases vs)
    case Nil
    then show ?thesis by (simp add: n p_val_bracket del: p_val.simps)
  next
    case (Cons v us)
    have "p_elems flt n' [] (enc a v @ tail_of (enc a) us (CHR '']'' # r)) = Some (JList ([] @ v # us), r)"
    proof (rule p_elems_enc)
      show "p_val flt m (enc a u @ q) = Some (u, q)"
        if "u \<in> set (v # us)" "follows q" "2 * length (enc a u) \<le> m" for u q m
        using JList.IH [of u q m] JList.prems that Cons by (auto simp: list_all_iff)
      show "2 * length (enc a v @ tail_of (enc a) us []) + 1 \<le> n'"
        using JList.prems(4) n join_tail_of [of "enc a" v us "[]"] by (simp add: Cons)
    qed
    moreover obtain c cs where "enc a v = c # cs" "\<not> ws_char c" "c \<noteq> CHR '']''"
    proof -
      have "readable flt v" using JList.prems(1) Cons by simp
      from enc_start [OF this, of a] show thesis using that by metis
    qed
    ultimately show ?thesis
      using join_tail_of [of "enc a" v us "CHR '']'' # r"]
      by (simp add: Cons n p_val_bracket del: p_val.simps)
  qed
next
  case (JObj ms)
  obtain n' where n: "n = Suc n'" using JObj.prems(4) by (cases n) auto
  show ?case
  proof (cases ms)
    case Nil
    then show ?thesis by (simp add: n p_val_bracket del: p_val.simps)
  next
    case (Cons x xs)
    have "p_members flt n' [] (enc_member a x @ tail_of (enc_member a) xs (CHR ''}'' # r))
        = Some (JObj ([] @ x # xs), r)"
    proof (rule p_members_enc)
      show "p_val flt m (enc a u @ q) = Some (u, q)"
        if "(k, u) \<in> set (x # xs)" "follows q" "2 * length (enc a u) \<le> m" for k u q m
      proof -
        have m: "(k, u) \<in> set ms" using that(1) Cons by simp
        with JObj.prems(1,2) have "readable flt u" "keys_distinct u" by (fastforce simp: list_all_iff)+
        then show ?thesis using JObj.IH [OF m, of u q m] that by simp
      qed
      show "2 * length (enc_member a x @ tail_of (enc_member a) xs []) + 1 \<le> n'"
        using JObj.prems(4) n join_tail_of [of "enc_member a" x xs "[]"] by (simp add: Cons)
      show "distinct (map fst ([] @ x # xs))" using JObj.prems(2) Cons by simp
    qed
    moreover obtain cs where "enc_member a x = quote_chr # cs"
      by (cases x) (simp add: enc_str_def)
    moreover have "quote_chr \<noteq> CHR ''}''" by (simp add: quote_chr_def)
    ultimately show ?thesis
      using join_tail_of [of "enc_member a" x xs "CHR ''}'' # r"]
      by (simp add: Cons n p_val_bracket del: p_val.simps)
  qed
qed simp_all

lemma keys_distinct_jsort: "keys_distinct v \<Longrightarrow> keys_distinct (jsort v)"
proof (induction v rule: jsort.induct)
  case (2 ms)
  have fsts: "map fst (map (\<lambda>(k, v). (k, jsort v)) ms) = map fst ms"
    by (simp add: comp_def case_prod_unfold)
  have "distinct (map fst (sort_key fst (map (\<lambda>(k, v). (k, jsort v)) ms)))"
    using 2(2) by (simp add: distinct_map comp_def case_prod_unfold inj_on_def)
       (metis distinct_map fst_conv inj_on_def prod.collapse)
  with 2 show ?case by (fastforce simp: list_all_iff)
qed (auto simp: list_all_iff)

lemma loads_dumps:
  assumes "readable flt v" "keys_distinct v" "dumps a v = Some s"
  shows "json_loads flt s = Some (jsort v)"
proof -
  have s: "s = enc a (jsort v)" using assms(3) by (simp add: dumps_def split: if_splits)
  have "p_val flt (2 * length s + 1) (s @ []) = Some (jsort v, [])"
    unfolding s using assms(1,2) by (intro p_val_enc) (simp_all add: keys_distinct_jsort)
  then show ?thesis by (simp add: json_loads_def)
qed

text \<open>
  What the canonical encoder writes, the parser reads back; so the text determines the value up to the
  order of its keys.
\<close>

theorem loads_inverts_dumps:
  assumes "readable flt v" "keys_distinct v"
  shows "Option.bind (dumps a v) (json_loads flt) = Some (jsort v)"
  using loads_dumps [OF assms] readable_finite [OF assms(1)] by (simp add: dumps_def)

corollary dumps_inject:
  assumes "readable flt v" "keys_distinct v" "readable flt w" "keys_distinct w" "dumps a v = dumps a w"
  shows "jsort v = jsort w"
  using loads_inverts_dumps [OF assms(1,2), of a] loads_inverts_dumps [OF assms(3,4), of a] assms(5) by simp

text \<open>
  Functions a float printer and reader can be, for the instances: a rational prints its numerator as the
  integer part and its denominator as the exponent.
\<close>

definition demo_repr :: "rat \<Rightarrow> string" where
  "demo_repr q = dec_int (fst (quotient_of q)) @ ''.0e'' @ dec_nat (nat (snd (quotient_of q)))"

definition demo_float :: "string \<Rightarrow> json" where
  "demo_float s = (case p_int (snd (p_sign s)) of
       None \<Rightarrow> JNonFinite
     | Some (ds, s2) \<Rightarrow>
         let n = int (undec ds) in
         JNum (Fract (if fst (p_sign s) = [] then n else - n) (int (undec (drop 3 s2)))) s)"

lemma demo_tail:
  "p_frac (''.0e'' @ dec_nat m) = (''.0'', CHR ''e'' # dec_nat m)"
  "p_exp (CHR ''e'' # dec_nat m) = (CHR ''e'' # dec_nat m, [])"
proof -
  have all: "\<forall>c \<in> set (dec_nat m). ascii_digit c" using dec_nat_digits [of m] by (simp add: list_all_iff)
  obtain c cs where c: "dec_nat m = c # cs" "ascii_digit c" using dec_nat_Cons [of m] by blast
  then have sign: "c \<noteq> CHR ''+''" "c \<noteq> CHR ''-''" by (auto simp: ascii_digit_def)
  have "takeWhile ascii_digit (dec_nat m) = dec_nat m" "dropWhile ascii_digit (dec_nat m) = []"
    using all by (auto simp: takeWhile_eq_all_conv)
  then show "p_exp (CHR ''e'' # dec_nat m) = (CHR ''e'' # dec_nat m, [])"
    using c sign by (simp add: p_exp_def p_digits_def)
  show "p_frac (''.0e'' @ dec_nat m) = (''.0'', CHR ''e'' # dec_nat m)"
    by (simp add: p_frac_def p_digits_def ascii_digit_def)
qed

lemma demo_int:
  "p_int (snd (p_sign (dec_int i @ CHR ''.'' # r))) = Some (dec_nat (nat \<bar>i\<bar>), CHR ''.'' # r)
   \<and> (fst (p_sign (dec_int i @ CHR ''.'' # r)) = [] \<longleftrightarrow> 0 \<le> i)"
proof -
  have e: "ends (CHR ''.'' # r)" by (simp add: ends_def ascii_digit_def)
  obtain c cs where c: "dec_nat (nat i) = c # cs" "ascii_digit c" using dec_nat_Cons [of "nat i"] by blast
  then have "c \<noteq> CHR ''-''" by (auto simp: ascii_digit_def)
  then show ?thesis
    using p_int_dec_nat [OF e, of "nat i"] p_int_dec_nat [OF e, of "nat (- i)"] c
    by (auto simp: dec_int_def)
qed

lemma demo_readable: "readable demo_float (JNum q (demo_repr q))"
proof -
  obtain n d where q: "quotient_of q = (n, d)" by (cases "quotient_of q")
  then have d: "0 < d" "q = Fract n d"
    by (auto simp: quotient_of_denom_pos quotient_of_div [OF q] Fract_of_int_quotient)
  have i: "p_int (snd (p_sign (demo_repr q))) = Some (dec_nat (nat \<bar>n\<bar>), ''.0e'' @ dec_nat (nat d))"
    "fst (p_sign (demo_repr q)) = [] \<longleftrightarrow> 0 \<le> n"
    using demo_int [of n "''0e'' @ dec_nat (nat d)"] by (simp_all add: demo_repr_def q)
  have "float_text (demo_repr q)"
    unfolding float_text_def i(1) using demo_tail [of "nat d"] by simp
  moreover have "demo_float (demo_repr q) = JNum q (demo_repr q)"
    unfolding demo_float_def i(1) using i(2) d by (simp add: undec_dec_nat Let_def del: undec.simps)
  ultimately show ?thesis by simp
qed

end
