(* ===== verification/Models.thy ===== *)
theory Models
  imports PyJson
begin

text \<open>
  The validated contracts of \<open>src/civicgate/models\<close>: the invocation arguments and their
  constraints (\<open>requests.py\<close>), the governance signals and decisions (\<open>governance.py\<close>) and the
  response envelope (\<open>responses.py\<close>). Pydantic itself is not under \<open>src/\<close>: what the code asks of it
  (validating, dumping, describing a schema) is the record \<open>pydantic\<close> of functions. A
  \<open>datetime.date\<close> is its proleptic ordinal.
\<close>

section \<open>Invocation arguments (models/requests.py)\<close>

record search_args =
  recipient_name :: "string option"
  awarding_agency :: "string option"
  start_date :: int
  end_date :: int
  state_code :: "string option"
  award_types :: "string list"
  search_limit :: int

record recipient_args =
  rec_name :: string
  rec_limit :: int

text \<open>
  An instance of one of the three argument models, or of the model a trusted contract puts in
  the place of \<open>Search\<close>, known by its class name and its fields.
\<close>

datatype args =
    ASearch search_args
  | AAward string
  | ARecipient recipient_args
  | AModel string json

text \<open>\<open>Text\<close>: \<open>strip_whitespace\<close> has run, and the length is checked on what is left.\<close>

definition text_ok :: "string \<Rightarrow> bool" where
  "text_ok s \<longleftrightarrow> 1 \<le> length s \<and> length s \<le> 200"

definition award_type_codes :: "string list" where
  "award_type_codes = [''A'', ''B'', ''C'', ''D'', ''02'', ''03'', ''04'', ''05'', ''06'', ''09'', ''10'', ''11'']"

definition states :: "string list" where
  "states =
     [''AL'', ''AK'', ''AZ'', ''AR'', ''CA'', ''CO'', ''CT'', ''DE'', ''DC'', ''FL'', ''GA'', ''HI'', ''ID'', ''IL'',
      ''IN'', ''IA'', ''KS'', ''KY'', ''LA'', ''ME'', ''MD'', ''MA'', ''MI'', ''MN'', ''MS'', ''MO'', ''MT'', ''NE'',
      ''NV'', ''NH'', ''NJ'', ''NM'', ''NY'', ''NC'', ''ND'', ''OH'', ''OK'', ''OR'', ''PA'', ''RI'', ''SC'', ''SD'',
      ''TN'', ''TX'', ''UT'', ''VT'', ''VA'', ''WA'', ''WV'', ''WI'', ''WY'', ''PR'', ''VI'', ''GU'', ''AS'', ''MP'']"

definition opt_ok :: "('a \<Rightarrow> bool) \<Rightarrow> 'a option \<Rightarrow> bool" where
  "opt_ok P x = (case x of None \<Rightarrow> True | Some a \<Rightarrow> P a)"

definition dates_and_location :: "search_args \<Rightarrow> bool" where
  "dates_and_location q \<longleftrightarrow>
     (0 \<le> end_date q - start_date q \<and> end_date q - start_date q \<le> 366)
     \<and> opt_ok (\<lambda>c. c \<in> set states) (state_code q)"

definition search_ok :: "search_args \<Rightarrow> bool" where
  "search_ok q \<longleftrightarrow>
     opt_ok text_ok (recipient_name q) \<and> opt_ok text_ok (awarding_agency q)
     \<and> opt_ok (\<lambda>c. length c = 2 \<and> list_all ascii_upper c) (state_code q)
     \<and> 1 \<le> length (award_types q) \<and> length (award_types q) \<le> 12
     \<and> list_all (\<lambda>t. t \<in> set award_type_codes) (award_types q)
     \<and> 1 \<le> search_limit q \<and> search_limit q \<le> 100
     \<and> dates_and_location q"

definition award_ok :: "string \<Rightarrow> bool" where
  "award_ok s \<longleftrightarrow> 1 \<le> length s \<and> length s \<le> 200
     \<and> list_all (\<lambda>c. ascii_upper c \<or> ascii_lower c \<or> ascii_digit c \<or> c \<in> set ''_.-'') s"

definition recipient_ok :: "recipient_args \<Rightarrow> bool" where
  "recipient_ok r \<longleftrightarrow> text_ok (rec_name r) \<and> 1 \<le> rec_limit r \<and> rec_limit r \<le> 25"

fun args_ok :: "args \<Rightarrow> bool" where
  "args_ok (ASearch q) = search_ok q"
| "args_ok (AAward s) = award_ok s"
| "args_ok (ARecipient r) = recipient_ok r"
| "args_ok (AModel c v) = is_obj v"

text \<open>A mapping from tool names to class names or digests, in insertion order.\<close>

type_synonym tool_map = "(string \<times> string) list"

definition TOOLS :: tool_map where
  "TOOLS = [(''find_federal_awards'', ''Search''), (''get_federal_award'', ''Award''),
            (''resolve_federal_recipient'', ''Recipient''), (''summarize_federal_spending'', ''Search'')]"

record proposal =
  p_tool :: string
  p_arguments :: json

section \<open>What the code asks of pydantic\<close>

record pydantic =
  model_validate :: "string \<Rightarrow> json \<Rightarrow> args option"       \<comment> \<open>class name, value; None: ValidationError\<close>
  model_validate_json :: "string \<Rightarrow> string \<Rightarrow> args option"
  model_dump :: "args \<Rightarrow> json"                           \<comment> \<open>\<open>mode="json"\<close>\<close>
  model_dump_json :: "args \<Rightarrow> string"
  model_json_schema :: "string \<Rightarrow> json option"           \<comment> \<open>None: it raised\<close>

section \<open>Governance signals and decisions (models/governance.py)\<close>

datatype decision = DENY | REVIEW_REQUIRED | PERMIT

datatype classification =
    IN_SCOPE | AMBIGUOUS | OUT_OF_SCOPE | CONSEQUENTIAL_INTERPRETATION
  | POSSIBLE_AUTHORITY_OVERREACH | INSUFFICIENT_INFORMATION

datatype signal =
    NONE | AUTHORITY_OVERREACH | OUT_OF_SCOPE_DATA | REPEATED_DENIAL | TOOL_SCOPE_VIOLATION
  | PROVENANCE_RISK | AMBIGUOUS_TARGET | CONTAINMENT_RECOMMENDED

record judge_signal =
  classified :: classification
  confidence :: rat
  rationale :: string
  flags :: "signal list"
  available :: bool
  provider :: string

definition JudgeSignal :: judge_signal where
  "JudgeSignal = \<lparr>classified = INSUFFICIENT_INFORMATION, confidence = 0,
     rationale = ''Semantic assessment unavailable'', flags = [], available = False,
     provider = ''unavailable''\<rparr>"

definition judge_ok :: "judge_signal \<Rightarrow> bool" where
  "judge_ok j \<longleftrightarrow> 0 \<le> confidence j \<and> confidence j \<le> 1 \<and> length (rationale j) \<le> 500
     \<and> length (flags j) \<le> 8 \<and> length (provider j) \<le> 100"

record k_signal =
  signals :: "signal list"
  containment :: bool

definition KSignal :: k_signal where
  "KSignal = \<lparr>signals = [NONE], containment = False\<rparr>"

record policy_result =
  decided :: decision
  reasons :: "string list"

text \<open>Decisions are ordered by the authority they give.\<close>

instantiation decision :: linorder
begin

definition less_eq_decision :: "decision \<Rightarrow> decision \<Rightarrow> bool" where
  "less_eq_decision a b \<longleftrightarrow> a = DENY \<or> b = PERMIT \<or> a = b"

definition less_decision :: "decision \<Rightarrow> decision \<Rightarrow> bool" where
  "less_decision a b \<longleftrightarrow> a \<le> b \<and> a \<noteq> (b :: decision)"

instance
proof
  fix a b c :: decision
  show "a < b \<longleftrightarrow> a \<le> b \<and> \<not> b \<le> a"
    by (cases a; cases b) (simp_all add: less_decision_def less_eq_decision_def)
  show "a \<le> a" by (simp add: less_eq_decision_def)
  show "a \<le> b \<Longrightarrow> b \<le> c \<Longrightarrow> a \<le> c"
    by (cases a; cases b; cases c) (simp_all add: less_eq_decision_def)
  show "a \<le> b \<Longrightarrow> b \<le> a \<Longrightarrow> a = b"
    by (cases a; cases b) (simp_all add: less_eq_decision_def)
  show "a \<le> b \<or> b \<le> a"
    by (cases a; cases b) (simp_all add: less_eq_decision_def)
qed

end

lemma decision_le_simps [simp]:
  "DENY \<le> d" "d \<le> PERMIT" "PERMIT \<le> d \<longleftrightarrow> d = PERMIT" "d \<le> DENY \<longleftrightarrow> d = DENY"
  by (cases d; simp add: less_eq_decision_def)+

section \<open>The response envelope (models/responses.py)\<close>

datatype dispatch_state = NOT_DISPATCHED | DISPATCH_ATTEMPTED | REQUEST_CONFIRMED | DISPATCH_UNKNOWN
datatype response_state = NO_RESPONSE | RESPONSE_RECEIVED | TRANSPORT_ERROR
datatype verification_state = UNVERIFIED | RESULT_VERIFIED | RESULT_UNKNOWN | FAILED_VALIDATION
datatype validation_lane = LANE_NONE | LANE_A_RESOLVABILITY | LANE_B_EXECUTION
datatype validation_reason =
    REASON_NONE | MALFORMED_RESPONSE | PROVENANCE_UNAVAILABLE | ADAPTER_SCHEMA_OR_PROVENANCE_INVALID
datatype next_action = ACT_NONE | RETRY_ALLOWED | RETRY_BLOCKED | HUMAN_REVIEW_REQUIRED | STOP
datatype status = OK | BLOCKED | ERROR | CLARIFICATION_REQUIRED

record error_item =
  error_code :: string
  error_message :: string
  retryable :: bool

record provenance =
  source_system :: string
  source_type :: string
  retrieved_at :: string
  query_fingerprint :: string
  response_fingerprint :: string
  endpoint :: string
  records_returned :: int
  truncated :: bool

record envelope =
  e_decision :: decision
  e_tool :: string
  e_request_id :: string
  e_status :: status
  e_result :: "json option"
  e_provenance :: "provenance option"
  e_judge :: judge_signal
  e_agent_k :: k_signal
  e_policy_reasons :: "string list"
  e_errors :: "error_item list"
  tool_executed :: bool
  clarification :: "string option"
  e_dispatch :: dispatch_state
  e_response :: response_state
  verification :: verification_state
  lane :: validation_lane
  val_reason :: validation_reason
  e_next :: next_action
  attempt_count :: nat
  e_retry_class :: string
  metadata_available :: bool

definition new_envelope ::
    "decision \<Rightarrow> string \<Rightarrow> string \<Rightarrow> judge_signal \<Rightarrow> k_signal \<Rightarrow> string list \<Rightarrow> envelope" where
  "new_envelope d t rid j k rs =
     \<lparr>e_decision = d, e_tool = t, e_request_id = rid, e_status = BLOCKED, e_result = None,
      e_provenance = None, e_judge = j, e_agent_k = k, e_policy_reasons = rs, e_errors = [],
      tool_executed = False, clarification = None, e_dispatch = NOT_DISPATCHED,
      e_response = NO_RESPONSE, verification = UNVERIFIED, lane = LANE_NONE,
      val_reason = REASON_NONE, e_next = ACT_NONE, attempt_count = 0,
      e_retry_class = ''UNKNOWN'', metadata_available = False\<rparr>"

lemma search_ok_span: "search_ok q \<Longrightarrow> end_date q - start_date q < 367"
  by (simp add: search_ok_def dates_and_location_def)

end
