(* ===== verification/Regex.thy ===== *)
theory Regex
  imports Prelude "HOL-Library.Sublist"
begin

text \<open>
  The part of Python's \<open>re\<close> the request signals use: a backtracking matcher that lists the ends of
  the matches at a position in the order Python tries them, so that its first element is the match
  \<open>re\<close> reports and its emptiness is failure; and \<open>search\<close>, \<open>match\<close>, \<open>fullmatch\<close>, \<open>sub\<close>, \<open>split\<close>
  and \<open>findall\<close> on top of it. Characters are the code points below 256.
\<close>

section \<open>Expressions and positions\<close>

datatype rx =
    Eps
  | Sat "char \<Rightarrow> bool"
  | Cat rx rx
  | Alt rx rx
  | Rep nat rx        \<comment> \<open>greedy \<open>r{0,n}\<close>\<close>
  | Star rx           \<comment> \<open>greedy \<open>r*\<close>\<close>
  | WordB             \<comment> \<open>\<open>\b\<close>\<close>
  | Bos               \<comment> \<open>\<open>^\<close>\<close>
  | Eos               \<comment> \<open>\<open>$\<close>\<close>

text \<open>A position: the character before it, if any, and the text after it.\<close>

type_synonym pos = "char option \<times> string"

definition word_char :: "char \<Rightarrow> bool" where
  "word_char c \<longleftrightarrow> ascii_digit c \<or> ascii_upper c \<or> ascii_lower c \<or> c = CHR ''_''
     \<or> (let n = of_char c :: nat in n \<in> {170, 178, 179, 181, 185, 186, 188, 189, 190}
         \<or> (192 \<le> n \<and> n \<noteq> 215 \<and> n \<noteq> 247))"

definition space_char :: "char \<Rightarrow> bool" where
  "space_char c \<longleftrightarrow> (let n = of_char c :: nat in
     (9 \<le> n \<and> n \<le> 13) \<or> (28 \<le> n \<and> n \<le> 32) \<or> n = 133 \<or> n = 160)"

definition word_opt :: "char option \<Rightarrow> bool" where
  "word_opt c = (case c of None \<Rightarrow> False | Some d \<Rightarrow> word_char d)"

fun next_char :: "string \<Rightarrow> char option" where
  "next_char [] = None"
| "next_char (c # cs) = Some c"

section \<open>The matcher\<close>

fun rep_run :: "(pos \<Rightarrow> pos list) \<Rightarrow> nat \<Rightarrow> pos \<Rightarrow> pos list" where
  "rep_run f 0 p = [p]"
| "rep_run f (Suc n) p = concat (map (rep_run f n) (f p)) @ [p]"

text \<open>A starred body that consumed nothing is not iterated; so the length of the rest is fuel enough.\<close>

fun star_run :: "(pos \<Rightarrow> pos list) \<Rightarrow> nat \<Rightarrow> pos \<Rightarrow> pos list" where
  "star_run f 0 p = [p]"
| "star_run f (Suc n) p =
     concat (map (star_run f n) (filter (\<lambda>q. length (snd q) < length (snd p)) (f p))) @ [p]"

primrec rx_run :: "rx \<Rightarrow> pos \<Rightarrow> pos list" where
  "rx_run Eps p = [p]"
| "rx_run (Sat P) p = (case snd p of [] \<Rightarrow> [] | c # cs \<Rightarrow> if P c then [(Some c, cs)] else [])"
| "rx_run (Cat r s) p = concat (map (rx_run s) (rx_run r p))"
| "rx_run (Alt r s) p = rx_run r p @ rx_run s p"
| "rx_run (Rep n r) p = rep_run (rx_run r) n p"
| "rx_run (Star r) p = star_run (rx_run r) (length (snd p)) p"
| "rx_run WordB p = (if word_opt (fst p) \<noteq> word_opt (next_char (snd p)) then [p] else [])"
| "rx_run Bos p = (if fst p = None then [p] else [])"
| "rx_run Eos p = (if snd p = [] \<or> snd p = [CHR 0x0A] then [p] else [])"

definition first_match :: "rx \<Rightarrow> pos \<Rightarrow> pos option" where
  "first_match r p = (case rx_run r p of [] \<Rightarrow> None | q # _ \<Rightarrow> Some q)"

fun search_at :: "rx \<Rightarrow> char option \<Rightarrow> string \<Rightarrow> bool" where
  "search_at r pr [] = (rx_run r (pr, []) \<noteq> [])"
| "search_at r pr (c # cs) = (rx_run r (pr, c # cs) \<noteq> [] \<or> search_at r (Some c) cs)"

definition rx_search :: "rx \<Rightarrow> string \<Rightarrow> bool" where
  "rx_search r s = search_at r None s"

definition rx_match :: "rx \<Rightarrow> string \<Rightarrow> bool" where
  "rx_match r s = (rx_run r (None, s) \<noteq> [])"

definition rx_fullmatch :: "rx \<Rightarrow> string \<Rightarrow> bool" where
  "rx_fullmatch r s = list_ex (\<lambda>q. snd q = []) (rx_run r (None, s))"

section \<open>Building expressions\<close>

definition lit :: "string \<Rightarrow> rx" where
  "lit w = foldr (\<lambda>c r. Cat (Sat (\<lambda>d. d = c)) r) w Eps"

definition none_rx :: rx where "none_rx = Sat (\<lambda>_. False)"

definition alts :: "rx list \<Rightarrow> rx" where
  "alts rs = foldr Alt rs none_rx"

definition words_rx :: "string list \<Rightarrow> rx" where
  "words_rx ws = alts (map lit ws)"

definition cats :: "rx list \<Rightarrow> rx" where
  "cats rs = foldr Cat rs Eps"

definition opt :: "rx \<Rightarrow> rx" where "opt r = Rep 1 r"
definition plus_rx :: "rx \<Rightarrow> rx" where "plus_rx r = Cat r (Star r)"
definition dot :: rx where "dot = Sat (\<lambda>c. c \<noteq> CHR 0x0A)"

section \<open>What the matcher leaves behind\<close>

text \<open>Every end of a match is a suffix of the text matched against.\<close>

definition suffix_run :: "(pos \<Rightarrow> pos list) \<Rightarrow> bool" where
  "suffix_run f \<longleftrightarrow> (\<forall>c s d t. (d, t) \<in> set (f (c, s)) \<longrightarrow> suffix t s)"

lemma suffix_runD: "suffix_run f \<Longrightarrow> (d, t) \<in> set (f (c, s)) \<Longrightarrow> suffix t s"
  unfolding suffix_run_def by blast

lemma suffix_run_trans:
  "suffix_run f \<Longrightarrow> suffix_run g \<Longrightarrow> (d, t) \<in> set (f (c, s)) \<Longrightarrow> (e, u) \<in> set (g (d, t)) \<Longrightarrow> suffix u s"
  by (blast intro: suffix_order.trans dest: suffix_runD)

lemma suffix_rep_run:
  assumes f: "suffix_run f"
  shows "suffix_run (rep_run f n)"
proof (induction n)
  case 0
  then show ?case by (simp add: suffix_run_def)
next
  case (Suc n)
  then show ?case
    unfolding suffix_run_def [of "rep_run f (Suc n)"]
    by (auto intro: suffix_run_trans [OF f])
qed

lemma suffix_star_run:
  assumes f: "suffix_run f"
  shows "suffix_run (star_run f n)"
proof (induction n)
  case 0
  then show ?case by (simp add: suffix_run_def)
next
  case (Suc n)
  then show ?case
    unfolding suffix_run_def [of "star_run f (Suc n)"]
    by (auto intro: suffix_run_trans [OF f])
qed

lemma suffix_rx_run: "suffix_run (rx_run r)"
proof (induction r)
  case (Cat r s)
  then show ?case
    unfolding suffix_run_def [of "rx_run (Cat r s)"] by (auto intro: suffix_run_trans)
next
  case (Alt r s)
  then show ?case unfolding suffix_run_def by auto
next
  case (Rep n r)
  then show ?case using suffix_rep_run [of "rx_run r" n] by (simp add: suffix_run_def)
next
  case (Star r)
  then show ?case using suffix_star_run [of "rx_run r"] by (simp add: suffix_run_def)
qed (auto simp: suffix_run_def suffix_def split: list.splits)

lemma rx_run_length: "q \<in> set (rx_run r p) \<Longrightarrow> length (snd q) \<le> length (snd p)"
  by (cases q; cases p) (auto intro: suffix_length_le suffix_runD [OF suffix_rx_run])

lemma first_match_length: "first_match r p = Some q \<Longrightarrow> length (snd q) \<le> length (snd p)"
  using rx_run_length [of q r p] by (auto simp: first_match_def split: list.splits)

section \<open>Replacing, splitting and collecting\<close>

text \<open>
  \<open>re.split\<close> for an expression that matches no empty text: the pieces between the leftmost
  matches. An empty match is passed over, so the text gets shorter with every call.
\<close>

function split_at :: "rx \<Rightarrow> char option \<Rightarrow> string \<Rightarrow> string \<Rightarrow> string list" where
  "split_at r pr acc s =
     (case s of [] \<Rightarrow> [rev acc]
      | c # cs \<Rightarrow> (case first_match r (pr, s) of
            Some (pr', rest) \<Rightarrow> if length rest < length s then rev acc # split_at r pr' [] rest
                                else split_at r (Some c) (c # acc) cs
          | None \<Rightarrow> split_at r (Some c) (c # acc) cs))"
  by pat_completeness auto
termination
  by (relation "measure (\<lambda>(r, pr, acc, s). length s)") auto

declare split_at.simps [simp del]

definition rx_split :: "rx \<Rightarrow> string \<Rightarrow> string list" where
  "rx_split r s = split_at r None [] s"

text \<open>\<open>re.sub(r, by, s)\<close> and \<open>re.findall(r, s)\<close> under the same proviso.\<close>

function sub_at :: "rx \<Rightarrow> string \<Rightarrow> char option \<Rightarrow> string \<Rightarrow> string" where
  "sub_at r w pr s =
     (case s of [] \<Rightarrow> []
      | c # cs \<Rightarrow> (case first_match r (pr, s) of
            Some (pr', rest) \<Rightarrow> if length rest < length s then w @ sub_at r w pr' rest
                                else c # sub_at r w (Some c) cs
          | None \<Rightarrow> c # sub_at r w (Some c) cs))"
  by pat_completeness auto
termination
  by (relation "measure (\<lambda>(r, w, pr, s). length s)") auto

declare sub_at.simps [simp del]

definition rx_sub :: "rx \<Rightarrow> string \<Rightarrow> string \<Rightarrow> string" where
  "rx_sub r w s = sub_at r w None s"

function findall_at :: "rx \<Rightarrow> char option \<Rightarrow> string \<Rightarrow> string list" where
  "findall_at r pr s =
     (case s of [] \<Rightarrow> []
      | c # cs \<Rightarrow> (case first_match r (pr, s) of
            Some (pr', rest) \<Rightarrow> if length rest < length s
                then take (length s - length rest) s # findall_at r pr' rest
                else findall_at r (Some c) cs
          | None \<Rightarrow> findall_at r (Some c) cs))"
  by pat_completeness auto
termination
  by (relation "measure (\<lambda>(r, pr, s). length s)") auto

declare findall_at.simps [simp del]

definition rx_findall :: "rx \<Rightarrow> string \<Rightarrow> string list" where
  "rx_findall r s = findall_at r None s"

end
