(* ===== verification/Tripwires.thy ===== *)
theory Tripwires
  imports Regex
begin

text \<open>
  The hard tripwires of \<open>governance/authority.py\<close>: three regular expressions searched for in the
  NFKC-normalised, case-folded text. The normalisation is a table lookup in Python's Unicode
  database and is the argument \<open>nf\<close>. The expressions have no anchors, so a phrase that trips one
  trips it in every surrounding text.
\<close>

section \<open>The expressions\<close>

definition gap :: "nat \<Rightarrow> rx" where
  "gap n = Rep n dot"

definition denied_authority_rx :: rx where
  "denied_authority_rx = alts
     [lit ''blacklist'', lit ''debar'', lit ''barred'', lit ''fraud'', lit ''eligib'',
      cats [lit ''approve'', gap 30, words_rx [''award'', ''contract'']],
      cats [lit ''deny'', gap 30, lit ''award''],
      lit ''procurement decision'',
      cats [words_rx [''execute'', ''send''], gap 20, lit ''payment''],
      cats [lit ''modify'', gap 30, words_rx [''government'', ''data'']],
      lit ''impersonat'', lit ''lista negra'', lit ''inhabilit'', lit ''fraude'',
      cats [lit ''aprobar'', gap 20, lit ''contrato''],
      cats [lit ''exclude'', gap 30, words_rx [''vendor'', ''supplier'']],
      cats [lit ''exclude'', gap 30, lit ''future'']]"

definition private_data_rx :: rx where
  "private_data_rx = alts
     [lit ''private'',
      cats [lit ''internal'', gap 20, words_rx [''system'', ''record'', ''government'']],
      lit ''tax record'', lit ''credential'', lit ''password'', lit ''secret'',
      lit ''datos privados'', lit ''credencial'']"

definition bypass_request_rx :: rx where
  "bypass_request_rx = alts
     [lit ''bypass'', lit ''hidden tool'', lit ''unapproved tool'', lit ''another system'',
      lit ''alternate system'',
      cats [lit ''ignore'', gap 30, words_rx [''policy'', ''guardrail'']],
      cats [lit ''disable'', gap 20, words_rx [''audit'', ''policy'']],
      lit ''herramienta oculta'']"

definition checks :: "(string \<times> rx) list" where
  "checks = [(''DENIED_AUTHORITY'', denied_authority_rx), (''PRIVATE_DATA'', private_data_rx),
             (''BYPASS_REQUEST'', bypass_request_rx)]"

definition tripped :: "string \<Rightarrow> string list" where
  "tripped normalized = map fst (filter (\<lambda>(reason, pattern). rx_search pattern normalized) checks)"

definition denied_reasons :: "(string \<Rightarrow> string) \<Rightarrow> string \<Rightarrow> string list" where
  "denied_reasons nf text = tripped (nf text)"

definition TRIPWIRE_REASONS :: "string list" where
  "TRIPWIRE_REASONS = [''DENIED_AUTHORITY'', ''PRIVATE_DATA'', ''BYPASS_REQUEST'']"

section \<open>Expressions without anchors match in every context\<close>

primrec contextual :: "rx \<Rightarrow> bool" where
  "contextual Eps = True"
| "contextual (Sat P) = True"
| "contextual (Cat r s) = (contextual r \<and> contextual s)"
| "contextual (Alt r s) = (contextual r \<and> contextual s)"
| "contextual (Rep n r) = contextual r"
| "contextual (Star r) = False"
| "contextual WordB = False"
| "contextual Bos = False"
| "contextual Eos = False"

definition extends :: "(pos \<Rightarrow> pos list) \<Rightarrow> bool" where
  "extends f \<longleftrightarrow> (\<forall>c s d t c' v. (d, t) \<in> set (f (c, s)) \<longrightarrow> (\<exists>d'. (d', t @ v) \<in> set (f (c', s @ v))))"

lemma extendsD: "extends f \<Longrightarrow> (d, t) \<in> set (f (c, s)) \<Longrightarrow> \<exists>d'. (d', t @ v) \<in> set (f (c', s @ v))"
  unfolding extends_def by blast

lemma extends_seq:
  assumes "extends f" "extends g" "(d, t) \<in> set (f (c, s))" "(e, u) \<in> set (g (d, t))"
  shows "\<exists>q e'. q \<in> set (f (c', s @ v)) \<and> (e', u @ v) \<in> set (g q)"
proof -
  obtain d' where "(d', t @ v) \<in> set (f (c', s @ v))"
    using assms(1,3) extendsD by blast
  moreover obtain e' where "(e', u @ v) \<in> set (g (d', t @ v))"
    using assms(2,4) extendsD by blast
  ultimately show ?thesis by blast
qed

lemma extends_rep_run:
  assumes f: "extends f"
  shows "extends (rep_run f n)"
proof (induction n)
  case 0
  then show ?case by (simp add: extends_def)
next
  case (Suc n)
  show ?case
    unfolding extends_def
  proof (intro allI impI)
    fix c s d t c' v
    assume "(d, t) \<in> set (rep_run f (Suc n) (c, s))"
    then consider q where "q \<in> set (f (c, s))" "(d, t) \<in> set (rep_run f n q)" | "(d, t) = (c, s)"
      by auto
    then show "\<exists>d'. (d', t @ v) \<in> set (rep_run f (Suc n) (c', s @ v))"
    proof cases
      case (1 q)
      then show ?thesis
        using extends_seq [OF f Suc.IH, of "fst q" "snd q" c s d t c' v] by auto
    next
      case 2
      then show ?thesis by auto
    qed
  qed
qed

lemma extends_rx_run: "contextual r \<Longrightarrow> extends (rx_run r)"
proof (induction r)
  case (Cat r s)
  then have rs: "extends (rx_run r)" "extends (rx_run s)" by simp_all
  show ?case
    unfolding extends_def
  proof (intro allI impI)
    fix c w d t c' v
    assume "(d, t) \<in> set (rx_run (Cat r s) (c, w))"
    then obtain b u where "(b, u) \<in> set (rx_run r (c, w))" "(d, t) \<in> set (rx_run s (b, u))"
      by auto
    then show "\<exists>d'. (d', t @ v) \<in> set (rx_run (Cat r s) (c', w @ v))"
      using extends_seq [OF rs, of b u c w d t c' v] by auto
  qed
next
  case (Alt r s)
  then show ?case unfolding extends_def by (simp, meson)
next
  case (Rep n r)
  then show ?case using extends_rep_run [of "rx_run r" n] by (simp add: extends_def)
qed (auto simp: extends_def split: list.splits)

lemma rx_run_some: "rx_run r p \<noteq> [] \<longleftrightarrow> (\<exists>d t. (d, t) \<in> set (rx_run r p))"
  by (metis empty_iff list.set(1) list.set_sel(1) surj_pair)

lemma rx_run_append:
  assumes "contextual r" "rx_run r (c, s) \<noteq> []"
  shows "rx_run r (c', s @ v) \<noteq> []"
proof -
  obtain d t where "(d, t) \<in> set (rx_run r (c, s))" using assms(2) rx_run_some by blast
  from extendsD [OF extends_rx_run [OF assms(1)] this] show ?thesis
    unfolding rx_run_some by blast
qed

lemma search_at_append:
  assumes "contextual r" "search_at r c s"
  shows "search_at r c' (s @ v)"
  using assms(2)
proof (induction s arbitrary: c c')
  case Nil
  then have "rx_run r (c', [] @ v) \<noteq> []"
    by (intro rx_run_append [OF assms(1), of c]) simp
  then show ?case by (cases v) simp_all
next
  case (Cons x s)
  then show ?case
    using rx_run_append [OF assms(1), of c "x # s" c' v] by auto
qed

lemma search_at_prepend:
  assumes "contextual r" "search_at r c s"
  shows "search_at r c' (u @ s)"
proof (induction u arbitrary: c')
  case Nil
  then show ?case using search_at_append [OF assms, of c' "[]"] by simp
next
  case (Cons x u)
  then show ?case by simp
qed

lemma rx_search_context: "contextual r \<Longrightarrow> rx_search r s \<Longrightarrow> rx_search r (u @ s @ v)"
  unfolding rx_search_def by (intro search_at_prepend search_at_append) auto

lemma contextual_build [simp]:
  "contextual (lit w)" "contextual (words_rx ws)" "contextual (gap n)"
  "contextual (alts rs) \<longleftrightarrow> list_all contextual rs"
  "contextual (cats rs) \<longleftrightarrow> list_all contextual rs"
proof -
  show l: "contextual (lit w)" for w
    unfolding lit_def by (induction w) auto
  show a: "contextual (alts rs) \<longleftrightarrow> list_all contextual rs" for rs
    unfolding alts_def by (induction rs) (auto simp: none_rx_def)
  show "contextual (words_rx ws)"
    unfolding words_rx_def a by (simp add: list_all_iff l)
  show "contextual (gap n)" by (simp add: gap_def dot_def)
  show "contextual (cats rs) \<longleftrightarrow> list_all contextual rs"
    unfolding cats_def by (induction rs) auto
qed

lemma contextual_checks: "(reason, pattern) \<in> set checks \<Longrightarrow> contextual pattern"
  by (auto simp: checks_def denied_authority_rx_def private_data_rx_def bypass_request_rx_def)

text \<open>
  Padding cannot hide a tripwire phrase: whatever reasons a normalised text trips, every
  normalised text that contains it trips as well.
\<close>

theorem tripwires_monotone: "set (tripped s) \<subseteq> set (tripped (u @ s @ v))"
  by (force simp: tripped_def dest: contextual_checks rx_search_context)

lemma tripped_subset: "set (tripped s) \<subseteq> set TRIPWIRE_REASONS"
  by (auto simp: tripped_def checks_def TRIPWIRE_REASONS_def)

lemma denied_reasons_subset: "set (denied_reasons nf t) \<subseteq> set TRIPWIRE_REASONS"
  by (simp add: denied_reasons_def tripped_subset)

lemma tripped_append_literal: "tripped ''please blacklist them'' = [''DENIED_AUTHORITY'']"
  by code_simp

end
