(* ===== verification/RequestRisk.thy ===== *)
theory RequestRisk
  imports JsonParse Models Tripwires
begin

text \<open>
  \<open>governance/request_risk.py\<close>, the bounded request-scope signal, and the trusted contract of
  \<open>channel_b/invocation_contract_v1.py\<close> it consults. Texts are sequences of code points below 256;
  what Python reads from its Unicode database beyond that (NFKC with case folding, and NFD without
  the combining marks), pydantic, SHA-256, the double a float literal denotes and the
  \<open>repr\<close> of a double are the fields of a record \<open>libs\<close>.
\<close>

record libs = pydantic +
  nfkc_casefold :: "string \<Rightarrow> string"
  strip_marks :: "string \<Rightarrow> string"
  sha256 :: "string \<Rightarrow> string"
  float_of :: "string \<Rightarrow> json"
  float_repr :: "rat \<Rightarrow> string"

section \<open>Strings as Python handles them\<close>

definition lstrip_of :: "(char \<Rightarrow> bool) \<Rightarrow> string \<Rightarrow> string" where
  "lstrip_of P s = dropWhile P s"

definition rstrip_of :: "(char \<Rightarrow> bool) \<Rightarrow> string \<Rightarrow> string" where
  "rstrip_of P s = rev (dropWhile P (rev s))"

definition strip_of :: "(char \<Rightarrow> bool) \<Rightarrow> string \<Rightarrow> string" where
  "strip_of P s = rstrip_of P (lstrip_of P s)"

abbreviation strip_space :: "string \<Rightarrow> string" where
  "strip_space \<equiv> strip_of space_char"

definition loads_str :: "string \<Rightarrow> string option" where
  "loads_str s = (case s of [] \<Rightarrow> None | c # cs \<Rightarrow> if c \<noteq> quote_chr then None
     else (case p_str cs of Some (v, []) \<Rightarrow> Some v | _ \<Rightarrow> None))"

text \<open>Unicode categories in the modelled range: \<open>Cf\<close> is the soft hyphen, \<open>C*\<close> adds the controls.\<close>

definition category_Cf :: "char \<Rightarrow> bool" where
  "category_Cf c \<longleftrightarrow> (of_char c :: nat) = 173"

definition category_C :: "char \<Rightarrow> bool" where
  "category_C c \<longleftrightarrow> (let n = of_char c :: nat in n < 32 \<or> (127 \<le> n \<and> n < 160) \<or> n = 173)"

section \<open>The expressions\<close>

abbreviation space_rx :: rx where "space_rx \<equiv> Sat space_char"

definition plural :: "string \<Rightarrow> rx" where
  "plural w = Cat (lit w) (opt (lit ''s''))"

definition read_head_rx :: rx where
  "read_head_rx = cats [Bos, words_rx
     [''get'', ''show'', ''find'', ''list'', ''read'', ''retrieve'', ''lookup'', ''look up'', ''search'',
      ''summarize'', ''resolve'', ''fetch'', ''consult'', ''recupera'', ''consulta'', ''busca'', ''muestra'',
      ''lee'', ''enumera'', ''resume'', ''localiza'', ''obten'', ''obtener'', ''buscar'', ''consultar'',
      ''recuperar'', ''mostrar''], WordB]"

definition discussion_head_rx :: rx where
  "discussion_head_rx = cats [Bos, words_rx
     [''explain'', ''describe'', ''compare'', ''analyze'', ''analyse'', ''discuss'', ''study'', ''research'',
      ''explica'', ''describe'', ''compara'', ''analiza'', ''discute'', ''estudia'', ''investiga''], WordB]"

definition scope_rx :: rx where
  "scope_rx = cats [WordB, alts
     [lit ''public'', lit ''federal'', plural ''award'', lit ''spending'', plural ''record'', lit ''data'',
      plural ''recipient'', plural ''publico'', plural ''publica'',
      plural ''adjudicacione'', plural ''contrato'', lit ''gasto'', lit ''datos'',
      plural ''registro''], WordB]"

definition action_words :: "string list" where
  "action_words =
     [''approve'', ''authorize'', ''certify'', ''choose'', ''decide'', ''determine'', ''disburse'', ''enact'',
      ''execute'', ''grant'', ''issue'', ''modify'', ''order'', ''pay'', ''release'', ''replace'', ''restrict'',
      ''select'', ''transfer'', ''update'', ''write'', ''aprobar'', ''aprueba'', ''autoriza'', ''autorizar'',
      ''certifica'', ''certificar'', ''elige'', ''elegir'', ''escoge'', ''decide'', ''decidir'', ''declara'',
      ''declarar'', ''determina'', ''determinar'', ''desembolsa'', ''emite'', ''emitir'', ''modifica'',
      ''modificar'', ''ordena'', ''ordenar'', ''paga'', ''pagar'', ''reemplaza'', ''restringe'',
      ''selecciona'', ''transfiere'', ''actualiza'', ''concede'', ''adjudica'']"

definition action_rx :: rx where
  "action_rx = alts
     [cats [WordB, words_rx action_words, WordB],
      cats [WordB, words_rx [''award'', ''contract''], plus_rx space_rx,
            alts [Cat (lit ''a'') (opt (lit ''n'')), lit ''the'', lit ''this'', lit ''that'', lit ''these'',
                  lit ''those'', lit ''it'', lit ''them''], WordB]]"

definition shorthand_rx :: rx where
  "shorthand_rx = alts
     [cats [Bos, words_rx [''public'', ''federal''], opt (cats [lit '' '', words_rx [''public'', ''federal'']]),
            lit '' '',
            alts [plural ''award'', lit ''spending'', lit ''research'', plural ''record'', lit ''data'',
                  plural ''recipient''],
            Star (cats [lit '' '',
              alts [plural ''award'', lit ''spending'', lit ''research'', plural ''record'', lit ''data'',
                    plural ''recipient'', lit ''details'', lit ''summary'', lit ''search'']]), Eos],
      cats [Bos, words_rx [''datos'', ''registros'', ''adjudicaciones'', ''gasto''], lit '' public'',
            words_rx [''o'', ''a'', ''os'', ''as''], Eos]]"

definition clause_rx :: rx where
  "clause_rx = alts
     [plus_rx (Sat (\<lambda>c. c \<in> set ''.;!?'' \<or> c = CHR 0x0A)),
      Cat (lit '','') (Star space_rx),
      cats [WordB, words_rx [''and then'', ''then'', ''and'', ''but'', ''y'', ''luego'', ''despues'', ''pero'',
                             ''ahora''], WordB]]"

definition polite_rx :: rx where
  "polite_rx = cats [Bos, words_rx [''please'', ''could you'', ''can you'', ''por favor'', ''puedes'',
     ''podrias'', ''solo'', ''only'', ''first'', ''primero''], plus_rx space_rx]"

definition negation_rx :: rx where
  "negation_rx = cats [Bos, words_rx [''do not'', ''don'' @ [CHR 0x27] @ ''t'', ''never'', ''no'', ''sin''], WordB]"

definition UNPARSED_QUOTES :: "char list" where
  "UNPARSED_QUOTES = [CHR 0x22, CHR 0x27, CHR 0xAB, CHR 0xBB]"

definition SHORTHAND_WORDS :: "string list" where
  "SHORTHAND_WORDS =
     [''public'', ''federal'', ''award'', ''awards'', ''spending'', ''records'', ''record'', ''data'',
      ''research'', ''details'', ''search'', ''recipient'', ''recipients'', ''contract'', ''contracts'',
      ''lookup'', ''summary'', ''for'', ''of'', ''the'', ''a'', ''an'', ''and'', ''in'', ''publico'', ''publica'',
      ''publicos'', ''publicas'', ''adjudicacion'', ''adjudicaciones'', ''contratos'', ''contrato'', ''datos'',
      ''registros'', ''registro'', ''gasto'', ''investigacion'', ''detalles'', ''consulta'', ''de'', ''del'',
      ''la'', ''las'', ''el'', ''los'']"

definition READ_WORDS :: "string list" where
  "READ_WORDS = SHORTHAND_WORDS @
     [''factual'', ''bounded'', ''matching'', ''known'', ''detail'', ''information'', ''amount'', ''amounts'',
      ''date'', ''dates'', ''candidates'', ''agency'', ''agencies'', ''destinatario'', ''agencia'', ''recorded'',
      ''published'', ''history'', ''historical'', ''fields'', ''identifiers'', ''identifier'', ''page'',
      ''total'', ''totals'', ''one'', ''this'', ''that'', ''these'', ''those'', ''me'', ''please'', ''only'',
      ''from'', ''by'', ''with'', ''on'', ''about'', ''to'', ''during'', ''academic'', ''report'', ''reports'',
      ''university'', ''prevention'', ''research'', ''federal-award'', ''puerto'', ''rico'', ''los'', ''las'',
      ''un'', ''una'', ''unos'', ''unas'', ''para'', ''por'', ''en'', ''con'', ''sobre'', ''informacion'',
      ''importes'', ''importe'', ''fechas'', ''fecha'', ''publicados'', ''publicadas'', ''publicado'',
      ''publicada'', ''historicos'', ''historicas'', ''historial'', ''campos'', ''identificadores'',
      ''universitario'', ''universitaria'', ''informe'', ''informes'', ''academico'', ''academica'', ''este'',
      ''esta'', ''estos'', ''estas'', ''uno'', ''una'', ''solo'']"

section \<open>Named fields\<close>

text \<open>
  \<open>_NAMED_FIELD\<close>, with its groups: whether the label is a recipient label, the matched label, the
  quoted literal, and the end of the match. The label is matched without regard to case.
\<close>

definition lower_ascii :: "char \<Rightarrow> char" where
  "lower_ascii c = (if ascii_upper c then char_of (of_char c + (32::nat)) else c)"

definition lit_i :: "string \<Rightarrow> rx" where
  "lit_i w = foldr (\<lambda>c r. Cat (Sat (\<lambda>d. lower_ascii d = c)) r) w Eps"

abbreviation blank_rx :: rx where "blank_rx \<equiv> Sat (\<lambda>c. c = CHR '' '' \<or> c = CHR 0x09)"

definition label_gap_rx :: rx where
  "label_gap_rx = Cat (plus_rx blank_rx)
     (opt (Cat (alts (map lit_i [''named'', ''called'', ''llamado'', ''llamada''])) (plus_rx blank_rx)))"

definition quoted_rx :: rx where
  "quoted_rx = cats [lit [quote_chr],
     Star (Alt (Sat (\<lambda>c. c \<noteq> quote_chr \<and> c \<noteq> bslash \<and> \<not> (of_char c :: nat) < 32))
               (Cat (lit [bslash]) dot)),
     lit [quote_chr]]"

record named_match =
  m_recipient :: bool
  m_field :: string
  m_name :: string
  m_text :: string
  m_end :: pos

definition between :: "pos \<Rightarrow> pos \<Rightarrow> string" where
  "between p q = take (length (snd p) - length (snd q)) (snd p)"

definition named_at :: "pos \<Rightarrow> named_match list" where
  "named_at p =
     concat (map (\<lambda>p0. concat (map (\<lambda>(is_recipient, labels).
       concat (map (\<lambda>q1. concat (map (\<lambda>q2. map (\<lambda>q3.
           \<lparr>m_recipient = is_recipient, m_field = between p q1, m_name = between q2 q3,
            m_text = between p q3, m_end = q3\<rparr>)
         (rx_run quoted_rx q2)) (rx_run label_gap_rx q1)))
         (rx_run (alts (map lit_i labels)) p0)))
       [(True, [''recipient'', ''destinatario'']), (False, [''agency'', ''agencia''])]))
     (rx_run WordB p))"

text \<open>The leftmost, non-overlapping matches with the text before each; the last text has none.\<close>

function named_fields_at :: "char option \<Rightarrow> string \<Rightarrow> string \<Rightarrow> (string \<times> named_match option) list" where
  "named_fields_at pr acc s =
     (case s of [] \<Rightarrow> [(rev acc, None)]
      | c # cs \<Rightarrow> (case named_at (pr, s) of
            m # _ \<Rightarrow> if length (snd (m_end m)) < length s
                then (rev acc, Some m) # named_fields_at (fst (m_end m)) [] (snd (m_end m))
                else named_fields_at (Some c) (c # acc) cs
          | [] \<Rightarrow> named_fields_at (Some c) (c # acc) cs))"
  by pat_completeness auto
termination
  by (relation "measure (\<lambda>(pr, acc, s). length s)") auto

declare named_fields_at.simps [simp del]

definition named_fields :: "string \<Rightarrow> (string \<times> named_match option) list" where
  "named_fields request = named_fields_at None [] request"

definition matches :: "string \<Rightarrow> named_match list" where
  "matches request = List.map_filter snd (named_fields request)"

definition name_literal :: "libs \<Rightarrow> named_match \<Rightarrow> string option" where
  "name_literal w m = (case loads_str (m_name m) of
       None \<Rightarrow> None
     | Some raw_value \<Rightarrow>
        (let v = strip_space raw_value in
         if \<not> text_ok v then None
         else if list_ex category_C raw_value then None
         else if denied_reasons (nfkc_casefold w) raw_value \<noteq> [] then None
         else Some v))"

section \<open>The trusted contract (channel\_b/invocation\_contract\_v1.py)\<close>

text \<open>
  A contract holds the class its host put in the place of \<open>Search\<close>, and the digests of the four
  schemas at startup. Describing a schema may raise (\<open>None\<close>), and so may encoding it.
\<close>

record contract =
  c_version :: string
  find_model :: string
  find_literal_fields :: "string list"
  registry :: tool_map
  schemas :: tool_map

definition schema_of :: "libs \<Rightarrow> string \<Rightarrow> string option" where
  "schema_of w model = (case model_json_schema w model of
       None \<Rightarrow> None
     | Some d \<Rightarrow> map_option (sha256 w) (dumps True d))"

fun schemas_of :: "libs \<Rightarrow> tool_map \<Rightarrow> tool_map option" where
  "schemas_of w [] = Some []"
| "schemas_of w ((tool, model) # ms) =
     (case schema_of w model of None \<Rightarrow> None
      | Some d \<Rightarrow> map_option ((#) (tool, d)) (schemas_of w ms))"

definition InvocationContract :: "libs \<Rightarrow> string \<Rightarrow> string \<Rightarrow> string list \<Rightarrow> contract option" where
  "InvocationContract w v model literal_fields =
     (if v = [] \<or> \<not> list_all (\<lambda>f. f \<in> {''awarding_agency'', ''recipient_name''}) literal_fields
      then None
      else (let reg = alist_set ''find_federal_awards'' model TOOLS in
            map_option (\<lambda>ds. \<lparr>c_version = v, find_model = model, find_literal_fields = literal_fields,
                         registry = reg, schemas = ds\<rparr>) (schemas_of w reg)))"

definition contract_valid :: "libs \<Rightarrow> contract \<Rightarrow> bool" where
  "contract_valid w c \<longleftrightarrow> schemas_of w (registry c) = Some (schemas c)"

section \<open>Literal constraints on the proposal\<close>

text \<open>
  \<open>getattr(effective, field) != value\<close>: \<open>None\<close> where the attribute does not exist and the
  \<open>AttributeError\<close> leaves the function.
\<close>

type_synonym name_constraints = "(string \<times> string) list"   \<comment> \<open>field, decoded literal\<close>

fun attribute_differs :: "args \<Rightarrow> string \<Rightarrow> string \<Rightarrow> bool option" where
  "attribute_differs (ASearch q) field v =
     (if field = ''recipient_name'' then Some (recipient_name q \<noteq> Some v)
      else if field = ''awarding_agency'' then Some (awarding_agency q \<noteq> Some v) else None)"
| "attribute_differs (AModel c m) field v = map_option (\<lambda>x. x \<noteq> JStr v) (jget field m)"
| "attribute_differs _ field v = None"

fun any_differs :: "args \<Rightarrow> name_constraints \<Rightarrow> string + bool" where
  "any_differs a [] = Inr False"
| "any_differs a ((field, v) # cs) = (case attribute_differs a field v of
       None \<Rightarrow> Inl ''AttributeError''
     | Some True \<Rightarrow> Inr True
     | Some False \<Rightarrow> any_differs a cs)"

fun is_search :: "args \<Rightarrow> bool" where
  "is_search (ASearch q) = True"
| "is_search _ = False"

definition literal_constraints :: "libs \<Rightarrow> string \<Rightarrow> name_constraints" where
  "literal_constraints w request = List.map_filter
     (\<lambda>m. map_option (Pair (if m_recipient m then ''recipient_name'' else ''awarding_agency''))
            (name_literal w m)) (matches request)"

definition literal_proposal_reasons ::
    "libs \<Rightarrow> contract option \<Rightarrow> string \<Rightarrow> string \<Rightarrow> string option \<Rightarrow> string + string list" where
  "literal_proposal_reasons w c request tool arguments_json =
     (let constraints = literal_constraints w request in
      if constraints = [] then Inr []
      else if tool \<notin> {''find_federal_awards'', ''summarize_federal_spending''}
      then Inr [''NAME_LITERAL_PROPOSAL_UNSUPPORTED'']
      else case arguments_json of None \<Rightarrow> Inr [''NAME_LITERAL_PROPOSAL_UNAVAILABLE'']
      | Some aj \<Rightarrow>
       (let reg = (case c of None \<Rightarrow> TOOLS | Some k \<Rightarrow> registry k);
            effective = (if \<not> opt_ok (contract_valid w) c then None
                         else Option.bind (map_of reg tool) (\<lambda>m. model_validate_json w m aj))
        in case effective of None \<Rightarrow> Inr [''NAME_LITERAL_PROPOSAL_UNAVAILABLE'']
        | Some eff \<Rightarrow>
           (if (case c of
                  Some k \<Rightarrow> if tool = ''find_federal_awards''
                    then list_ex (\<lambda>(field, v). field \<notin> set (find_literal_fields k)) constraints
                    else \<not> is_search eff
                | None \<Rightarrow> \<not> is_search eff)
            then Inr [''NAME_LITERAL_PROPOSAL_UNSUPPORTED'']
            else rbind (any_differs eff constraints)
                   (\<lambda>d. Inr (if d then [''NAME_LITERAL_PROPOSAL_MISMATCH''] else [])))))"

section \<open>Assessing a request\<close>

datatype intent = READ_CANDIDATE | DISCUSSION_OR_NEGATION | UNRESOLVED

record request_risk =
  intent_of :: intent
  risk_reasons :: "string list"

definition normalize_text :: "libs \<Rightarrow> string \<Rightarrow> string" where
  "normalize_text w text =
     (let text = nfkc_casefold w text;
          text = filter (\<lambda>c. \<not> category_Cf c) text;
          text = strip_marks w text
      in strip_space (rx_sub (plus_rx (Sat (\<lambda>c. space_char c \<and> c \<noteq> CHR 0x0A))) '' '' text))"

text \<open>\<open>_NAMED_FIELD.sub(named_literal, request)\<close>: a decoded literal is replaced by its label.\<close>

definition mask_literals :: "libs \<Rightarrow> string \<Rightarrow> string" where
  "mask_literals w request = concat (map (\<lambda>(before, om). case om of
       None \<Rightarrow> before
     | Some m \<Rightarrow> before @ (if name_literal w m \<noteq> None then m_field m else m_text m))
     (named_fields request))"

definition clauses_of :: "string \<Rightarrow> string list" where
  "clauses_of text = map (strip_of (\<lambda>c. c \<in> set '' :'' \<or> c = CHR 0x09 \<or> c = CHR 0x0D))
     (filter (\<lambda>c. strip_space c \<noteq> []) (rx_split clause_rx text))"

lemma sub_at_length: "length (sub_at r [] pr s) \<le> length s"
proof (induction r "[] :: string" pr s rule: sub_at.induct)
  case (1 r pr s)
  show ?case
  proof (cases s)
    case (Cons c cs)
    then show ?thesis
      using 1 by (subst sub_at.simps) (fastforce split: option.splits)
  qed (simp add: sub_at.simps)
qed

lemma sub_at_shorter: "sub_at r [] pr s \<noteq> s \<Longrightarrow> length (sub_at r [] pr s) < length s"
proof (induction r "[] :: string" pr s rule: sub_at.induct)
  case (1 r pr s)
  show ?case
  proof (cases s)
    case (Cons c cs)
    show ?thesis
    proof (cases "first_match r (pr, s)")
      case None
      then have "sub_at r [] pr s = c # sub_at r [] (Some c) cs"
        using Cons by (subst sub_at.simps) simp
      then show ?thesis using 1 Cons None by simp
    next
      case (Some q)
      obtain pr' rest where q: "q = (pr', rest)" by (cases q)
      show ?thesis
      proof (cases "length rest < length s")
        case True
        then show ?thesis
          using sub_at_length [of r pr' rest] Cons Some q by (subst sub_at.simps) auto
      next
        case False
        then have "sub_at r [] pr s = c # sub_at r [] (Some c) cs"
          using Cons Some q by (subst sub_at.simps) simp
        then show ?thesis using 1 Cons Some q False by simp
      qed
    qed
  qed (use "1.prems" in \<open>simp add: sub_at.simps\<close>)
qed

function unpolite :: "string \<Rightarrow> string" where
  "unpolite clause =
     (let stripped = rx_sub polite_rx [] clause
      in if stripped = clause then clause else unpolite stripped)"
  by pat_completeness auto
termination
  by (relation "measure length") (auto simp: rx_sub_def intro: sub_at_shorter)

declare unpolite.simps [simp del]

definition known_word :: "string \<Rightarrow> bool" where
  "known_word word \<longleftrightarrow> word \<in> set READ_WORDS \<or> (word \<noteq> [] \<and> list_all ascii_digit word)
     \<or> (length word = 6 \<and> take 2 word = ''fy'' \<and> list_all ascii_digit (drop 2 word))"

definition tail_words :: "string \<Rightarrow> string list" where
  "tail_words rest = rx_findall (cats [WordB, plus_rx (Sat word_char), WordB]) rest"

definition head_rest :: "string \<Rightarrow> string option" where
  "head_rest clause = map_option snd (first_match read_head_rx (None, clause))"

fun assess_clauses :: "bool \<Rightarrow> bool \<Rightarrow> bool \<Rightarrow> string list \<Rightarrow> request_risk" where
  "assess_clauses unparsed discussion read [] =
     (if discussion then \<lparr>intent_of = DISCUSSION_OR_NEGATION, risk_reasons = [''REQUEST_SCOPE_REQUIRES_REVIEW'']\<rparr>
      else if read then \<lparr>intent_of = READ_CANDIDATE, risk_reasons = []\<rparr>
      else \<lparr>intent_of = UNRESOLVED, risk_reasons = [''REQUEST_INTENT_UNRESOLVED'']\<rparr>)"
| "assess_clauses unparsed discussion read (cl # cls) =
     (let clause = unpolite cl in
      if rx_match negation_rx clause \<or> rx_match discussion_head_rx clause
      then assess_clauses unparsed True read cls
      else if rx_search action_rx clause
      then \<lparr>intent_of = UNRESOLVED, risk_reasons = [''CONSEQUENTIAL_REQUEST_REQUIRES_REVIEW'']\<rparr>
      else if unparsed then \<lparr>intent_of = UNRESOLVED, risk_reasons = [''NAME_LITERAL_UNRESOLVED'']\<rparr>
      else case head_rest clause of
          None \<Rightarrow> \<lparr>intent_of = UNRESOLVED, risk_reasons = [''REQUEST_INTENT_UNRESOLVED'']\<rparr>
        | Some rest \<Rightarrow>
            if \<not> rx_search scope_rx clause \<or> list_ex (\<lambda>word. \<not> known_word word) (tail_words rest)
            then \<lparr>intent_of = UNRESOLVED, risk_reasons = [''REQUEST_INTENT_UNRESOLVED'']\<rparr>
            else assess_clauses unparsed discussion True cls)"

definition assess_text :: "string \<Rightarrow> request_risk" where
  "assess_text text =
     (let unparsed = list_ex (\<lambda>c. c \<in> set UNPARSED_QUOTES) text in
      if rx_fullmatch shorthand_rx (rstrip_of (\<lambda>c. c = CHR ''.'') text)
      then \<lparr>intent_of = READ_CANDIDATE, risk_reasons = []\<rparr>
      else (let clauses = clauses_of text in
        if clauses = [] then \<lparr>intent_of = UNRESOLVED, risk_reasons = [''REQUEST_INTENT_UNRESOLVED'']\<rparr>
        else assess_clauses unparsed False False clauses))"

definition assess_request_risk :: "libs \<Rightarrow> string \<Rightarrow> request_risk" where
  "assess_request_risk w request = assess_text (normalize_text w (mask_literals w request))"

section \<open>What a read candidate is\<close>

definition clause_is_read :: "string \<Rightarrow> bool" where
  "clause_is_read clause \<longleftrightarrow>
     \<not> rx_match negation_rx clause \<and> \<not> rx_match discussion_head_rx clause
     \<and> \<not> rx_search action_rx clause \<and> rx_search scope_rx clause
     \<and> (\<exists>rest. head_rest clause = Some rest \<and> list_all known_word (tail_words rest))"

lemma assess_clauses_READ:
  "intent_of (assess_clauses u d r cls) = READ_CANDIDATE \<longleftrightarrow>
     \<not> d \<and> (r \<or> cls \<noteq> []) \<and> (\<forall>cl \<in> set cls. \<not> u \<and> clause_is_read (unpolite cl))"
  by (induction u d r cls rule: assess_clauses.induct)
     (auto simp: Let_def clause_is_read_def list_all_iff list_ex_iff split: option.splits)

lemma assess_clauses_reasons:
  "risk_reasons (assess_clauses u d r cls) = [] \<longleftrightarrow>
     intent_of (assess_clauses u d r cls) = READ_CANDIDATE"
  by (induction u d r cls rule: assess_clauses.induct) (auto simp: Let_def split: option.splits)

lemma assess_reasons:
  "risk_reasons (assess_request_risk w q) = [] \<longleftrightarrow> intent_of (assess_request_risk w q) = READ_CANDIDATE"
  by (auto simp: assess_request_risk_def assess_text_def Let_def assess_clauses_reasons)

text \<open>
  C16. The signal is silent for exactly the texts of the narrow read grammar: the terse shorthand, or
  at least one clause, no quote left over, and every clause, once its polite openings are gone, a
  read verb over a public scope whose remaining words are all known, with no negation, no discussion
  and no consequential verb anywhere in it. No keyword that is merely absent lets a clause through.
\<close>

theorem read_candidate_exactly:
  "risk_reasons (assess_request_risk w q) = [] \<longleftrightarrow>
     (let text = normalize_text w (mask_literals w q) in
        rx_fullmatch shorthand_rx (rstrip_of (\<lambda>c. c = CHR ''.'') text)
        \<or> (clauses_of text \<noteq> [] \<and> \<not> list_ex (\<lambda>c. c \<in> set UNPARSED_QUOTES) text
           \<and> list_all (\<lambda>cl. clause_is_read (unpolite cl)) (clauses_of text)))"
  unfolding assess_reasons assess_request_risk_def assess_text_def Let_def
  by (auto simp: assess_clauses_reasons assess_clauses_READ list_all_iff neq_Nil_conv simp del: assess_clauses.simps)

lemma singular_adjudicacion_not_scoped: "\<not> rx_search scope_rx ''adjudicacion''" "rx_search scope_rx ''adjudicaciones''"
  by code_simp+

end
