(* ===== verification/Policy.thy ===== *)
theory Policy
  imports RequestRisk
begin

text \<open>
  The governance signals and the sole issuer of authority: \<open>governance/judge.py\<close> (the fail-closed
  semantic signal), \<open>governance/agent_k.py\<close> (behavioural signals) and \<open>governance/policy.py\<close>
  (the ordered checks). A function that can let an exception out returns \<open>Inl\<close> its class.
\<close>

section \<open>The semantic signal (judge.py)\<close>

text \<open>\<open>None\<close>: the provider raised, timed out, or returned something that does not validate.\<close>

definition JUDGE_FAILED :: judge_signal where
  "JUDGE_FAILED = JudgeSignal\<lparr>rationale := ''Semantic provider failed or returned an invalid response''\<rparr>"

definition assess_judge :: "judge_signal option \<Rightarrow> judge_signal" where
  "assess_judge provided = (case provided of
       None \<Rightarrow> JUDGE_FAILED
     | Some s \<Rightarrow> if judge_ok s then s else JUDGE_FAILED)"

lemma assess_judge_ok: "judge_ok (assess_judge p)"
  by (simp add: assess_judge_def JUDGE_FAILED_def JudgeSignal_def judge_ok_def split: option.split)

section \<open>Behavioural signals (agent\_k.py)\<close>

definition inspect :: "libs \<Rightarrow> string \<Rightarrow> judge_signal \<Rightarrow> int \<Rightarrow> bool \<Rightarrow> k_signal" where
  "inspect w text judge denials known_tool =
     (let rs = denied_reasons (nfkc_casefold w) text;
          contain = (denials \<ge> 2 \<or> rs \<noteq> [] \<or> \<not> known_tool);
          found = (if ''DENIED_AUTHORITY'' \<in> set rs then [AUTHORITY_OVERREACH] else [])
            @ (if ''PRIVATE_DATA'' \<in> set rs then [OUT_OF_SCOPE_DATA] else [])
            @ (if \<not> known_tool \<or> ''BYPASS_REQUEST'' \<in> set rs then [TOOL_SCOPE_VIOLATION] else [])
            @ (if denials \<ge> 2 then [REPEATED_DENIAL] else [])
            @ (if classified judge = AMBIGUOUS then [AMBIGUOUS_TARGET] else [])
            @ (if contain then [CONTAINMENT_RECOMMENDED] else [])
      in \<lparr>signals = (if found = [] then [NONE] else found), containment = contain\<rparr>)"

lemma inspect_containment [simp]:
  "containment (inspect w t j n kt) \<longleftrightarrow> n \<ge> 2 \<or> denied_reasons (nfkc_casefold w) t \<noteq> [] \<or> \<not> kt"
  by (simp add: inspect_def Let_def)

lemma inspect_quiet:
  "(\<forall>s \<in> set (signals (inspect w t j n kt)). s = NONE) \<longleftrightarrow>
     \<not> containment (inspect w t j n kt) \<and> classified j \<noteq> AMBIGUOUS"
  by (auto simp: inspect_def Let_def)

section \<open>The decision (policy.py)\<close>

record policy_facts =
  f_tool :: string
  f_text :: string
  valid_input :: bool
  bounded :: bool
  public_source :: bool
  provenance_available :: bool
  adapter_available :: bool
  capability :: string
  review_reason :: "string option"
  semantic_required :: bool
  request_text :: "string option"
  arguments_json :: "string option"

definition PolicyFacts :: "string \<Rightarrow> string \<Rightarrow> policy_facts" where
  "PolicyFacts tool text = \<lparr>f_tool = tool, f_text = text, valid_input = True, bounded = True,
     public_source = True, provenance_available = True, adapter_available = True,
     capability = ''PUBLIC_SPENDING_RESEARCH'', review_reason = None, semantic_required = True,
     request_text = None, arguments_json = None\<rparr>"

definition contract_scope_ok :: "libs \<Rightarrow> contract option \<Rightarrow> policy_facts \<Rightarrow> bool" where
  "contract_scope_ok w c facts = (case c of None \<Rightarrow> True
     | Some k \<Rightarrow> contract_valid w k \<and>
         (case arguments_json facts of None \<Rightarrow> False
          | Some aj \<Rightarrow> (case map_of (registry k) (f_tool facts) of None \<Rightarrow> False
              | Some m \<Rightarrow> model_validate_json w m aj \<noteq> None)))"

definition hard_reasons :: "libs \<Rightarrow> contract option \<Rightarrow> policy_facts \<Rightarrow> string list" where
  "hard_reasons w c facts =
     denied_reasons (nfkc_casefold w) (f_text facts)
     @ (if contract_scope_ok w c facts then [] else [''INVALID_CONTRACT_SCOPE''])
     @ (if f_tool facts \<in> set (map fst TOOLS) then [] else [''UNKNOWN_TOOL''])
     @ (if capability facts = ''PUBLIC_SPENDING_RESEARCH'' then [] else [''CAPABILITY_NOT_ALLOWED''])
     @ (if valid_input facts then [] else [''INVALID_INPUT''])
     @ (if public_source facts then [] else [''NONPUBLIC_SOURCE''])"

definition containment_reasons :: "k_signal \<Rightarrow> string list" where
  "containment_reasons k =
     (if containment k then [''CONTAINMENT_REQUIRED''] else [])
     @ (if REPEATED_DENIAL \<in> set (signals k) then [''SESSION_CONTAINMENT_ACTIVE''] else [])"

definition effective_request :: "policy_facts \<Rightarrow> string" where
  "effective_request facts = (case request_text facts of None \<Rightarrow> f_text facts | Some r \<Rightarrow> r)"

definition context_consistent :: "policy_facts \<Rightarrow> bool" where
  "context_consistent facts = (case request_text facts of None \<Rightarrow> True
     | Some r \<Rightarrow> f_text facts = r \<or> prefix (r @ [CHR 0x0A]) (f_text facts))"

definition scope_review :: "libs \<Rightarrow> contract option \<Rightarrow> policy_facts \<Rightarrow> string + string list" where
  "scope_review w c facts =
     rbind (literal_proposal_reasons w c (effective_request facts) (f_tool facts) (arguments_json facts))
       (\<lambda>literal. Inr
         ((if context_consistent facts then [] else [''REQUEST_CONTEXT_INCONSISTENT''])
          @ risk_reasons (assess_request_risk w (effective_request facts))
          @ literal
          @ (if bounded facts then [] else [''QUERY_TOO_BROAD''])
          @ (if provenance_available facts then [] else [''PROVENANCE_UNAVAILABLE''])
          @ (if adapter_available facts then [] else [''ADAPTER_UNAVAILABLE''])
          @ (case review_reason facts of None \<Rightarrow> [] | Some r \<Rightarrow> if r = [] then [] else [r])))"

definition signal_review :: "policy_facts \<Rightarrow> judge_signal \<Rightarrow> k_signal \<Rightarrow> rat \<Rightarrow> string list" where
  "signal_review facts judge k threshold =
     (if semantic_required facts then
        (if \<not> available judge then [''SEMANTIC_FAILURE'']
         else if classified judge \<noteq> IN_SCOPE \<or> confidence judge < threshold \<or> flags judge \<noteq> []
         then [''SEMANTIC_REVIEW_REQUIRED''] else [])
      else [])
     @ (if list_ex (\<lambda>s. s \<noteq> NONE) (signals k) then [''AGENT_K_REVIEW_REQUIRED''] else [])"

definition evaluate_policy ::
    "libs \<Rightarrow> contract option \<Rightarrow> policy_facts \<Rightarrow> judge_signal \<Rightarrow> k_signal \<Rightarrow> rat \<Rightarrow> string + policy_result" where
  "evaluate_policy w c facts judge k threshold =
     (let hard = hard_reasons w c facts @ containment_reasons k in
      if hard \<noteq> [] then Inr \<lparr>decided = DENY, reasons = hard\<rparr>
      else rbind (scope_review w c facts) (\<lambda>scope.
        (let review = scope @ signal_review facts judge k threshold in
         Inr (if review \<noteq> [] then \<lparr>decided = REVIEW_REQUIRED, reasons = review\<rparr>
              else \<lparr>decided = PERMIT, reasons = [''BOUNDED_PUBLIC_RESEARCH'']\<rparr>))))"

section \<open>What the decision depends on\<close>

text \<open>The authority a run of the policy hands out; an exception hands out none.\<close>

definition authority :: "string + policy_result \<Rightarrow> decision" where
  "authority r = (case r of Inl _ \<Rightarrow> DENY | Inr p \<Rightarrow> decided p)"

lemma authority_simps [simp]: "authority (Inl e) = DENY" "authority (Inr p) = decided p"
  by (simp_all add: authority_def)

definition perfect_judge :: judge_signal where
  "perfect_judge = \<lparr>classified = IN_SCOPE, confidence = 1, rationale = [], flags = [],
     available = True, provider = []\<rparr>"

lemma containment_reasons_KSignal [simp]: "containment_reasons KSignal = []"
  by (simp add: containment_reasons_def KSignal_def)

lemma signal_review_perfect [simp]: "signal_review facts perfect_judge KSignal 1 = []"
  by (simp add: signal_review_def perfect_judge_def KSignal_def)

lemma evaluate_cases:
  obtains (deny) "hard_reasons w c f @ containment_reasons k \<noteq> []"
      "evaluate_policy w c f j k t = Inr \<lparr>decided = DENY, reasons = hard_reasons w c f @ containment_reasons k\<rparr>"
  | (raise) e where "hard_reasons w c f = []" "containment_reasons k = []" "scope_review w c f = Inl e"
      "evaluate_policy w c f j k t = Inl e"
  | (review) s where "hard_reasons w c f = []" "containment_reasons k = []" "scope_review w c f = Inr s"
      "s @ signal_review f j k t \<noteq> []"
      "evaluate_policy w c f j k t = Inr \<lparr>decided = REVIEW_REQUIRED, reasons = s @ signal_review f j k t\<rparr>"
  | (permit) "hard_reasons w c f = []" "containment_reasons k = []" "scope_review w c f = Inr []"
      "signal_review f j k t = []"
      "evaluate_policy w c f j k t = Inr \<lparr>decided = PERMIT, reasons = [''BOUNDED_PUBLIC_RESEARCH'']\<rparr>"
proof (cases "hard_reasons w c f @ containment_reasons k = []")
  case False
  then show ?thesis by (intro that(1)) (simp_all add: evaluate_policy_def)
next
  case True
  then have none: "hard_reasons w c f = []" "containment_reasons k = []" by simp_all
  show ?thesis
  proof (cases "scope_review w c f")
    case (Inl e)
    then show ?thesis by (intro that(2) none) (simp_all add: evaluate_policy_def none)
  next
    case (Inr s)
    show ?thesis
    proof (cases "s @ signal_review f j k t = []")
      case True
      then show ?thesis by (intro that(4) none) (simp_all add: evaluate_policy_def none Inr)
    next
      case False
      then show ?thesis by (intro that(3) none Inr) (simp_all add: evaluate_policy_def none Inr)
    qed
  qed
qed

lemma evaluate_DENY_iff:
  "(\<exists>rs. evaluate_policy w c f j k t = Inr \<lparr>decided = DENY, reasons = rs\<rparr>) \<longleftrightarrow>
     hard_reasons w c f @ containment_reasons k \<noteq> []"
  by (rule evaluate_cases [of w c f k j t]) auto

text \<open>
  What each source of the decision permits at most, on its own. The facts: denied by any hard limit (or when the
  checks of the request raise), to be reviewed when any limit of the bounded research is not met. The judge, where
  one is required: never a denial, a permission only when it is available, in scope, confident and without flags.
  Agent K: a denial when it contains, a review when it has anything to say.
\<close>

definition facts_cap :: "libs \<Rightarrow> contract option \<Rightarrow> policy_facts \<Rightarrow> decision" where
  "facts_cap w c f =
     (if denied_reasons (nfkc_casefold w) (f_text f) = [] \<and> contract_scope_ok w c f \<and> f_tool f \<in> set (map fst TOOLS)
         \<and> capability f = ''PUBLIC_SPENDING_RESEARCH'' \<and> valid_input f \<and> public_source f
      then (case literal_proposal_reasons w c (effective_request f) (f_tool f) (arguments_json f) of
           Inl e \<Rightarrow> DENY
         | Inr literal \<Rightarrow>
             if literal = [] \<and> context_consistent f \<and> risk_reasons (assess_request_risk w (effective_request f)) = []
                \<and> bounded f \<and> provenance_available f \<and> adapter_available f \<and> review_reason f \<in> {None, Some []}
             then PERMIT else REVIEW_REQUIRED)
      else DENY)"

definition judge_cap :: "policy_facts \<Rightarrow> judge_signal \<Rightarrow> rat \<Rightarrow> decision" where
  "judge_cap f j t = (if semantic_required f \<longrightarrow> available j \<and> classified j = IN_SCOPE \<and> t \<le> confidence j \<and> flags j = []
     then PERMIT else REVIEW_REQUIRED)"

definition k_cap :: "k_signal \<Rightarrow> decision" where
  "k_cap k = (if containment k \<or> REPEATED_DENIAL \<in> set (signals k) then DENY
     else if set (signals k) \<subseteq> {NONE} then PERMIT else REVIEW_REQUIRED)"

lemma hard_reasons_Nil: "hard_reasons w c f = [] \<longleftrightarrow>
    denied_reasons (nfkc_casefold w) (f_text f) = [] \<and> contract_scope_ok w c f \<and> f_tool f \<in> set (map fst TOOLS)
    \<and> capability f = ''PUBLIC_SPENDING_RESEARCH'' \<and> valid_input f \<and> public_source f"
  by (simp add: hard_reasons_def)

lemma containment_reasons_Nil: "containment_reasons k = [] \<longleftrightarrow> \<not> containment k \<and> REPEATED_DENIAL \<notin> set (signals k)"
  by (simp add: containment_reasons_def)

lemma signal_review_Nil: "signal_review f j k t = [] \<longleftrightarrow> judge_cap f j t = PERMIT \<and> set (signals k) \<subseteq> {NONE}"
  by (auto simp: signal_review_def judge_cap_def list_ex_iff not_less)

lemma facts_cap_reasons: "facts_cap w c f =
    (if hard_reasons w c f = [] then (case scope_review w c f of Inl e \<Rightarrow> DENY | Inr s \<Rightarrow> if s = [] then PERMIT else REVIEW_REQUIRED)
     else DENY)"
  by (auto simp: facts_cap_def hard_reasons_Nil scope_review_def split: sum.split option.split)

lemma k_cap_Nil: "k_cap k = (if containment_reasons k \<noteq> [] then DENY else if set (signals k) \<subseteq> {NONE} then PERMIT else REVIEW_REQUIRED)"
  by (simp add: k_cap_def containment_reasons_Nil)

lemma judge_cap_cases: "judge_cap f j t = PERMIT \<or> judge_cap f j t = REVIEW_REQUIRED"
  by (simp add: judge_cap_def)

lemma min_decision [simp]: "min DENY d = DENY" "min d DENY = DENY" "min PERMIT d = d" "min d PERMIT = d"
  by (cases d; simp add: min_def less_eq_decision_def)+

text \<open>
  C13. Every signal only restricts, and none is passed over. The authority a run of the policy hands out is exactly
  the least of what the facts, the semantic judge and Agent K each permit on their own; the judge on its own never
  denies. So no judge, threshold or behavioural signal lifts a denial or a review that another source asks for.
\<close>

theorem signals_only_restrict:
  "authority (evaluate_policy w c f j k t) = min (facts_cap w c f) (min (judge_cap f j t) (k_cap k))"
proof (cases rule: evaluate_cases [of w c f k j t])
  case deny
  then show ?thesis by (cases "hard_reasons w c f = []") (simp_all add: facts_cap_reasons k_cap_Nil)
next
  case (raise e)
  then show ?thesis by (simp add: facts_cap_reasons)
next
  case (review s)
  then show ?thesis
    using judge_cap_cases [of f j t] by (auto simp: facts_cap_reasons k_cap_Nil signal_review_Nil)
next
  case permit
  then show ?thesis by (simp add: facts_cap_reasons k_cap_Nil signal_review_Nil)
qed

text \<open>
  C12. A denial cannot be annulled by the semantic judge: the policy denies exactly when a tripwire,
  the contract, the tool, the capability, the input, the source or Agent K gives a reason, and then
  every other judge signal and threshold gets the very same result.
\<close>

theorem denial_ignores_judge:
  "(decided r = DENY \<and> evaluate_policy w c f j k t = Inr r) \<longleftrightarrow>
     (hard_reasons w c f @ containment_reasons k \<noteq> [] \<and> reasons r = hard_reasons w c f @ containment_reasons k
      \<and> decided r = DENY \<and> evaluate_policy w c f j' k t' = Inr r)"
proof (cases "hard_reasons w c f @ containment_reasons k = []")
  case True
  then show ?thesis by (cases rule: evaluate_cases [of w c f k j t]) auto
next
  case False
  then show ?thesis by (cases r) (auto simp: evaluate_policy_def)
qed

section \<open>Names in the request bind the effective filters\<close>

lemma any_differs_False:
  "any_differs a cs = Inr False \<Longrightarrow> (field, v) \<in> set cs \<Longrightarrow> attribute_differs a field v = Some False"
  by (induction a cs rule: any_differs.induct) (auto split: option.splits bool.splits)

lemma literal_constraints_field:
  "(field, v) \<in> set (literal_constraints w q) \<Longrightarrow> field = ''recipient_name'' \<or> field = ''awarding_agency''"
  by (auto simp: literal_constraints_def List.map_filter_def split: option.splits if_splits)

lemma scope_review_silent:
  assumes "scope_review w c f = Inr []"
  shows "literal_proposal_reasons w c (effective_request f) (f_tool f) (arguments_json f) = Inr []"
    "risk_reasons (assess_request_risk w (effective_request f)) = []"
    "context_consistent f" "bounded f" "provenance_available f" "adapter_available f"
    "review_reason f = None \<or> review_reason f = Some []"
  using assms by (auto simp: scope_review_def rbind_Inr_iff split: if_splits option.splits)

lemma permit_scope:
  "evaluate_policy w c f j k t = Inr r \<Longrightarrow> decided r = PERMIT \<Longrightarrow>
     hard_reasons w c f = [] \<and> containment_reasons k = [] \<and> scope_review w c f = Inr []
     \<and> signal_review f j k t = []"
  by (cases rule: evaluate_cases [of w c f k j t]) auto

lemma silent_proposal:
  assumes "literal_proposal_reasons w None request tool aj = Inr []"
    and "(field, v) \<in> set (literal_constraints w request)"
  obtains js q where "aj = Some js" "tool \<in> {''find_federal_awards'', ''summarize_federal_spending''}"
    "model_validate_json w ''Search'' js = Some (ASearch q)"
    "any_differs (ASearch q) (literal_constraints w request) = Inr False"
proof -
  have some: "literal_constraints w request \<noteq> []" using assms(2) by auto
  have tools: "tool \<in> {''find_federal_awards'', ''summarize_federal_spending''}"
    using assms(1) some by (auto simp: literal_proposal_reasons_def Let_def split: if_splits)
  then have search: "map_of TOOLS tool = Some ''Search''" by (auto simp: TOOLS_def)
  obtain js where js: "aj = Some js"
    using assms(1) some tools by (cases aj) (auto simp: literal_proposal_reasons_def)
  obtain eff where eff: "model_validate_json w ''Search'' js = Some eff"
    using assms(1) some tools search js
    by (cases "model_validate_json w ''Search'' js") (auto simp: literal_proposal_reasons_def opt_ok_def)
  obtain q where q: "eff = ASearch q"
    using assms(1) some tools search js eff
    by (cases eff) (auto simp: literal_proposal_reasons_def opt_ok_def)
  have "any_differs (ASearch q) (literal_constraints w request) = Inr False"
    using assms(1) some tools search js eff q
    by (auto simp: literal_proposal_reasons_def opt_ok_def rbind_Inr_iff split: if_splits)
  then show thesis using that js tools eff q by blast
qed

text \<open>
  A permission binds the names the request quotes: when the policy permits, every recipient or
  agency the request labels with a decoded literal is, character for character, the filter of the
  validated search arguments that would be executed.
\<close>

theorem permit_binds_names:
  assumes "evaluate_policy w None f j k t = Inr r" "decided r = PERMIT"
    and "(field, v) \<in> set (literal_constraints w (effective_request f))"
  shows "\<exists>js q. arguments_json f = Some js \<and> model_validate_json w ''Search'' js = Some (ASearch q)
     \<and> (if field = ''recipient_name'' then recipient_name q else awarding_agency q) = Some v"
proof -
  from permit_scope [OF assms(1,2)] scope_review_silent(1)
  have lp: "literal_proposal_reasons w None (effective_request f) (f_tool f) (arguments_json f) = Inr []"
    by blast
  obtain js q where q: "arguments_json f = Some js"
    "model_validate_json w ''Search'' js = Some (ASearch q)"
    "any_differs (ASearch q) (literal_constraints w (effective_request f)) = Inr False"
    using silent_proposal [OF lp assms(3)] by blast
  have "attribute_differs (ASearch q) field v = Some False"
    by (rule any_differs_False [OF q(3) assms(3)])
  then have "(if field = ''recipient_name'' then recipient_name q else awarding_agency q) = Some v"
    using literal_constraints_field [OF assms(3)] by (auto split: if_splits)
  then show ?thesis using q by blast
qed

text \<open>A small instance: no Unicode beyond ASCII, one search for the recipient \<open>Acme\<close>.\<close>

definition example_search :: search_args where
  "example_search = \<lparr>recipient_name = Some ''Acme'', awarding_agency = None, start_date = 738886,
     end_date = 739250, state_code = None, award_types = [''A''], search_limit = 10\<rparr>"

definition example_libs :: libs where
  "example_libs = \<lparr>model_validate = (\<lambda>c v. if c = ''Search'' then Some (ASearch example_search) else None),
     model_validate_json = (\<lambda>c s. if c = ''Search'' then Some (ASearch example_search) else None),
     model_dump = (\<lambda>a. JObj [(''recipient_name'', JStr ''Acme'')]), model_dump_json = (\<lambda>a. ''{}''),
     model_json_schema = (\<lambda>c. Some (JObj [(''title'', JStr c)])),
     nfkc_casefold = map lower_ascii, strip_marks = (\<lambda>s. s), sha256 = (\<lambda>s. replicate 64 (CHR ''0'')),
     float_of = demo_float, float_repr = demo_repr\<rparr>"

definition example_facts :: policy_facts where
  "example_facts = (PolicyFacts ''find_federal_awards''
      (''Find federal awards for recipient '' @ [quote_chr] @ ''Acme'' @ [quote_chr]))
     \<lparr>arguments_json := Some ''{}''\<rparr>"

lemma example_permit:
  "evaluate_policy example_libs None example_facts perfect_judge KSignal 1 =
     Inr \<lparr>decided = PERMIT, reasons = [''BOUNDED_PUBLIC_RESEARCH'']\<rparr>"
  by code_simp

lemma example_constraint:
  "literal_constraints example_libs (effective_request example_facts) = [(''recipient_name'', ''Acme'')]"
  by code_simp

theorem permit_binds_names_witness:
  "\<exists>js q. arguments_json example_facts = Some js
     \<and> model_validate_json example_libs ''Search'' js = Some (ASearch q) \<and> recipient_name q = Some ''Acme''"
  using permit_binds_names [OF example_permit, of "''recipient_name''" "''Acme''"]
  by (simp add: example_constraint)

end
