(* ===== verification/Interfaces.thy ===== *)
theory Interfaces
  imports Prelude
begin

text \<open>
  The contracts the components rely on, as locales: what a provider of single-use authority promises,
  proved once for every client. Each is interpreted on the model of the code that provides it, in that
  component's theory.
\<close>

section \<open>Single-use authority\<close>

text \<open>Runs of a step function that may redeem a handle: the handles redeemed, in order.\<close>

fun run_ops :: "('op \<Rightarrow> 's \<Rightarrow> 's \<times> 'h option) \<Rightarrow> 'op list \<Rightarrow> 's \<Rightarrow> 's \<times> 'h list" where
  "run_ops step [] s = (s, [])"
| "run_ops step (x # xs) s =
     (let (s1, r) = step x s; (s2, rs) = run_ops step xs s1
      in (s2, (case r of None \<Rightarrow> rs | Some h \<Rightarrow> h # rs)))"

lemma run_ops_Cons:
  "run_ops step (x # xs) s =
     (fst (run_ops step xs (fst (step x s))),
      (case snd (step x s) of None \<Rightarrow> snd (run_ops step xs (fst (step x s)))
       | Some h \<Rightarrow> h # snd (run_ops step xs (fst (step x s)))))"
  by (simp add: Let_def split_beta)

declare run_ops.simps(2) [simp del]
declare run_ops_Cons [simp]

lemma run_ops_inv:
  assumes "\<And>x s. P s \<Longrightarrow> P (fst (step x s))" and "P s"
  shows "P (fst (run_ops step xs s))"
  using assms(2) by (induction xs arbitrary: s) (auto intro: assms(1))

locale single_use =
  fixes inv :: "'s \<Rightarrow> bool"
    and live :: "'s \<Rightarrow> 'h \<Rightarrow> bool"
    and known :: "'s \<Rightarrow> 'h \<Rightarrow> bool"
    and step :: "'op \<Rightarrow> 's \<Rightarrow> 's \<times> 'h option"
  assumes inv_step: "inv s \<Longrightarrow> inv (fst (step x s))"
    and redeemed_live: "inv s \<Longrightarrow> snd (step x s) = Some h \<Longrightarrow> live s h"
    and redeemed_spent: "inv s \<Longrightarrow> snd (step x s) = Some h \<Longrightarrow>
      known (fst (step x s)) h \<and> \<not> live (fst (step x s)) h"
    and stays_spent: "inv s \<Longrightarrow> known s h \<Longrightarrow> \<not> live s h \<Longrightarrow>
      known (fst (step x s)) h \<and> \<not> live (fst (step x s)) h"
begin

lemma inv_run: "inv s \<Longrightarrow> inv (fst (run_ops step xs s))"
  by (rule run_ops_inv [of inv]) (rule inv_step)

lemma spent_never_redeemed:
  "inv s \<Longrightarrow> known s h \<Longrightarrow> \<not> live s h \<Longrightarrow> h \<notin> set (snd (run_ops step xs s))"
proof (induction xs arbitrary: s)
  case (Cons x xs)
  have "snd (step x s) \<noteq> Some h" using redeemed_live Cons.prems by blast
  moreover have "h \<notin> set (snd (run_ops step xs (fst (step x s))))"
    using Cons.IH inv_step stays_spent Cons.prems by blast
  ultimately show ?case by (cases "snd (step x s)") auto
qed simp

lemma redeemed_once: "inv s \<Longrightarrow> distinct (snd (run_ops step xs s))"
proof (induction xs arbitrary: s)
  case (Cons x xs)
  note rest = Cons.IH [OF inv_step [OF Cons.prems]]
  show ?case
  proof (cases "snd (step x s)")
    case (Some h)
    then show ?thesis
      using rest spent_never_redeemed [OF inv_step [OF Cons.prems]] redeemed_spent [OF Cons.prems Some]
      by simp
  qed (use rest in simp)
qed simp

end

section \<open>Hash chains\<close>

text \<open>
  A chain of records, each linked to the digest before it. \<open>broken\<close> says that the hash function has
  failed: a collision, or a digest of the wrong shape.
\<close>

locale hash_chain =
  fixes link :: "'d \<Rightarrow> 'p \<Rightarrow> 'd"
    and start :: 'd
    and digest :: "'d \<Rightarrow> bool"
    and record_ok :: "'p \<Rightarrow> bool"
    and broken :: bool
  assumes start_digest: "digest start"
    and link_digest: "\<not> broken \<Longrightarrow> digest (link d p)"
    and link_start: "\<not> broken \<Longrightarrow> link d p \<noteq> start"
    and link_inject: "\<not> broken \<Longrightarrow> digest d \<Longrightarrow> digest e \<Longrightarrow> record_ok p \<Longrightarrow> record_ok q \<Longrightarrow>
      link d p = link e q \<Longrightarrow> d = e \<and> p = q"
begin

lemma foldl_digest: "\<not> broken \<Longrightarrow> digest (foldl link start ps)"
  by (cases ps rule: rev_cases) (simp_all add: start_digest link_digest)

lemma head_determines_chain:
  assumes "\<not> broken" "list_all record_ok ps" "list_all record_ok qs" "foldl link start ps = foldl link start qs"
  shows "ps = qs"
  using assms(2-4)
proof (induction ps arbitrary: qs rule: rev_induct)
  case Nil
  then show ?case using link_start [OF assms(1)] by (cases qs rule: rev_cases) (auto dest: sym)
next
  case (snoc p ps)
  show ?case
  proof (cases qs rule: rev_cases)
    case Nil
    with snoc.prems show ?thesis using link_start [OF assms(1)] by auto
  next
    case (snoc qs' q)
    have "foldl link start ps = foldl link start qs' \<and> p = q"
      using snoc.prems snoc by (intro link_inject [OF assms(1)]) (simp_all add: foldl_digest assms(1))
    with snoc.IH snoc.prems snoc show ?thesis by simp
  qed
qed

end

end
