(* ===== verification/Execution.thy ===== *)
theory Execution
  imports Policy Interfaces
begin

text \<open>
  \<open>governance/execution.py\<close>: the boundary that issues a single-use envelope when, and only when, the
  policy permits, and checks it before dispatch. An envelope's identity is a handle, the object
  identity the code uses; an issued record keeps the object it issued, whose fields a caller can
  have altered since. The clock and the live registry are arguments; times are rationals.
\<close>

section \<open>Bindings and envelopes\<close>

text \<open>The exceptions told apart by a handler: the boundary's, a journal's hold, any other by its class.\<close>

datatype exn = BoundaryError string | LocalHold string | OtherError string

definition POLICY_VERSION :: string where "POLICY_VERSION = ''civicgate-mvp-1''"
definition OPERATION_SCOPE :: string where "OPERATION_SCOPE = ''PUBLIC_SPENDING_RESEARCH''"
definition MAX_OUTSTANDING_ENVELOPES :: nat where "MAX_OUTSTANDING_ENVELOPES = 256"

text \<open>\<open>_canonical\<close> (\<open>None\<close>: it raised), and its text for a value that has no non-finite number.\<close>

definition canonical :: "json \<Rightarrow> string option" where "canonical v = dumps False v"
definition canonical_text :: "json \<Rightarrow> string" where "canonical_text v = enc False (jsort v)"

record execution_binding =
  x_request_id :: string
  x_tool :: string
  x_arguments_json :: string
  x_arguments_sha256 :: string
  x_schema_sha256 :: string
  x_operation_scope :: string
  x_policy_decision :: decision
  x_policy_sha256 :: string
  x_policy_facts_sha256 :: string
  x_policy_context_sha256 :: string

record authority_envelope =
  a_binding :: execution_binding
  a_decision :: decision
  a_reasons :: "string list"
  a_policy_version :: string
  a_issued_at :: rat
  a_expires_at :: rat

record issued =
  i_envelope :: authority_envelope
  i_serialized :: string
  i_context_json :: string
  i_issued_at :: rat
  i_expires_at :: rat

fun decision_text :: "decision \<Rightarrow> string" where
  "decision_text DENY = ''DENY''"
| "decision_text REVIEW_REQUIRED = ''REVIEW_REQUIRED''"
| "decision_text PERMIT = ''PERMIT''"

definition opt_str :: "string option \<Rightarrow> json" where
  "opt_str x = (case x of None \<Rightarrow> JNull | Some s \<Rightarrow> JStr s)"

definition float_json :: "libs \<Rightarrow> rat \<Rightarrow> json" where
  "float_json w r = JNum r (float_repr w r)"

definition binding_json :: "execution_binding \<Rightarrow> json" where
  "binding_json b = JObj
     [(''request_id'', JStr (x_request_id b)), (''tool'', JStr (x_tool b)),
      (''arguments_json'', JStr (x_arguments_json b)), (''arguments_sha256'', JStr (x_arguments_sha256 b)),
      (''schema_sha256'', JStr (x_schema_sha256 b)), (''operation_scope'', JStr (x_operation_scope b)),
      (''policy_decision'', JStr (decision_text (x_policy_decision b))),
      (''policy_sha256'', JStr (x_policy_sha256 b)),
      (''policy_facts_sha256'', JStr (x_policy_facts_sha256 b)),
      (''policy_context_sha256'', JStr (x_policy_context_sha256 b))]"

definition binding_sha256 :: "libs \<Rightarrow> execution_binding \<Rightarrow> string" where
  "binding_sha256 w b = sha256 w (canonical_text (binding_json b))"

definition binding_audit_record :: "libs \<Rightarrow> execution_binding \<Rightarrow> json" where
  "binding_audit_record w b = (case binding_json b of
       JObj ms \<Rightarrow> JObj (filter (\<lambda>(k, v). k \<noteq> ''arguments_json'') ms
                       @ [(''binding_sha256'', JStr (binding_sha256 w b))])
     | v \<Rightarrow> v)"

definition envelope_json :: "libs \<Rightarrow> authority_envelope \<Rightarrow> json" where
  "envelope_json w e = JObj
     [(''binding'', binding_json (a_binding e)), (''decision'', JStr (decision_text (a_decision e))),
      (''reasons'', JList (map JStr (a_reasons e))), (''policy_version'', JStr (a_policy_version e)),
      (''issued_at'', float_json w (a_issued_at e)), (''expires_at'', float_json w (a_expires_at e))]"

definition policy_json :: "policy_result \<Rightarrow> json" where
  "policy_json p = JObj [(''decision'', JStr (decision_text (decided p))),
                         (''reasons'', JList (map JStr (reasons p)))]"

definition facts_json :: "policy_facts \<Rightarrow> json" where
  "facts_json f = JObj
     [(''tool'', JStr (f_tool f)), (''text'', JStr (f_text f)), (''valid_input'', JBool (valid_input f)),
      (''bounded'', JBool (bounded f)), (''public_source'', JBool (public_source f)),
      (''provenance_available'', JBool (provenance_available f)),
      (''adapter_available'', JBool (adapter_available f)), (''capability'', JStr (capability f)),
      (''review_reason'', opt_str (review_reason f)), (''semantic_required'', JBool (semantic_required f)),
      (''request_text'', opt_str (request_text f)), (''arguments_json'', opt_str (arguments_json f))]"

section \<open>The boundary\<close>

record config =
  g_contract :: "contract option"
  g_registry :: tool_map   \<comment> \<open>the live mapping\<close>
  g_models :: tool_map     \<comment> \<open>its copy at startup\<close>
  g_schemas :: tool_map
  g_max_age :: rat

record boundary =
  b_issued :: "(nat \<times> issued) list"
  b_next :: nat                            \<comment> \<open>object identities given so far\<close>

definition canonical_schema :: "libs \<Rightarrow> string \<Rightarrow> string option" where
  "canonical_schema w model =
     Option.bind (model_json_schema w model) (\<lambda>d. map_option (sha256 w) (canonical d))"

fun canonical_schemas :: "libs \<Rightarrow> tool_map \<Rightarrow> tool_map option" where
  "canonical_schemas w [] = Some []"
| "canonical_schemas w ((tool, model) # ms) =
     Option.bind (canonical_schema w model) (\<lambda>d. map_option ((#) (tool, d)) (canonical_schemas w ms))"

text \<open>\<open>None\<close>: the constructor raised.\<close>

definition ExecutionBoundary ::
    "libs \<Rightarrow> tool_map \<Rightarrow> contract option \<Rightarrow> rat \<Rightarrow> (config \<times> boundary) option" where
  "ExecutionBoundary w reg c max_age =
     (if max_age \<le> 0 \<or> \<not> opt_ok (\<lambda>k. contract_valid w k \<and> reg = registry k) c then None
      else map_option (\<lambda>schs.
          (\<lparr>g_contract = c, g_registry = reg, g_models = reg, g_schemas = schs, g_max_age = max_age\<rparr>,
           \<lparr>b_issued = [], b_next = 0\<rparr>))
        (canonical_schemas w reg))"

text \<open>The context is the tuple the caller passed: anything JSON can hold.\<close>

fun num_val :: "json \<Rightarrow> rat option" where
  "num_val (JInt i) = Some (of_int i)"
| "num_val (JNum r s) = Some r"
| "num_val _ = None"

definition context_ok :: "json list \<Rightarrow> bool" where
  "context_ok ctx = (case ctx of
       [a, b, t, d] \<Rightarrow> is_bool a \<and> is_bool b
         \<and> (case num_val t of Some r \<Rightarrow> 0 \<le> r \<and> r \<le> 1 | None \<Rightarrow> False)
         \<and> (case d of JInt n \<Rightarrow> 0 \<le> n | _ \<Rightarrow> False)
     | _ \<Rightarrow> False)"

definition context_json :: "json list \<Rightarrow> string + string" where
  "context_json ctx = (if context_ok ctx then Inr (canonical_text (JList ctx))
                       else Inl ''POLICY_CONTEXT_INVALID'')"

definition dict_eq :: "tool_map \<Rightarrow> tool_map \<Rightarrow> bool" where
  "dict_eq xs ys \<longleftrightarrow> list_all (\<lambda>(k, v). map_of ys k = Some v) xs \<and> list_all (\<lambda>(k, v). map_of xs k = Some v) ys"

definition schema_step :: "libs \<Rightarrow> config \<Rightarrow> string \<Rightarrow> string + string \<times> string" where
  "schema_step w g tool = (case map_of (g_models g) tool of
       None \<Rightarrow> Inl ''TOOL_NOT_REGISTERED''
     | Some model \<Rightarrow>
         if \<not> dict_eq (g_registry g) (g_models g) then Inl ''TOOL_REGISTRY_DRIFT''
         else (case canonical_schema w model of
             None \<Rightarrow> Inl ''TOOL_REGISTRY_DRIFT''
           | Some current \<Rightarrow> if map_of (g_schemas g) tool = Some current then Inr (model, current)
                             else Inl ''TOOL_REGISTRY_DRIFT''))"

definition arguments_step :: "libs \<Rightarrow> config \<Rightarrow> string \<Rightarrow> json option \<Rightarrow> string + string \<times> string" where
  "arguments_step w g tool arguments =
     rbind (schema_step w g tool) (\<lambda>(model, sch). case arguments of
         Some (JObj ms) \<Rightarrow>
           (case Option.bind (canonical (JObj ms)) (\<lambda>_.
                   Option.bind (model_validate w model (JObj ms)) (\<lambda>a. canonical (model_dump w a))) of
              None \<Rightarrow> Inl ''ARGUMENTS_INVALID''
            | Some aj \<Rightarrow> Inr (aj, sch))
       | _ \<Rightarrow> Inl ''ARGUMENTS_INVALID'')"

text \<open>The clock: \<open>None\<close> when it raised or gave no finite number. Doubles beyond the largest overflow.\<close>

definition DBL_MAX :: rat where "DBL_MAX = 2 ^ 1024 - 2 ^ 970"

definition now_step :: "rat option \<Rightarrow> string + rat" where
  "now_step clock = (case clock of None \<Rightarrow> Inl ''ENVELOPE_TIME_INVALID'' | Some t \<Rightarrow> Inr t)"

definition fresh_facts :: "libs \<Rightarrow> config \<Rightarrow> policy_facts \<Rightarrow> string \<Rightarrow> bool" where
  "fresh_facts w g facts aj = (case arguments_json facts of None \<Rightarrow> True
     | Some fa \<Rightarrow> (case json_loads (float_of w) fa of None \<Rightarrow> False
         | Some v \<Rightarrow> (case arguments_step w g (f_tool facts) (Some v) of
               Inl e \<Rightarrow> False | Inr (aj', sch) \<Rightarrow> aj' = aj)))"

definition make_binding ::
    "libs \<Rightarrow> string \<Rightarrow> policy_facts \<Rightarrow> policy_result \<Rightarrow> string \<Rightarrow> string \<Rightarrow> string \<Rightarrow> execution_binding" where
  "make_binding w rid facts policy cj aj sch =
     \<lparr>x_request_id = rid, x_tool = f_tool facts, x_arguments_json = aj,
      x_arguments_sha256 = sha256 w aj, x_schema_sha256 = sch, x_operation_scope = OPERATION_SCOPE,
      x_policy_decision = decided policy, x_policy_sha256 = sha256 w (canonical_text (policy_json policy)),
      x_policy_facts_sha256 = sha256 w (canonical_text (facts_json facts)),
      x_policy_context_sha256 = sha256 w cj\<rparr>"

text \<open>
  The last part of \<open>evaluate\<close>, from the clock on: expired records go first, and stay gone when a
  later check raises.
\<close>

definition issue_step ::
    "libs \<Rightarrow> config \<Rightarrow> rat option \<Rightarrow> execution_binding \<Rightarrow> policy_result \<Rightarrow> string
       \<Rightarrow> boundary \<Rightarrow> (boundary, exn, policy_result \<times> nat option) outcome" where
  "issue_step w g clock binding policy cj s = (case now_step clock of
       Inl e \<Rightarrow> (s, Inl (BoundaryError e))
     | Inr now \<Rightarrow>
        (let s1 = s\<lparr>b_issued := filter (\<lambda>(h, i). \<not> i_expires_at i \<le> now) (b_issued s)\<rparr>;
             expires = now + g_max_age g in
         if list_ex (\<lambda>(h, i). x_request_id (a_binding (i_envelope i)) = x_request_id binding) (b_issued s1)
         then (s1, Inl (BoundaryError ''REQUEST_ID_REUSED''))
         else if MAX_OUTSTANDING_ENVELOPES \<le> length (b_issued s1)
         then (s1, Inl (BoundaryError ''ISSUANCE_CAPACITY_EXCEEDED''))
         else if \<not> \<bar>expires\<bar> \<le> DBL_MAX then (s1, Inl (BoundaryError ''ENVELOPE_TIME_INVALID''))
         else (let e = \<lparr>a_binding = binding, a_decision = decided policy, a_reasons = reasons policy,
                        a_policy_version = POLICY_VERSION, a_issued_at = now, a_expires_at = expires\<rparr>;
                   i = \<lparr>i_envelope = e, i_serialized = canonical_text (envelope_json w e),
                        i_context_json = cj, i_issued_at = now, i_expires_at = expires\<rparr>
               in (s1\<lparr>b_issued := b_issued s1 @ [(b_next s1, i)], b_next := Suc (b_next s1)\<rparr>,
                   Inr (policy, Some (b_next s1))))))"

definition evaluate ::
    "libs \<Rightarrow> config \<Rightarrow> rat option \<Rightarrow> string \<Rightarrow> policy_facts \<Rightarrow> judge_signal \<Rightarrow> k_signal \<Rightarrow> json
       \<Rightarrow> json option \<Rightarrow> json list \<Rightarrow> boundary \<Rightarrow> (boundary, exn, policy_result \<times> nat option) outcome" where
  "evaluate w g clock rid facts judge k threshold arguments ctx s =
     (case context_json ctx of Inl e \<Rightarrow> (s, Inl (BoundaryError e))
      | Inr cj \<Rightarrow>
     (case num_val threshold of None \<Rightarrow> (s, Inl (BoundaryError ''POLICY_CONTEXT_INVALID''))
      | Some thr \<Rightarrow>
     if rid = [] \<or> num_val (ctx ! 2) \<noteq> Some thr \<or> ctx ! 0 \<noteq> JBool (semantic_required facts)
     then (s, Inl (BoundaryError ''POLICY_CONTEXT_INVALID''))
     else case evaluate_policy w (g_contract g) facts judge k thr of
         Inl e \<Rightarrow> (s, Inl (OtherError e))
       | Inr policy \<Rightarrow>
     if decided policy \<noteq> PERMIT then (s, Inr (policy, None))
     else if capability facts \<noteq> OPERATION_SCOPE then (s, Inl (BoundaryError ''OPERATION_SCOPE_MISMATCH''))
     else case arguments_step w g (f_tool facts) arguments of
         Inl e \<Rightarrow> (s, Inl (BoundaryError e))
       | Inr (aj, sch) \<Rightarrow>
     if \<not> fresh_facts w g facts aj then (s, Inl (BoundaryError ''POLICY_ARGUMENTS_MISMATCH''))
     else issue_step w g clock (make_binding w rid facts policy cj aj sch) policy cj s))"

text \<open>
  \<open>consume\<close>: the record is gone before anything is checked. \<open>None\<close> is a caller's \<open>None\<close> or an
  object of another class.
\<close>

definition check_envelope ::
    "libs \<Rightarrow> config \<Rightarrow> rat option \<Rightarrow> issued \<Rightarrow> string \<Rightarrow> string \<Rightarrow> json option \<Rightarrow> json list
       \<Rightarrow> string + execution_binding" where
  "check_envelope w g clock i rid tool arguments ctx =
     (let e = i_envelope i; b = a_binding e in
      if canonical_text (envelope_json w e) \<noteq> i_serialized i then Inl ''ENVELOPE_BINDING_MISMATCH''
      else rbind (now_step clock) (\<lambda>now.
        if now < i_issued_at i then Inl ''ENVELOPE_TIME_INVALID''
        else if i_expires_at i \<le> now then Inl ''ENVELOPE_EXPIRED''
        else rbind (context_json ctx) (\<lambda>cj.
          if cj \<noteq> i_context_json i then Inl ''POLICY_CONTEXT_MISMATCH''
          else if rid \<noteq> x_request_id b \<or> tool \<noteq> x_tool b \<or> a_decision e \<noteq> PERMIT
                  \<or> x_policy_decision b \<noteq> PERMIT \<or> a_policy_version e \<noteq> POLICY_VERSION
                  \<or> x_operation_scope b \<noteq> OPERATION_SCOPE \<or> sha256 w cj \<noteq> x_policy_context_sha256 b
          then Inl ''ENVELOPE_BINDING_MISMATCH''
          else rbind (arguments_step w g tool arguments) (\<lambda>(aj, sch).
            if aj \<noteq> x_arguments_json b \<or> sha256 w aj \<noteq> x_arguments_sha256 b \<or> sch \<noteq> x_schema_sha256 b
            then Inl ''ENVELOPE_BINDING_MISMATCH''
            else Inr b))))"

definition consume ::
    "libs \<Rightarrow> config \<Rightarrow> rat option \<Rightarrow> nat option \<Rightarrow> string \<Rightarrow> string \<Rightarrow> json option \<Rightarrow> json list
       \<Rightarrow> boundary \<Rightarrow> (boundary, exn, execution_binding) outcome" where
  "consume w g clock env rid tool arguments ctx s = (case env of
       None \<Rightarrow> (s, Inl (BoundaryError ''ENVELOPE_NOT_ISSUED''))
     | Some h \<Rightarrow> (case map_of (b_issued s) h of
           None \<Rightarrow> (s, Inl (BoundaryError ''ENVELOPE_ALREADY_CONSUMED_OR_UNKNOWN''))
         | Some i \<Rightarrow> (s\<lparr>b_issued := alist_del h (b_issued s)\<rparr>,
                      (case check_envelope w g clock i rid tool arguments ctx of
                         Inl e \<Rightarrow> Inl (BoundaryError e) | Inr b \<Rightarrow> Inr b))))"

text \<open>A caller that holds an issued envelope can have altered its fields.\<close>

definition tamper :: "nat \<Rightarrow> authority_envelope \<Rightarrow> boundary \<Rightarrow> boundary" where
  "tamper h e s = s\<lparr>b_issued := map (\<lambda>(j, i). (j, if j = h then i\<lparr>i_envelope := e\<rparr> else i)) (b_issued s)\<rparr>"

definition envelope_audit_record :: "libs \<Rightarrow> authority_envelope \<Rightarrow> json" where
  "envelope_audit_record w e = JObj
     [(''authority_source'', JStr ''DETERMINISTIC_POLICY_GATE''), (''decision'', JStr (decision_text (a_decision e))),
      (''reasons'', JList (map JStr (a_reasons e))), (''policy_version'', JStr (a_policy_version e)),
      (''binding'', binding_audit_record w (a_binding e))]"

section \<open>The boundary as a state machine\<close>

datatype boundary_op =
    OpEvaluate "rat option" string policy_facts judge_signal k_signal json "json option" "json list"
  | OpConsume "rat option" "nat option" string string "json option" "json list"
  | OpTamper nat authority_envelope

text \<open>One operation, and the handle it redeemed, if it did.\<close>

fun boundary_step :: "libs \<Rightarrow> config \<Rightarrow> boundary_op \<Rightarrow> boundary \<Rightarrow> boundary \<times> nat option" where
  "boundary_step w g (OpEvaluate clock rid facts judge k thr arguments ctx) s =
     (fst (evaluate w g clock rid facts judge k thr arguments ctx s), None)"
| "boundary_step w g (OpConsume clock env rid tool arguments ctx) s =
     (fst (consume w g clock env rid tool arguments ctx s),
      (case snd (consume w g clock env rid tool arguments ctx s) of Inl e \<Rightarrow> None | Inr b \<Rightarrow> env))"
| "boundary_step w g (OpTamper h e) s = (tamper h e s, None)"

definition boundary_inv :: "boundary \<Rightarrow> bool" where
  "boundary_inv s \<longleftrightarrow> distinct (map fst (b_issued s)) \<and> (\<forall>h \<in> fst ` set (b_issued s). h < b_next s)
     \<and> length (b_issued s) \<le> MAX_OUTSTANDING_ENVELOPES"

definition boundary_live :: "boundary \<Rightarrow> nat \<Rightarrow> bool" where
  "boundary_live s h \<longleftrightarrow> h \<in> fst ` set (b_issued s)"

definition boundary_known :: "boundary \<Rightarrow> nat \<Rightarrow> bool" where
  "boundary_known s h \<longleftrightarrow> h < b_next s"

lemma issue_step_cases:
  obtains (unchanged) e where "issue_step w g clock b p cj s = (s, Inl e)" "clock = None"
  | (refused) now e where "clock = Some now"
      "issue_step w g clock b p cj s =
         (s\<lparr>b_issued := filter (\<lambda>(h, i). \<not> i_expires_at i \<le> now) (b_issued s)\<rparr>, Inl e)"
  | (issued) now e i where "clock = Some now"
      "length (filter (\<lambda>(h, i). \<not> i_expires_at i \<le> now) (b_issued s)) < MAX_OUTSTANDING_ENVELOPES"
      "e = \<lparr>a_binding = b, a_decision = decided p, a_reasons = reasons p,
            a_policy_version = POLICY_VERSION, a_issued_at = now, a_expires_at = now + g_max_age g\<rparr>"
      "i = \<lparr>i_envelope = e, i_serialized = canonical_text (envelope_json w e),
            i_context_json = cj, i_issued_at = now, i_expires_at = now + g_max_age g\<rparr>"
      "\<forall>(h, j) \<in> set (filter (\<lambda>(h, i). \<not> i_expires_at i \<le> now) (b_issued s)).
          x_request_id (a_binding (i_envelope j)) \<noteq> x_request_id b"
      "issue_step w g clock b p cj s =
         (s\<lparr>b_issued := filter (\<lambda>(h, i). \<not> i_expires_at i \<le> now) (b_issued s) @ [(b_next s, i)],
            b_next := Suc (b_next s)\<rparr>, Inr (p, Some (b_next s)))"
proof (cases clock)
  case None
  then show thesis using that(1) by (simp add: issue_step_def now_step_def)
next
  case (Some now)
  let ?kept = "filter (\<lambda>(h, i). \<not> i_expires_at i \<le> now) (b_issued s)"
  show thesis
  proof (cases "list_ex (\<lambda>(h, i). x_request_id (a_binding (i_envelope i)) = x_request_id b) ?kept
      \<or> MAX_OUTSTANDING_ENVELOPES \<le> length ?kept \<or> \<not> \<bar>now + g_max_age g\<bar> \<le> DBL_MAX")
    case True
    then have "\<exists>e. issue_step w g clock b p cj s = (s\<lparr>b_issued := ?kept\<rparr>, Inl e)"
      by (auto simp: issue_step_def now_step_def Let_def Some)
    then show thesis using that(2) [OF Some] by blast
  next
    case False
    then show thesis
      by (intro that(3) [OF Some _ refl refl])
         (auto simp: issue_step_def now_step_def Some Let_def list_ex_iff)
  qed
qed

lemma evaluate_cases':
  obtains (same) r where "evaluate w g clock rid f j k t args ctx s = (s, r)"
      "\<not> (\<exists>p h. r = Inr (p, Some h))"
  | (issue) cj thr p aj sch where "context_json ctx = Inr cj" "num_val t = Some thr"
      "evaluate_policy w (g_contract g) f j k thr = Inr p" "decided p = PERMIT"
      "arguments_step w g (f_tool f) args = Inr (aj, sch)"
      "evaluate w g clock rid f j k t args ctx s = issue_step w g clock (make_binding w rid f p cj aj sch) p cj s"
proof (cases "\<exists>cj thr p aj sch. context_json ctx = Inr cj \<and> num_val t = Some thr
    \<and> evaluate_policy w (g_contract g) f j k thr = Inr p \<and> decided p = PERMIT
    \<and> arguments_step w g (f_tool f) args = Inr (aj, sch)
    \<and> evaluate w g clock rid f j k t args ctx s = issue_step w g clock (make_binding w rid f p cj aj sch) p cj s")
  case True
  then show thesis using issue by blast
next
  case False
  then have "\<exists>r. evaluate w g clock rid f j k t args ctx s = (s, r) \<and> \<not> (\<exists>p h. r = Inr (p, Some h))"
    by (auto simp: evaluate_def split: sum.splits option.splits prod.splits if_splits)
  then show thesis using same by blast
qed

section \<open>Invariant\<close>

lemma consume_cases:
  obtains (refused) e where "consume w g clock env rid tool args ctx s = (s, Inl e)"
  | (popped) h i r where "env = Some h" "map_of (b_issued s) h = Some i"
      "consume w g clock env rid tool args ctx s = (s\<lparr>b_issued := alist_del h (b_issued s)\<rparr>, r)"
      "\<And>b. r = Inr b \<Longrightarrow> check_envelope w g clock i rid tool args ctx = Inr b"
proof (cases "\<exists>h i. env = Some h \<and> map_of (b_issued s) h = Some i")
  case True
  then obtain h i where hi: "env = Some h" "map_of (b_issued s) h = Some i" by blast
  show thesis
    by (rule popped [OF hi, of "case check_envelope w g clock i rid tool args ctx of
          Inl e \<Rightarrow> Inl (BoundaryError e) | Inr b \<Rightarrow> Inr b"])
       (auto simp: consume_def hi split: sum.splits)
next
  case False
  then show thesis
    using refused by (cases env; cases "map_of (b_issued s) (the env)") (auto simp: consume_def)
qed

lemma fst_set_tamper [simp]: "map fst (b_issued (tamper h e s)) = map fst (b_issued s)"
  "b_next (tamper h e s) = b_next s" "length (b_issued (tamper h e s)) = length (b_issued s)"
  by (simp_all add: tamper_def comp_def case_prod_unfold)

lemma fst_set_tamper_image [simp]: "fst ` set (b_issued (tamper h e s)) = fst ` set (b_issued s)"
  by (metis fst_set_tamper(1) set_map)

lemma distinct_fst_filter: "distinct (map fst xs) \<Longrightarrow> distinct (map fst (filter P xs))"
  by (rule distinct_map_filter)

lemma fst_set_alist_del: "fst ` set (alist_del h xs) = fst ` set xs - {h}"
  by (auto simp: alist_del_def)

lemma issue_step_inv:
  assumes "boundary_inv s"
  shows "boundary_inv (fst (issue_step w g clock b p cj s))"
proof (cases rule: issue_step_cases [of w g clock b p cj s])
  case (issued now e i)
  then show ?thesis
    using assms
    by (auto simp: boundary_inv_def distinct_fst_filter less_Suc_eq Suc_leI)
next
  case (refused now e)
  then show ?thesis
    using assms le_trans [OF length_filter_le]
    by (auto simp: boundary_inv_def distinct_fst_filter)
qed (use assms in simp)

lemma boundary_inv_step: "boundary_inv s \<Longrightarrow> boundary_inv (fst (boundary_step w g x s))"
proof (cases x)
  case (OpEvaluate clock rid f j k t args ctx)
  assume "boundary_inv s"
  then show ?thesis
    unfolding OpEvaluate boundary_step.simps fst_conv
    by (cases rule: evaluate_cases' [of w g clock rid f j k t args ctx s]) (simp_all add: issue_step_inv)
next
  case (OpConsume clock env rid tool args ctx)
  assume inv: "boundary_inv s"
  show ?thesis
    unfolding OpConsume boundary_step.simps fst_conv
  proof (cases rule: consume_cases [of w g clock env rid tool args ctx s])
    case (popped h i r)
    then show "boundary_inv (fst (consume w g clock env rid tool args ctx s))"
      using inv le_trans [OF length_filter_le]
      by (auto simp: boundary_inv_def distinct_alist_del fst_set_alist_del)
        (simp add: alist_del_def le_trans [OF length_filter_le])
  qed (use inv in simp)
next
  case (OpTamper h e)
  assume "boundary_inv s"
  then show ?thesis by (simp add: OpTamper boundary_inv_def)
qed

lemma boundary_redeemed:
  assumes "boundary_inv s" "snd (boundary_step w g x s) = Some h"
  shows "boundary_live s h" "boundary_known (fst (boundary_step w g x s)) h"
    "\<not> boundary_live (fst (boundary_step w g x s)) h"
proof -
  obtain clock env rid tool args ctx where x: "x = OpConsume clock env rid tool args ctx"
    using assms(2) by (cases x) auto
  have all: "boundary_live s h \<and> boundary_known (fst (boundary_step w g x s)) h
    \<and> \<not> boundary_live (fst (boundary_step w g x s)) h"
  proof (cases rule: consume_cases [of w g clock env rid tool args ctx s])
    case (popped h' i r)
    then have "h' = h" using assms(2) x by (auto split: sum.splits)
    with popped have "h \<in> fst ` set (b_issued s)" by (force dest: map_of_SomeD)
    then show ?thesis
      using popped assms(1) x \<open>h' = h\<close>
      by (auto simp: boundary_live_def boundary_known_def boundary_inv_def fst_set_alist_del)
  qed (use assms(2) x in auto)
  then show "boundary_live s h" "boundary_known (fst (boundary_step w g x s)) h"
    "\<not> boundary_live (fst (boundary_step w g x s)) h" by auto
qed

lemma boundary_stays_spent:
  assumes "boundary_inv s" "boundary_known s h" "\<not> boundary_live s h"
  shows "boundary_known (fst (boundary_step w g x s)) h \<and> \<not> boundary_live (fst (boundary_step w g x s)) h"
proof (cases x)
  case (OpEvaluate clock rid f j k t args ctx)
  have "boundary_known (fst (issue_step w g clock b p cj s)) h
      \<and> \<not> boundary_live (fst (issue_step w g clock b p cj s)) h" for b p cj
    by (cases rule: issue_step_cases [of w g clock b p cj s])
       (use assms in \<open>auto simp: boundary_known_def boundary_live_def image_iff\<close>)
  then show ?thesis
    using assms unfolding OpEvaluate boundary_step.simps fst_conv
    by (cases rule: evaluate_cases' [of w g clock rid f j k t args ctx s]) simp_all
next
  case (OpConsume clock env rid tool args ctx)
  show ?thesis
    using assms unfolding OpConsume boundary_step.simps fst_conv
    by (cases rule: consume_cases [of w g clock env rid tool args ctx s])
       (auto simp: boundary_known_def boundary_live_def fst_set_alist_del)
next
  case (OpTamper j e)
  then show ?thesis using assms by (simp add: boundary_known_def boundary_live_def)
qed

interpretation boundary: single_use boundary_inv boundary_live boundary_known "boundary_step w g" for w g
  by unfold_locales (auto simp: boundary_inv_step boundary_redeemed boundary_stays_spent)

lemma boundary_inv_start: "boundary_inv \<lparr>b_issued = [], b_next = 0\<rparr>"
  by (simp add: boundary_inv_def)

text \<open>
  C2. An envelope is worth one dispatch: over any sequence of evaluations, consumptions and alterations
  of issued objects, by any caller and at any clock, no handle is ever redeemed twice.
\<close>

theorem envelope_redeemed_once:
  "distinct (snd (run_ops (boundary_step w g) ops \<lparr>b_issued = [], b_next = 0\<rparr>))"
  by (rule boundary.redeemed_once [OF boundary_inv_start])

text \<open>
  The issuer cannot grow without bound: after any sequence of operations at most 256 envelopes are
  outstanding, each under an identity of its own.
\<close>

theorem outstanding_bounded:
  "length (b_issued (fst (run_ops (boundary_step w g) ops \<lparr>b_issued = [], b_next = 0\<rparr>))) \<le> 256
   \<and> distinct (map fst (b_issued (fst (run_ops (boundary_step w g) ops \<lparr>b_issued = [], b_next = 0\<rparr>))))"
  using boundary.inv_run [OF boundary_inv_start, of w g ops]
  by (simp add: boundary_inv_def MAX_OUTSTANDING_ENVELOPES_def)

section \<open>What a redeemed envelope guarantees\<close>

fun untampered :: "boundary_op \<Rightarrow> bool" where
  "untampered (OpTamper h e) = False"
| "untampered _ = True"

text \<open>The record kept under a handle stays what it was until it is gone.\<close>

lemma lookup_issue_step:
  assumes "boundary_inv s" "h < b_next s"
  shows "map_of (b_issued (fst (issue_step w g clock b p cj s))) h \<in> {None, map_of (b_issued s) h}"
proof (cases rule: issue_step_cases [of w g clock b p cj s])
  case (issued now e i)
  then show ?thesis
    using assms by (auto simp: boundary_inv_def map_of_filter_in map_add_def split: option.splits)
next
  case (refused now e)
  then show ?thesis
    using assms by (auto simp: boundary_inv_def map_of_filter_in split: option.splits)
qed simp

lemma lookup_step:
  assumes "boundary_inv s" "h < b_next s" "untampered x"
  shows "map_of (b_issued (fst (boundary_step w g x s))) h \<in> {None, map_of (b_issued s) h}
    \<and> b_next s \<le> b_next (fst (boundary_step w g x s))"
proof (cases x)
  case (OpEvaluate clock rid f j k t args ctx)
  have next_le: "b_next s \<le> b_next (fst (issue_step w g clock b p cj s))" for b p cj
    by (cases rule: issue_step_cases [of w g clock b p cj s]) simp_all
  show ?thesis
    unfolding OpEvaluate boundary_step.simps fst_conv
    by (cases rule: evaluate_cases' [of w g clock rid f j k t args ctx s])
       (use lookup_issue_step [OF assms(1,2)] next_le in simp_all)
next
  case (OpConsume clock env rid tool args ctx)
  show ?thesis
    unfolding OpConsume boundary_step.simps fst_conv
    by (cases rule: consume_cases [of w g clock env rid tool args ctx s]) (auto simp: map_of_alist_del)
qed (use assms(3) in simp)

lemma lookup_run:
  assumes "boundary_inv s" "h < b_next s" "list_all untampered ops"
  shows "map_of (b_issued (fst (run_ops (boundary_step w g) ops s))) h \<in> {None, map_of (b_issued s) h}"
  using assms
proof (induction ops arbitrary: s)
  case (Cons x xs)
  have step: "map_of (b_issued (fst (boundary_step w g x s))) h \<in> {None, map_of (b_issued s) h}"
    "h < b_next (fst (boundary_step w g x s))"
    using lookup_step [of s h x w g] Cons.prems by auto
  from Cons.IH [OF boundary_inv_step [OF Cons.prems(1), of w g x] step(2)] Cons.prems(3)
  have "map_of (b_issued (fst (run_ops (boundary_step w g) xs (fst (boundary_step w g x s))))) h
      \<in> {None, map_of (b_issued (fst (boundary_step w g x s))) h}"
    by simp
  with step(1) show ?case by auto
qed simp

lemma check_envelopeD:
  assumes "check_envelope w g clock i rid tool args ctx = Inr b"
  shows "b = a_binding (i_envelope i)" "canonical_text (envelope_json w (i_envelope i)) = i_serialized i"
    "\<exists>now. clock = Some now \<and> i_issued_at i \<le> now \<and> now < i_expires_at i"
    "context_json ctx = Inr (i_context_json i)"
    "rid = x_request_id b" "tool = x_tool b" "x_policy_decision b = PERMIT"
    "arguments_step w g tool args = Inr (x_arguments_json b, x_schema_sha256 b)"
  using assms
  by (auto simp: check_envelope_def Let_def rbind_Inr_iff now_step_def not_less
      split: if_splits option.splits prod.splits)

lemma evaluate_issued:
  assumes "evaluate w g clock rid f j k t args ctx s = (s1, Inr (p, Some h))"
  obtains now cj thr aj sch i where "clock = Some now" "h = b_next s" "b_next s1 = Suc h"
    "context_json ctx = Inr cj" "num_val t = Some thr"
    "evaluate_policy w (g_contract g) f j k thr = Inr p" "decided p = PERMIT"
    "arguments_step w g (f_tool f) args = Inr (aj, sch)"
    "i_issued_at i = now" "i_expires_at i = now + g_max_age g" "i_context_json i = cj"
    "a_binding (i_envelope i) = make_binding w rid f p cj aj sch"
    "\<exists>kept. b_issued s1 = kept @ [(h, i)] \<and> fst ` set kept \<subseteq> fst ` set (b_issued s)"
proof (cases rule: evaluate_cases' [of w g clock rid f j k t args ctx s])
  case (issue cj thr p' aj sch)
  note outer = this
  from assms issue(6) have step: "issue_step w g clock (make_binding w rid f p' cj aj sch) p' cj s = (s1, Inr (p, Some h))"
    by simp
  show thesis
  proof (cases rule: issue_step_cases [of w g clock "make_binding w rid f p' cj aj sch" p' cj s])
    case (issued now e i)
    with step have "p' = p" "h = b_next s" "b_next s1 = Suc h"
      "b_issued s1 = filter (\<lambda>(h, i). \<not> i_expires_at i \<le> now) (b_issued s) @ [(h, i)]" by auto
    then show thesis
      using outer issued that [of now cj thr aj sch i] by force
  qed (use step in auto)
qed (use assms in auto)

text \<open>
  C3. What is dispatched is what was permitted: if an evaluation issued an envelope and, after any
  further operations of the boundary, that envelope is redeemed, then the policy permitted those
  facts, the request, tool and policy context are the ones evaluated, the arguments normalise to the
  very text bound then, and the lifetime has not passed.
\<close>

theorem redeemed_as_permitted:
  assumes inv: "boundary_inv s"
    and issue: "evaluate w g t0 rid f j k thr args ctx s = (s1, Inr (p, Some h))"
    and ops: "list_all untampered ops"
    and redeem: "consume w g t1 (Some h) rid' tool args' ctx' (fst (run_ops (boundary_step w g) ops s1))
      = (s2, Inr b)"
  shows "(\<exists>q. num_val thr = Some q \<and> evaluate_policy w (g_contract g) f j k q = Inr p \<and> decided p = PERMIT)
    \<and> rid' = rid \<and> tool = f_tool f \<and> context_json ctx' = context_json ctx
    \<and> (\<exists>sch. arguments_step w g (f_tool f) args = Inr (x_arguments_json b, sch)
           \<and> arguments_step w g tool args' = Inr (x_arguments_json b, sch))
    \<and> (\<exists>a c. t0 = Some a \<and> t1 = Some c \<and> a \<le> c \<and> c < a + g_max_age g)"
proof -
  obtain now cj q aj sch i where e: "t0 = Some now" "h = b_next s" "b_next s1 = Suc h"
    "context_json ctx = Inr cj" "num_val thr = Some q"
    "evaluate_policy w (g_contract g) f j k q = Inr p" "decided p = PERMIT"
    "arguments_step w g (f_tool f) args = Inr (aj, sch)"
    "i_issued_at i = now" "i_expires_at i = now + g_max_age g" "i_context_json i = cj"
    "a_binding (i_envelope i) = make_binding w rid f p cj aj sch"
    "\<exists>kept. b_issued s1 = kept @ [(h, i)] \<and> fst ` set kept \<subseteq> fst ` set (b_issued s)"
    using evaluate_issued [OF issue] by blast
  have inv1: "boundary_inv s1"
    using boundary_inv_step [OF inv, of w g "OpEvaluate t0 rid f j k thr args ctx"] issue by simp
  have "map_of (b_issued s1) h = Some i"
    using e(13) inv e(2) by (force simp: boundary_inv_def map_add_def map_of_eq_None_iff split: option.splits dest: map_of_SomeD)
  with lookup_run [OF inv1, of h ops w g] ops e(3)
  have cases: "map_of (b_issued (fst (run_ops (boundary_step w g) ops s1))) h \<in> {None, Some i}" by simp
  have ok: "check_envelope w g t1 i rid' tool args' ctx' = Inr b"
    using redeem cases by (auto simp: consume_def split: option.splits sum.splits)
  note c = check_envelopeD [OF ok]
  then show ?thesis using e by (auto simp: make_binding_def)
qed

text \<open>An instance: one search permitted and redeemed three seconds later.\<close>

definition example_config :: config where
  "example_config = \<lparr>g_contract = None, g_registry = TOOLS, g_models = TOOLS,
     g_schemas = map (\<lambda>(t, m). (t, replicate 64 (CHR ''0''))) TOOLS, g_max_age = 30\<rparr>"

definition example_context :: "json list" where
  "example_context = [JBool True, JBool True, JNum 1 ''1.0'', JInt 0]"

definition example_binding :: execution_binding where
  "example_binding = make_binding example_libs ''r1'' example_facts
     \<lparr>decided = PERMIT, reasons = [''BOUNDED_PUBLIC_RESEARCH'']\<rparr> (canonical_text (JList example_context))
     (canonical_text (JObj [(''recipient_name'', JStr ''Acme'')])) (replicate 64 (CHR ''0''))"

definition example_envelope :: authority_envelope where
  "example_envelope = \<lparr>a_binding = example_binding, a_decision = PERMIT,
     a_reasons = [''BOUNDED_PUBLIC_RESEARCH''], a_policy_version = POLICY_VERSION, a_issued_at = 5,
     a_expires_at = 35\<rparr>"

definition example_state :: boundary where
  "example_state = \<lparr>b_issued = [(0, \<lparr>i_envelope = example_envelope,
     i_serialized = canonical_text (envelope_json example_libs example_envelope),
     i_context_json = canonical_text (JList example_context), i_issued_at = 5, i_expires_at = 35\<rparr>)],
     b_next = 1\<rparr>"

lemma example_arguments:
  "arguments_step example_libs example_config ''find_federal_awards'' (Some (JObj []))
     = Inr (canonical_text (JObj [(''recipient_name'', JStr ''Acme'')]), replicate 64 (CHR ''0''))"
  by (simp add: arguments_step_def schema_step_def example_config_def TOOLS_def dict_eq_def
      canonical_schema_def canonical_def canonical_text_def dumps_def example_libs_def)

lemma example_context_json:
  "context_json example_context = Inr (canonical_text (JList example_context))"
  by (simp add: context_json_def context_ok_def example_context_def)

lemma example_loads: "json_loads (float_of example_libs) ''{}'' = Some (JObj [])"
  by code_simp

lemma example_facts_simps:
  "arguments_json example_facts = Some ''{}''" "f_tool example_facts = ''find_federal_awards''"
  "semantic_required example_facts" "capability example_facts = ''PUBLIC_SPENDING_RESEARCH''"
  by (simp_all add: example_facts_def PolicyFacts_def)

lemma example_evaluation:
  "evaluate example_libs example_config (Some 5) ''r1'' example_facts perfect_judge
     KSignal (JNum 1 ''1.0'') (Some (JObj [])) example_context \<lparr>b_issued = [], b_next = 0\<rparr>
   = (example_state, Inr (\<lparr>decided = PERMIT, reasons = [''BOUNDED_PUBLIC_RESEARCH'']\<rparr>, Some 0))"
proof -
  have g: "g_contract example_config = None" "g_max_age example_config = 30"
    by (simp_all add: example_config_def)
  have c: "example_context ! 2 = JNum 1 ''1.0''" "example_context ! 0 = JBool True"
    by (simp_all add: example_context_def)
  have "(35 :: rat) \<le> DBL_MAX" by (simp add: DBL_MAX_def)
  then show ?thesis
    by (simp add: evaluate_def example_context_json g c example_permit example_facts_simps OPERATION_SCOPE_def
        example_arguments fresh_facts_def example_loads issue_step_def now_step_def
        MAX_OUTSTANDING_ENVELOPES_def example_state_def example_envelope_def example_binding_def Let_def)
qed

lemma example_consumption:
  "snd (consume example_libs example_config (Some 8) (Some 0) ''r1'' ''find_federal_awards''
     (Some (JObj [])) example_context example_state) = Inr example_binding"
  by (simp add: consume_def check_envelope_def example_state_def now_step_def example_context_json
      example_arguments example_envelope_def example_binding_def make_binding_def example_facts_simps
      POLICY_VERSION_def OPERATION_SCOPE_def)

theorem redeemed_as_permitted_witness:
  "arguments_step example_libs example_config ''find_federal_awards'' (Some (JObj []))
     = Inr (x_arguments_json example_binding, replicate 64 (CHR ''0''))"
proof -
  have run: "consume example_libs example_config (Some 8) (Some 0) ''r1'' ''find_federal_awards''
     (Some (JObj [])) example_context
     (fst (run_ops (boundary_step example_libs example_config) [] example_state))
     = (fst (consume example_libs example_config (Some 8) (Some 0) ''r1'' ''find_federal_awards''
     (Some (JObj [])) example_context example_state), Inr example_binding)"
    using example_consumption by (simp add: prod_eq_iff)
  from redeemed_as_permitted [OF boundary_inv_start example_evaluation _ run] show ?thesis
    by (simp add: example_arguments example_facts_simps)
qed

lemma consume_fresh:
  assumes "boundary_inv s" "evaluate w g (Some t) rid f j k thr args ctx s = (s1, Inr (p, Some h))"
    and "t \<le> u" "u < t + g_max_age g"
  shows "\<exists>b. consume w g (Some u) (Some h) rid (f_tool f) args ctx s1 = (s1\<lparr>b_issued := alist_del h (b_issued s1)\<rparr>, Inr b)
    \<and> (\<exists>sch. arguments_step w g (f_tool f) args = Inr (x_arguments_json b, sch))"
proof (cases rule: evaluate_cases' [of w g "Some t" rid f j k thr args ctx s])
  case (issue cj q p' aj sch)
  let ?b = "make_binding w rid f p' cj aj sch"
  from assms(2) issue(6) have step: "issue_step w g (Some t) ?b p' cj s = (s1, Inr (p, Some h))" by simp
  show ?thesis
  proof (cases rule: issue_step_cases [of w g "Some t" ?b p' cj s])
    case (issued now e i)
    then have s1: "h = b_next s" "b_issued s1 = filter (\<lambda>(h, i). \<not> i_expires_at i \<le> t) (b_issued s) @ [(h, i)]"
      using step by auto
    have "map_of (filter (\<lambda>(h, i). \<not> i_expires_at i \<le> t) (b_issued s)) h = None"
      using assms(1) s1(1) by (force simp: boundary_inv_def map_of_eq_None_iff)
    then have look: "map_of (b_issued s1) h = Some i" by (simp add: s1(2) map_add_def)
    have "check_envelope w g (Some u) i rid (f_tool f) args ctx = Inr ?b"
      using issue(1,4,5) issued(1,3,4) assms(3,4)
      by (simp add: check_envelope_def Let_def now_step_def make_binding_def)
    then show ?thesis
      using look issue(5) by (intro exI [of _ ?b]) (simp add: consume_def make_binding_def)
  qed (use step in auto)
qed (use assms(2) in auto)

text \<open>
  C15. What is permitted can be done: an envelope presented at once, with the request, tool, arguments and
  context it was issued for and within its lifetime, is always redeemed.
\<close>

theorem fresh_envelope_redeems:
  assumes "boundary_inv s" "evaluate w g (Some t) rid f j k thr args ctx s = (s1, Inr (p, Some h))"
    and "t \<le> u" "u < t + g_max_age g"
  shows "\<exists>b. consume w g (Some u) (Some h) rid (f_tool f) args ctx s1 = (s1\<lparr>b_issued := alist_del h (b_issued s1)\<rparr>, Inr b)
    \<and> (\<exists>sch. arguments_step w g (f_tool f) args = Inr (x_arguments_json b, sch))"
  using assms by (rule consume_fresh)

theorem fresh_envelope_redeems_witness:
  "\<exists>b. snd (consume example_libs example_config (Some 8) (Some 0) ''r1'' ''find_federal_awards''
     (Some (JObj [])) example_context example_state) = Inr b"
  using fresh_envelope_redeems [OF boundary_inv_start example_evaluation, of 8]
  by (auto simp: example_config_def example_facts_simps)

end
