(* ===== verification/Adapter.thy ===== *)
theory Adapter
  imports Policy
begin

text \<open>
  \<open>adapters/usaspending.py\<close>: the bounded request loop over the public source, and the three reads
  built on it. What the network does in one attempt (a response, a timeout, a transport error) and the
  readings of the monotonic clock are an \<open>attempt_env\<close>; what pydantic makes of a body is the record
  \<open>upstream\<close>. Times are seconds since the request started.
\<close>

section \<open>Attempts\<close>

definition MAX_BYTES :: nat where "MAX_BYTES = 2000000"
definition MAX_ATTEMPTS :: nat where "MAX_ATTEMPTS = 3"
definition ATTEMPT_TIMEOUT_SECONDS :: rat where "ATTEMPT_TIMEOUT_SECONDS = 20"
definition RETRY_BACKOFF_SECONDS :: "rat list" where "RETRY_BACKOFF_SECONDS = [1 / 5, 2 / 5]"
definition DEFAULT_RETRY_BUDGET_SECONDS :: rat where
  "DEFAULT_RETRY_BUDGET_SECONDS = of_nat MAX_ATTEMPTS * ATTEMPT_TIMEOUT_SECONDS + sum_list RETRY_BACKOFF_SECONDS"

datatype retry_decision = RD_NONE | RD_ALLOWED | RD_BLOCKED

record attempt_record =
  at_attempt :: nat
  at_max_attempts :: nat
  at_elapsed_ms :: rat
  at_dispatch :: dispatch_state
  at_response :: response_state
  at_exception :: "string option"
  at_status :: "nat option"
  at_received :: bool
  at_retry_after :: "rat option"
  at_decision :: retry_decision
  at_reason :: string

record request_outcome =
  o_raw :: json
  o_query :: string
  o_attempts :: "attempt_record list"
  o_retry_class :: string

record adapter_error =
  ae_code :: string
  ae_retryable :: bool
  ae_attempts :: "attempt_record list"
  ae_query :: "string option"
  ae_retry_class :: string

definition AdapterError :: "string \<Rightarrow> bool \<Rightarrow> adapter_error" where
  "AdapterError code may_retry = \<lparr>ae_code = code, ae_retryable = may_retry, ae_attempts = [],
     ae_query = None, ae_retry_class = ''CONDITIONALLY_SAFE''\<rparr>"

text \<open>An exception that leaves the adapter: its own, or any other class.\<close>

datatype adapter_exn = AdapterRaised adapter_error | AdapterOther string

section \<open>What one attempt meets\<close>

datatype retry_header =
    NoHeader | Seconds rat | DateAhead rat | Unparsable   \<comment> \<open>a date is its distance from now\<close>

record response =
  r_status :: nat
  r_retry_after :: retry_header
  r_json_content :: bool
  r_length :: nat
  r_body :: "json option"      \<comment> \<open>None: not JSON\<close>

datatype wire =
    Responded response
  | TimedOut string "response option"       \<comment> \<open>exception class, the response if one had begun\<close>
  | NetworkFailed string "response option"
  | Interrupted string                      \<comment> \<open>an exception the loop does not handle\<close>

record attempt_env =
  t_before :: rat
  t_record :: rat
  t_delay :: rat
  happens :: wire

definition retry_after_of :: "retry_header \<Rightarrow> rat option" where
  "retry_after_of h = (case h of NoHeader \<Rightarrow> None | Seconds s \<Rightarrow> Some (max 0 s)
     | DateAhead d \<Rightarrow> Some (max 0 d) | Unparsable \<Rightarrow> None)"

text \<open>
  One pass through the \<open>try\<close> block: the records it appends and how it ends. A body that is not JSON
  is noticed after the success record is appended, so that attempt has two records.
\<close>

datatype attempt_end =
    Success json
  | Failed adapter_error "rat option" \<comment> \<open>and the parsed Retry-After\<close>
  | Escaped string

definition stamp ::
    "nat \<Rightarrow> nat \<Rightarrow> attempt_env \<Rightarrow> dispatch_state \<Rightarrow> response_state \<Rightarrow> string option \<Rightarrow> nat option
       \<Rightarrow> rat option \<Rightarrow> retry_decision \<Rightarrow> string \<Rightarrow> attempt_record" where
  "stamp n m e d r x st ra rd reason =
     \<lparr>at_attempt = n, at_max_attempts = m, at_elapsed_ms = t_record e * 1000, at_dispatch = d,
      at_response = r, at_exception = x, at_status = st, at_received = (st \<noteq> None),
      at_retry_after = ra, at_decision = rd, at_reason = reason\<rparr>"

definition allowed_before :: "nat \<Rightarrow> nat \<Rightarrow> retry_decision" where
  "allowed_before n m = (if n < m then RD_ALLOWED else RD_BLOCKED)"

definition dispatched :: "response option \<Rightarrow> dispatch_state" where
  "dispatched r = (case r of None \<Rightarrow> DISPATCH_UNKNOWN | Some _ \<Rightarrow> REQUEST_CONFIRMED)"

definition lower :: "string \<Rightarrow> string" where "lower = map lower_ascii"

definition rejected :: "nat \<Rightarrow> nat \<Rightarrow> attempt_env \<Rightarrow> nat \<Rightarrow> string \<Rightarrow> attempt_record list \<times> attempt_end" where
  "rejected n m e st code =
     ([stamp n m e REQUEST_CONFIRMED RESPONSE_RECEIVED (Some ''AdapterError'') (Some st) None RD_NONE (lower code)],
      Failed (AdapterError code False) None)"

definition attempt_once :: "nat \<Rightarrow> nat \<Rightarrow> attempt_env \<Rightarrow> attempt_record list \<times> attempt_end" where
  "attempt_once n m e = (case happens e of
       Interrupted x \<Rightarrow> ([], Escaped x)
     | TimedOut x r \<Rightarrow>
         ([stamp n m e (dispatched r) TRANSPORT_ERROR (Some x) (map_option r_status r) None
             (allowed_before n m) ''timeout''], Failed (AdapterError ''TIMEOUT'' True) None)
     | NetworkFailed x r \<Rightarrow>
         ([stamp n m e (dispatched r) TRANSPORT_ERROR (Some x) (map_option r_status r) None
             (allowed_before n m) ''network error''], Failed (AdapterError ''NETWORK_ERROR'' True) None)
     | Responded r \<Rightarrow>
         (if r_status r = 404 then rejected n m e (r_status r) ''NOT_FOUND''
          else if r_status r = 429 \<or> 500 \<le> r_status r then
            (let ra = retry_after_of (r_retry_after r) in
             ([stamp n m e REQUEST_CONFIRMED RESPONSE_RECEIVED (Some ''AdapterError'') (Some (r_status r)) ra
                 (allowed_before n m) ''retryable upstream status''],
              Failed (AdapterError ''UPSTREAM_UNAVAILABLE'' True) ra))
          else if r_status r \<noteq> 200 then rejected n m e (r_status r) ''UPSTREAM_REJECTED''
          else if \<not> r_json_content r then rejected n m e (r_status r) ''MALFORMED_RESPONSE''
          else if MAX_BYTES < r_length r then rejected n m e (r_status r) ''RESPONSE_TOO_LARGE''
          else (let success = stamp n m e REQUEST_CONFIRMED RESPONSE_RECEIVED None (Some (r_status r)) None
                                RD_NONE ''success''
                in case r_body r of
                     Some body \<Rightarrow> ([success], Success body)
                   | None \<Rightarrow> (success # fst (rejected n m e (r_status r) ''MALFORMED_RESPONSE''),
                              snd (rejected n m e (r_status r) ''MALFORMED_RESPONSE'')))))"

section \<open>The request loop\<close>

definition raise_with :: "string \<Rightarrow> adapter_error \<Rightarrow> bool \<Rightarrow> attempt_record list \<Rightarrow> adapter_exn + 'a" where
  "raise_with q err retry ats =
     Inl (AdapterRaised (err\<lparr>ae_retryable := retry, ae_attempts := ats, ae_query := Some q\<rparr>))"

definition block_last :: "attempt_record list \<Rightarrow> attempt_record list" where
  "block_last ats = (if ats = [] then [] else
     butlast ats @ [(last ats)\<lparr>at_decision := RD_BLOCKED, at_reason := ''retry budget exhausted''\<rparr>])"

text \<open>\<open>left\<close> attempts out of \<open>m\<close> remain; \<open>env n\<close> is what attempt \<open>n\<close> meets.\<close>

fun request_loop ::
    "string \<Rightarrow> nat \<Rightarrow> (nat \<Rightarrow> attempt_env) \<Rightarrow> nat \<Rightarrow> attempt_record list \<Rightarrow> adapter_exn + request_outcome" where
  "request_loop q m env 0 ats = raise_with q (AdapterError ''UPSTREAM_UNAVAILABLE'' False) False ats"
| "request_loop q m env (Suc left) ats =
     (let n = m - left; e = env n in
      if DEFAULT_RETRY_BUDGET_SECONDS - t_before e \<le> 0
      then raise_with q (AdapterError ''UPSTREAM_UNAVAILABLE'' False) False (block_last ats)
      else let (new, fin) = attempt_once n m e; ats' = ats @ new in
        case fin of
          Escaped x \<Rightarrow> Inl (AdapterOther x)
        | Success body \<Rightarrow> Inr \<lparr>o_raw = body, o_query = q, o_attempts = ats', o_retry_class = ''CONDITIONALLY_SAFE''\<rparr>
        | Failed err ra \<Rightarrow>
            if \<not> ae_retryable err \<or> n = m then raise_with q err False ats'
            else (let delay = (case ra of Some d \<Rightarrow> d | None \<Rightarrow> RETRY_BACKOFF_SECONDS ! (n - 1)) in
                  if DEFAULT_RETRY_BUDGET_SECONDS \<le> t_delay e + delay
                  then raise_with q err False (block_last ats')
                  else request_loop q m env left ats'))"

record adapter =
  fixture :: bool
  attempt_limit :: "nat option"

definition USAspending :: "bool \<Rightarrow> nat option \<Rightarrow> adapter option" where
  "USAspending fix_mode limit =
     (if opt_ok (\<lambda>n. 1 \<le> n \<and> n \<le> MAX_ATTEMPTS) limit then Some \<lparr>fixture = fix_mode, attempt_limit = limit\<rparr>
      else None)"

definition max_attempts :: "adapter \<Rightarrow> nat" where
  "max_attempts a = (case attempt_limit a of None \<Rightarrow> MAX_ATTEMPTS | Some n \<Rightarrow> n)"

definition fingerprint :: "libs \<Rightarrow> json \<Rightarrow> string" where
  "fingerprint w v = sha256 w (enc True (jsort v))"

definition provenance_json :: "provenance \<Rightarrow> json" where
  "provenance_json p = JObj
     [(''source_system'', JStr (source_system p)), (''source_type'', JStr (source_type p)),
      (''retrieved_at'', JStr (retrieved_at p)), (''query_fingerprint'', JStr (query_fingerprint p)),
      (''response_fingerprint'', JStr (response_fingerprint p)), (''endpoint'', JStr (endpoint p)),
      (''records_returned'', JInt (records_returned p)), (''truncated'', JBool (truncated p))]"

definition BASE_URL :: string where "BASE_URL = ''https://api.usaspending.gov''"

definition request :: "libs \<Rightarrow> adapter \<Rightarrow> (nat \<Rightarrow> attempt_env) \<Rightarrow> string \<Rightarrow> json \<Rightarrow> adapter_exn + request_outcome" where
  "request w a env path payload =
     request_loop
       (fingerprint w (JObj [(''method'', JStr (if payload = JNull then ''GET'' else ''POST'')),
                             (''url'', JStr (BASE_URL @ path)), (''body'', payload)]))
       (max_attempts a) env (max_attempts a) []"

section \<open>The attempts of a request\<close>

definition attempts_of :: "adapter_exn + request_outcome \<Rightarrow> attempt_record list" where
  "attempts_of r = (case r of
       Inr out \<Rightarrow> o_attempts out
     | Inl (AdapterRaised err) \<Rightarrow> ae_attempts err
     | Inl (AdapterOther x) \<Rightarrow> [])"

lemma attempts_of_simps [simp]:
  "attempts_of (raise_with q err rt ats) = ats"
  "attempts_of (Inr out) = o_attempts out"
  "attempts_of (Inl (AdapterOther x)) = []"
  by (simp_all add: attempts_of_def raise_with_def)

text \<open>What an attempt may meet for another to follow, and the answer that leaves two records.\<close>

definition repeatable :: "wire \<Rightarrow> bool" where
  "repeatable x = (case x of TimedOut _ _ \<Rightarrow> True | NetworkFailed _ _ \<Rightarrow> True | Interrupted _ \<Rightarrow> False
     | Responded r \<Rightarrow> r_status r = 429 \<or> 500 \<le> r_status r)"

definition garbled_answer :: "wire \<Rightarrow> bool" where
  "garbled_answer x = (case x of Responded r \<Rightarrow> r_status r = 200 \<and> r_body r = None | _ \<Rightarrow> False)"

lemma attempt_once_cases:
  obtains (interrupted) x where "attempt_once n m e = ([], Escaped x)"
  | (retry) r err ra where "attempt_once n m e = ([r], Failed err ra)" "at_attempt r = n"
      "ae_retryable err" "repeatable (happens e)"
  | (stop) r err ra where "attempt_once n m e = ([r], Failed err ra)" "at_attempt r = n"
      "\<not> ae_retryable err"
  | (garbled) r r' err ra where "attempt_once n m e = ([r, r'], Failed err ra)" "at_attempt r = n"
      "at_attempt r' = n" "\<not> ae_retryable err" "garbled_answer (happens e)"
  | (success) r resp body where "attempt_once n m e = ([r], Success body)" "at_attempt r = n"
      "happens e = Responded resp" "r_status resp = 200" "r_json_content resp"
      "r_length resp \<le> MAX_BYTES" "r_body resp = Some body"
proof -
  note defs = attempt_once_def rejected_def stamp_def AdapterError_def Let_def repeatable_def garbled_answer_def
  show thesis
  proof (cases "happens e")
    case (Responded resp)
    consider "r_status resp = 429 \<or> 500 \<le> r_status resp" "r_status resp \<noteq> 404"
      | "r_status resp \<noteq> 200" "\<not> (r_status resp = 429 \<or> 500 \<le> r_status resp)" | "r_status resp = 404"
      | "r_status resp = 200" "\<not> r_json_content resp \<or> MAX_BYTES < r_length resp"
      | "r_status resp = 200" "r_json_content resp" "r_length resp \<le> MAX_BYTES" "r_body resp = None"
      | body where "r_status resp = 200" "r_json_content resp" "r_length resp \<le> MAX_BYTES" "r_body resp = Some body"
      by (cases "r_body resp") force+
    then show thesis
    proof cases
      case 1
      then show thesis using retry by (simp add: defs Responded)
    next
      case 2
      then show thesis using stop by (cases "r_status resp = 404") (simp_all add: defs Responded)
    next
      case 3
      then show thesis using stop by (simp add: defs Responded)
    next
      case 4
      then show thesis using stop by (cases "r_json_content resp") (simp_all add: defs Responded)
    next
      case 5
      then show thesis using garbled by (simp add: defs Responded)
    next
      case (6 body)
      then show thesis using success by (simp add: defs Responded)
    qed
  next
    case (TimedOut x r)
    then show thesis using retry by (simp add: defs)
  next
    case (NetworkFailed x r)
    then show thesis using retry by (simp add: defs)
  next
    case (Interrupted x)
    then show thesis using interrupted by (simp add: defs)
  qed
qed

lemma block_last_attempts [simp]: "map at_attempt (block_last ats) = map at_attempt ats"
proof (cases ats rule: rev_cases)
  case (snoc ys y)
  then show ?thesis by (simp add: block_last_def)
qed (simp add: block_last_def)

text \<open>
  What a log may say of the attempts that were made: they are numbered from 1 without a gap up to some \<open>k\<close>, no more
  than the limit \<open>m\<close>; each of them but the last met something after which a request may be repeated; and the last
  alone may have a second record, when its answer had status 200 and no JSON body.
\<close>

definition tried :: "(nat \<Rightarrow> attempt_env) \<Rightarrow> nat \<Rightarrow> bool" where
  "tried env k \<longleftrightarrow> (\<forall>n. 1 \<le> n \<and> n < k \<longrightarrow> repeatable (happens (env n)))"

definition numbered :: "nat \<Rightarrow> (nat \<Rightarrow> attempt_env) \<Rightarrow> attempt_record list \<Rightarrow> bool" where
  "numbered m env ats \<longleftrightarrow> (\<exists>k \<le> m. tried env k \<and> (map at_attempt ats = [1..<Suc k]
     \<or> 1 \<le> k \<and> garbled_answer (happens (env k)) \<and> map at_attempt ats = [1..<Suc k] @ [k]))"

lemma numberedI:
  "k \<le> m \<Longrightarrow> tried env k \<Longrightarrow> map at_attempt ats = [1..<Suc k] \<Longrightarrow> numbered m env ats"
  "k \<le> m \<Longrightarrow> tried env k \<Longrightarrow> 1 \<le> k \<Longrightarrow> garbled_answer (happens (env k)) \<Longrightarrow> map at_attempt ats = [1..<Suc k] @ [k]
     \<Longrightarrow> numbered m env ats"
  unfolding numbered_def by blast+

lemma tried_simps [simp]: "tried env 0" "tried env (Suc 0)" "tried env (Suc (Suc k)) \<longleftrightarrow> tried env (Suc k) \<and> repeatable (happens (env (Suc k)))"
  by (auto simp: tried_def less_Suc_eq)

lemma tried_less: "tried env (Suc k) \<Longrightarrow> tried env k"
  by (simp add: tried_def)

lemma request_loop_numbered:
  "left \<le> m \<Longrightarrow> map at_attempt ats = [1..<Suc (m - left)] \<Longrightarrow> tried env (Suc (m - left))
     \<Longrightarrow> numbered m env (attempts_of (request_loop q m env left ats))"
proof (induction left arbitrary: ats)
  case 0
  then show ?case by (auto intro: numberedI(1) [of m] tried_less)
next
  case (Suc left)
  obtain k where k: "m - left = Suc k" "Suc k \<le> m" "m - Suc left = k"
    using Suc.prems(1) by (cases "m - left") auto
  have ats: "map at_attempt ats = [1..<Suc k]" and t: "tried env (Suc k)" using Suc.prems(2,3) k by simp_all
  have now: "numbered m env (block_last ats)" using ats k tried_less [OF t] by (intro numberedI(1) [of k]) simp_all
  note step = numberedI(1) [of "Suc k" m env, OF k(2) t]
  show ?case
  proof (cases rule: attempt_once_cases [of "Suc k" m "env (Suc k)"])
    case (interrupted x)
    have "numbered m env []" by (rule numberedI(1) [of 0]) simp_all
    with interrupted k now show ?thesis by (simp add: Let_def)
  next
    case (stop r err ra)
    have "numbered m env (ats @ [r])" using ats stop by (intro step) simp
    with stop k now show ?thesis by (simp add: Let_def)
  next
    case (garbled r r' err ra)
    have "numbered m env (ats @ [r, r'])" using ats k t garbled by (intro numberedI(2) [of "Suc k"]) simp_all
    with garbled k now show ?thesis by (simp add: Let_def)
  next
    case (success r resp body)
    have "numbered m env (ats @ [r])" using ats success by (intro step) simp
    with success k now show ?thesis by (simp add: Let_def)
  next
    case (retry r err ra)
    have one: "numbered m env (ats @ [r])" using ats retry by (intro step) simp
    have blocked: "numbered m env (block_last (ats @ [r]))" using ats retry by (intro step) simp
    have "numbered m env (attempts_of (request_loop q m env left (ats @ [r])))"
      using Suc.IH [of "ats @ [r]"] Suc.prems(1) ats k retry t by simp
    with retry k now one blocked show ?thesis by (simp add: Let_def)
  qed
qed

text \<open>What an attempt beyond the limit would meet has no influence: there is none.\<close>

lemma request_loop_limit:
  "left \<le> m \<Longrightarrow> request_loop q m (\<lambda>n. if n \<le> m then env n else beyond) left ats = request_loop q m env left ats"
  by (induction left arbitrary: ats) (simp_all add: Let_def split: prod.split attempt_end.split)

text \<open>
  C17. One call never makes more attempts than its limit. No attempt after the limit is made: whatever it would
  have met, the call ends the same. The log numbers the attempts from one upwards without a gap, up to at most
  the limit; an attempt is followed by another only after a timeout, a network failure or a status that permits
  it; a second record is there only of the last attempt, when its answer had status 200 and no JSON body, so that
  the log is at most one record longer than the limit.
\<close>

theorem request_attempts_bounded:
  "request w a (\<lambda>n. if n \<le> max_attempts a then env n else beyond) path payload = request w a env path payload
   \<and> numbered (max_attempts a) env (attempts_of (request w a env path payload))
   \<and> length (attempts_of (request w a env path payload)) \<le> max_attempts a + 1"
proof (intro conjI)
  show "request w a (\<lambda>n. if n \<le> max_attempts a then env n else beyond) path payload = request w a env path payload"
    unfolding request_def by (rule request_loop_limit) simp
  show n: "numbered (max_attempts a) env (attempts_of (request w a env path payload))"
    unfolding request_def by (rule request_loop_numbered) simp_all
  then obtain k where "k \<le> max_attempts a" "map at_attempt (attempts_of (request w a env path payload)) = [1..<Suc k]
      \<or> map at_attempt (attempts_of (request w a env path payload)) = [1..<Suc k] @ [k]" unfolding numbered_def by blast
  then show "length (attempts_of (request w a env path payload)) \<le> max_attempts a + 1"
    by (auto dest!: arg_cong [of _ _ length])
qed

lemma request_loop_final:
  "request_loop q m env left ats = Inl (AdapterRaised err) \<Longrightarrow>
     \<not> ae_retryable err \<and> ae_query err = Some q \<and> (ae_attempts err = [] \<longrightarrow> ae_code err = ''UPSTREAM_UNAVAILABLE'')"
proof (induction left arbitrary: ats)
  case 0
  then show ?case by (auto simp: raise_with_def AdapterError_def)
next
  case (Suc left)
  have bl: "block_last xs = [] \<longleftrightarrow> xs = []" for xs by (simp add: block_last_def)
  show ?case
  proof (cases rule: attempt_once_cases [of "m - left" m "env (m - left)"])
    case (retry r err' ra)
    with Suc show ?thesis
      by (auto simp: Let_def raise_with_def AdapterError_def bl split: if_splits)
  qed (use Suc in \<open>auto simp: Let_def raise_with_def AdapterError_def bl split: if_splits\<close>)
qed

lemma request_loop_success:
  "request_loop q m env left ats = Inr out \<Longrightarrow> left \<le> m \<Longrightarrow>
     o_query out = q \<and> (\<exists>n resp. m - left < n \<and> n \<le> m \<and> happens (env n) = Responded resp \<and> r_status resp = 200
        \<and> r_json_content resp \<and> r_length resp \<le> MAX_BYTES \<and> r_body resp = Some (o_raw out))"
proof (induction left arbitrary: ats)
  case 0
  then show ?case by (simp add: raise_with_def)
next
  case (Suc left)
  show ?case
  proof (cases rule: attempt_once_cases [of "m - left" m "env (m - left)"])
    case (success r resp body)
    with Suc.prems show ?thesis
      by (auto simp: Let_def raise_with_def split: if_splits intro!: exI [of _ "m - left"])
  next
    case (retry r err ra)
    with Suc.prems have "request_loop q m env left (ats @ [r]) = Inr out"
      by (auto simp: Let_def raise_with_def split: if_splits)
    with Suc.IH [of "ats @ [r]"] Suc.prems(2) obtain n resp where
      "o_query out = q" "m - left < n" "n \<le> m" "happens (env n) = Responded resp" "r_status resp = 200"
      "r_json_content resp" "r_length resp \<le> MAX_BYTES" "r_body resp = Some (o_raw out)"
      by auto
    moreover from this have "m - Suc left < n" by simp
    ultimately show ?thesis by blast
  qed (use Suc.prems in \<open>auto simp: Let_def raise_with_def split: if_splits\<close>)
qed

text \<open>
  C18. An error of the request loop is final: it is never marked retryable, it carries the fingerprint of the
  very query that was sent (method, address and body), and without a single logged attempt it can only be the
  exhausted budget.
\<close>

theorem request_errors_final:
  assumes "request w a env path payload = Inl (AdapterRaised err)"
  shows "\<not> ae_retryable err
     \<and> ae_query err = Some (fingerprint w (JObj [(''method'', JStr (if payload = JNull then ''GET'' else ''POST'')),
         (''url'', JStr (''https://api.usaspending.gov'' @ path)), (''body'', payload)]))
     \<and> (ae_attempts err \<noteq> [] \<or> ae_code err = ''UPSTREAM_UNAVAILABLE'')"
  using request_loop_final assms unfolding request_def BASE_URL_def by blast

text \<open>
  Data come from one complete answer: when the request returns, one of its attempts met a response
  of status 200, declared JSON, within the size bound, and the returned value is its parsed body.
\<close>

theorem request_success_sound:
  assumes "request w a env path payload = Inr out"
  shows "\<exists>n resp. 1 \<le> n \<and> n \<le> max_attempts a \<and> happens (env n) = Responded resp
     \<and> r_status resp = 200 \<and> r_json_content resp \<and> r_length resp \<le> MAX_BYTES \<and> r_body resp = Some (o_raw out)"
proof -
  from request_loop_success assms obtain n resp where
    "max_attempts a - max_attempts a < n" "n \<le> max_attempts a" "happens (env n) = Responded resp"
    "r_status resp = 200" "r_json_content resp" "r_length resp \<le> MAX_BYTES" "r_body resp = Some (o_raw out)"
    unfolding request_def by blast
  then show ?thesis by (intro exI [of _ n] exI [of _ resp]) simp
qed

definition example_env :: "wire \<Rightarrow> attempt_env" where
  "example_env x = \<lparr>t_before = 0, t_record = 1, t_delay = 1, happens = x\<rparr>"

definition example_response :: "nat \<Rightarrow> json option \<Rightarrow> response" where
  "example_response st body = \<lparr>r_status = st, r_retry_after = NoHeader, r_json_content = True, r_length = 2,
     r_body = body\<rparr>"

definition example_adapter :: "nat option \<Rightarrow> adapter" where
  "example_adapter n = \<lparr>fixture = False, attempt_limit = n\<rparr>"

lemmas example_request_simps =
  request_def max_attempts_def example_adapter_def example_env_def attempt_once_def
  DEFAULT_RETRY_BUDGET_SECONDS_def MAX_ATTEMPTS_def ATTEMPT_TIMEOUT_SECONDS_def example_response_def
  RETRY_BACKOFF_SECONDS_def MAX_BYTES_def Let_def rejected_def AdapterError_def raise_with_def

lemma example_timeout:
  "\<exists>err. request example_libs (example_adapter (Some 1)) (\<lambda>_. example_env (TimedOut ''ReadTimeout'' None))
      ''/p'' JNull = Inl (AdapterRaised err)"
  by (simp add: example_request_simps)

lemma example_answer:
  "\<exists>out. request example_libs (example_adapter (Some 1))
      (\<lambda>_. example_env (Responded (example_response 200 (Some JNull)))) ''/p'' JNull = Inr out"
  by (simp add: example_request_simps)

theorem request_errors_final_witness:
  "\<exists>err. request example_libs (example_adapter (Some 1)) (\<lambda>_. example_env (TimedOut ''ReadTimeout'' None)) ''/p'' JNull
     = Inl (AdapterRaised err) \<and> \<not> ae_retryable err"
  using example_timeout request_errors_final by blast

theorem request_success_sound_witness:
  "\<exists>resp. Responded (example_response 200 (Some JNull)) = Responded resp \<and> r_status resp = 200"
proof -
  obtain out where "request example_libs (example_adapter (Some 1))
      (\<lambda>_. example_env (Responded (example_response 200 (Some JNull)))) ''/p'' JNull = Inr out"
    using example_answer by blast
  from request_success_sound [OF this] show ?thesis by (auto simp: example_env_def)
qed

text \<open>The body that is not JSON leaves two records for the one attempt made.\<close>

lemma garbled_body_counted_twice:
  "length (attempts_of (request w (example_adapter (Some 1))
     (\<lambda>_. example_env (Responded (example_response 200 None))) ''/p'' JNull)) = 2"
  by (simp add: example_request_simps attempts_of_def)

section \<open>The three reads\<close>

text \<open>A date from its proleptic ordinal, and its ISO text.\<close>

definition civil_of_ordinal :: "int \<Rightarrow> int \<times> int \<times> int" where
  "civil_of_ordinal n =
     (let z = n + 305; era = z div 146097; doe = z mod 146097;
          yoe = (doe - doe div 1460 + doe div 36524 - doe div 146096) div 365;
          doy = doe - (365 * yoe + yoe div 4 - yoe div 100);
          mp = (5 * doy + 2) div 153;
          d = doy - (153 * mp + 2) div 5 + 1;
          m = (if mp < 10 then mp + 3 else mp - 9)
      in (yoe + era * 400 + (if m \<le> 2 then 1 else 0), m, d))"

definition pad :: "nat \<Rightarrow> int \<Rightarrow> string" where
  "pad n i = (let s = dec_int i in replicate (n - length s) (CHR ''0'') @ s)"

definition iso_date :: "int \<Rightarrow> string" where
  "iso_date n = (case civil_of_ordinal n of (y, m, d) \<Rightarrow> pad 4 y @ ''-'' @ pad 2 m @ ''-'' @ pad 2 d)"

lemma iso_date_checks:
  "iso_date 738886 = ''2024-01-01''" "iso_date 738945 = ''2024-02-29''" "iso_date 1 = ''0001-01-01''"
  by code_simp+

record upstream =
  parse_search :: "json \<Rightarrow> (json list \<times> bool) option"        \<comment> \<open>dumped rows, hasNext\<close>
  parse_recipients :: "json \<Rightarrow> (json list \<times> bool) option"
  parse_detail :: "json \<Rightarrow> (int \<times> string \<times> json) option"    \<comment> \<open>id, unique award id, dump\<close>

record data_batch =
  d_records :: "json list"
  d_provenance :: provenance

definition batch_ok :: "data_batch \<Rightarrow> bool" where
  "batch_ok b \<longleftrightarrow> length (d_records b) \<le> 100 \<and> list_all is_obj (d_records b)
     \<and> source_system (d_provenance b) \<in> {''USAspending'', ''CIVICGATE_TEST_FIXTURE''}
     \<and> source_type (d_provenance b) \<in> {''PUBLIC_GOVERNMENT_API'', ''SYNTHETIC_TEST_FIXTURE''}
     \<and> is_hex 64 (query_fingerprint (d_provenance b)) \<and> is_hex 64 (response_fingerprint (d_provenance b))
     \<and> 1 \<le> length (endpoint (d_provenance b)) \<and> length (endpoint (d_provenance b)) \<le> 400
     \<and> 0 \<le> records_returned (d_provenance b) \<and> records_returned (d_provenance b) \<le> 100"

definition make_batch ::
    "libs \<Rightarrow> adapter \<Rightarrow> string \<Rightarrow> string \<Rightarrow> request_outcome \<Rightarrow> json list \<Rightarrow> bool
       \<Rightarrow> adapter_exn + data_batch \<times> request_outcome" where
  "make_batch w a now path out rows has_next =
     (let b = \<lparr>d_records = rows, d_provenance =
          \<lparr>source_system = (if fixture a then ''CIVICGATE_TEST_FIXTURE'' else ''USAspending''),
           source_type = (if fixture a then ''SYNTHETIC_TEST_FIXTURE'' else ''PUBLIC_GOVERNMENT_API''),
           retrieved_at = now, query_fingerprint = o_query out,
           response_fingerprint = fingerprint w (o_raw out), endpoint = BASE_URL @ path,
           records_returned = int (length rows), truncated = has_next\<rparr>\<rparr>
      in if batch_ok b then Inr (b, out) else Inl (AdapterOther ''ValidationError''))"

definition raise_after :: "string \<Rightarrow> request_outcome \<Rightarrow> adapter_exn + 'a" where
  "raise_after code out = Inl (AdapterRaised
     \<lparr>ae_code = code, ae_retryable = False, ae_attempts = o_attempts out, ae_query = Some (o_query out),
      ae_retry_class = o_retry_class out\<rparr>)"

definition nonempty :: "string option \<Rightarrow> (string \<Rightarrow> (string \<times> json) list) \<Rightarrow> (string \<times> json) list" where
  "nonempty x f = (case x of None \<Rightarrow> [] | Some s \<Rightarrow> if s = [] then [] else f s)"

definition search_payload :: "search_args \<Rightarrow> json" where
  "search_payload q = JObj
     [(''filters'', JObj
        ([(''time_period'', JList [JObj [(''start_date'', JStr (iso_date (start_date q))),
                                         (''end_date'', JStr (iso_date (end_date q)))]]),
          (''award_type_codes'', JList (map JStr (award_types q)))]
         @ nonempty (recipient_name q) (\<lambda>n. [(''recipient_search_text'', JList [JStr n])])
         @ nonempty (awarding_agency q) (\<lambda>n. [(''agencies'',
              JList [JObj [(''type'', JStr ''awarding''), (''tier'', JStr ''toptier''), (''name'', JStr n)]])])
         @ nonempty (state_code q) (\<lambda>n. [(''place_of_performance_locations'',
              JList [JObj [(''country'', JStr ''USA''), (''state'', JStr n)]])]))),
      (''fields'', JList (map JStr [''Award ID'', ''Recipient Name'', ''Award Amount'', ''Awarding Agency'',
                                   ''generated_internal_id''])),
      (''page'', JInt 1), (''limit'', JInt (search_limit q)), (''sort'', JStr ''Award Amount''),
      (''order'', JStr ''desc''), (''subawards'', JBool False)]"

definition search ::
    "libs \<Rightarrow> upstream \<Rightarrow> adapter \<Rightarrow> (nat \<Rightarrow> attempt_env) \<Rightarrow> string \<Rightarrow> search_args
       \<Rightarrow> adapter_exn + data_batch \<times> request_outcome" where
  "search w u a env now q =
     (let path = ''/api/v2/search/spending_by_award/'' in
      rbind (request w a env path (search_payload q)) (\<lambda>out.
        case parse_search u (o_raw out) of
          None \<Rightarrow> raise_after ''MALFORMED_RESPONSE'' out
        | Some (rows, has_next) \<Rightarrow>
            if search_limit q < int (length rows) then raise_after ''MALFORMED_RESPONSE'' out
            else if \<not> distinct (map (jget ''generated_internal_id'') rows)
            then raise_after ''CONFLICTING_SOURCE_RESULTS'' out
            else make_batch w a now path out rows has_next))"

definition recipients ::
    "libs \<Rightarrow> upstream \<Rightarrow> adapter \<Rightarrow> (nat \<Rightarrow> attempt_env) \<Rightarrow> string \<Rightarrow> recipient_args
       \<Rightarrow> adapter_exn + data_batch \<times> request_outcome" where
  "recipients w u a env now r =
     (let path = ''/api/v2/recipient/'' in
      rbind (request w a env path (JObj
          [(''keyword'', JStr (rec_name r)), (''limit'', JInt (rec_limit r)), (''page'', JInt 1),
           (''sort'', JStr ''name''), (''order'', JStr ''asc''), (''award_type'', JStr ''all'')])) (\<lambda>out.
        case parse_recipients u (o_raw out) of
          None \<Rightarrow> raise_after ''MALFORMED_RESPONSE'' out
        | Some (rows, has_next) \<Rightarrow>
            if rec_limit r < int (length rows) then raise_after ''MALFORMED_RESPONSE'' out
            else make_batch w a now path out rows has_next))"

definition detail ::
    "libs \<Rightarrow> upstream \<Rightarrow> adapter \<Rightarrow> (nat \<Rightarrow> attempt_env) \<Rightarrow> string \<Rightarrow> string
       \<Rightarrow> adapter_exn + data_batch \<times> request_outcome" where
  "detail w u a env now award_id =
     (let path = ''/api/v2/awards/'' @ award_id @ ''/'' in
      rbind (request w a env path JNull) (\<lambda>out.
        case parse_detail u (o_raw out) of
          None \<Rightarrow> raise_after ''MALFORMED_RESPONSE'' out
        | Some (i, uid, row) \<Rightarrow>
            if award_id \<noteq> dec_int i \<and> award_id \<noteq> uid then raise_after ''MALFORMED_RESPONSE'' out
            else make_batch w a now path out [row] False))"

lemma make_batchD:
  "make_batch w a now path out rows has_next = Inr (b, out') \<Longrightarrow>
     out' = out \<and> d_records b = rows \<and> batch_ok b \<and> records_returned (d_provenance b) = int (length rows)
     \<and> source_type (d_provenance b) = (if fixture a then ''SYNTHETIC_TEST_FIXTURE'' else ''PUBLIC_GOVERNMENT_API'')
     \<and> response_fingerprint (d_provenance b) = fingerprint w (o_raw out) \<and> query_fingerprint (d_provenance b) = o_query out
     \<and> truncated (d_provenance b) = has_next"
  by (auto simp: make_batch_def Let_def split: if_splits)

lemma request_query:
  "request w a env path payload = Inr out \<Longrightarrow>
     o_query out = fingerprint w (JObj [(''method'', JStr (if payload = JNull then ''GET'' else ''POST'')),
                             (''url'', JStr (BASE_URL @ path)), (''body'', payload)])"
  using request_loop_success unfolding request_def by blast

text \<open>
  Search results are bounded, unambiguous and traceable: a search that returns gives at most the
  requested number of records and no two with one internal id, its provenance counts them, names the
  source the adapter was built for, and fingerprints exactly the body received and the query sent.
\<close>

theorem search_result_traceable:
  assumes "search w u a env now q = Inr (b, out)"
  shows "int (length (d_records b)) \<le> search_limit q
     \<and> distinct (map (jget ''generated_internal_id'') (d_records b))
     \<and> records_returned (d_provenance b) = int (length (d_records b))
     \<and> source_type (d_provenance b) = (if fixture a then ''SYNTHETIC_TEST_FIXTURE'' else ''PUBLIC_GOVERNMENT_API'')
     \<and> response_fingerprint (d_provenance b) = fingerprint w (o_raw out)
     \<and> query_fingerprint (d_provenance b) = fingerprint w (JObj [(''method'', JStr ''POST''),
          (''url'', JStr (BASE_URL @ ''/api/v2/search/spending_by_award/'')), (''body'', search_payload q)])"
proof -
  let ?path = "''/api/v2/search/spending_by_award/''"
  obtain out0 where o: "request w a env ?path (search_payload q) = Inr out0"
    using assms by (auto simp: search_def Let_def rbind_Inr_iff)
  obtain rows has_next where p: "parse_search u (o_raw out0) = Some (rows, has_next)"
    using assms o by (cases "parse_search u (o_raw out0)") (auto simp: search_def Let_def raise_after_def)
  have "int (length rows) \<le> search_limit q \<and> distinct (map (jget ''generated_internal_id'') rows)
      \<and> make_batch w a now ?path out0 rows has_next = Inr (b, out)"
    using assms o p by (simp add: search_def Let_def raise_after_def split: if_splits)
  moreover have "search_payload q \<noteq> JNull" by (simp add: search_payload_def)
  ultimately show ?thesis using make_batchD [of w a now ?path out0 rows has_next b out] request_query [OF o] by simp
qed

definition example_upstream :: upstream where
  "example_upstream = \<lparr>parse_search = (\<lambda>v. Some ([JObj [(''generated_internal_id'', JStr ''A1'')]], False)),
     parse_recipients = (\<lambda>v. Some ([], False)), parse_detail = (\<lambda>v. None)\<rparr>"

lemma example_search_returns:
  "\<exists>b out. search example_libs example_upstream (example_adapter None)
     (\<lambda>_. example_env (Responded (example_response 200 (Some JNull)))) [] example_search = Inr (b, out)"
  by (simp add: search_def example_request_simps numeral_3_eq_3 search_payload_def example_upstream_def
      example_search_def make_batch_def batch_ok_def fingerprint_def example_libs_def is_hex_replicate BASE_URL_def)

theorem search_result_traceable_witness:
  "\<exists>b out. search example_libs example_upstream (example_adapter None)
     (\<lambda>_. example_env (Responded (example_response 200 (Some JNull)))) [] example_search = Inr (b, out)
     \<and> int (length (d_records b)) \<le> search_limit example_search"
  using example_search_returns search_result_traceable by blast

end
