(* ===== verification/Journal.thy ===== *)
theory Journal
  imports Interfaces Execution Adapter
begin

text \<open>
  The evidence seam between the gateway and a durable journal (\<open>audit/dispatch.py\<close>): the operations of
  the protocol as a record of functions over the journal's state, and what the gateway relies on as the
  locale \<open>dispatch_journal\<close>. An operation may raise after it changed the journal.
\<close>

section \<open>What is written\<close>

fun dispatch_text :: "dispatch_state \<Rightarrow> string" where
  "dispatch_text NOT_DISPATCHED = ''NOT_DISPATCHED''"
| "dispatch_text DISPATCH_ATTEMPTED = ''DISPATCH_ATTEMPTED''"
| "dispatch_text REQUEST_CONFIRMED = ''REQUEST_CONFIRMED''"
| "dispatch_text DISPATCH_UNKNOWN = ''DISPATCH_UNKNOWN''"

fun response_text :: "response_state \<Rightarrow> string" where
  "response_text NO_RESPONSE = ''NO_RESPONSE''"
| "response_text RESPONSE_RECEIVED = ''RESPONSE_RECEIVED''"
| "response_text TRANSPORT_ERROR = ''TRANSPORT_ERROR''"

fun action_text :: "next_action \<Rightarrow> string" where
  "action_text ACT_NONE = ''NONE''"
| "action_text RETRY_ALLOWED = ''RETRY_ALLOWED''"
| "action_text RETRY_BLOCKED = ''RETRY_BLOCKED''"
| "action_text HUMAN_REVIEW_REQUIRED = ''HUMAN_REVIEW_REQUIRED''"
| "action_text STOP = ''STOP''"

fun retry_text :: "retry_decision \<Rightarrow> string" where
  "retry_text RD_NONE = ''NONE''"
| "retry_text RD_ALLOWED = ''RETRY_ALLOWED''"
| "retry_text RD_BLOCKED = ''RETRY_BLOCKED''"

definition attempt_json :: "libs \<Rightarrow> attempt_record \<Rightarrow> json" where
  "attempt_json w a = JObj
     [(''attempt'', JInt (int (at_attempt a))), (''max_attempts'', JInt (int (at_max_attempts a))),
      (''elapsed_ms'', float_json w (at_elapsed_ms a)), (''dispatch_state'', JStr (dispatch_text (at_dispatch a))),
      (''response_state'', JStr (response_text (at_response a))), (''exception_type'', opt_str (at_exception a)),
      (''status_code'', (case at_status a of None \<Rightarrow> JNull | Some n \<Rightarrow> JInt (int n))),
      (''response_received'', JBool (at_received a)),
      (''retry_after_seconds'', (case at_retry_after a of None \<Rightarrow> JNull | Some r \<Rightarrow> float_json w r)),
      (''retry_decision'', JStr (retry_text (at_decision a))), (''retry_reason'', JStr (at_reason a))]"

definition error_json :: "error_item \<Rightarrow> json" where
  "error_json e = JObj [(''code'', JStr (error_code e)), (''message'', JStr (error_message e)),
                        (''retryable'', JBool (retryable e))]"

record finish_evidence =
  pre_dispatch :: string
  boundary_error :: "string option"
  attempts_made :: "attempt_record list"

definition evidence_fields :: "libs \<Rightarrow> finish_evidence \<Rightarrow> (string \<times> json) list" where
  "evidence_fields w ev =
     [(''pre_dispatch_verification'', JStr (pre_dispatch ev)),
      (''execution_boundary_error'', opt_str (boundary_error ev)),
      (''attempts'', JList (map (attempt_json w) (attempts_made ev)))]"

text \<open>\<open>dict | fields\<close>: later fields replace earlier ones of the same name.\<close>

definition dict_of :: "(string \<times> json) list \<Rightarrow> json" where
  "dict_of kvs = JObj (foldl (\<lambda>d (k, v). alist_set k v d) [] kvs)"

text \<open>An executed call whose outcome is not fully known.\<close>

definition outcome_unknown :: "envelope \<Rightarrow> finish_evidence \<Rightarrow> bool" where
  "outcome_unknown v ev \<longleftrightarrow> tool_executed v \<and>
     (\<not> metadata_available v \<or> e_dispatch v \<noteq> REQUEST_CONFIRMED \<or> e_response v \<noteq> RESPONSE_RECEIVED
      \<or> list_ex (\<lambda>a. at_dispatch a = DISPATCH_UNKNOWN \<or> at_response a = TRANSPORT_ERROR) (attempts_made ev))"

text \<open>What \<open>finish\<close> makes of the envelope then.\<close>

definition hold_envelope :: "envelope \<Rightarrow> envelope" where
  "hold_envelope v = v\<lparr>e_next := HUMAN_REVIEW_REQUIRED,
     clarification := Some ''DISPATCH_UNKNOWN: durable HOLD; no retry or failover.'',
     e_result := None, e_errors := map (\<lambda>e. e\<lparr>retryable := False\<rparr>) (e_errors v)\<rparr>"

definition settle_envelope :: "envelope \<Rightarrow> finish_evidence \<Rightarrow> envelope" where
  "settle_envelope v ev = (if outcome_unknown v ev then hold_envelope v else v)"

text \<open>What any journal may make of it: a held call keeps no result, no retry and no confirmed dispatch.\<close>

definition settles :: "envelope \<Rightarrow> finish_evidence \<Rightarrow> envelope \<Rightarrow> bool" where
  "settles v ev v' \<longleftrightarrow> (if outcome_unknown v ev
     then v' = hold_envelope v \<or> v' = (hold_envelope v)\<lparr>e_dispatch := DISPATCH_UNKNOWN\<rparr> else v' = v)"

definition finish_fields :: "libs \<Rightarrow> envelope \<Rightarrow> int \<Rightarrow> bool \<Rightarrow> finish_evidence \<Rightarrow> (string \<times> json) list" where
  "finish_fields w v denials unknown ev =
     [(''request_id'', JStr (e_request_id v)), (''denials'', JInt denials), (''hold'', JBool unknown),
      (''final_decision'', JStr (decision_text (e_decision v))),
      (''phase'', JStr (if tool_executed v then ''post_dispatch'' else ''pre_dispatch'')),
      (''binding_consumed'', JBool (pre_dispatch ev = ''PASS'')),
      (''policy_reasons'', JList (map JStr (e_policy_reasons v))),
      (''tool_executed'', JBool (tool_executed v)), (''dispatch_state'', JStr (dispatch_text (e_dispatch v))),
      (''response_state'', JStr (response_text (e_response v))), (''next_action'', JStr (action_text (e_next v))),
      (''errors'', JList (map error_json (e_errors v)))] @ evidence_fields w ev"

text \<open>What the gateway passes to \<open>policy\<close>.\<close>

definition policy_evidence :: "policy_result \<Rightarrow> bool \<Rightarrow> string option \<Rightarrow> (string \<times> json) list" where
  "policy_evidence p binding_issued issuance_error =
     [(''initial_decision'', JStr (decision_text (decided p))), (''reasons'', JList (map JStr (reasons p))),
      (''binding_issued'', JBool binding_issued), (''binding_issuance_error'', opt_str issuance_error)]"

section \<open>Events can be read back\<close>

definition floats_ok :: "libs \<Rightarrow> bool" where
  "floats_ok w \<longleftrightarrow> (\<forall>q. readable (float_of w) (float_json w q))"

definition good :: "libs \<Rightarrow> json \<Rightarrow> bool" where
  "good w v \<longleftrightarrow> readable (float_of w) v \<and> keys_distinct v"

definition good_fields :: "libs \<Rightarrow> (string \<times> json) list \<Rightarrow> bool" where
  "good_fields w kvs \<longleftrightarrow> list_all (\<lambda>(k, v). good w v) kvs"

lemma set_alist_set: "set (alist_set k v xs) \<subseteq> insert (k, v) (set xs)"
  by (induction k v xs rule: alist_set.induct) auto

lemma good_foldl:
  "list_all (\<lambda>(k, v). good w v) kvs \<Longrightarrow> list_all (\<lambda>(k, v). good w v) acc \<Longrightarrow> distinct (map fst acc) \<Longrightarrow>
     (let d = foldl (\<lambda>d (k, v). alist_set k v d) acc kvs in list_all (\<lambda>(k, v). good w v) d \<and> distinct (map fst d))"
proof (induction kvs arbitrary: acc)
  case (Cons x kvs)
  obtain k v where x: "x = (k, v)" by (cases x)
  have "list_all (\<lambda>(k, v). good w v) (alist_set k v acc)"
    using Cons.prems set_alist_set [of k v acc] by (fastforce simp: list_all_iff x)
  with Cons.IH [of "alist_set k v acc"] Cons.prems show ?case
    by (simp add: x distinct_alist_set)
qed simp

lemma good_dict_of: "good_fields w kvs \<Longrightarrow> good w (dict_of kvs)"
  using good_foldl [of w kvs "[]"]
  by (auto simp: good_fields_def dict_of_def good_def Let_def list_all_iff split: prod.splits)

lemma map_of_foldl_alist_set:
  "map_of (foldl (\<lambda>d (k, v). alist_set k v d) acc kvs) = map_of acc ++ map_of (rev kvs)"
  by (induction kvs arbitrary: acc) (auto simp: map_of_alist_set map_add_upds)

lemma jget_dict_of: "jget k (dict_of kvs) = map_of (rev kvs) k"
  by (simp add: dict_of_def map_of_foldl_alist_set)

lemma good_simps [simp]:
  "good w JNull" "good w (JBool b)" "good w (JInt i)" "good w (JStr s)"
  "good w (JList vs) \<longleftrightarrow> list_all (good w) vs"
  by (auto simp: good_def list_all_iff)

lemma good_obj [simp]:
  "good w (JObj ms) \<longleftrightarrow> distinct (map fst ms) \<and> list_all (\<lambda>(k, v). good w v) ms"
  by (auto simp: good_def list_all_iff split: prod.splits)

lemma good_float [simp]: "floats_ok w \<Longrightarrow> good w (float_json w q)"
  by (simp add: floats_ok_def good_def float_json_def)

lemma good_opt_str [simp]: "good w (opt_str x)"
  by (cases x) (simp_all add: opt_str_def)

lemma good_records:
  "floats_ok w \<Longrightarrow> good w (attempt_json w a)" "good w (error_json e)" "good w (envelope_audit_record w env)"
  by (auto simp: attempt_json_def error_json_def envelope_audit_record_def binding_audit_record_def
      binding_json_def list_all_iff split: option.splits)

lemma good_evidence:
  "good_fields w (policy_evidence p b x)" "floats_ok w \<Longrightarrow> good_fields w (evidence_fields w ev)"
  "floats_ok w \<Longrightarrow> good_fields w (finish_fields w v n u ev)"
  by (auto simp: good_fields_def policy_evidence_def finish_fields_def evidence_fields_def list_all_iff
      good_records)

lemma example_floats: "floats_ok example_libs"
  using demo_readable by (simp add: floats_ok_def float_json_def example_libs_def)

text \<open>An event that was written parses back to itself, up to the order of its keys.\<close>

lemma event_readback:
  assumes "good w v" "dumps True v = Some payload"
  shows "\<exists>u. json_loads (float_of w) payload = Some u \<and> (\<forall>k. jget k u = map_option jsort (jget k v))"
  using loads_dumps [of "float_of w" v True payload] assms jget_jsort by (auto simp: good_def)

section \<open>The protocol\<close>

record ('j, 'e) journal_ops =
  j_admit :: "'e \<Rightarrow> 'j \<Rightarrow> ('j, exn, int) outcome"
  j_begin :: "'e \<Rightarrow> string \<Rightarrow> 'j \<Rightarrow> ('j, exn, unit) outcome"
  j_policy :: "'e \<Rightarrow> string \<Rightarrow> (string \<times> json) list \<Rightarrow> 'j \<Rightarrow> ('j, exn, unit) outcome"
  j_intent :: "'e \<Rightarrow> authority_envelope option \<Rightarrow> 'j \<Rightarrow> ('j, exn, unit) outcome"
  j_finish :: "'e \<Rightarrow> envelope \<Rightarrow> int \<Rightarrow> finish_evidence \<Rightarrow> 'j \<Rightarrow> ('j \<times> envelope, exn, unit) outcome"
  j_failed :: "'e \<Rightarrow> exn \<Rightarrow> 'j \<Rightarrow> 'j"

text \<open>
  Held is a one-way state that admits nothing; a failed call leaves the journal held; an intent that
  returns is durable and belongs to the envelope's request; a call whose outcome is unknown ends held.
  \<open>sound\<close> says what the last law needs of the libraries.
\<close>

locale dispatch_journal =
  fixes ops :: "('j, 'e) journal_ops"
    and held :: "'j \<Rightarrow> bool"
    and recorded :: "'j \<Rightarrow> string \<Rightarrow> bool"
    and sound :: bool
  assumes admit_open: "snd (j_admit ops e j) = Inr n \<Longrightarrow> \<not> held j \<and> fst (j_admit ops e j) = j"
    and admit_held: "held j \<Longrightarrow> held (fst (j_admit ops e j))"
    and begin_held: "held j \<Longrightarrow> held (fst (j_begin ops e rid j))"
    and policy_held: "held j \<Longrightarrow> held (fst (j_policy ops e rid ev j))"
    and intent_held: "held j \<Longrightarrow> held (fst (j_intent ops e a j))"
    and finish_held: "held j \<Longrightarrow> held (fst (fst (j_finish ops e v n fe j)))"
    and failed_held: "held (j_failed ops e x j)"
    and intent_recorded: "snd (j_intent ops e a j) = Inr () \<Longrightarrow>
      \<exists>env. a = Some env \<and> recorded (fst (j_intent ops e a j)) (x_request_id (a_binding env))"
    and finish_settles: "settles v fe (snd (fst (j_finish ops e v n fe j)))"
    and finish_unknown: "sound \<Longrightarrow> snd (j_finish ops e v n fe j) = Inr () \<Longrightarrow> outcome_unknown v fe \<Longrightarrow>
      held (fst (fst (j_finish ops e v n fe j)))"
    and recorded_kept: "recorded j r \<Longrightarrow> recorded (fst (j_admit ops e j)) r"
      "recorded j r \<Longrightarrow> recorded (fst (j_begin ops e rid j)) r"
      "recorded j r \<Longrightarrow> recorded (fst (j_policy ops e rid ev j)) r"
      "recorded j r \<Longrightarrow> recorded (fst (j_intent ops e a j)) r"
      "recorded j r \<Longrightarrow> recorded (fst (fst (j_finish ops e v n fe j))) r"
      "recorded j r \<Longrightarrow> recorded (j_failed ops e x j) r"
begin

lemma held_never_admits: "held j \<Longrightarrow> \<exists>x. snd (j_admit ops e j) = Inl x"
  using admit_open by (cases "snd (j_admit ops e j)") blast+

lemmas held_kept = admit_held begin_held policy_held intent_held finish_held

lemma settled_result:
  "outcome_unknown v fe \<Longrightarrow> e_result (snd (fst (j_finish ops e v n fe j))) = None
     \<and> list_all (\<lambda>x. \<not> retryable x) (e_errors (snd (fst (j_finish ops e v n fe j))))"
  using finish_settles [of v fe e n j] by (auto simp: settles_def hold_envelope_def list_all_iff)

end

end
