(* ===== verification/Identity.thy ===== *)
theory Identity
  imports JsonParse Execution
begin

text \<open>
  \<open>mcp/http_identity.py\<close>: the trust domain a server is pinned to, the context of an invocation, and the
  verification of a local credential. Checking the signature and the registered claims is PyJWT's
  \<open>decode\<close>, the argument \<open>decode\<close> (\<open>None\<close>: it raised); the checks of the code come after it.
\<close>

record trust_domain =
  dom_issuer :: string
  dom_audience :: string
  dom_principal :: string
  dom_service :: string
  dom_instance :: string

definition trust_domain_ok :: "trust_domain \<Rightarrow> bool" where
  "trust_domain_ok d \<longleftrightarrow>
     list_all (\<lambda>x. 0 < length x \<and> length x \<le> 256)
       [dom_issuer d, dom_audience d, dom_principal d, dom_service d, dom_instance d]
     \<and> dom_service d \<noteq> dom_principal d"

definition domain_json :: "trust_domain \<Rightarrow> json" where
  "domain_json d = JObj
     [(''issuer'', JStr (dom_issuer d)), (''audience'', JStr (dom_audience d)),
      (''principal'', JStr (dom_principal d)), (''service_identity'', JStr (dom_service d)),
      (''instance'', JStr (dom_instance d))]"

record invocation_context =
  ic_principal :: string
  ic_issuer :: string
  ic_audience :: string
  ic_session :: string
  ic_request :: string
  ic_expires_at :: int

definition context_evidence :: "invocation_context \<Rightarrow> json" where
  "context_evidence c = JObj
     [(''principal'', JStr (ic_principal c)), (''issuer'', JStr (ic_issuer c)),
      (''audience'', JStr (ic_audience c)), (''session'', JStr (ic_session c)),
      (''request'', JStr (ic_request c)), (''expires_at'', JInt (ic_expires_at c))]"

text \<open>
  The decoder: token, required issuer and audience; it answers with the claims. \<open>KeyError\<close> and
  \<open>TypeError\<close> end as \<open>AUTH_INVALID\<close>, as does a claim of another type in a comparison.
\<close>

definition verify ::
    "(string \<Rightarrow> string \<Rightarrow> string \<Rightarrow> json option) \<Rightarrow> trust_domain \<Rightarrow> rat \<Rightarrow> string \<Rightarrow> exn + json" where
  "verify decode d now token =
     (if 4096 < length token then Inl (LocalHold ''AUTH_INVALID'')
      else case decode token (dom_issuer d) (dom_audience d) of
          None \<Rightarrow> Inl (LocalHold ''AUTH_INVALID'')
        | Some claims \<Rightarrow>
           (case (jget ''sub'' claims, jget ''iat'' claims, jget ''nbf'' claims, jget ''exp'' claims, jget ''jti'' claims) of
              (Some sub, Some (JInt iat), Some (JInt nbf), Some (JInt expiry), Some (JStr jti)) \<Rightarrow>
                if sub = JStr (dom_principal d) \<and> iat \<le> nbf \<and> nbf < expiry
                   \<and> 0 < expiry - iat \<and> expiry - iat \<le> 300 \<and> 16 \<le> length jti \<and> length jti \<le> 128
                   \<and> jget ''scope'' claims = Some (JStr ''civicgate:invoke'') \<and> now < of_int expiry
                then Inr claims else Inl (LocalHold ''AUTH_INVALID'')
            | _ \<Rightarrow> Inl (LocalHold ''AUTH_INVALID'')))"

text \<open>The journal's check of the current context against its domain.\<close>

definition context_admissible :: "trust_domain \<Rightarrow> rat \<Rightarrow> invocation_context option \<Rightarrow> bool" where
  "context_admissible d now c = (case c of None \<Rightarrow> False
     | Some x \<Rightarrow> ic_principal x = dom_principal d \<and> ic_issuer x = dom_issuer d
         \<and> ic_audience x = dom_audience d \<and> \<not> of_int (ic_expires_at x) \<le> now)"

lemma verify_cases:
  assumes "verify decode d now token = Inr claims"
  obtains iat nbf expiry jti where "decode token (dom_issuer d) (dom_audience d) = Some claims"
    "jget ''sub'' claims = Some (JStr (dom_principal d))" "jget ''iat'' claims = Some (JInt iat)"
    "jget ''nbf'' claims = Some (JInt nbf)" "jget ''exp'' claims = Some (JInt expiry)"
    "jget ''jti'' claims = Some (JStr jti)" "jget ''scope'' claims = Some (JStr ''civicgate:invoke'')"
    "iat \<le> nbf" "nbf < expiry" "expiry - iat \<le> 300" "now < of_int expiry"
  using assms unfolding verify_def
  by (auto split: if_splits option.splits json.splits)

text \<open>
  A verified credential is short-lived and for this principal: whatever the decoder accepts, a
  token that verifies names the domain's principal and the invoke scope, is not expired, and was issued
  at most 300 seconds before it expires.
\<close>

theorem verified_credential_bounded:
  assumes "verify decode d now token = Inr claims"
  shows "\<exists>iat expiry. jget ''sub'' claims = Some (JStr (dom_principal d))
     \<and> jget ''scope'' claims = Some (JStr ''civicgate:invoke'')
     \<and> jget ''iat'' claims = Some (JInt iat) \<and> jget ''exp'' claims = Some (JInt expiry)
     \<and> now < of_int expiry \<and> 0 < expiry - iat \<and> expiry - iat \<le> 300"
  by (rule verify_cases [OF assms]) auto

definition example_domain :: trust_domain where
  "example_domain = \<lparr>dom_issuer = ''iss'', dom_audience = ''aud'', dom_principal = ''alice'',
     dom_service = ''svc'', dom_instance = ''i1''\<rparr>"

definition example_claims :: json where
  "example_claims = JObj [(''sub'', JStr ''alice''), (''iat'', JInt 0), (''nbf'', JInt 0), (''exp'', JInt 60),
     (''jti'', JStr ''0123456789abcdef''), (''scope'', JStr ''civicgate:invoke'')]"

theorem verified_credential_bounded_witness:
  "\<exists>expiry. jget ''exp'' example_claims = Some (JInt expiry) \<and> (5 :: rat) < of_int expiry"
proof -
  have "verify (\<lambda>t i a. Some example_claims) example_domain 5 ''t'' = Inr example_claims"
    by (simp add: verify_def example_claims_def example_domain_def)
  from verified_credential_bounded [OF this] show ?thesis by blast
qed

end
