(* ===== verification/LocalJournal.thy ===== *)
theory LocalJournal
  imports Journal Identity
begin

text \<open>
  \<open>audit/local_journal.py\<close>: the local append-only journal. Its table is the list of rows; what the
  disk, SQLite and the clock do in one operation is a \<open>journal_env\<close>. The rows are part of the state,
  so another process writing to the store is a change of the state between two operations.
\<close>

section \<open>Rows and the hash chain\<close>

definition MAX_EVENTS :: nat where "MAX_EVENTS = 10000"

record row =
  row_seq :: nat
  row_payload :: string
  row_previous :: string
  row_digest :: string

definition chain_hash :: "libs \<Rightarrow> string \<Rightarrow> string \<Rightarrow> string" where
  "chain_hash w previous payload = sha256 w (previous @ payload)"

fun chain_from :: "libs \<Rightarrow> nat \<Rightarrow> string \<Rightarrow> row list \<Rightarrow> bool" where
  "chain_from w n d [] = True"
| "chain_from w n d (r # rs) =
     (row_seq r = Suc n \<and> row_previous r = d \<and> row_digest r = chain_hash w d (row_payload r)
      \<and> chain_from w (Suc n) (row_digest r) rs)"

definition last_digest :: "string \<Rightarrow> row list \<Rightarrow> string" where
  "last_digest d rs = (if rs = [] then d else row_digest (last rs))"

record journal_env =
  je_time :: "nat \<Rightarrow> rat"                   \<comment> \<open>the readings of the clock in this operation\<close>
  je_context :: "invocation_context option"
  je_file_present :: bool
  je_db_ok :: bool                         \<comment> \<open>False: SQLite raises, the transaction rolls back\<close>

record local_journal =
  l_domain :: trust_domain
  l_revision :: string
  l_source :: string
  l_generation :: string
  l_denials :: int
  l_held :: bool
  l_active :: "string option"
  l_closed :: bool
  l_open :: bool
  l_sequence :: nat
  l_digest :: string
  l_rows :: "row list"

section \<open>Provisioning and recovery\<close>

definition provision_event :: "trust_domain \<Rightarrow> json" where
  "provision_event d = JObj [(''kind'', JStr ''provision''), (''domain'', domain_json d), (''version'', JInt 1)]"

definition provision_local_store :: "libs \<Rightarrow> trust_domain \<Rightarrow> row list" where
  "provision_local_store w d =
     (let payload = enc True (jsort (provision_event d)) in
      [\<lparr>row_seq = 1, row_payload = payload, row_previous = [], row_digest = chain_hash w [] payload\<rparr>])"

record recovery =
  rc_denials :: int
  rc_held :: bool
  rc_open :: bool
  rc_pending :: "json list"

definition hashable :: "json \<Rightarrow> bool" where
  "hashable v \<longleftrightarrow> \<not> is_list v \<and> \<not> is_obj v"

text \<open>
  One event of the replay; \<open>Inl\<close> is any exception. A denial count that is not an integer raises here;
  Python would go on with a float.
\<close>

definition replay_event :: "trust_domain \<Rightarrow> nat \<Rightarrow> json \<Rightarrow> recovery \<Rightarrow> exn + recovery" where
  "replay_event d sequence event rc = (case jget ''kind'' event of
       None \<Rightarrow> Inl (OtherError ''KeyError'')
     | Some k \<Rightarrow>
       if sequence = 1 then
         (if py_eq event (provision_event d) then Inr rc else Inl (LocalHold ''TRUST_DOMAIN_MISMATCH''))
       else if k = JStr ''boot'' then Inr (rc\<lparr>rc_held := rc_held rc \<or> rc_open rc, rc_open := True\<rparr>)
       else if k = JStr ''close'' then Inr (rc\<lparr>rc_open := False\<rparr>)
       else if k = JStr ''begin'' then
         (case jget ''request_id'' event of None \<Rightarrow> Inl (OtherError ''KeyError'')
          | Some r \<Rightarrow> if \<not> hashable r then Inl (OtherError ''TypeError'')
                      else Inr (rc\<lparr>rc_pending := (if list_ex (py_eq r) (rc_pending rc) then rc_pending rc
                                                  else r # rc_pending rc)\<rparr>))
       else if k = JStr ''finish'' then
         (case (jget ''request_id'' event, jget ''denials'' event, jget ''hold'' event) of
            (Some r, Some n, Some h) \<Rightarrow>
              if \<not> hashable r \<or> \<not> list_ex (py_eq r) (rc_pending rc) then Inl (OtherError ''KeyError'')
              else (case (n, h) of
                  (JInt i, JBool b) \<Rightarrow> Inr (rc\<lparr>rc_pending := filter (\<lambda>x. \<not> py_eq r x) (rc_pending rc),
                       rc_denials := max (rc_denials rc) i, rc_held := rc_held rc \<or> b\<rparr>)
                | (JInt i, JInt b) \<Rightarrow> Inr (rc\<lparr>rc_pending := filter (\<lambda>x. \<not> py_eq r x) (rc_pending rc),
                       rc_denials := max (rc_denials rc) i, rc_held := rc_held rc \<or> b \<noteq> 0\<rparr>)
                | _ \<Rightarrow> Inl (OtherError ''TypeError''))
          | _ \<Rightarrow> Inl (OtherError ''KeyError''))
       else if k = JStr ''hold'' then Inr (rc\<lparr>rc_held := True\<rparr>)
       else if k = JStr ''policy'' \<or> k = JStr ''intent'' then Inr rc
       else Inl (LocalHold ''RECOVERY_INVALID''))"

fun replay :: "libs \<Rightarrow> trust_domain \<Rightarrow> nat \<Rightarrow> string \<Rightarrow> row list \<Rightarrow> recovery \<Rightarrow> exn + recovery" where
  "replay w d n dg [] rc = Inr rc"
| "replay w d n dg (r # rs) rc =
     (if row_seq r \<noteq> Suc n \<or> row_previous r \<noteq> dg \<or> row_digest r \<noteq> chain_hash w (row_previous r) (row_payload r)
      then Inl (LocalHold ''RECOVERY_INVALID'')
      else case json_loads (float_of w) (row_payload r) of
          None \<Rightarrow> Inl (OtherError ''JSONDecodeError'')
        | Some event \<Rightarrow> rbind (replay_event d (row_seq r) event rc)
            (\<lambda>rc'. replay w d (row_seq r) (row_digest r) rs rc'))"

definition recovery_start :: recovery where
  "recovery_start = \<lparr>rc_denials = 0, rc_held = False, rc_open = False, rc_pending = []\<rparr>"

section \<open>Appending\<close>

definition max_seq :: "row list \<Rightarrow> nat option" where
  "max_seq rs = (if rs = [] then None else Some (Max (set (map row_seq rs))))"

definition hold_with :: "local_journal \<Rightarrow> exn \<Rightarrow> (local_journal, exn, unit) outcome" where
  "hold_with j e = (j\<lparr>l_held := True\<rparr>, Inl e)"

definition append ::
    "libs \<Rightarrow> journal_env \<Rightarrow> rat \<Rightarrow> string \<Rightarrow> (string \<times> json) list \<Rightarrow> local_journal \<Rightarrow> (local_journal, exn, unit) outcome" where
  "append w e now knd evidence j =
     (if l_closed j \<or> \<not> l_open j \<or> MAX_EVENTS \<le> l_sequence j then hold_with j (LocalHold ''JOURNAL_UNAVAILABLE'')
      else if \<not> je_file_present e then hold_with j (LocalHold ''JOURNAL_MISSING'')
      else case dumps True (dict_of ([(''kind'', JStr knd), (''generation'', JStr (l_generation j)),
                                      (''time'', float_json w now)] @ evidence)) of
          None \<Rightarrow> hold_with j (OtherError ''ValueError'')
        | Some payload \<Rightarrow>
            if \<not> je_db_ok e then hold_with j (OtherError ''OperationalError'')
            else if max_seq (l_rows j) \<noteq> Some (l_sequence j) then hold_with j (LocalHold ''JOURNAL_CONCURRENT_CHANGE'')
            else (let dg = chain_hash w (l_digest j) payload in
                  (j\<lparr>l_rows := l_rows j @ [\<lparr>row_seq = Suc (l_sequence j), row_payload = payload,
                        row_previous = l_digest j, row_digest = dg\<rparr>],
                     l_sequence := Suc (l_sequence j), l_digest := dg\<rparr>, Inr ())))"

text \<open>
  Opening an existing store: \<open>revision\<close> is the configured source revision, \<open>head\<close> the actual one and
  \<open>manifest\<close> the digests of the sources. A journal that is not returned has released its lock.
\<close>

record store_env =
  se_head :: string
  se_manifest :: json
  se_size :: nat
  se_lock_ok :: bool
  se_intact :: bool
  se_generation :: string

definition LocalDispatchJournal ::
    "libs \<Rightarrow> store_env \<Rightarrow> journal_env \<Rightarrow> trust_domain \<Rightarrow> string \<Rightarrow> row list \<Rightarrow> row list \<times> (exn + local_journal)" where
  "LocalDispatchJournal w se e d revision rows =
     (if \<not> is_hex 40 revision \<or> se_head se \<noteq> revision then (rows, Inl (OtherError ''ValueError''))
      else case dumps True (se_manifest se) of None \<Rightarrow> (rows, Inl (OtherError ''ValueError''))
      | Some manifest \<Rightarrow>
      if 32 * 1024 * 1024 < se_size se then (rows, Inl (LocalHold ''RECOVERY_STORE_TOO_LARGE''))
      else if \<not> se_lock_ok se then (rows, Inl (OtherError ''BlockingIOError''))
      else if \<not> se_intact se then (rows, Inl (LocalHold ''RECOVERY_INVALID''))
      else if rows = [] \<or> MAX_EVENTS \<le> length rows then (rows, Inl (LocalHold ''RECOVERY_MISSING_OR_FULL''))
      else case replay w d 0 [] rows recovery_start of
          Inl x \<Rightarrow> (rows, Inl x)
        | Inr rc \<Rightarrow>
           if rc_held rc \<or> rc_pending rc \<noteq> [] \<or> rc_open rc then (rows, Inl (LocalHold ''RECOVERY_HOLD''))
           else (let source = sha256 w manifest;
                     j = \<lparr>l_domain = d, l_revision = revision, l_source = source,
                        l_generation = se_generation se, l_denials = rc_denials rc, l_held = False,
                        l_active = None, l_closed = False, l_open = True, l_sequence = length rows,
                        l_digest = last_digest [] rows, l_rows = rows\<rparr>;
                     (j', r) = append w e (je_time e 0) ''boot''
                        [(''code_revision'', JStr revision), (''source_sha256'', JStr source)] j
                 in (l_rows j', (case r of Inl x \<Rightarrow> Inl x | Inr u \<Rightarrow> Inr j'))))"

section \<open>The operations\<close>

text \<open>\<open>_context\<close>, at the \<open>n\<close>th reading of the clock.\<close>

definition current_context :: "journal_env \<Rightarrow> nat \<Rightarrow> local_journal \<Rightarrow> exn + json" where
  "current_context e n j =
     (if context_admissible (l_domain j) (je_time e n) (je_context e)
      then Inr (context_evidence (the (je_context e)))
      else Inl (LocalHold ''AUTH_CONTEXT_INVALID_OR_EXPIRED''))"

definition admit :: "journal_env \<Rightarrow> local_journal \<Rightarrow> (local_journal, exn, int) outcome" where
  "admit e j =
     (if l_held j \<or> (l_active j \<noteq> None \<and> l_active j \<noteq> Some []) \<or> l_closed j then (j, Inl (LocalHold ''DURABLE_HOLD''))
      else (j, rbind (current_context e 0 j) (\<lambda>_. Inr (l_denials j))))"

definition begin_call :: "libs \<Rightarrow> journal_env \<Rightarrow> string \<Rightarrow> local_journal \<Rightarrow> (local_journal, exn, unit) outcome" where
  "begin_call w e rid j = (case current_context e 0 j of
       Inl x \<Rightarrow> (j, Inl x)
     | Inr c \<Rightarrow>
        (let (j', r) = append w e (je_time e 1) ''begin''
              [(''request_id'', JStr rid), (''context'', c), (''channel'', JStr ''B''),
               (''instance'', JStr (dom_instance (l_domain j))),
               (''service_identity'', JStr (dom_service (l_domain j)))] j
         in case r of Inl x \<Rightarrow> (j', Inl x) | Inr u \<Rightarrow> (j'\<lparr>l_active := Some rid\<rparr>, Inr ())))"

definition policy_event ::
    "libs \<Rightarrow> journal_env \<Rightarrow> string \<Rightarrow> (string \<times> json) list \<Rightarrow> local_journal \<Rightarrow> (local_journal, exn, unit) outcome" where
  "policy_event w e rid evidence j = append w e (je_time e 0) ''policy'' ((''request_id'', JStr rid) # evidence) j"

definition intent ::
    "libs \<Rightarrow> journal_env \<Rightarrow> authority_envelope option \<Rightarrow> local_journal \<Rightarrow> (local_journal, exn, unit) outcome" where
  "intent w e auth j = (case auth of
       None \<Rightarrow> (j, Inl (LocalHold ''INTENT_BINDING_MISSING''))
     | Some a \<Rightarrow>
        if Some (x_request_id (a_binding a)) \<noteq> l_active j then (j, Inl (LocalHold ''INTENT_BINDING_MISSING''))
        else (case current_context e 0 j of
            Inl x \<Rightarrow> (j, Inl x)
          | Inr c \<Rightarrow>
             (let (j', r) = append w e (je_time e 1) ''intent''
                   [(''request_id'', opt_str (l_active j)), (''context'', c),
                    (''authority'', envelope_audit_record w a), (''containment_denials'', JInt (l_denials j)),
                    (''dispatch_state'', JStr ''NOT_DISPATCHED''), (''code_revision'', JStr (l_revision j)),
                    (''source_sha256'', JStr (l_source j))] j
              in case r of Inl x \<Rightarrow> (j', Inl x)
                 | Inr u \<Rightarrow> (j', rbind (current_context e 2 j') (\<lambda>_. Inr ())))))"

definition finish ::
    "libs \<Rightarrow> journal_env \<Rightarrow> envelope \<Rightarrow> int \<Rightarrow> finish_evidence \<Rightarrow> local_journal
       \<Rightarrow> (local_journal \<times> envelope, exn, unit) outcome" where
  "finish w e v denials ev j =
     (let unknown = outcome_unknown v ev;
          v' = settle_envelope v ev;
          (j', r) = append w e (je_time e 0) ''finish'' (finish_fields w v' denials unknown ev) j
      in case r of Inl x \<Rightarrow> ((j', v'), Inl x)
         | Inr u \<Rightarrow> ((j'\<lparr>l_denials := denials, l_held := l_held j' \<or> unknown, l_active := None\<rparr>, v'), Inr ()))"

fun exn_reason :: "exn \<Rightarrow> string" where
  "exn_reason (LocalHold s) = s"
| "exn_reason _ = ''INCOMPLETE_CALL''"

fun exn_type :: "exn \<Rightarrow> string" where
  "exn_type (LocalHold s) = ''LocalHold''"
| "exn_type (BoundaryError s) = ''ExecutionBoundaryError''"
| "exn_type (OtherError s) = s"

text \<open>\<open>errorname\<close> is SQLite's name of the error, when it has one.\<close>

definition failed :: "libs \<Rightarrow> journal_env \<Rightarrow> string option \<Rightarrow> exn \<Rightarrow> local_journal \<Rightarrow> local_journal" where
  "failed w e errorname x j =
     fst (append w e (je_time e 0) ''hold''
       [(''request_id'', opt_str (l_active j)), (''reason'', JStr (exn_reason x)),
        (''error_type'', JStr (exn_type x)), (''sqlite_errorname'', opt_str errorname)] (j\<lparr>l_held := True\<rparr>))"

definition close :: "libs \<Rightarrow> journal_env \<Rightarrow> local_journal \<Rightarrow> (local_journal, exn, unit) outcome" where
  "close w e j =
     (if \<not> l_closed j \<and> \<not> l_held j \<and> (l_active j = None \<or> l_active j = Some [])
      then (let (j', r) = append w e (je_time e 0) ''close'' [] j in (j'\<lparr>l_closed := True, l_open := False\<rparr>, r))
      else (j\<lparr>l_closed := True, l_open := False\<rparr>, Inr ()))"

definition local_ops :: "libs \<Rightarrow> (local_journal, journal_env) journal_ops" where
  "local_ops w = \<lparr>j_admit = admit, j_begin = begin_call w, j_policy = policy_event w, j_intent = intent w,
     j_finish = finish w, j_failed = (\<lambda>e x j. failed w e None x j)\<rparr>"

section \<open>Every operation extends the chain\<close>

definition journal_inv :: "libs \<Rightarrow> local_journal \<Rightarrow> bool" where
  "journal_inv w j \<longleftrightarrow> chain_from w 0 [] (l_rows j) \<and> l_sequence j = length (l_rows j)
     \<and> l_digest j = last_digest [] (l_rows j)"

text \<open>What no operation undoes: the rows written, and the hold.\<close>

definition grows :: "local_journal \<Rightarrow> local_journal \<Rightarrow> bool" where
  "grows j j' \<longleftrightarrow> (\<exists>new. l_rows j' = l_rows j @ new) \<and> (l_held j \<longrightarrow> l_held j') \<and> l_domain j' = l_domain j"

lemma grows_refl [simp]: "grows j j"
  by (simp add: grows_def)

lemma grows_trans: "grows j j' \<Longrightarrow> grows j' j'' \<Longrightarrow> grows j j''"
  by (force simp: grows_def)

lemma chain_from_snoc:
  "chain_from w n d (rs @ [r]) \<longleftrightarrow> chain_from w n d rs \<and> row_seq r = Suc (n + length rs)
     \<and> row_previous r = last_digest d rs \<and> row_digest r = chain_hash w (last_digest d rs) (row_payload r)"
  by (induction rs arbitrary: n d) (auto simp: last_digest_def)

lemma append_cases:
  obtains (refused) x where "append w e t k ev j = (j\<lparr>l_held := True\<rparr>, Inl x)"
  | (appended) payload where
      "dumps True (dict_of ([(''kind'', JStr k), (''generation'', JStr (l_generation j)),
                             (''time'', float_json w t)] @ ev)) = Some payload"
      "l_sequence j < MAX_EVENTS" "\<not> l_closed j" "l_open j"
      "append w e t k ev j = (j\<lparr>l_rows := l_rows j @ [\<lparr>row_seq = Suc (l_sequence j), row_payload = payload,
                        row_previous = l_digest j, row_digest = chain_hash w (l_digest j) payload\<rparr>],
                     l_sequence := Suc (l_sequence j), l_digest := chain_hash w (l_digest j) payload\<rparr>, Inr ())"
proof (cases "\<exists>x. append w e t k ev j = (j\<lparr>l_held := True\<rparr>, Inl x)")
  case True
  then show thesis using refused by blast
next
  case False
  obtain payload where p: "dumps True (dict_of ([(''kind'', JStr k), (''generation'', JStr (l_generation j)),
                             (''time'', float_json w t)] @ ev)) = Some payload"
    using False by (auto simp: append_def hold_with_def split: if_splits option.splits)
  with False show thesis
    by (intro appended [OF p]) (auto simp: append_def hold_with_def Let_def not_le split: if_splits)
qed

lemma append_grows: "grows j (fst (append w e t k ev j))"
  by (cases rule: append_cases [of w e t k ev j]) (simp_all add: grows_def)

lemma append_inv: "journal_inv w j \<Longrightarrow> journal_inv w (fst (append w e t k ev j))"
  by (cases rule: append_cases [of w e t k ev j])
     (simp_all add: journal_inv_def chain_from_snoc last_digest_def)

lemma append_raises: "snd (append w e t k ev j) = Inl x \<Longrightarrow> l_held (fst (append w e t k ev j))"
  by (cases rule: append_cases [of w e t k ev j]) simp_all

lemma inv_update [simp]:
  "journal_inv w (j\<lparr>l_held := h\<rparr>) = journal_inv w j" "journal_inv w (j\<lparr>l_active := a\<rparr>) = journal_inv w j"
  "journal_inv w (j\<lparr>l_denials := n\<rparr>) = journal_inv w j" "journal_inv w (j\<lparr>l_closed := c\<rparr>) = journal_inv w j"
  "journal_inv w (j\<lparr>l_open := c\<rparr>) = journal_inv w j"
  by (simp_all add: journal_inv_def)

lemma grows_update [simp]:
  "grows j (j'\<lparr>l_active := a\<rparr>) = grows j j'" "grows j (j'\<lparr>l_denials := n\<rparr>) = grows j j'"
  "grows j (j'\<lparr>l_closed := c\<rparr>) = grows j j'" "grows j (j'\<lparr>l_open := c\<rparr>) = grows j j'"
  by (simp_all add: grows_def)

lemma grows_hold: "grows j j' \<Longrightarrow> l_held j' \<longrightarrow> h \<Longrightarrow> grows j (j'\<lparr>l_held := h\<rparr>)"
  by (auto simp: grows_def)

text \<open>One operation of the journal: it extends the rows, keeps a hold, and keeps the chain.\<close>

definition journal_step :: "libs \<Rightarrow> local_journal \<Rightarrow> local_journal \<Rightarrow> bool" where
  "journal_step w j j' \<longleftrightarrow> grows j j' \<and> (journal_inv w j \<longrightarrow> journal_inv w j')"

lemma step_refl [simp]: "journal_step w j j"
  by (simp add: journal_step_def)

lemma step_append: "journal_step w j (fst (append w e t k ev j))"
  by (simp add: journal_step_def append_grows append_inv)

lemma step_append': "append w e t k ev j = (j', r) \<Longrightarrow> journal_step w j j'"
  using step_append [of w j e t k ev] by simp

lemma step_update [simp]:
  "journal_step w j (j'\<lparr>l_active := a\<rparr>) = journal_step w j j'"
  "journal_step w j (j'\<lparr>l_denials := n\<rparr>) = journal_step w j j'"
  "journal_step w j (j'\<lparr>l_closed := c\<rparr>) = journal_step w j j'"
  "journal_step w j (j'\<lparr>l_open := c\<rparr>) = journal_step w j j'"
  by (simp_all add: journal_step_def)

lemma step_hold: "journal_step w j j' \<Longrightarrow> l_held j' \<longrightarrow> h \<Longrightarrow> journal_step w j (j'\<lparr>l_held := h\<rparr>)"
  by (simp add: journal_step_def grows_hold)

lemma step_trans: "journal_step w j j' \<Longrightarrow> journal_step w j' j'' \<Longrightarrow> journal_step w j j''"
  using grows_trans by (auto simp: journal_step_def)

lemma admit_same [simp]: "fst (admit e j) = j"
  by (simp add: admit_def)

lemma step_begin [inv_intros]: "journal_step w j (fst (begin_call w e rid j))"
  by (auto simp: begin_call_def Let_def split: sum.split prod.split dest: step_append')

lemma step_policy [inv_intros]: "journal_step w j (fst (policy_event w e rid ev j))"
  by (simp add: policy_event_def step_append)

lemma step_intent [inv_intros]: "journal_step w j (fst (LocalJournal.intent w e a j))"
  by (auto simp: LocalJournal.intent_def Let_def split: sum.split prod.split option.split dest: step_append')

lemma step_finish [inv_intros]: "journal_step w j (fst (fst (finish w e v n ev j)))"
  by (auto simp: finish_def Let_def split: sum.split prod.split dest: step_append' intro!: step_hold)

lemma step_failed [inv_intros]: "journal_step w j (failed w e s x j)"
  unfolding failed_def by (rule step_trans [OF step_hold step_append]) simp_all

lemma step_close [inv_intros]: "journal_step w j (fst (close w e j))"
  by (auto simp: close_def Let_def split: prod.split dest: step_append')

section \<open>The protocol's laws\<close>

definition row_records :: "string \<Rightarrow> string \<Rightarrow> row \<Rightarrow> bool" where
  "row_records k rid r \<longleftrightarrow>
     (\<exists>v. dumps True v = Some (row_payload r) \<and> jget ''kind'' v = Some (JStr k)
        \<and> jget ''request_id'' v = Some (JStr rid))"

definition intent_recorded :: "local_journal \<Rightarrow> string \<Rightarrow> bool" where
  "intent_recorded j rid \<longleftrightarrow> (\<exists>r \<in> set (l_rows j). row_records ''intent'' rid r)"

lemma recorded_grows: "grows j j' \<Longrightarrow> intent_recorded j rid \<Longrightarrow> intent_recorded j' rid"
  by (auto simp: grows_def intent_recorded_def)

lemma step_grows: "journal_step w j j' \<Longrightarrow> grows j j'"
  by (simp add: journal_step_def)

lemmas op_grows = step_begin [THEN step_grows] step_policy [THEN step_grows] step_intent [THEN step_grows]
  step_finish [THEN step_grows] step_failed [THEN step_grows] step_close [THEN step_grows]

lemma grows_held: "grows j j' \<Longrightarrow> l_held j \<Longrightarrow> l_held j'"
  by (simp add: grows_def)

lemma failed_held: "l_held (failed w e s x j)"
  using append_grows [of "j\<lparr>l_held := True\<rparr>"] by (simp add: failed_def grows_def)

lemma append_records:
  assumes "append w e t k ev j = (j', Inr ())"
    and "jget ''kind'' (dict_of ([(''kind'', JStr k), (''generation'', JStr (l_generation j)),
                             (''time'', float_json w t)] @ ev)) = Some (JStr k)"
    and "jget ''request_id'' (dict_of ([(''kind'', JStr k), (''generation'', JStr (l_generation j)),
                             (''time'', float_json w t)] @ ev)) = Some (JStr rid)"
  shows "\<exists>r \<in> set (l_rows j'). row_records k rid r"
proof (cases rule: append_cases [of w e t k ev j])
  case (appended payload)
  with assms show ?thesis by (auto simp: row_records_def)
qed (use assms(1) in simp)

lemma intent_records:
  assumes "snd (LocalJournal.intent w e a j) = Inr ()"
  shows "\<exists>env. a = Some env \<and> intent_recorded (fst (LocalJournal.intent w e a j)) (x_request_id (a_binding env))"
proof -
  obtain env c where a: "a = Some env" "l_active j = Some (x_request_id (a_binding env))"
    "current_context e 0 j = Inr c"
    using assms by (auto simp: LocalJournal.intent_def split: option.splits if_splits sum.splits)
  then show ?thesis
    using assms
    by (auto simp: LocalJournal.intent_def Let_def intent_recorded_def opt_str_def jget_dict_of
        split: prod.splits sum.splits intro!: append_records)
qed

lemma admit_admits: "snd (admit e j) = Inr n \<Longrightarrow> \<not> l_held j"
  by (auto simp: admit_def split: if_splits)

lemma finish_holds:
  "snd (finish w e v n ev j) = Inr () \<Longrightarrow> outcome_unknown v ev \<Longrightarrow> l_held (fst (fst (finish w e v n ev j)))"
  by (auto simp: finish_def Let_def split: prod.splits sum.splits)

lemma finish_envelope: "snd (fst (finish w e v n ev j)) = settle_envelope v ev"
  by (auto simp: finish_def Let_def split: prod.splits sum.splits)

lemma settle_settles: "settles v ev (settle_envelope v ev)"
  by (simp add: settles_def settle_envelope_def)

interpretation local: dispatch_journal "local_ops w" l_held intent_recorded True for w
proof unfold_locales
  fix j :: local_journal and e a
  show "snd (j_intent (local_ops w) e a j) = Inr () \<Longrightarrow>
      \<exists>env. a = Some env \<and> intent_recorded (fst (j_intent (local_ops w) e a j)) (x_request_id (a_binding env))"
    using intent_records by (simp add: local_ops_def)
qed (simp_all add: local_ops_def admit_admits failed_held finish_holds finish_envelope
       op_grows [THEN grows_held] op_grows [THEN recorded_grows] settle_settles)

section \<open>The chain is evidence\<close>

definition sha_broken :: "libs \<Rightarrow> bool" where
  "sha_broken w \<longleftrightarrow> (\<exists>s t. s \<noteq> t \<and> sha256 w s = sha256 w t) \<or> (\<exists>s. \<not> is_hex 64 (sha256 w s))"

definition chain_digest :: "string \<Rightarrow> bool" where
  "chain_digest d \<longleftrightarrow> list_all (\<lambda>c. c \<in> set hex_alphabet) d"

definition is_record :: "string \<Rightarrow> bool" where
  "is_record p \<longleftrightarrow> (\<exists>q. p = CHR ''{'' # q)"

lemma hex_brace: "chain_digest d \<Longrightarrow> takeWhile (\<lambda>c. c \<noteq> CHR ''{'') (d @ CHR ''{'' # q) = d"
  by (induction d) (auto simp: chain_digest_def)

interpretation chain: hash_chain "chain_hash w" "[]" chain_digest is_record "sha_broken w" for w
proof unfold_locales
  fix d e p q
  assume nb: "\<not> sha_broken w"
  then have hex: "is_hex 64 (sha256 w s)" for s by (simp add: sha_broken_def)
  show "chain_digest (chain_hash w d p)"
    using hex by (simp add: chain_hash_def chain_digest_def is_hex_def)
  show "chain_hash w d p \<noteq> []"
    using hex [of "d @ p"] by (auto simp: chain_hash_def is_hex_def)
  assume *: "chain_digest d" "chain_digest e" "is_record p" "is_record q" "chain_hash w d p = chain_hash w e q"
  then have "d @ p = e @ q" using nb by (auto simp: sha_broken_def chain_hash_def)
  moreover from * obtain p' q' where "p = CHR ''{'' # p'" "q = CHR ''{'' # q'" by (auto simp: is_record_def)
  ultimately show "d = e \<and> p = q" using hex_brace [OF *(1)] hex_brace [OF *(2)] by (metis append_same_eq same_append_eq)
qed (simp add: chain_digest_def)

lemma chain_from_foldl:
  "chain_from w n d rs \<Longrightarrow> foldl (chain_hash w) d (map row_payload rs) = last_digest d rs"
  by (induction rs arbitrary: n d) (auto simp: last_digest_def)

lemma chain_from_rows: "chain_from w n d xs \<Longrightarrow> chain_from w n d ys \<Longrightarrow> map row_payload xs = map row_payload ys \<Longrightarrow> xs = ys"
proof (induction xs arbitrary: ys n d)
  case (Cons x xs)
  then obtain y zs where ys: "ys = y # zs" by (cases ys) auto
  with Cons.prems have "x = y" by (cases x, cases y) simp
  with Cons ys show ?case by auto
qed simp

text \<open>
  The last digest pins the whole journal: two chained stores of JSON records that end in the same
  digest have the same rows, unless SHA-256 itself fails (a collision, or a digest of another shape).
\<close>

theorem head_digest_pins_rows:
  assumes "chain_from w 0 [] xs" "chain_from w 0 [] ys" "last_digest [] xs = last_digest [] ys"
    and "list_all is_record (map row_payload xs)" "list_all is_record (map row_payload ys)"
  shows "xs = ys \<or> sha_broken w"
proof (cases "sha_broken w")
  case False
  have "map row_payload xs = map row_payload ys"
    using assms(3) chain_from_foldl [OF assms(1)] chain_from_foldl [OF assms(2)]
    by (intro chain.head_determines_chain [OF False assms(4,5)]) simp
  then show ?thesis using chain_from_rows assms(1,2) by blast
qed simp

section \<open>Runs of an open journal\<close>

inductive local_step :: "libs \<Rightarrow> local_journal \<Rightarrow> local_journal \<Rightarrow> bool" for w where
  Begin: "local_step w j (fst (begin_call w e rid j))"
| Policy: "local_step w j (fst (policy_event w e rid (policy_evidence p b x) j))"
| Intent: "local_step w j (fst (LocalJournal.intent w e a j))"
| Finish: "local_step w j (fst (fst (finish w e v n ev j)))"
| Failed: "local_step w j (failed w e s x j)"

inductive_cases local_stepE: "local_step w j j'"

lemma local_step_step: "local_step w j j' \<Longrightarrow> journal_step w j j'"
  by (induction rule: local_step.induct) (rule inv_intros)+

lemma local_run_step: "(local_step w)\<^sup>*\<^sup>* j j' \<Longrightarrow> journal_step w j j'"
  by (induction rule: rtranclp_induct) (auto intro: step_trans local_step_step)

lemma replay_chain:
  "replay w d n dg rs rc = Inr rc' \<Longrightarrow> chain_from w n dg rs"
  by (induction rs arbitrary: n dg rc) (auto simp: rbind_Inr_iff split: option.splits if_splits)

lemma opened_cases:
  assumes "LocalDispatchJournal w se e d revision rows = (rows', Inr j)"
  obtains rc j0 source where "replay w d 0 [] rows recovery_start = Inr rc" "rows \<noteq> []"
    "\<not> rc_held rc" "rc_pending rc = []" "\<not> rc_open rc" "l_rows j0 = rows" "journal_inv w j0" "\<not> l_held j0"
    "l_denials j0 = rc_denials rc"
    "append w e (je_time e 0) ''boot'' [(''code_revision'', JStr revision), (''source_sha256'', JStr source)] j0 = (j, Inr ())"
    "rows' = l_rows j"
proof -
  obtain rc where rc: "replay w d 0 [] rows recovery_start = Inr rc"
    and *: "rows \<noteq> []" "\<not> rc_held rc" "rc_pending rc = []" "\<not> rc_open rc" "\<not> MAX_EVENTS \<le> length rows"
    using assms
    by (cases "replay w d 0 [] rows recovery_start")
       (auto simp: LocalDispatchJournal_def split: if_splits option.splits)
  define j0 where "j0 m = \<lparr>l_domain = d, l_revision = revision, l_source = sha256 w m,
       l_generation = se_generation se, l_denials = rc_denials rc, l_held = False,
       l_active = None, l_closed = False, l_open = True, l_sequence = length rows,
       l_digest = last_digest [] rows, l_rows = rows\<rparr>" for m
  obtain m where m: "(case append w e (je_time e 0) ''boot''
         [(''code_revision'', JStr revision), (''source_sha256'', JStr (sha256 w m))] (j0 m) of
         (j', r) \<Rightarrow> (l_rows j', case r of Inl x \<Rightarrow> Inl x | Inr u \<Rightarrow> Inr j')) = (rows', Inr j)"
    using assms rc * by (auto simp: LocalDispatchJournal_def j0_def Let_def split: if_splits option.splits)
  have "journal_inv w (j0 m)"
    using replay_chain [OF rc] by (simp add: j0_def journal_inv_def)
  with m rc * show thesis
    by (intro that [OF rc, of "j0 m" "sha256 w m"])
       (auto simp: j0_def split: prod.splits sum.splits)
qed

text \<open>
  The journal is append-only evidence: from the moment a store is opened, whatever calls follow,
  every row that was there stays first, the rows remain one hash chain, and a hold is never lifted.
\<close>

theorem open_journal_append_only:
  assumes "LocalDispatchJournal w se e d revision rows = (rows', Inr j)" "(local_step w)\<^sup>*\<^sup>* j j'"
  shows "prefix rows (l_rows j') \<and> chain_from w 0 [] (l_rows j') \<and> (\<not> l_held j \<or> l_held j')
     \<and> l_sequence j' = length (l_rows j')"
proof -
  obtain j0 t ev where j0: "l_rows j0 = rows" "journal_inv w j0" "append w e t ''boot'' ev j0 = (j, Inr ())"
    using opened_cases [OF assms(1)] by metis
  have first: "journal_step w j0 j" by (rule step_append' [OF j0(3)])
  have rest: "journal_step w j j'" by (rule local_run_step [OF assms(2)])
  from step_trans [OF first rest] j0 have "journal_inv w j'" "prefix rows (l_rows j')"
    by (auto simp: journal_step_def grows_def prefix_def)
  moreover have "l_held j \<longrightarrow> l_held j'" using rest by (simp add: journal_step_def grows_def)
  ultimately show ?thesis by (simp add: journal_inv_def)
qed

section \<open>A crash is held at recovery\<close>

text \<open>A row whose payload is a readable event of kind \<open>k\<close>.\<close>

definition row_kind :: "libs \<Rightarrow> string \<Rightarrow> row \<Rightarrow> bool" where
  "row_kind w k r \<longleftrightarrow> (\<exists>u. json_loads (float_of w) (row_payload r) = Some u \<and> jget ''kind'' u = Some (JStr k))"

definition open_kinds :: "string list" where
  "open_kinds = [''begin'', ''policy'', ''intent'', ''finish'', ''hold'']"

lemma append_kind:
  assumes "floats_ok w" "good_fields w ev" "''kind'' \<notin> fst ` set ev"
  shows "\<exists>new. l_rows (fst (append w e t k ev j)) = l_rows j @ new \<and> list_all (row_kind w k) new"
proof (cases rule: append_cases [of w e t k ev j])
  case (appended payload)
  let ?v = "dict_of ([(''kind'', JStr k), (''generation'', JStr (l_generation j)), (''time'', float_json w t)] @ ev)"
  have "good w ?v" using assms(1,2) by (intro good_dict_of) (simp add: good_fields_def)
  then obtain u where u: "json_loads (float_of w) payload = Some u" "\<forall>x. jget x u = map_option jsort (jget x ?v)"
    using event_readback appended(1) by blast
  have "map_of (rev ev) ''kind'' = None" using assms(3) by (simp add: map_of_eq_None_iff)
  then have "jget ''kind'' ?v = Some (JStr k)" by (simp add: jget_dict_of map_add_def)
  with u appended show ?thesis by (auto simp: row_kind_def)
qed (simp)

definition open_row :: "libs \<Rightarrow> row \<Rightarrow> bool" where
  "open_row w r \<longleftrightarrow> (\<exists>k \<in> set open_kinds. row_kind w k r)"

definition opens :: "libs \<Rightarrow> local_journal \<Rightarrow> local_journal \<Rightarrow> bool" where
  "opens w j j' \<longleftrightarrow> (\<exists>new. l_rows j' = l_rows j @ new \<and> list_all (open_row w) new)"

lemma opens_refl [simp]: "opens w j j"
  by (simp add: opens_def)

lemma opens_trans: "opens w j j' \<Longrightarrow> opens w j' j'' \<Longrightarrow> opens w j j''"
  by (force simp: opens_def)

lemma opens_update [simp]:
  "opens w j (j'\<lparr>l_active := a\<rparr>) = opens w j j'" "opens w j (j'\<lparr>l_denials := n\<rparr>) = opens w j j'"
  "opens w j (j'\<lparr>l_held := h\<rparr>) = opens w j j'"
  "opens w (j\<lparr>l_held := h\<rparr>) j' = opens w j j'"
  by (simp_all add: opens_def)

lemma opens_append:
  "append w e t k ev j = (j', r) \<Longrightarrow> floats_ok w \<Longrightarrow> k \<in> set open_kinds \<Longrightarrow> good_fields w ev \<Longrightarrow>
     ''kind'' \<notin> fst ` set ev \<Longrightarrow> opens w j j'"
  using append_kind [of w ev e t k j] by (force simp: opens_def open_row_def list_all_iff)

lemma context_good: "current_context e n j = Inr c \<Longrightarrow> good w c"
  by (auto simp: current_context_def context_evidence_def split: if_splits)

lemma finish_no_kind: "(''kind'', b) \<notin> set (finish_fields w v n u ev)"
  by (simp add: finish_fields_def evidence_fields_def)

lemma local_step_opens: "local_step w j j' \<Longrightarrow> floats_ok w \<Longrightarrow> opens w j j'"
proof (induction rule: local_step.induct)
  case (Begin j e rid)
  then show ?case
    by (auto simp: begin_call_def Let_def open_kinds_def good_fields_def context_good split: prod.split sum.split
        elim!: opens_append)
next
  case (Policy j e rid p b x)
  have "good_fields w ((''request_id'', JStr rid) # policy_evidence p b x)"
    using good_evidence(1) by (simp add: good_fields_def)
  then show ?case
    unfolding policy_event_def using Policy
    by (intro opens_append [OF surjective_pairing]) (simp_all add: open_kinds_def policy_evidence_def)
next
  case (Intent j e a)
  then show ?case
    by (auto simp: LocalJournal.intent_def Let_def open_kinds_def good_fields_def context_good good_records
        split: prod.split sum.split option.split elim!: opens_append)
next
  case (Finish j e v n ev)
  then show ?case
    by (auto simp: finish_def Let_def open_kinds_def good_evidence finish_no_kind split: prod.split sum.split
        elim!: opens_append)
next
  case (Failed j e s x)
  have "opens w (j\<lparr>l_held := True\<rparr>) (failed w e s x j)"
    unfolding failed_def using Failed
    by (intro opens_append [OF surjective_pairing]) (simp_all add: open_kinds_def good_fields_def)
  then show ?case by simp
qed

lemma local_run_opens: "(local_step w)\<^sup>*\<^sup>* j j' \<Longrightarrow> floats_ok w \<Longrightarrow> opens w j j'"
  by (induction rule: rtranclp_induct) (auto intro: opens_trans local_step_opens)

lemma replay_open_event:
  assumes "jget ''kind'' u = Some (JStr k)" "k \<in> set open_kinds" "n \<noteq> 1" "rc_open rc"
    and "replay_event d n u rc = Inr rc'"
  shows "rc_open rc'"
  using assms
  by (auto simp: replay_event_def open_kinds_def split: option.splits if_splits json.splits)

lemma replay_append:
  "replay w d n dg (xs @ ys) rc =
     rbind (replay w d n dg xs rc) (\<lambda>rc'. replay w d (n + length xs) (last_digest dg xs) ys rc')"
proof (induction xs arbitrary: n dg rc)
  case (Cons x xs)
  show ?case
  proof (cases "json_loads (float_of w) (row_payload x)")
    case (Some u)
    then show ?thesis
      using Cons.IH by (auto simp: rbind_assoc last_digest_def intro!: arg_cong2 [where f = rbind])
  qed simp
qed (simp add: last_digest_def)

lemma replay_keeps_open:
  "list_all (open_row w) rs \<Longrightarrow> 0 < n \<Longrightarrow> rc_open rc \<Longrightarrow> replay w d n dg rs rc = Inr rc' \<Longrightarrow> rc_open rc'"
proof (induction rs arbitrary: n dg rc)
  case (Cons r rs)
  obtain k u where u: "k \<in> set open_kinds" "json_loads (float_of w) (row_payload r) = Some u"
    "jget ''kind'' u = Some (JStr k)"
    using Cons.prems(1) by (auto simp: open_row_def row_kind_def)
  with Cons.prems obtain rc1 where "row_seq r = Suc n" "replay_event d (Suc n) u rc = Inr rc1"
    "replay w d (Suc n) (row_digest r) rs rc1 = Inr rc'"
    by (auto simp: rbind_Inr_iff split: if_splits)
  then show ?case
    using replay_open_event [OF u(3,1), of "Suc n" rc d rc1] Cons.IH [of "Suc n" rc1 "row_digest r"] Cons.prems
    by simp
qed simp

lemma boot_row_opens:
  assumes "row_kind w ''boot'' r" "0 < n" "replay w d n dg (r # rs) rc = Inr rc'" "list_all (open_row w) rs"
  shows "rc_open rc'"
proof -
  obtain u where u: "json_loads (float_of w) (row_payload r) = Some u" "jget ''kind'' u = Some (JStr ''boot'')"
    using assms(1) by (auto simp: row_kind_def)
  with assms(2,3) obtain rc1 where "replay_event d (Suc n) u rc = Inr rc1" "row_seq r = Suc n"
    "replay w d (Suc n) (row_digest r) rs rc1 = Inr rc'"
    by (auto simp: rbind_Inr_iff split: if_splits)
  moreover from this(1) u(2) assms(2) have "rc_open rc1" by (auto simp: replay_event_def)
  ultimately show ?thesis using replay_keeps_open [OF assms(4), of "Suc n" rc1] by simp
qed

lemma open_replay_refused:
  assumes "\<And>rc. replay w d 0 [] rows recovery_start = Inr rc \<Longrightarrow> rc_open rc"
  shows "\<exists>x. snd (LocalDispatchJournal w se e d revision rows) = Inl x"
proof (rule ccontr)
  assume "\<not> ?thesis"
  then obtain j where "LocalDispatchJournal w se e d revision rows = (fst (LocalDispatchJournal w se e d revision rows), Inr j)"
    by (cases "snd (LocalDispatchJournal w se e d revision rows)") (auto simp: prod_eq_iff)
  from opened_cases [OF this] assms show False by metis
qed

text \<open>
  C6. A crash is never silently recovered: when a process opened the journal and stopped without closing
  it, after any calls, every later attempt to open the store it left, by any process under any
  configuration of the same build, is refused.
\<close>

theorem crash_is_held_at_recovery:
  assumes f: "floats_ok w"
    and opened: "LocalDispatchJournal w se e d revision rows = (rows', Inr j)"
    and run: "(local_step w)\<^sup>*\<^sup>* j j'"
  shows "\<exists>x. snd (LocalDispatchJournal w se' e' d' revision' (l_rows j')) = Inl x"
proof (rule open_replay_refused)
  fix rc assume r: "replay w d' 0 [] (l_rows j') recovery_start = Inr rc"
  obtain j0 source where j0: "rows \<noteq> []" "l_rows j0 = rows"
    "append w e (je_time e 0) ''boot'' [(''code_revision'', JStr revision), (''source_sha256'', JStr source)] j0 = (j, Inr ())"
    using opened_cases [OF opened] by metis
  obtain boot where boot: "l_rows j = rows @ [boot]" "row_kind w ''boot'' boot"
  proof -
    have "\<exists>b. l_rows j = rows @ [b]"
      by (cases rule: append_cases [of w e "je_time e 0" "''boot''"
            "[(''code_revision'', JStr revision), (''source_sha256'', JStr source)]" j0]) (use j0 in auto)
    moreover have "\<exists>new. l_rows j = rows @ new \<and> list_all (row_kind w ''boot'') new"
      using append_kind [OF f, of "[(''code_revision'', JStr revision), (''source_sha256'', JStr source)]"
          e "je_time e 0" "''boot''" j0] j0 by (simp add: good_fields_def)
    ultimately show thesis using that by auto
  qed
  obtain more_rows where m: "l_rows j' = (rows @ [boot]) @ more_rows" "list_all (open_row w) more_rows"
    using local_run_opens [OF run f] boot(1) by (auto simp: opens_def)
  from r m(1) obtain rc1 where "replay w d' (length rows) (last_digest [] rows) (boot # more_rows) rc1 = Inr rc"
    using replay_append [of w d' 0 "[]" rows "boot # more_rows" recovery_start] by (auto simp: rbind_Inr_iff)
  from boot_row_opens [OF boot(2) _ this m(2)] j0(1) show "rc_open rc" by simp
qed

section \<open>An instance\<close>

definition example_store_env :: store_env where
  "example_store_env = \<lparr>se_head = replicate 40 (CHR ''a''), se_manifest = JObj [], se_size = 0, se_lock_ok = True,
     se_intact = True, se_generation = ''g1''\<rparr>"

definition example_journal_env :: journal_env where
  "example_journal_env = \<lparr>je_time = (\<lambda>n. 7), je_context = None, je_file_present = True, je_db_ok = True\<rparr>"

definition example_rows :: "row list" where
  "example_rows = provision_local_store example_libs example_domain"

definition example_open :: "row list \<times> (exn + local_journal)" where
  "example_open = LocalDispatchJournal example_libs example_store_env example_journal_env example_domain
     (replicate 40 (CHR ''a'')) example_rows"

lemma replay_provisioned: "replay w d 0 [] (provision_local_store w d) recovery_start = Inr recovery_start"
proof -
  have "json_loads (float_of w) (enc True (jsort (provision_event d))) = Some (jsort (provision_event d))"
    by (rule loads_dumps [of _ "provision_event d" True])
       (simp_all add: provision_event_def domain_json_def dumps_def)
  moreover have "jget ''kind'' (jsort (provision_event d)) = Some (JStr ''provision'')"
    by (subst jget_jsort) (simp_all add: provision_event_def domain_json_def)
  ultimately show ?thesis by (simp add: provision_local_store_def Let_def replay_event_def)
qed

lemma example_opens: "is_ok (snd example_open)"
proof -
  have "max_seq example_rows = Some (length example_rows)" "example_rows \<noteq> []" "length example_rows < MAX_EVENTS"
    by (simp_all add: example_rows_def provision_local_store_def Let_def max_seq_def MAX_EVENTS_def)
  then show ?thesis
    using replay_provisioned [of example_libs example_domain]
    by (simp add: example_open_def LocalDispatchJournal_def example_store_env_def is_hex_def list_all_iff dumps_def
        example_rows_def [symmetric] recovery_start_def Let_def append_def example_journal_env_def hold_with_def
        dict_of_def float_json_def)
qed

lemma example_opened:
  obtains j where "LocalDispatchJournal example_libs example_store_env example_journal_env example_domain
     (replicate 40 (CHR ''a'')) example_rows = (fst example_open, Inr j)"
  using example_opens by (auto simp: is_ok_iff example_open_def prod_eq_iff)

theorem head_digest_pins_rows_witness:
  "example_rows = example_rows \<or> sha_broken example_libs"
  by (rule head_digest_pins_rows)
     (simp_all add: example_rows_def provision_local_store_def Let_def is_record_def provision_event_def)

theorem open_journal_append_only_witness: "chain_from example_libs 0 [] (fst example_open)"
proof (rule example_opened)
  fix j
  assume j: "LocalDispatchJournal example_libs example_store_env example_journal_env example_domain
     (replicate 40 (CHR ''a'')) example_rows = (fst example_open, Inr j)"
  then have "l_rows j = fst example_open" by (rule opened_cases) simp
  with open_journal_append_only [OF j rtranclp.rtrancl_refl] show ?thesis by simp
qed

theorem crash_is_held_at_recovery_witness:
  "\<exists>x. snd (LocalDispatchJournal example_libs example_store_env example_journal_env example_domain
     (replicate 40 (CHR ''a'')) (fst example_open)) = Inl x"
proof (rule example_opened)
  fix j
  assume j: "LocalDispatchJournal example_libs example_store_env example_journal_env example_domain
     (replicate 40 (CHR ''a'')) example_rows = (fst example_open, Inr j)"
  then have "l_rows j = fst example_open" by (rule opened_cases) simp
  with crash_is_held_at_recovery [OF example_floats j rtranclp.rtrancl_refl, of example_store_env
      example_journal_env example_domain "replicate 40 (CHR ''a'')"] show ?thesis by simp
qed

end
