(* ===== verification/Trace.thy ===== *)
theory Trace
  imports RequestRisk
begin

text \<open>
  \<open>audit/trace.py\<close>: the redaction of audit events and the process-local window of the last thousand.
  Whether the optional file can be written is an argument; the time stamp is its text.
\<close>

section \<open>Redaction\<close>

definition REDACTED :: string where "REDACTED = ''[REDACTED]''"

definition sensitive_key_rx :: rx where
  "sensitive_key_rx = alts (map lit_i [''key'', ''token'', ''password'', ''credential'', ''authorization'', ''secret''])"

definition sensitive :: "string \<Rightarrow> bool" where
  "sensitive k = rx_search sensitive_key_rx k"

text \<open>
  \<open>re.sub(r"(group)rest", r"\1" + by, s)\<close>: the text of the group stays. The first way to match is the
  one Python takes; none of the expressions matches the empty text.
\<close>

definition group_match :: "rx \<Rightarrow> rx \<Rightarrow> pos \<Rightarrow> (pos \<times> pos) option" where
  "group_match grp rest p =
     (case concat (map (\<lambda>q. map (Pair q) (rx_run rest q)) (rx_run grp p)) of [] \<Rightarrow> None | x # _ \<Rightarrow> Some x)"

function sub_group_at :: "rx \<Rightarrow> rx \<Rightarrow> string \<Rightarrow> char option \<Rightarrow> string \<Rightarrow> string" where
  "sub_group_at grp rest w pr s =
     (case s of [] \<Rightarrow> []
      | c # cs \<Rightarrow> (case group_match grp rest (pr, s) of
            Some (q, q') \<Rightarrow> if length (snd q') < length s
                then between (pr, s) q @ w @ sub_group_at grp rest w (fst q') (snd q')
                else c # sub_group_at grp rest w (Some c) cs
          | None \<Rightarrow> c # sub_group_at grp rest w (Some c) cs))"
  by pat_completeness auto
termination
  by (relation "measure (\<lambda>(grp, rest, w, pr, s). length s)") auto

declare sub_group_at.simps [simp del]

definition non_space_rx :: rx where
  "non_space_rx = plus_rx (Sat (\<lambda>c. \<not> space_char c))"

definition bearer_rx :: rx where
  "bearer_rx = Cat (lit_i ''bearer'') (plus_rx space_rx)"

definition labelled_secret_rx :: rx where
  "labelled_secret_rx = cats
     [alts [cats [lit_i ''api'', opt (Sat (\<lambda>c. c \<in> set ''_ -'')), lit_i ''key''],
            lit_i ''token'', lit_i ''password'', lit_i ''secret'', lit_i ''credential''],
      Star space_rx, Sat (\<lambda>c. c = CHR '':'' \<or> c = CHR ''=''), Star space_rx]"

definition sk_token_rx :: rx where
  "sk_token_rx = cats [WordB, lit ''sk-'',
     plus_rx (Sat (\<lambda>c. ascii_upper c \<or> ascii_lower c \<or> ascii_digit c \<or> c \<in> set ''_-''))]"

definition redact_str :: "string \<Rightarrow> string" where
  "redact_str s =
     rx_sub sk_token_rx REDACTED
       (sub_group_at labelled_secret_rx non_space_rx REDACTED None
         (sub_group_at bearer_rx non_space_rx REDACTED None s))"

fun redact :: "json \<Rightarrow> json" where
  "redact (JObj ms) = JObj (map (\<lambda>(k, v). (k, if sensitive k then JStr REDACTED else redact v)) ms)"
| "redact (JList vs) = JList (map redact vs)"
| "redact (JStr s) = JStr (redact_str s)"
| "redact v = v"

section \<open>The trace\<close>

definition trace_event :: "string \<Rightarrow> string \<Rightarrow> string \<Rightarrow> (string \<times> json) list \<Rightarrow> json" where
  "trace_event now rid stage extra =
     redact (JObj ([(''request_id'', JStr rid), (''timestamp'', JStr now), (''stage'', JStr stage)] @ extra))"

definition keep_last :: "nat \<Rightarrow> 'a list \<Rightarrow> 'a list" where
  "keep_last n xs = drop (length xs - n) xs"

text \<open>\<open>record\<close>: when the file cannot be written the event is not kept and the error is raised.\<close>

definition record_event ::
    "bool \<Rightarrow> string \<Rightarrow> string \<Rightarrow> string \<Rightarrow> (string \<times> json) list \<Rightarrow> json list \<Rightarrow> (json list, string, unit) outcome" where
  "record_event writable now rid stage extra events =
     (if writable then (keep_last 1000 (events @ [trace_event now rid stage extra]), Inr ())
      else (events, Inl ''OSError''))"

section \<open>No value survives under a sensitive key\<close>

fun clean :: "json \<Rightarrow> bool" where
  "clean (JObj ms) = list_all (\<lambda>(k, v). if sensitive k then v = JStr REDACTED else clean v) ms"
| "clean (JList vs) = list_all clean vs"
| "clean v = True"

lemma clean_redact: "clean (redact v)"
  by (induction v rule: redact.induct) (auto simp: list_all_iff)

lemma clean_event: "clean (trace_event now rid stage extra)"
  by (simp only: trace_event_def clean_redact)

lemma length_keep_last: "length (keep_last n xs) \<le> n"
  by (simp add: keep_last_def)

lemma set_keep_last: "set (keep_last n xs) \<subseteq> set xs"
  by (simp add: keep_last_def set_drop_subset)

lemma record_event_window:
  "length events \<le> 1000 \<Longrightarrow> length (fst (record_event b now rid stage extra events)) \<le> 1000"
  by (simp add: record_event_def length_keep_last)

lemma record_event_clean:
  "list_all clean events \<Longrightarrow> list_all clean (fst (record_event b now rid stage extra events))"
  using set_keep_last [of 1000 "events @ [trace_event now rid stage extra]"]
  by (auto simp: record_event_def list_all_iff clean_event)

text \<open>A run of records, as (writable, time, request, stage, extra).\<close>

definition record_all ::
    "(bool \<times> string \<times> string \<times> string \<times> (string \<times> json) list) list \<Rightarrow> json list \<Rightarrow> json list" where
  "record_all rs events = foldl (\<lambda>evs (b, now, rid, stage, extra). fst (record_event b now rid stage extra evs)) events rs"

text \<open>
  The trace keeps at most a thousand events and none of them holds a value under a key that names a
  key, token, password, credential, authorization or secret, at any depth, whatever was recorded.
\<close>

theorem trace_bounded_and_redacted:
  "length (record_all rs []) \<le> 1000 \<and> list_all clean (record_all rs [])"
proof -
  have "length events \<le> 1000 \<Longrightarrow> list_all clean events \<Longrightarrow>
      length (record_all rs events) \<le> 1000 \<and> list_all clean (record_all rs events)" for events
    unfolding record_all_def
    by (induction rs arbitrary: events) (auto simp: record_event_window record_event_clean)
  then show ?thesis by simp
qed

lemma redact_example: "redact_str ''Bearer ab x'' = ''Bearer [REDACTED] x''"
  by code_simp

end
