(* ===== verification/PyDecimal.thy ===== *)
theory PyDecimal
  imports RequestRisk
begin

text \<open>
  Python's \<open>decimal.Decimal\<close> as the repository uses it: reading a text, the value, adding in the default
  context (28 digits, half even), and the two ways of printing. Exponents are those the context holds
  (below a million); the digits a NaN can carry are not kept.
\<close>

section \<open>Numbers\<close>

datatype pydec = Fin bool nat int | Infinite bool | NaN bool bool   \<comment> \<open>negative; signalling\<close>

text \<open>The value of a finite number: \<open>(-1)^s * c * 10^e\<close>.\<close>

definition ten_pow :: "int \<Rightarrow> rat" where
  "ten_pow e = (if 0 \<le> e then 10 ^ nat e else 1 / 10 ^ nat (- e))"

definition signed :: "bool \<Rightarrow> nat \<Rightarrow> int" where
  "signed s c = (if s then - int c else int c)"

fun dec_value :: "pydec \<Rightarrow> rat" where
  "dec_value (Fin s c e) = of_int (signed s c) * ten_pow e"
| "dec_value _ = 0"

fun is_finite :: "pydec \<Rightarrow> bool" where
  "is_finite (Fin s c e) = True"
| "is_finite _ = False"

lemma ten_pow_simps [simp]: "ten_pow 0 = 1" "ten_pow e \<noteq> 0" "0 < ten_pow e"
  by (simp_all add: ten_pow_def)

lemma ten_pow_powi: "ten_pow e = 10 powi e"
proof (cases "0 \<le> e")
  case True
  then show ?thesis by (simp add: ten_pow_def power_int_def)
next
  case False
  then show ?thesis by (simp add: ten_pow_def power_int_def power_one_over)
qed

lemma ten_pow_add: "ten_pow (d + e) = ten_pow d * ten_pow e"
  by (simp add: ten_pow_powi power_int_add)

lemma ten_pow_nat: "0 \<le> e \<Longrightarrow> ten_pow e = of_int (10 ^ nat e)"
  by (simp add: ten_pow_def)

lemma ten_pow_diff: "d \<le> e \<Longrightarrow> of_int (10 ^ nat (e - d)) * ten_pow d = ten_pow e"
  using ten_pow_add [of "e - d" d] ten_pow_nat [of "e - d"] by simp

section \<open>Reading\<close>

definition take_sign :: "string \<Rightarrow> bool \<times> string" where
  "take_sign s = (case s of c # cs \<Rightarrow> if c = CHR ''-'' then (True, cs) else if c = CHR ''+'' then (False, cs)
                                      else (False, s) | [] \<Rightarrow> (False, s))"

definition read_exp :: "string \<Rightarrow> int option" where
  "read_exp s = (case s of [] \<Rightarrow> Some 0
     | c # cs \<Rightarrow> if c \<noteq> CHR ''e'' \<and> c \<noteq> CHR ''E'' then None
       else (let (neg, ds) = take_sign cs in
             if ds = [] \<or> \<not> list_all ascii_digit ds then None else Some (signed neg (undec ds))))"

definition read_number :: "bool \<Rightarrow> string \<Rightarrow> pydec option" where
  "read_number neg s =
     (let (whole, s1) = p_digits s;
          (frac, s2) = (case s1 of c # cs \<Rightarrow> if c = CHR ''.'' then p_digits cs else ([], s1) | [] \<Rightarrow> ([], s1))
      in if whole = [] \<and> frac = [] then None
         else map_option (\<lambda>x. Fin neg (undec (whole @ frac)) (x - int (length frac))) (read_exp s2))"

text \<open>\<open>Decimal(text)\<close>; \<open>None\<close>: InvalidOperation.\<close>

definition Decimal :: "string \<Rightarrow> pydec option" where
  "Decimal text =
     (let (neg, s) = take_sign (filter (\<lambda>c. c \<noteq> CHR ''_'') (strip_space text)); low = map lower_ascii s in
      if low \<in> {''inf'', ''infinity''} then Some (Infinite neg)
      else if low = ''nan'' then Some (NaN neg False)
      else if low = ''snan'' then Some (NaN neg True)
      else read_number neg s)"

section \<open>Adding\<close>

text \<open>Rounding half to even to 28 digits.\<close>

definition half_even :: "nat \<Rightarrow> nat \<Rightarrow> nat" where
  "half_even c m = (let q = c div m; r = c mod m in
      if 2 * r > m \<or> (2 * r = m \<and> odd q) then Suc q else q)"

definition round28 :: "bool \<Rightarrow> nat \<Rightarrow> int \<Rightarrow> pydec" where
  "round28 s c e =
     (let k = length (dec_nat c) - 28; q = half_even c (10 ^ k) in
      if k = 0 then Fin s c e
      else if q = 10 ^ 28 then Fin s (10 ^ 27) (e + int k + 1) else Fin s q (e + int k))"

text \<open>\<open>None\<close>: InvalidOperation.\<close>

fun dec_add :: "pydec \<Rightarrow> pydec \<Rightarrow> pydec option" where
  "dec_add (NaN s sig) b = (if sig \<or> (case b of NaN _ x \<Rightarrow> x | _ \<Rightarrow> False) then None else Some (NaN s False))"
| "dec_add a (NaN s sig) = (if sig then None else Some (NaN s False))"
| "dec_add (Infinite s) (Infinite t) = (if s = t then Some (Infinite s) else None)"
| "dec_add (Infinite s) b = Some (Infinite s)"
| "dec_add a (Infinite s) = Some (Infinite s)"
| "dec_add (Fin s c e) (Fin t d f) =
     (let x = min e f; v = signed s c * 10 ^ nat (e - x) + signed t d * 10 ^ nat (f - x) in
      Some (round28 (if v = 0 then s \<and> t else v < 0) (nat \<bar>v\<bar>) x))"

lemma half_even_one [simp]: "half_even c (Suc 0) = c"
  by (simp add: half_even_def)

lemma length_dec_nat_le: "0 < n \<Longrightarrow> c < 10 ^ n \<Longrightarrow> length (dec_nat c) \<le> n"
proof (induction c arbitrary: n rule: dec_nat.induct)
  case (1 c)
  show ?case
  proof (cases "c < 10")
    case True
    then show ?thesis using 1(2) by (subst dec_nat.simps) simp
  next
    case False
    then have n: "1 < n" using 1(2,3) by (cases n) (auto simp: less_Suc_eq)
    have "c div 10 < 10 ^ (n - 1)"
      using 1(3) n by (simp add: less_mult_imp_div_less power_eq_if)
    with 1(1) [OF False, of "n - 1"] False n show ?thesis by (subst dec_nat.simps) simp
  qed
qed

lemma round28_small: "c < 10 ^ 28 \<Longrightarrow> round28 s c e = Fin s c e"
  using length_dec_nat_le [of 28 c] by (simp add: round28_def Let_def)

text \<open>An addition whose exact coefficient has at most 28 digits is exact.\<close>

lemma signed_value: "dec_value (Fin s c e) = of_int (signed s c * 10 ^ nat (e - x)) * ten_pow x" if "x \<le> e"
  using ten_pow_diff [OF that] by (simp add: mult.assoc)

lemma dec_add_exact:
  assumes "\<bar>signed s c * 10 ^ nat (e - min e f) + signed t d * 10 ^ nat (f - min e f)\<bar> < 10 ^ 28"
  shows "\<exists>r. dec_add (Fin s c e) (Fin t d f) = Some r \<and> is_finite r
    \<and> dec_value r = dec_value (Fin s c e) + dec_value (Fin t d f)"
proof -
  define v where "v = signed s c * 10 ^ nat (e - min e f) + signed t d * 10 ^ nat (f - min e f)"
  have "nat \<bar>v\<bar> < 10 ^ 28" using assms by (simp add: v_def nat_less_iff)
  then have add: "dec_add (Fin s c e) (Fin t d f)
      = Some (Fin (if v = 0 then s \<and> t else v < 0) (nat \<bar>v\<bar>) (min e f))"
    by (simp add: Let_def v_def [symmetric] round28_small)
  have "of_int v * ten_pow (min e f) = dec_value (Fin s c e) + dec_value (Fin t d f)"
    unfolding signed_value [OF min.cobounded1 [of e f]] signed_value [OF min.cobounded2 [of e f]] v_def
    by (simp only: of_int_add distrib_right)
  moreover have "signed (if v = 0 then s \<and> t else v < 0) (nat \<bar>v\<bar>) = v"
    by (simp add: signed_def)
  ultimately show ?thesis using add by simp
qed

section \<open>Printing\<close>

definition zeros :: "nat \<Rightarrow> string" where "zeros n = replicate n (CHR ''0'')"

definition sign_text :: "bool \<Rightarrow> string" where "sign_text s = (if s then ''-'' else [])"

text \<open>\<open>format(d, "f")\<close>, of a finite number.\<close>

definition plain_digits :: "nat \<Rightarrow> int \<Rightarrow> string" where
  "plain_digits c e =
     (let ds = dec_nat c @ zeros (nat e); k = nat (- e) in
      if k = 0 then ds
      else if k < length ds then take (length ds - k) ds @ ''.'' @ drop (length ds - k) ds
      else ''0.'' @ zeros (k - length ds) @ ds)"

definition format_f :: "bool \<Rightarrow> nat \<Rightarrow> int \<Rightarrow> string" where
  "format_f s c e = sign_text s @ (if c = 0 \<and> 0 < e then ''0'' else plain_digits c e)"

text \<open>\<open>str(d)\<close>: plain when the exponent is not positive and the number not too small, scientific otherwise.\<close>

fun dec_str :: "pydec \<Rightarrow> string" where
  "dec_str (Infinite s) = sign_text s @ ''Infinity''"
| "dec_str (NaN s sig) = sign_text s @ (if sig then ''sNaN'' else ''NaN'')"
| "dec_str (Fin s c e) =
     (let ds = dec_nat c; leftdigits = e + int (length ds) in
      sign_text s @
      (if e \<le> 0 \<and> - 6 < leftdigits then plain_digits c e
       else take 1 ds @ (if length ds = 1 then [] else ''.'' @ drop 1 ds) @ ''E''
            @ (if leftdigits - 1 < 0 then dec_int (leftdigits - 1) else ''+'' @ dec_int (leftdigits - 1))))"

lemma dec_nat_numerals:
  "dec_nat 0 = ''0''" "dec_nat (Suc 0) = ''1''" "dec_nat 1 = ''1''"
  "dec_nat (numeral n) = (if numeral n < (10 :: nat) then [digit (numeral n)]
     else dec_nat (numeral n div 10) @ [digit (numeral n mod 10)])"
  by (subst dec_nat.simps, simp add: digit_def)+

lemma decimal_examples:
  "map_option dec_str (Option.bind (dec_add (Fin False 1250 (- 2)) (Fin True 25 (- 1))) (\<lambda>d. dec_add d (Fin False 1 3)))
     = Some ''1010.00''"
  "dec_str (Fin False 1 5) = ''1E+5''" "dec_str (Fin False 1 (- 7)) = ''1E-7''"
  by (simp_all add: signed_def round28_def Let_def plain_digits_def sign_text_def zeros_def dec_int_def digit_def
      dec_nat_numerals)

end
