(* ===== verification/Gateway.thy ===== *)
theory Gateway
  imports Journal Trace PyDecimal
begin

text \<open>
  \<open>mcp/tools.py\<close>: the gateway that takes a proposal through audit, signals, policy, issuance, the
  journal's intent, consumption and dispatch, and turns what happens into an envelope. What one call
  meets outside the process is a \<open>call_env\<close>; \<open>g_dispatched\<close> is the list of the backend calls made.
\<close>

section \<open>What the audit records say\<close>

fun classification_text :: "classification \<Rightarrow> string" where
  "classification_text IN_SCOPE = ''IN_SCOPE''"
| "classification_text AMBIGUOUS = ''AMBIGUOUS''"
| "classification_text OUT_OF_SCOPE = ''OUT_OF_SCOPE''"
| "classification_text CONSEQUENTIAL_INTERPRETATION = ''CONSEQUENTIAL_INTERPRETATION''"
| "classification_text POSSIBLE_AUTHORITY_OVERREACH = ''POSSIBLE_AUTHORITY_OVERREACH''"
| "classification_text INSUFFICIENT_INFORMATION = ''INSUFFICIENT_INFORMATION''"

fun signal_text :: "signal \<Rightarrow> string" where
  "signal_text NONE = ''NONE''"
| "signal_text AUTHORITY_OVERREACH = ''AUTHORITY_OVERREACH''"
| "signal_text OUT_OF_SCOPE_DATA = ''OUT_OF_SCOPE_DATA''"
| "signal_text REPEATED_DENIAL = ''REPEATED_DENIAL''"
| "signal_text TOOL_SCOPE_VIOLATION = ''TOOL_SCOPE_VIOLATION''"
| "signal_text PROVENANCE_RISK = ''PROVENANCE_RISK''"
| "signal_text AMBIGUOUS_TARGET = ''AMBIGUOUS_TARGET''"
| "signal_text CONTAINMENT_RECOMMENDED = ''CONTAINMENT_RECOMMENDED''"

definition strs :: "string list \<Rightarrow> json" where "strs xs = JList (map JStr xs)"

definition judge_json :: "libs \<Rightarrow> judge_signal \<Rightarrow> json" where
  "judge_json w j = JObj
     [(''classification'', JStr (classification_text (classified j))),
      (''confidence'', float_json w (confidence j)), (''rationale'', JStr (rationale j)),
      (''flags'', strs (map signal_text (flags j))), (''available'', JBool (available j)),
      (''provider'', JStr (provider j))]"

definition k_json :: "k_signal \<Rightarrow> json" where
  "k_json k = JObj [(''signals'', strs (map signal_text (signals k))), (''containment'', JBool (containment k))]"

definition proposal_json :: "proposal \<Rightarrow> json" where
  "proposal_json p = JObj [(''tool'', JStr (p_tool p)), (''arguments'', p_arguments p)]"

fun status_text :: "status \<Rightarrow> string" where
  "status_text OK = ''OK''"
| "status_text BLOCKED = ''BLOCKED''"
| "status_text ERROR = ''ERROR''"
| "status_text CLARIFICATION_REQUIRED = ''CLARIFICATION_REQUIRED''"

fun verification_text :: "verification_state \<Rightarrow> string" where
  "verification_text UNVERIFIED = ''UNVERIFIED''"
| "verification_text RESULT_VERIFIED = ''RESULT_VERIFIED''"
| "verification_text RESULT_UNKNOWN = ''RESULT_UNKNOWN''"
| "verification_text FAILED_VALIDATION = ''FAILED_VALIDATION''"

fun lane_text :: "validation_lane \<Rightarrow> string" where
  "lane_text LANE_NONE = ''NONE''"
| "lane_text LANE_A_RESOLVABILITY = ''LANE_A_RESOLVABILITY''"
| "lane_text LANE_B_EXECUTION = ''LANE_B_EXECUTION''"

fun val_reason_text :: "validation_reason \<Rightarrow> string" where
  "val_reason_text REASON_NONE = ''NONE''"
| "val_reason_text MALFORMED_RESPONSE = ''MALFORMED_RESPONSE''"
| "val_reason_text PROVENANCE_UNAVAILABLE = ''PROVENANCE_UNAVAILABLE''"
| "val_reason_text ADAPTER_SCHEMA_OR_PROVENANCE_INVALID = ''ADAPTER_SCHEMA_OR_PROVENANCE_INVALID''"

definition response_json :: "libs \<Rightarrow> envelope \<Rightarrow> json" where
  "response_json w v = JObj
     [(''decision'', JStr (decision_text (e_decision v))), (''tool'', JStr (e_tool v)),
      (''request_id'', JStr (e_request_id v)), (''status'', JStr (status_text (e_status v))),
      (''result'', (case e_result v of None \<Rightarrow> JNull | Some r \<Rightarrow> r)),
      (''provenance'', (case e_provenance v of None \<Rightarrow> JNull | Some p \<Rightarrow> provenance_json p)),
      (''governance'', JObj
         [(''judge_signal'', judge_json w (e_judge v)), (''agent_k_signal'', k_json (e_agent_k v)),
          (''policy_reasons'', strs (e_policy_reasons v)),
          (''authority_source'', JStr ''DETERMINISTIC_POLICY_GATE''), (''policy_version'', JStr POLICY_VERSION)]),
      (''errors'', JList (map error_json (e_errors v))), (''tool_executed'', JBool (tool_executed v)),
      (''clarification'', opt_str (clarification v)),
      (''dispatch_state'', JStr (dispatch_text (e_dispatch v))),
      (''response_state'', JStr (response_text (e_response v))),
      (''verification_state'', JStr (verification_text (verification v))),
      (''validation_lane'', JStr (lane_text (lane v))), (''validation_reason'', JStr (val_reason_text (val_reason v))),
      (''next_action'', JStr (action_text (e_next v))), (''attempt_count'', JInt (int (attempt_count v))),
      (''retry_class'', JStr (e_retry_class v)), (''attempt_metadata_available'', JBool (metadata_available v))]"

text \<open>\<open>json.dumps(value, ensure_ascii=False)\<close>: insertion order, a space after comma and colon.\<close>

fun dumps_spaced :: "json \<Rightarrow> string" where
  "dumps_spaced (JList vs) = ''['' @ join '', '' (map dumps_spaced vs) @ '']''"
| "dumps_spaced (JObj ms) = ''{'' @ join '', '' (map (\<lambda>(k, v). enc_str False k @ '': '' @ dumps_spaced v) ms) @ ''}''"
| "dumps_spaced v = enc False v"

section \<open>State and environment\<close>

record gateway_config =
  gc_adapter :: adapter
  gc_upstream :: upstream
  gc_contract :: "contract option"
  gc_boundary :: config

text \<open>The threshold and the two switches are attributes the host may set while a call waits.\<close>

record settings =
  require_judge :: bool
  enable_agent_k :: bool
  g_threshold :: rat

record 'j gateway =
  g_settings :: settings
  g_denials :: int
  g_boundary :: boundary
  g_trace :: "json list"
  g_owner :: "nat option"
  g_journal :: 'j
  g_dispatched :: "(string \<times> string \<times> args) list"   \<comment> \<open>request, tool, arguments\<close>

text \<open>
  The route of a contract's \<open>find_federal_awards\<close> is the host's handler: its answer, and what its
  validator makes of it (\<open>Some\<close> the class it raised).
\<close>

record 'e call_env =
  c_request_id :: string
  c_now :: string
  c_trace_ok :: "string \<Rightarrow> bool"           \<comment> \<open>by stage\<close>
  c_judge :: "judge_signal option"
  c_settings :: "settings option"              \<comment> \<open>what the host sets while the judge is awaited\<close>
  c_issue_clock :: "rat option"
  c_consume_clock :: "rat option"
  c_attempts :: "nat \<Rightarrow> attempt_env"
  c_retrieved :: string
  c_handler :: "args \<Rightarrow> adapter_exn + data_batch \<times> request_outcome option"
  c_validator :: "args \<Rightarrow> data_batch \<Rightarrow> string option"
  c_journal :: "string \<Rightarrow> 'e"               \<comment> \<open>by operation\<close>

definition gateway_registry :: "gateway_config \<Rightarrow> tool_map" where
  "gateway_registry gc = (case gc_contract gc of None \<Rightarrow> TOOLS | Some k \<Rightarrow> registry k)"

text \<open>\<open>None\<close>: the constructor raised.\<close>

definition Gateway ::
    "libs \<Rightarrow> adapter \<Rightarrow> upstream \<Rightarrow> settings \<Rightarrow> contract option \<Rightarrow> 'j \<Rightarrow> (gateway_config \<times> 'j gateway) option" where
  "Gateway w a u st c j =
     (if \<not> (0 \<le> g_threshold st \<and> g_threshold st \<le> 1) \<or> \<not> opt_ok (contract_valid w) c then None
      else map_option (\<lambda>(cfg, b).
          (\<lparr>gc_adapter = a, gc_upstream = u, gc_contract = c, gc_boundary = cfg\<rparr>,
           \<lparr>g_settings = st, g_denials = 0, g_boundary = b, g_trace = [], g_owner = None, g_journal = j,
            g_dispatched = []\<rparr>))
        (ExecutionBoundary w (case c of None \<Rightarrow> TOOLS | Some k \<Rightarrow> registry k) c 30))"

definition claim_mcp_owner :: "nat \<Rightarrow> 'j gateway \<Rightarrow> ('j gateway, exn, unit) outcome" where
  "claim_mcp_owner me g = (case g_owner g of
       None \<Rightarrow> (g\<lparr>g_owner := Some me\<rparr>, Inr ())
     | Some _ \<Rightarrow> (g, Inl (OtherError ''ValueError'')))"

definition policy_context :: "libs \<Rightarrow> 'j gateway \<Rightarrow> json list" where
  "policy_context w g =
     [JBool (require_judge (g_settings g)), JBool (enable_agent_k (g_settings g)),
      float_json w (g_threshold (g_settings g)), JInt (g_denials g)]"

definition apply_attempt_summary :: "attempt_record list \<Rightarrow> bool \<Rightarrow> string \<Rightarrow> envelope \<Rightarrow> envelope" where
  "apply_attempt_summary ats meta cls v =
     (let v = v\<lparr>metadata_available := meta, attempt_count := length ats,
                e_retry_class := (if meta then cls else ''UNKNOWN'')\<rparr>
      in if ats \<noteq> [] then v\<lparr>e_dispatch := at_dispatch (last ats), e_response := at_response (last ats)\<rparr>
         else if tool_executed v then v\<lparr>e_dispatch := DISPATCH_UNKNOWN\<rparr> else v)"

definition set_validation_state :: "string \<Rightarrow> envelope \<Rightarrow> envelope" where
  "set_validation_state code v =
     (if code = ''MALFORMED_RESPONSE'' then
        v\<lparr>verification := FAILED_VALIDATION, lane := LANE_B_EXECUTION, val_reason := MALFORMED_RESPONSE, e_next := STOP\<rparr>
      else if code \<in> {''PROVENANCE_UNAVAILABLE'', ''CONFLICTING_SOURCE_RESULTS''} then
        v\<lparr>verification := FAILED_VALIDATION, lane := LANE_A_RESOLVABILITY, val_reason := PROVENANCE_UNAVAILABLE,
          e_next := HUMAN_REVIEW_REQUIRED\<rparr>
      else if code = ''ADAPTER_SCHEMA_OR_PROVENANCE_INVALID'' then
        v\<lparr>verification := FAILED_VALIDATION, lane := LANE_A_RESOLVABILITY,
          val_reason := ADAPTER_SCHEMA_OR_PROVENANCE_INVALID, e_next := HUMAN_REVIEW_REQUIRED\<rparr>
      else if code \<in> {''TIMEOUT'', ''NETWORK_ERROR'', ''UPSTREAM_UNAVAILABLE''} then
        v\<lparr>verification := RESULT_UNKNOWN, e_next := HUMAN_REVIEW_REQUIRED\<rparr>
      else v)"

section \<open>From the proposal to the decision\<close>

text \<open>An optional journal, and the trace, as operations of the gateway.\<close>

definition with_journal ::
    "('j, 'e) journal_ops option \<Rightarrow> (('j, 'e) journal_ops \<Rightarrow> 'j \<Rightarrow> ('j, exn, unit) outcome) \<Rightarrow> 'j gateway
       \<Rightarrow> ('j gateway, exn, unit) outcome" where
  "with_journal jo f g = (case jo of None \<Rightarrow> (g, Inr ())
     | Some ops \<Rightarrow> (case f ops (g_journal g) of (j, r) \<Rightarrow> (g\<lparr>g_journal := j\<rparr>, r)))"

definition trace_record ::
    "'e call_env \<Rightarrow> string \<Rightarrow> (string \<times> json) list \<Rightarrow> 'j gateway \<Rightarrow> ('j gateway, exn, unit) outcome" where
  "trace_record env stage extra g =
     (case record_event (c_trace_ok env stage) (c_now env) (c_request_id env) stage extra (g_trace g) of
        (t, r) \<Rightarrow> (g\<lparr>g_trace := t\<rparr>, (case r of Inl x \<Rightarrow> Inl (OtherError x) | Inr u \<Rightarrow> Inr u)))"

definition call_text :: "string \<Rightarrow> proposal \<Rightarrow> string" where
  "call_text req p = req @ [CHR 0x0A] @ dumps_spaced (proposal_json p)"

definition call_args :: "libs \<Rightarrow> gateway_config \<Rightarrow> proposal \<Rightarrow> args option" where
  "call_args w gc p = Option.bind (map_of (gateway_registry gc) (p_tool p)) (\<lambda>m. model_validate w m (p_arguments p))"

definition call_valid :: "libs \<Rightarrow> gateway_config \<Rightarrow> string \<Rightarrow> proposal \<Rightarrow> bool" where
  "call_valid w gc req p \<longleftrightarrow>
     0 < length (strip_space req) \<and> length (strip_space req) \<le> 4000 \<and> length (call_text req p) \<le> 16000
     \<and> (map_of (gateway_registry gc) (p_tool p) \<noteq> None \<longrightarrow> call_args w gc p \<noteq> None)"

fun bounded_args :: "args option \<Rightarrow> bool" where
  "bounded_args (Some (ASearch q)) \<longleftrightarrow>
     list_ex (\<lambda>x. x \<noteq> None \<and> x \<noteq> Some []) [recipient_name q, awarding_agency q, state_code q]"
| "bounded_args _ = True"

definition call_facts :: "libs \<Rightarrow> gateway_config \<Rightarrow> bool \<Rightarrow> string \<Rightarrow> proposal \<Rightarrow> bool \<Rightarrow> policy_facts" where
  "call_facts w gc need_judge req p planning_failed =
     (PolicyFacts (p_tool p) (call_text req p))
       \<lparr>request_text := Some req, arguments_json := map_option (model_dump_json w) (call_args w gc p),
        valid_input := call_valid w gc req p, bounded := bounded_args (call_args w gc p),
        review_reason := (if planning_failed then Some ''PLANNER_FAILURE'' else None),
        semantic_required := need_judge\<rparr>"

text \<open>
  The preflight with a judge that is not asked, then the judge, when it can matter: the signals, and
  whether the judge was asked and whether it was skipped because policy denies anyway.
\<close>

record signals_read =
  sg_judge :: judge_signal
  sg_k :: k_signal
  sg_asked :: bool
  sg_skipped :: bool

definition semantic_signals ::
    "libs \<Rightarrow> gateway_config \<Rightarrow> 'e call_env \<Rightarrow> settings \<Rightarrow> int \<Rightarrow> policy_facts \<Rightarrow> string + signals_read" where
  "semantic_signals w gc env st denials facts =
     (let known = (map_of (gateway_registry gc) (f_tool facts) \<noteq> None);
          look = (\<lambda>j. if enable_agent_k st then inspect w (f_text facts) j denials known else KSignal);
          k0 = look JudgeSignal
      in rbind (evaluate_policy w (gc_contract gc) facts JudgeSignal k0 (g_threshold st)) (\<lambda>pre.
        let skipped = (require_judge st \<and> decided pre = DENY) in
        Inr (if valid_input facts \<and> require_judge st \<and> decided pre \<noteq> DENY
             then (let j = assess_judge (c_judge env)
                   in \<lparr>sg_judge = j, sg_k = look j, sg_asked = True, sg_skipped = skipped\<rparr>)
             else \<lparr>sg_judge = JudgeSignal
                     \<lparr>rationale := (if \<not> valid_input facts then ''Invalid input; semantic call skipped''
                        else if \<not> require_judge st then ''Semantic judge disabled for this evaluation matrix''
                        else ''Deterministic policy already denies this request; semantic call skipped''),
                      provider := (if \<not> require_judge st then ''disabled'' else ''unavailable'')\<rparr>,
                   sg_k = k0, sg_asked = False, sg_skipped = skipped\<rparr>)))"

text \<open>What the first half of a call settles.\<close>

record governed =
  gv_facts :: policy_facts
  gv_args :: "args option"
  gv_signals :: signals_read
  gv_threshold :: rat
  gv_policy :: policy_result
  gv_handle :: "nat option"
  gv_error :: "string option"

text \<open>Issuance; a refusal of the boundary keeps the policy's decision apart.\<close>

definition issue_authority ::
    "libs \<Rightarrow> gateway_config \<Rightarrow> 'e call_env \<Rightarrow> json list \<Rightarrow> rat \<Rightarrow> policy_facts \<Rightarrow> args option \<Rightarrow> signals_read
       \<Rightarrow> 'j gateway \<Rightarrow> ('j gateway, exn, governed) outcome" where
  "issue_authority w gc env ctx thr facts args sg g =
     (case Execution.evaluate w (gc_boundary gc) (c_issue_clock env) (c_request_id env) facts (sg_judge sg) (sg_k sg)
             (float_json w thr) (map_option (model_dump w) args) ctx (g_boundary g) of
        (b, r) \<Rightarrow> (let g1 = g\<lparr>g_boundary := b\<rparr>;
                      done = (\<lambda>p h x. \<lparr>gv_facts = facts, gv_args = args, gv_signals = sg, gv_threshold = thr,
                                       gv_policy = p, gv_handle = h, gv_error = x\<rparr>) in
           (g1, (case r of
              Inr (p, h) \<Rightarrow> Inr (done p h None)
            | Inl (BoundaryError code) \<Rightarrow>
                (case evaluate_policy w (gc_contract gc) facts (sg_judge sg) (sg_k sg) thr of
                   Inl e \<Rightarrow> Inl (OtherError e) | Inr p \<Rightarrow> Inr (done p None (Some code)))
            | Inl x \<Rightarrow> Inl x))))"

definition failure_accounting :: "bool \<Rightarrow> governed \<Rightarrow> string list" where
  "failure_accounting planning_failed gv =
     (if planning_failed then [''PLANNER_FAILURE''] else [])
     @ (if sg_skipped (gv_signals gv) then [''JUDGE_SKIPPED_PREFLIGHT_DENY'']
        else if sg_asked (gv_signals gv) \<and> \<not> available (sg_judge (gv_signals gv)) then [''JUDGE_SEMANTIC_FAILURE'']
        else [])
     @ (if list_ex (\<lambda>s. s \<noteq> NONE) (signals (sg_k (gv_signals gv))) then [''AGENT_K_DETECTION''] else [])
     @ (if decided (gv_policy gv) \<noteq> PERMIT then [''GOVERNANCE_HELD''] else [])"

definition policy_trace :: "libs \<Rightarrow> bool \<Rightarrow> governed \<Rightarrow> (string \<times> json) list" where
  "policy_trace w planning_failed gv =
     [(''judge'', judge_json w (sg_judge (gv_signals gv))), (''agent_k'', k_json (sg_k (gv_signals gv))),
      (''facts'', facts_json (gv_facts gv)), (''confidence_threshold'', float_json w (gv_threshold gv)),
      (''policy'', policy_json (gv_policy gv)), (''binding_issued'', JBool (gv_handle gv \<noteq> None)),
      (''binding_issuance_error'', opt_str (gv_error gv)),
      (''failure_accounting'', strs (failure_accounting planning_failed gv)),
      (''judge_preflight_skipped'', JBool (sg_skipped (gv_signals gv)))]"

text \<open>\<open>_call\<close> up to the journal's \<open>policy\<close>.\<close>

definition govern ::
    "libs \<Rightarrow> gateway_config \<Rightarrow> ('j, 'e) journal_ops option \<Rightarrow> 'e call_env \<Rightarrow> string \<Rightarrow> proposal \<Rightarrow> bool
       \<Rightarrow> 'j gateway \<Rightarrow> ('j gateway, exn, governed) outcome" where
  "govern w gc jo env req p planning_failed g =
     (let st = g_settings g; ctx = policy_context w g; rid = c_request_id env;
          args = call_args w gc p; facts = call_facts w gc (require_judge st) req p planning_failed in
      obind (with_journal jo (\<lambda>ops. j_begin ops (c_journal env ''begin'') rid) g) (\<lambda>_ g.
      obind (trace_record env ''proposal''
               [(''user_request'', JStr req), (''proposal'', proposal_json p)] g) (\<lambda>_ g.
      (case semantic_signals w gc env st (g_denials g) facts of
         Inl x \<Rightarrow> (g, Inl (OtherError x))
       | Inr sg \<Rightarrow>
      obind (issue_authority w gc env ctx (g_threshold st) facts args sg
               (g\<lparr>g_settings := (case c_settings env of Some st' \<Rightarrow> if sg_asked sg then st' else g_settings g
                                                      | None \<Rightarrow> g_settings g)\<rparr>)) (\<lambda>gv g.
      obind (trace_record env ''policy'' (policy_trace w planning_failed gv) g) (\<lambda>_ g.
      obind (with_journal jo (\<lambda>ops. j_policy ops (c_journal env ''policy'') rid
               (policy_evidence (gv_policy gv) (gv_handle gv \<noteq> None) (gv_error gv))) g) (\<lambda>_ g.
      (g, Inr gv))))))))"

section \<open>Dispatch\<close>

text \<open>The variables a run of the \<open>try\<close> block leaves behind, also when it raises.\<close>

record locals =
  lo_envelope :: envelope
  lo_pre :: string
  lo_attempts :: "attempt_record list"
  lo_meta :: bool
  lo_class :: string
  lo_boundary_error :: "string option"

datatype raised = Raised exn | RaisedAdapter adapter_error

fun raised_by :: "adapter_exn \<Rightarrow> raised" where
  "raised_by (AdapterRaised x) = RaisedAdapter x"
| "raised_by (AdapterOther c) = Raised (OtherError c)"

definition issued_envelope :: "nat option \<Rightarrow> 'j gateway \<Rightarrow> authority_envelope option" where
  "issued_envelope h g = Option.bind h (\<lambda>h. map_option i_envelope (map_of (b_issued (g_boundary g)) h))"

text \<open>Lines 305 to 318: intent, consumption, and the arguments of the consumed binding.\<close>

definition redeem ::
    "libs \<Rightarrow> gateway_config \<Rightarrow> ('j, 'e) journal_ops option \<Rightarrow> 'e call_env \<Rightarrow> governed \<Rightarrow> args
       \<Rightarrow> 'j gateway \<Rightarrow> ('j gateway, exn, execution_binding \<times> args) outcome" where
  "redeem w gc jo env gv a g =
     (case gv_error gv of Some code \<Rightarrow> (g, Inl (BoundaryError code))
      | None \<Rightarrow>
      obind (with_journal jo (\<lambda>ops. j_intent ops (c_journal env ''intent'') (issued_envelope (gv_handle gv) g)) g) (\<lambda>_ g.
      (case consume w (gc_boundary gc) (c_consume_clock env) (gv_handle gv) (c_request_id env) (f_tool (gv_facts gv))
              (Some (model_dump w a)) (policy_context w g) (g_boundary g) of
         (b, r) \<Rightarrow> (g\<lparr>g_boundary := b\<rparr>, (case r of Inl x \<Rightarrow> Inl x
           | Inr binding \<Rightarrow> (case map_of (gateway_registry gc) (x_tool binding) of
                 None \<Rightarrow> Inl (OtherError ''KeyError'')
               | Some m \<Rightarrow> (case model_validate_json w m (x_arguments_json binding) of
                     None \<Rightarrow> Inl (OtherError ''ValidationError'') | Some a' \<Rightarrow> Inr (binding, a'))))))))"

text \<open>The route, when there is one: the backend call.\<close>

definition contract_route :: "gateway_config \<Rightarrow> string \<Rightarrow> bool" where
  "contract_route gc tool \<longleftrightarrow> gc_contract gc \<noteq> None \<and> tool = ''find_federal_awards''"

definition route ::
    "libs \<Rightarrow> gateway_config \<Rightarrow> 'e call_env \<Rightarrow> string \<Rightarrow> args
       \<Rightarrow> (adapter_exn + data_batch \<times> request_outcome option) option" where
  "route w gc env tool a =
     (let plain = map_sum id (map_prod id Some) in
      if contract_route gc tool then Some (c_handler env a)
      else (case a of
          ASearch q \<Rightarrow> Some (plain (search w (gc_upstream gc) (gc_adapter gc) (c_attempts env) (c_retrieved env) q))
        | AAward i \<Rightarrow> Some (plain (detail w (gc_upstream gc) (gc_adapter gc) (c_attempts env) (c_retrieved env) i))
        | ARecipient r \<Rightarrow> Some (plain (recipients w (gc_upstream gc) (gc_adapter gc) (c_attempts env) (c_retrieved env) r))
        | AModel c v \<Rightarrow> None))"

text \<open>What is checked before a result is released (lines 334 to 364), on the variables left so far.\<close>

definition release ::
    "gateway_config \<Rightarrow> 'e call_env \<Rightarrow> string \<Rightarrow> args \<Rightarrow> data_batch \<times> request_outcome option
       \<Rightarrow> locals \<Rightarrow> (locals, raised, data_batch) outcome" where
  "release gc env tool a res l =
     (let (b, out) = res;
          l1 = (case out of None \<Rightarrow> l
                | Some x \<Rightarrow> l\<lparr>lo_attempts := o_attempts x, lo_meta := True, lo_class := o_retry_class x\<rparr>);
          l2 = l1\<lparr>lo_envelope := apply_attempt_summary (lo_attempts l1) (lo_meta l1) (lo_class l1) (lo_envelope l1)\<rparr>;
          unavailable = RaisedAdapter ((AdapterError ''PROVENANCE_UNAVAILABLE'' False)
            \<lparr>ae_attempts := lo_attempts l1, ae_retry_class := lo_class l1\<rparr>)
      in if \<not> batch_ok b then (l1, Inl (Raised (OtherError ''ValidationError'')))
         else if records_returned (d_provenance b) \<noteq> int (length (d_records b)) then (l2, Inl unavailable)
         else if source_type (d_provenance b)
                 \<noteq> (if fixture (gc_adapter gc) then ''SYNTHETIC_TEST_FIXTURE'' else ''PUBLIC_GOVERNMENT_API'')
         then (l2, Inl unavailable)
         else if contract_route gc tool \<and> out = None then (l2, Inl (Raised (OtherError ''ValueError'')))
         else (case (if contract_route gc tool then c_validator env a b else None) of
             Some c \<Rightarrow> (l2, Inl (Raised (OtherError c)))
           | None \<Rightarrow> (l2\<lparr>lo_envelope := (lo_envelope l2)\<lparr>e_provenance := Some (d_provenance b),
                         e_result := Some (JObj [(''records'', JList (d_records b))]),
                         e_status := OK, verification := RESULT_VERIFIED\<rparr>\<rparr>, Inr b)))"

text \<open>
  \<open>str(v)\<close> of a decoded value (containers, which a row model excludes, as their text), and \<open>casefold\<close>
  below 256 (the micro sign, whose fold is outside that range, is left as it is).
\<close>

fun py_str :: "json \<Rightarrow> string" where
  "py_str (JStr s) = s"
| "py_str JNull = ''None''"
| "py_str (JBool b) = (if b then ''True'' else ''False'')"
| "py_str v = enc False v"

definition fold_char :: "char \<Rightarrow> string" where
  "fold_char c = (let n = of_char c :: nat in
     if ascii_upper c \<or> (192 \<le> n \<and> n \<le> 222 \<and> n \<noteq> 215) then [char_of (n + 32)]
     else if n = 223 then ''ss'' else [c])"

definition casefold :: "string \<Rightarrow> string" where "casefold s = concat (map fold_char s)"

text \<open>Why a released result still needs review: the reason and what the caller is told.\<close>

definition recipient_review :: "args \<Rightarrow> data_batch \<Rightarrow> (string \<times> string) option" where
  "recipient_review a b = (case a of
       ARecipient r \<Rightarrow>
         if length (d_records b) \<noteq> 1 \<or> truncated (d_provenance b)
         then Some ((if d_records b \<noteq> [] then ''AMBIGUOUS_RECIPIENT'' else ''RECIPIENT_NOT_FOUND''),
           ''Choose an explicit recipient identifier from the candidates, or refine the name. No recipient was selected.'')
         else None
     | ASearch q \<Rightarrow>
         (case recipient_name q of None \<Rightarrow> None
          | Some n \<Rightarrow>
              (let names = map (\<lambda>r. casefold (py_str (jget_or (JStr []) ''recipient_name'' r))) (d_records b) in
               if n \<noteq> [] \<and> (\<not> list_all ((=) (hd names)) names \<or> (names \<noteq> [] \<and> hd names \<noteq> casefold n))
               then Some (''RECIPIENT_IDENTITY_UNCONFIRMED'',
                 ''These are search matches, not a resolved legal identity. Refine the recipient name using candidate resolution.'')
               else None))
     | _ \<Rightarrow> None)"

text \<open>The total of a page: \<open>Inl\<close> the class raised.\<close>

fun total_of :: "pydec \<Rightarrow> json list \<Rightarrow> string + pydec" where
  "total_of acc [] = Inr acc"
| "total_of acc (r # rs) = (case jget ''award_amount'' r of
       None \<Rightarrow> Inl ''KeyError''
     | Some v \<Rightarrow> (case Option.bind (Decimal (py_str v)) (dec_add acc) of
           None \<Rightarrow> Inl ''InvalidOperation'' | Some acc' \<Rightarrow> total_of acc' rs))"

definition summary_json :: "json list \<Rightarrow> pydec \<Rightarrow> json" where
  "summary_json rows tot = JObj
     [(''record_count'', JInt (int (length rows))),
      (''returned_award_amount_total_usd'', JStr (dec_str tot)),
      (''scope'', JStr ''RETURNED_PAGE_ONLY''),
      (''note'', JStr ''Sum of award amounts for matching awards, not fiscal-year transaction obligations or a population total.'')]"

text \<open>The policy evaluated again with a reason for review (\<open>post\<close>); an exception escapes.\<close>

definition post_evaluate :: "libs \<Rightarrow> gateway_config \<Rightarrow> governed \<Rightarrow> string \<Rightarrow> envelope \<Rightarrow> exn + envelope" where
  "post_evaluate w gc gv reason v =
     (case evaluate_policy w (gc_contract gc) ((gv_facts gv)\<lparr>review_reason := Some reason\<rparr>)
             (sg_judge (gv_signals gv)) (sg_k (gv_signals gv)) (gv_threshold gv) of
        Inl e \<Rightarrow> Inl (OtherError e)
      | Inr post \<Rightarrow> Inr (v\<lparr>e_decision := decided post, e_policy_reasons := reasons post\<rparr>))"

text \<open>Lines 369 to 403.\<close>

definition conclude ::
    "libs \<Rightarrow> gateway_config \<Rightarrow> governed \<Rightarrow> string \<Rightarrow> args \<Rightarrow> data_batch \<Rightarrow> locals \<Rightarrow> (locals, raised, unit) outcome" where
  "conclude w gc gv tool a b l =
     (let v = lo_envelope l in
      case recipient_review a b of
        Some (reason, say) \<Rightarrow>
          (let v1 = v\<lparr>clarification := Some say, e_next := HUMAN_REVIEW_REQUIRED\<rparr> in
           (case post_evaluate w gc gv reason v1 of
              Inl x \<Rightarrow> (l\<lparr>lo_envelope := v1\<rparr>, Inl (Raised x))
            | Inr v2 \<Rightarrow> (l\<lparr>lo_envelope := v2\<lparr>e_status := CLARIFICATION_REQUIRED\<rparr>\<rparr>, Inr ())))
      | None \<Rightarrow>
          if tool = ''summarize_federal_spending'' then
            (case total_of (Fin False 0 0) (d_records b) of
               Inl c \<Rightarrow> (l, Inl (Raised (OtherError c)))
             | Inr tot \<Rightarrow> (l\<lparr>lo_envelope := v\<lparr>e_result := Some (summary_json (d_records b) tot),
                                              e_next := ACT_NONE\<rparr>\<rparr>, Inr ()))
          else (l\<lparr>lo_envelope := v\<lparr>e_next := ACT_NONE\<rparr>\<rparr>, Inr ()))"

text \<open>The \<open>try\<close> block.\<close>

definition try_dispatch ::
    "libs \<Rightarrow> gateway_config \<Rightarrow> ('j, 'e) journal_ops option \<Rightarrow> 'e call_env \<Rightarrow> governed \<Rightarrow> args \<Rightarrow> locals
       \<Rightarrow> 'j gateway \<Rightarrow> 'j gateway \<times> (locals, raised, unit) outcome" where
  "try_dispatch w gc jo env gv a l g =
     (case redeem w gc jo env gv a g of
        (g1, Inl x) \<Rightarrow> (g1, l, Inl (Raised x))
      | (g1, Inr (binding, a')) \<Rightarrow>
          (let tool = x_tool binding; l1 = l\<lparr>lo_pre := ''PASS''\<rparr> in
           case route w gc env tool a' of
             None \<Rightarrow> (g1, l1, Inl (Raised (BoundaryError ''TOOL_ROUTE_INVALID'')))
           | Some res \<Rightarrow>
               (let g2 = g1\<lparr>g_dispatched := g_dispatched g1 @ [(c_request_id env, tool, a')]\<rparr>;
                    l2 = l1\<lparr>lo_envelope := (lo_envelope l1)\<lparr>tool_executed := True\<rparr>\<rparr>
                in (g2, (case res of
                      Inl x \<Rightarrow> (l2, Inl (raised_by x))
                    | Inr br \<Rightarrow> obind (release gc env tool a' br l2) (\<lambda>b l3. conclude w gc gv tool a' b l3))))))"

section \<open>The handlers\<close>

text \<open>
  The classes the third handler names; an exception is known by the most specific class named by a
  handler it meets.
\<close>

definition handled_classes :: "string list" where
  "handled_classes = [''ValidationError'', ''ValueError'', ''TypeError'', ''KeyError'', ''AttributeError'']"

definition on_boundary_error :: "string \<Rightarrow> locals \<Rightarrow> locals" where
  "on_boundary_error code l = l\<lparr>lo_pre := ''FAIL'', lo_boundary_error := Some code,
     lo_envelope := (lo_envelope l)\<lparr>e_decision := DENY, e_policy_reasons := [''EXECUTION_BINDING_INVALID''],
       e_next := STOP, e_errors := [\<lparr>error_code = code,
         error_message = ''Pre-dispatch binding verification failed; no backend invoked.'', retryable = False\<rparr>]\<rparr>\<rparr>"

definition on_adapter_error ::
    "libs \<Rightarrow> gateway_config \<Rightarrow> governed \<Rightarrow> adapter_error \<Rightarrow> locals \<Rightarrow> (locals, exn, unit) outcome" where
  "on_adapter_error w gc gv x l =
     (let l1 = l\<lparr>lo_attempts := ae_attempts x, lo_meta := (ae_attempts x \<noteq> []), lo_class := ae_retry_class x\<rparr>;
          v = apply_attempt_summary (ae_attempts x) (ae_attempts x \<noteq> []) (ae_retry_class x) (lo_envelope l);
          v1 = set_validation_state (ae_code x) (v\<lparr>e_status := ERROR, e_result := None,
            e_errors := [\<lparr>error_code = ae_code x,
              error_message = ''Public source request failed. Refine inputs or retry if retryable; no substitute data were used.'',
              retryable = ae_retryable x\<rparr>]\<rparr>);
          v2 = (if ae_code x \<in> {''TIMEOUT'', ''NETWORK_ERROR'', ''UPSTREAM_UNAVAILABLE''}
                then v1\<lparr>e_next := (if ae_retryable x then RETRY_ALLOWED else RETRY_BLOCKED)\<rparr> else v1)
      in if ae_code x \<in> {''CONFLICTING_SOURCE_RESULTS'', ''PROVENANCE_UNAVAILABLE''}
         then (case post_evaluate w gc gv (ae_code x) v2 of
             Inl e \<Rightarrow> (l1\<lparr>lo_envelope := v2\<rparr>, Inl e) | Inr v3 \<Rightarrow> (l1\<lparr>lo_envelope := v3\<rparr>, Inr ()))
         else (l1\<lparr>lo_envelope := v2\<rparr>, Inr ()))"

definition on_malformed :: "libs \<Rightarrow> gateway_config \<Rightarrow> governed \<Rightarrow> locals \<Rightarrow> (locals, exn, unit) outcome" where
  "on_malformed w gc gv l =
     (let v = apply_attempt_summary (lo_attempts l) (lo_meta l) (lo_class l) (lo_envelope l) in
      case post_evaluate w gc gv ''ADAPTER_SCHEMA_OR_PROVENANCE_INVALID'' v of
        Inl e \<Rightarrow> (l\<lparr>lo_envelope := v\<rparr>, Inl e)
      | Inr v1 \<Rightarrow> (l\<lparr>lo_envelope := set_validation_state ''ADAPTER_SCHEMA_OR_PROVENANCE_INVALID''
          (v1\<lparr>e_status := ERROR, e_result := None, e_provenance := None,
             e_errors := [\<lparr>error_code = ''MALFORMED_ADAPTER_RESPONSE'',
               error_message = ''Adapter response failed validation; no data released.'', retryable = False\<rparr>]\<rparr>)\<rparr>, Inr ()))"

definition handle ::
    "libs \<Rightarrow> gateway_config \<Rightarrow> governed \<Rightarrow> (locals, raised, unit) outcome \<Rightarrow> (locals, exn, unit) outcome" where
  "handle w gc gv res = (case res of
       (l, Inr u) \<Rightarrow> (l, Inr u)
     | (l, Inl (RaisedAdapter x)) \<Rightarrow> on_adapter_error w gc gv x l
     | (l, Inl (Raised (BoundaryError code))) \<Rightarrow> (on_boundary_error code l, Inr ())
     | (l, Inl (Raised (OtherError c))) \<Rightarrow> if c \<in> set handled_classes then on_malformed w gc gv l else (l, Inl (OtherError c))
     | (l, Inl (Raised (LocalHold r))) \<Rightarrow> (l, Inl (LocalHold r)))"

section \<open>One call\<close>

definition start_locals :: "'e call_env \<Rightarrow> proposal \<Rightarrow> governed \<Rightarrow> locals" where
  "start_locals env p gv =
     \<lparr>lo_envelope = new_envelope (decided (gv_policy gv)) (p_tool p) (c_request_id env) (sg_judge (gv_signals gv))
        (sg_k (gv_signals gv)) (reasons (gv_policy gv)),
      lo_pre = ''NOT_REQUIRED'', lo_attempts = [], lo_meta = False, lo_class = ''UNKNOWN'',
      lo_boundary_error = gv_error gv\<rparr>"

text \<open>Lines 276 to 285: a denial counts when a tripwire gave a reason.\<close>

definition on_deny :: "bool \<Rightarrow> governed \<Rightarrow> locals \<Rightarrow> 'j gateway \<Rightarrow> 'j gateway \<times> locals" where
  "on_deny journalled gv l g =
     (let rs = reasons (gv_policy gv) in
      (if list_ex (\<lambda>r. r \<in> set TRIPWIRE_REASONS) rs then g\<lparr>g_denials := g_denials g + 1\<rparr> else g,
       l\<lparr>lo_envelope := (lo_envelope l)
          \<lparr>clarification := (if ''SESSION_CONTAINMENT_ACTIVE'' \<in> set rs then Some (if journalled
               then ''Durable containment is active. Restart and reconnect do not clear it; human review is required.''
               else ''Session containment is active after repeated policy violations in this gateway process. Later calls are denied regardless of content; restart the gateway process to reset.'')
             else clarification (lo_envelope l)),
           e_next := STOP\<rparr>\<rparr>))"

definition on_review :: "locals \<Rightarrow> locals" where
  "on_review l = l\<lparr>lo_envelope := (lo_envelope l)
     \<lparr>clarification := Some ''Clarify recipient, agency, date range or research intent; resolve the listed policy reasons.'',
      e_next := HUMAN_REVIEW_REQUIRED\<rparr>\<rparr>"

definition start_trace :: "libs \<Rightarrow> governed \<Rightarrow> authority_envelope option \<Rightarrow> (string \<times> json) list" where
  "start_trace w gv env =
     [(''tool'', JStr (f_tool (gv_facts gv))), (''execution_authority'', policy_json (gv_policy gv)),
      (''execution_binding'', (case env of None \<Rightarrow> JNull | Some x \<Rightarrow> binding_audit_record w (a_binding x))),
      (''pre_dispatch_verification'', JStr ''PENDING_PRE_DISPATCH''), (''dispatch_state'', JStr ''NOT_DISPATCHED'')]"

definition act ::
    "libs \<Rightarrow> gateway_config \<Rightarrow> ('j, 'e) journal_ops option \<Rightarrow> 'e call_env \<Rightarrow> governed \<Rightarrow> locals
       \<Rightarrow> 'j gateway \<Rightarrow> ('j gateway, exn, locals) outcome" where
  "act w gc jo env gv l g = (case decided (gv_policy gv) of
       DENY \<Rightarrow> (case on_deny (jo \<noteq> None) gv l g of (g', l') \<Rightarrow> (g', Inr l'))
     | REVIEW_REQUIRED \<Rightarrow> (g, Inr (on_review l))
     | PERMIT \<Rightarrow> (case gv_args gv of None \<Rightarrow> (g, Inr l)
         | Some a \<Rightarrow>
             obind (trace_record env ''execution_started'' (start_trace w gv (issued_envelope (gv_handle gv) g)) g) (\<lambda>_ g.
               (case try_dispatch w gc jo env gv a l g of
                  (g', res) \<Rightarrow> (g', (case handle w gc gv res of (l', Inl x) \<Rightarrow> Inl x | (l', Inr u) \<Rightarrow> Inr l'))))))"

definition evidence_of :: "locals \<Rightarrow> finish_evidence" where
  "evidence_of l = \<lparr>pre_dispatch = lo_pre l, boundary_error = lo_boundary_error l, attempts_made = lo_attempts l\<rparr>"

text \<open>\<open>finish\<close> may change the envelope it is given.\<close>

definition finish_call ::
    "('j, 'e) journal_ops option \<Rightarrow> 'e call_env \<Rightarrow> locals \<Rightarrow> 'j gateway \<Rightarrow> ('j gateway, exn, envelope) outcome" where
  "finish_call jo env l g = (case jo of None \<Rightarrow> (g, Inr (lo_envelope l))
     | Some ops \<Rightarrow> (case j_finish ops (c_journal env ''finish'') (lo_envelope l) (g_denials g) (evidence_of l) (g_journal g) of
          ((j, v), r) \<Rightarrow> (g\<lparr>g_journal := j\<rparr>, (case r of Inl x \<Rightarrow> Inl x | Inr u \<Rightarrow> Inr v))))"

definition completed_trace :: "libs \<Rightarrow> locals \<Rightarrow> envelope \<Rightarrow> (string \<times> json) list" where
  "completed_trace w l v =
     [(''response'', response_json w v), (''tool_executed'', JBool (tool_executed v)),
      (''pre_dispatch_verification'', JStr (lo_pre l)), (''execution_boundary_error'', opt_str (lo_boundary_error l)),
      (''attempts'', JList (map (attempt_json w) (lo_attempts l))),
      (''attempt_metadata_available'', JBool (metadata_available v))]"

definition call_inner ::
    "libs \<Rightarrow> gateway_config \<Rightarrow> ('j, 'e) journal_ops option \<Rightarrow> 'e call_env \<Rightarrow> string \<Rightarrow> proposal \<Rightarrow> bool
       \<Rightarrow> 'j gateway \<Rightarrow> ('j gateway, exn, envelope) outcome" where
  "call_inner w gc jo env req p planning_failed g =
     obind (govern w gc jo env req p planning_failed g) (\<lambda>gv g.
     obind (act w gc jo env gv (start_locals env p gv) g) (\<lambda>l g.
     obind (finish_call jo env l g) (\<lambda>v g.
     obind (trace_record env ''completed'' (completed_trace w l v) g) (\<lambda>_ g.
     (g, Inr v)))))"

definition admit_denials ::
    "('j, 'e) journal_ops option \<Rightarrow> 'e call_env \<Rightarrow> 'j gateway \<Rightarrow> ('j gateway, exn, unit) outcome" where
  "admit_denials jo env g = (case jo of None \<Rightarrow> (g, Inr ())
     | Some ops \<Rightarrow> (case j_admit ops (c_journal env ''admit'') (g_journal g) of
          (j, Inl x) \<Rightarrow> (g\<lparr>g_journal := j\<rparr>, Inl x)
        | (j, Inr n) \<Rightarrow> (g\<lparr>g_journal := j, g_denials := n\<rparr>, Inr ())))"

definition call ::
    "libs \<Rightarrow> gateway_config \<Rightarrow> ('j, 'e) journal_ops option \<Rightarrow> 'e call_env \<Rightarrow> string \<Rightarrow> proposal \<Rightarrow> bool
       \<Rightarrow> 'j gateway \<Rightarrow> ('j gateway, exn, envelope) outcome" where
  "call w gc jo env req p planning_failed g =
     obind (admit_denials jo env g) (\<lambda>_ g.
       (case call_inner w gc jo env req p planning_failed g of
          (g1, Inl x) \<Rightarrow> ((case jo of None \<Rightarrow> g1
             | Some ops \<Rightarrow> g1\<lparr>g_journal := j_failed ops (c_journal env ''failed'') x (g_journal g1)\<rparr>), Inl x)
        | (g1, Inr v) \<Rightarrow> (g1, Inr v)))"

section \<open>What the steps leave alone\<close>

lemma with_journal_frame [frame_simps]:
  "g_dispatched (fst (with_journal jo f g)) = g_dispatched g" "g_denials (fst (with_journal jo f g)) = g_denials g"
  "g_boundary (fst (with_journal jo f g)) = g_boundary g" "g_settings (fst (with_journal jo f g)) = g_settings g"
  by (simp_all add: with_journal_def split: option.splits prod.splits)

lemma trace_record_frame [frame_simps]:
  "g_dispatched (fst (trace_record env st ev g)) = g_dispatched g" "g_denials (fst (trace_record env st ev g)) = g_denials g"
  "g_boundary (fst (trace_record env st ev g)) = g_boundary g" "g_settings (fst (trace_record env st ev g)) = g_settings g"
  "g_journal (fst (trace_record env st ev g)) = g_journal g"
  by (simp_all add: trace_record_def split: prod.splits)

lemma issue_authority_frame [frame_simps]:
  "g_dispatched (fst (issue_authority w gc env ctx thr facts a sg g)) = g_dispatched g"
  "g_denials (fst (issue_authority w gc env ctx thr facts a sg g)) = g_denials g"
  "g_journal (fst (issue_authority w gc env ctx thr facts a sg g)) = g_journal g"
  "g_settings (fst (issue_authority w gc env ctx thr facts a sg g)) = g_settings g"
  by (simp_all add: issue_authority_def Let_def split: prod.splits)

lemma frame_eq:
  "with_journal jo f g = (g', r) \<Longrightarrow> g_dispatched g' = g_dispatched g \<and> g_denials g' = g_denials g
     \<and> g_boundary g' = g_boundary g \<and> g_settings g' = g_settings g"
  "trace_record env st ev g = (g', r) \<Longrightarrow> g_dispatched g' = g_dispatched g \<and> g_denials g' = g_denials g
     \<and> g_boundary g' = g_boundary g \<and> g_settings g' = g_settings g \<and> g_journal g' = g_journal g"
  "issue_authority w gc env ctx thr facts a sg g = (g', r') \<Longrightarrow> g_dispatched g' = g_dispatched g \<and> g_denials g' = g_denials g
     \<and> g_journal g' = g_journal g"
  by (metis fst_conv with_journal_frame, metis fst_conv trace_record_frame, metis fst_conv issue_authority_frame)

lemma govern_keeps:
  assumes "\<And>g st ev. P g \<Longrightarrow> P (fst (trace_record env st ev g))"
    and "\<And>g ctx thr facts a sg. P g \<Longrightarrow> P (fst (issue_authority w gc env ctx thr facts a sg g))"
    and "\<And>g (sg :: signals_read). P g \<Longrightarrow> P (g\<lparr>g_settings := (case c_settings env of Some st \<Rightarrow> if sg_asked sg then st else g_settings g
                                                    | None \<Rightarrow> g_settings g)\<rparr>)"
    and "\<And>g. P g \<Longrightarrow> P (fst (with_journal jo (\<lambda>ops. j_begin ops (c_journal env ''begin'') (c_request_id env)) g))"
    and "\<And>g ev. P g \<Longrightarrow> P (fst (with_journal jo (\<lambda>ops. j_policy ops (c_journal env ''policy'') (c_request_id env) ev) g))"
    and "P g"
  shows "P (fst (govern w gc jo env req p pf g))"
proof -
  note keep = obind_keep [where P = P] assms
  show ?thesis
    unfolding govern_def Let_def
    by (rule keep | assumption | split sum.split, intro conjI allI impI | simp only: fst_conv)+
qed

lemma govern_frame [frame_simps]:
  "g_dispatched (fst (govern w gc jo env req p pf g)) = g_dispatched g"
  "g_denials (fst (govern w gc jo env req p pf g)) = g_denials g"
proof -
  show "g_dispatched (fst (govern w gc jo env req p pf g)) = g_dispatched g"
    by (rule govern_keeps [where P = "\<lambda>s. g_dispatched s = g_dispatched g"]) (simp_all add: frame_simps)
  show "g_denials (fst (govern w gc jo env req p pf g)) = g_denials g"
    by (rule govern_keeps [where P = "\<lambda>s. g_denials s = g_denials g"]) (simp_all add: frame_simps)
qed

lemma redeem_frame [frame_simps]:
  "g_dispatched (fst (redeem w gc jo env gv a g)) = g_dispatched g"
  "g_denials (fst (redeem w gc jo env gv a g)) = g_denials g"
  "g_settings (fst (redeem w gc jo env gv a g)) = g_settings g"
  unfolding redeem_def
  by (auto split: option.splits prod.splits sum.splits simp: frame_simps
      intro!: obind_inv [where P = "\<lambda>s. g_dispatched s = g_dispatched g"]
        obind_inv [where P = "\<lambda>s. g_denials s = g_denials g"]
        obind_inv [where P = "\<lambda>s. g_settings s = g_settings g"] dest: frame_eq)

lemma try_dispatch_cases:
  obtains (silent) l r where "try_dispatch w gc jo env gv a l0 g = (fst (redeem w gc jo env gv a g), l, r)"
  | (dispatch) b a' res where "snd (redeem w gc jo env gv a g) = Inr (b, a')"
      "try_dispatch w gc jo env gv a l0 g
         = ((fst (redeem w gc jo env gv a g))\<lparr>g_dispatched := g_dispatched g @ [(c_request_id env, x_tool b, a')]\<rparr>, res)"
proof (cases "redeem w gc jo env gv a g")
  case (Pair g1 r)
  then have d: "g_dispatched g1 = g_dispatched g" by (metis fst_conv redeem_frame(1))
  show thesis
  proof (cases r)
    case (Inl x)
    then show thesis using silent Pair by (simp add: try_dispatch_def)
  next
    case (Inr ba)
    obtain b a' where ba: "ba = (b, a')" by (cases ba)
    show thesis
    proof (cases "route w gc env (x_tool b) a'")
      case None
      then show thesis using silent Pair Inr ba by (simp add: try_dispatch_def Let_def)
    next
      case (Some res)
      then show thesis using dispatch Pair Inr ba d by (simp add: try_dispatch_def Let_def)
    qed
  qed
qed

text \<open>The decisive facts of the two halves when they return.\<close>

lemma evaluate_policy_of:
  assumes "Execution.evaluate w cfg clock rid facts j k (float_json w thr) a ctx s = (s', Inr (p, h))"
  shows "evaluate_policy w (g_contract cfg) facts j k thr = Inr p"
proof (cases rule: evaluate_cases' [of w cfg clock rid facts j k "float_json w thr" a ctx s])
  case (issue cj thr' p' aj sch)
  then have "p' = p"
    using assms by (cases rule: issue_step_cases [of w cfg clock "make_binding w rid facts p' cj aj sch" p' cj s]) auto
  with issue show ?thesis by (simp add: float_json_def)
next
  case (same r)
  then have "Execution.evaluate w cfg clock rid facts j k (float_json w thr) a ctx s = (s, Inr (p, h))"
    using assms by simp
  then show ?thesis
    by (auto simp: Execution.evaluate_def float_json_def issue_step_def Let_def
        split: sum.splits option.splits prod.splits if_splits)
qed

lemma case_Inr:
  "(case r of Inl x \<Rightarrow> (k x, Inl (e x)) | Inr v \<Rightarrow> f v) = (s, Inr a) \<longleftrightarrow> (\<exists>v. r = Inr v \<and> f v = (s, Inr a))"
  "(case x of (b, r) \<Rightarrow> (u b, case r of Inl z \<Rightarrow> Inl (e' z) | Inr y \<Rightarrow> h y)) = (s, Inr a)
     \<longleftrightarrow> (\<exists>b y. x = (b, Inr y) \<and> s = u b \<and> h y = Inr a)"
  "(case q of None \<Rightarrow> Inl z' | Some m \<Rightarrow> Inr (t m)) = Inr c \<longleftrightarrow> (\<exists>m. q = Some m \<and> c = t m)"
  "(case q of None \<Rightarrow> Inl z' | Some m \<Rightarrow> h' m) = Inr c \<longleftrightarrow> (\<exists>m. q = Some m \<and> h' m = Inr c)"
  by (auto split: sum.splits prod.splits option.splits)

lemma issue_authorityD:
  assumes "issue_authority w gc env ctx thr facts a sg g = (g', Inr gv)" "g_contract (gc_boundary gc) = gc_contract gc"
  shows "gv_facts gv = facts" "gv_args gv = a" "gv_signals gv = sg" "gv_threshold gv = thr"
    "evaluate_policy w (gc_contract gc) facts (sg_judge sg) (sg_k sg) thr = Inr (gv_policy gv)"
proof -
  obtain b r where ev: "Execution.evaluate w (gc_boundary gc) (c_issue_clock env) (c_request_id env) facts (sg_judge sg)
      (sg_k sg) (float_json w thr) (map_option (model_dump w) a) ctx (g_boundary g) = (b, r)"
    by fastforce
  have all: "gv_facts gv = facts \<and> gv_args gv = a \<and> gv_signals gv = sg \<and> gv_threshold gv = thr
      \<and> evaluate_policy w (gc_contract gc) facts (sg_judge sg) (sg_k sg) thr = Inr (gv_policy gv)"
  proof (cases r)
    case (Inr ph)
    obtain p h where "ph = (p, h)" by (cases ph)
    then show ?thesis
      using assms ev Inr evaluate_policy_of [of w "gc_boundary gc" _ _ facts "sg_judge sg" "sg_k sg" thr]
      by (auto simp: issue_authority_def Let_def)
  next
    case (Inl x)
    then show ?thesis
      using assms ev by (cases x) (auto simp: issue_authority_def Let_def split: sum.splits)
  qed
  then show "gv_facts gv = facts" "gv_args gv = a" "gv_signals gv = sg" "gv_threshold gv = thr"
    "evaluate_policy w (gc_contract gc) facts (sg_judge sg) (sg_k sg) thr = Inr (gv_policy gv)" by auto
qed

lemma governD:
  assumes "govern w gc jo env req p pf g = (g', Inr gv)" "g_contract (gc_boundary gc) = gc_contract gc"
  shows "gv_facts gv = call_facts w gc (require_judge (g_settings g)) req p pf" "gv_args gv = call_args w gc p"
    "semantic_signals w gc env (g_settings g) (g_denials g) (gv_facts gv) = Inr (gv_signals gv)"
    "evaluate_policy w (gc_contract gc) (gv_facts gv) (sg_judge (gv_signals gv)) (sg_k (gv_signals gv))
       (g_threshold (g_settings g)) = Inr (gv_policy gv)"
proof -
  define facts where "facts = call_facts w gc (require_judge (g_settings g)) req p pf"
  obtain g1 g2 sg st g3 g4 ctx where
    b: "with_journal jo (\<lambda>ops. j_begin ops (c_journal env ''begin'') (c_request_id env)) g = (g1, Inr ())"
    and t: "trace_record env ''proposal'' [(''user_request'', JStr req), (''proposal'', proposal_json p)] g1 = (g2, Inr ())"
    and s: "semantic_signals w gc env (g_settings g) (g_denials g2) facts = Inr sg"
    and i: "issue_authority w gc env ctx (g_threshold (g_settings g)) facts (call_args w gc p) sg (g2\<lparr>g_settings := st\<rparr>)
        = (g3, Inr gv)"
    using assms(1) unfolding govern_def Let_def obind_Inr facts_def [symmetric]
    by (auto simp: obind_Inr case_Inr)
  have "g_denials g2 = g_denials g" using frame_eq(1) [OF b] frame_eq(2) [OF t] by simp
  then show "gv_facts gv = call_facts w gc (require_judge (g_settings g)) req p pf" "gv_args gv = call_args w gc p"
    "semantic_signals w gc env (g_settings g) (g_denials g) (gv_facts gv) = Inr (gv_signals gv)"
    "evaluate_policy w (gc_contract gc) (gv_facts gv) (sg_judge (gv_signals gv)) (sg_k (gv_signals gv))
       (g_threshold (g_settings g)) = Inr (gv_policy gv)"
    using s issue_authorityD [OF i assms(2)] by (simp_all add: facts_def)
qed

text \<open>What a redeemed binding says.\<close>

lemma redeemD:
  assumes "redeem w gc jo env gv a g = (g', Inr (b, a'))"
  shows "gv_error gv = None" "x_tool b = f_tool (gv_facts gv)" "x_request_id b = c_request_id env"
    "\<exists>sch. arguments_step w (gc_boundary gc) (f_tool (gv_facts gv)) (Some (model_dump w a)) = Inr (x_arguments_json b, sch)"
    "\<exists>m. map_of (gateway_registry gc) (f_tool (gv_facts gv)) = Some m \<and> model_validate_json w m (x_arguments_json b) = Some a'"
    "\<exists>g0. with_journal jo (\<lambda>ops. j_intent ops (c_journal env ''intent'') (issued_envelope (gv_handle gv) g)) g = (g0, Inr ())
       \<and> g_journal g' = g_journal g0 \<and> (\<exists>h i. gv_handle gv = Some h \<and> map_of (b_issued (g_boundary g)) h = Some i
           \<and> b = a_binding (i_envelope i))"
proof -
  from assms have "gv_error gv = None" by (auto simp: redeem_def split: option.splits)
  with assms obtain g0 bd where
    w: "with_journal jo (\<lambda>ops. j_intent ops (c_journal env ''intent'') (issued_envelope (gv_handle gv) g)) g = (g0, Inr ())"
    and c: "consume w (gc_boundary gc) (c_consume_clock env) (gv_handle gv) (c_request_id env) (f_tool (gv_facts gv))
        (Some (model_dump w a)) (policy_context w g0) (g_boundary g0) = (bd, Inr b)"
    and j: "g_journal g' = g_journal g0"
    and m: "\<exists>m. map_of (gateway_registry gc) (x_tool b) = Some m \<and> model_validate_json w m (x_arguments_json b) = Some a'"
    by (auto simp: redeem_def obind_Inr case_Inr)
  show "gv_error gv = None" by fact
  have bd: "g_boundary g0 = g_boundary g" using frame_eq(1) [OF w] by simp
  show "x_tool b = f_tool (gv_facts gv)" "x_request_id b = c_request_id env"
    "\<exists>sch. arguments_step w (gc_boundary gc) (f_tool (gv_facts gv)) (Some (model_dump w a)) = Inr (x_arguments_json b, sch)"
    "\<exists>m. map_of (gateway_registry gc) (f_tool (gv_facts gv)) = Some m \<and> model_validate_json w m (x_arguments_json b) = Some a'"
    "\<exists>g0. with_journal jo (\<lambda>ops. j_intent ops (c_journal env ''intent'') (issued_envelope (gv_handle gv) g)) g = (g0, Inr ())
       \<and> g_journal g' = g_journal g0 \<and> (\<exists>h i. gv_handle gv = Some h \<and> map_of (b_issued (g_boundary g)) h = Some i
           \<and> b = a_binding (i_envelope i))"
    using m w j
    by (cases rule: consume_cases [of w "gc_boundary gc" "c_consume_clock env" "gv_handle gv" "c_request_id env"
          "f_tool (gv_facts gv)" "Some (model_dump w a)" "policy_context w g0" "g_boundary g0"];
        use c bd in \<open>force dest: check_envelopeD\<close>)+
qed

section \<open>Nothing is dispatched that policy does not permit\<close>

text \<open>
  What a dispatch presupposes of the facts: no denial, the narrow read grammar and nothing to review, no
  containment, and a judge, when one is required, that answered in scope and confidently.
\<close>

definition permitted :: "libs \<Rightarrow> gateway_config \<Rightarrow> 'e call_env \<Rightarrow> settings \<Rightarrow> int \<Rightarrow> policy_facts \<Rightarrow> bool" where
  "permitted w gc env st n facts \<longleftrightarrow>
     hard_reasons w (gc_contract gc) facts = [] \<and> scope_review w (gc_contract gc) facts = Inr []
     \<and> (enable_agent_k st \<longrightarrow> n < 2)
     \<and> (require_judge st \<longrightarrow> (let j = assess_judge (c_judge env) in
          available j \<and> classified j = IN_SCOPE \<and> g_threshold st \<le> confidence j \<and> flags j = []))"

lemma permittedI:
  assumes "semantic_signals w gc env st n facts = Inr sg" "semantic_required facts = require_judge st"
    and "evaluate_policy w (gc_contract gc) facts (sg_judge sg) (sg_k sg) (g_threshold st) = Inr p" "decided p = PERMIT"
  shows "permitted w gc env st n facts"
proof -
  have quiet: "hard_reasons w (gc_contract gc) facts = []" "containment_reasons (sg_k sg) = []"
    "scope_review w (gc_contract gc) facts = Inr []" "signal_review facts (sg_judge sg) (sg_k sg) (g_threshold st) = []"
    using assms(3,4)
    by (cases rule: evaluate_cases [of w "gc_contract gc" facts "sg_k sg" "sg_judge sg" "g_threshold st"]; auto)+
  have k: "enable_agent_k st \<Longrightarrow> \<exists>j. sg_k sg = inspect w (f_text facts) j n (map_of (gateway_registry gc) (f_tool facts) \<noteq> None)"
    using assms(1) by (auto simp: semantic_signals_def Let_def rbind_Inr_iff split: if_splits)
  have "enable_agent_k st \<longrightarrow> n < 2"
    using k quiet(2) by (force simp: containment_reasons_def split: if_splits)
  moreover have "require_judge st \<longrightarrow> sg_judge sg = assess_judge (c_judge env)"
    using quiet(4) assms(1,2)
    by (auto simp: semantic_signals_def Let_def rbind_Inr_iff signal_review_def JudgeSignal_def split: if_splits)
  ultimately show ?thesis
    using quiet assms(2) by (auto simp: permitted_def signal_review_def Let_def not_less split: if_splits)
qed

lemma act_cases:
  obtains (silent) "g_dispatched (fst (act w gc jo env gv l g)) = g_dispatched g"
  | (dispatch) a g1 g2 b a' where "decided (gv_policy gv) = PERMIT" "gv_args gv = Some a"
      "g_dispatched g1 = g_dispatched g" "g_boundary g1 = g_boundary g" "g_journal g1 = g_journal g"
      "redeem w gc jo env gv a g1 = (g2, Inr (b, a'))"
      "g_dispatched (fst (act w gc jo env gv l g)) = g_dispatched g @ [(c_request_id env, x_tool b, a')]"
      "g_journal (fst (act w gc jo env gv l g)) = g_journal g2"
proof (cases "decided (gv_policy gv)")
  case PERMIT
  show thesis
  proof (cases "gv_args gv")
    case (Some a)
    define t where "t = trace_record env ''execution_started'' (start_trace w gv (issued_envelope (gv_handle gv) g)) g"
    note act = act_def [of w gc jo env gv l g, unfolded PERMIT Some t_def [symmetric], simplified]
    obtain g1 r where t: "t = (g1, r)" by fastforce
    then have g1: "g_dispatched g1 = g_dispatched g" "g_boundary g1 = g_boundary g" "g_journal g1 = g_journal g"
      using frame_eq(2) unfolding t_def by metis+
    show thesis
    proof (cases r)
      case (Inl x)
      then show thesis using silent act t g1 by simp
    next
      case (Inr u)
      show thesis
      proof (cases rule: try_dispatch_cases [of w gc jo env gv a l g1])
        case (silent l' r')
        then show thesis using that(1) act t Inr g1 by (simp add: redeem_frame)
      next
        case (dispatch b a' res)
        then obtain g2 where "redeem w gc jo env gv a g1 = (g2, Inr (b, a'))" by (metis prod.collapse)
        then show thesis using that(2) [OF PERMIT Some g1] act t Inr g1 dispatch by simp
      qed
    qed
  qed (use silent in \<open>simp add: act_def PERMIT\<close>)
qed (use silent in \<open>auto simp: act_def on_deny_def Let_def\<close>)

lemma act_journal_cases:
  obtains (same) "g_journal (fst (act w gc jo env gv l g)) = g_journal g"
  | (redeemed) a g1 where "g_journal g1 = g_journal g"
      "g_journal (fst (act w gc jo env gv l g)) = g_journal (fst (redeem w gc jo env gv a g1))"
proof (cases "decided (gv_policy gv) = PERMIT \<and> gv_args gv \<noteq> None")
  case True
  then obtain a where a: "gv_args gv = Some a" "decided (gv_policy gv) = PERMIT" by auto
  define t where "t = trace_record env ''execution_started'' (start_trace w gv (issued_envelope (gv_handle gv) g)) g"
  obtain g1 r where t: "t = (g1, r)" by fastforce
  then have g1: "g_journal g1 = g_journal g" using frame_eq(2) unfolding t_def by metis
  have "g_journal (fst (try_dispatch w gc jo env gv a l g1)) = g_journal (fst (redeem w gc jo env gv a g1))"
    by (cases rule: try_dispatch_cases [of w gc jo env gv a l g1]) simp_all
  then show thesis
    using same redeemed [OF g1, of a] a t g1
    by (cases r) (auto simp: act_def t_def [symmetric] split_beta)
next
  case False
  then show thesis using same by (auto simp: act_def on_deny_def Let_def split: decision.splits option.splits)
qed

lemma finish_call_frame [frame_simps]:
  "g_dispatched (fst (finish_call jo env l g)) = g_dispatched g" "g_denials (fst (finish_call jo env l g)) = g_denials g"
  "g_settings (fst (finish_call jo env l g)) = g_settings g"
  by (simp_all add: finish_call_def split: option.splits prod.splits sum.splits)

lemma admit_denials_frame [frame_simps]:
  "g_dispatched (fst (admit_denials jo env g)) = g_dispatched g" "g_settings (fst (admit_denials jo env g)) = g_settings g"
  "g_boundary (fst (admit_denials jo env g)) = g_boundary g"
  by (simp_all add: admit_denials_def split: option.splits prod.splits sum.splits)

lemma close_keeps:
  assumes "P (fst x)" "\<And>l s. P s \<Longrightarrow> P (fst (finish_call jo env l s))" "\<And>st ev s. P s \<Longrightarrow> P (fst (trace_record env st ev s))"
  shows "P (fst (obind x (\<lambda>l g. obind (finish_call jo env l g) (\<lambda>v g.
           obind (trace_record env ''completed'' (completed_trace w l v) g) (\<lambda>_ g. (g, Inr v))))))"
proof -
  note keep = obind_keep [where P = P]
  show ?thesis by (rule keep assms | assumption | simp only: fst_conv)+
qed

text \<open>How a call dispatches, if it does.\<close>

lemma call_cases:
  obtains (silent) "g_dispatched (fst (call w gc jo env req p pf g)) = g_dispatched g"
  | (dispatch) g0 g1 gv a g2 g3 b a' where "admit_denials jo env g = (g0, Inr ())"
      "govern w gc jo env req p pf g0 = (g1, Inr gv)" "decided (gv_policy gv) = PERMIT" "gv_args gv = Some a"
      "g_journal g2 = g_journal g1" "redeem w gc jo env gv a g2 = (g3, Inr (b, a'))"
      "g_journal (fst (act w gc jo env gv (start_locals env p gv) g1)) = g_journal g3"
      "g_dispatched (fst (call w gc jo env req p pf g)) = g_dispatched g @ [(c_request_id env, x_tool b, a')]"
proof -
  let ?tail = "\<lambda>g0. fst (call_inner w gc jo env req p pf g0)"
  have call: "g_dispatched (fst (call w gc jo env req p pf g)) =
      (case admit_denials jo env g of (g0, Inl x) \<Rightarrow> g_dispatched g | (g0, Inr u) \<Rightarrow> g_dispatched (?tail g0))"
    using admit_denials_frame(1) [of jo env g]
    by (auto simp: call_def obind_def split: prod.splits sum.splits option.splits)
  show thesis
  proof (cases "admit_denials jo env g")
    case (Pair g0 r)
    with admit_denials_frame(1) [of jo env g] have d0: "g_dispatched g0 = g_dispatched g" by simp
    show thesis
    proof (cases r)
      case (Inl x)
      then show thesis using silent call Pair by simp
    next
      case (Inr u)
      show thesis
      proof (cases "govern w gc jo env req p pf g0")
        case gov: (Pair g1 s)
        with govern_frame(1) [of w gc jo env req p pf g0] have d1: "g_dispatched g1 = g_dispatched g0" by simp
        show thesis
        proof (cases s)
          case (Inl x)
          then show thesis using silent call Pair Inr gov d0 d1 by (simp add: call_inner_def)
        next
          case gv: (Inr gv)
          have rest: "g_dispatched (?tail g0) = g_dispatched (fst (act w gc jo env gv (start_locals env p gv) g1))"
            unfolding call_inner_def gov gv obind_simps
            by (rule close_keeps [where P = "\<lambda>s. g_dispatched s = g_dispatched (fst (act w gc jo env gv (start_locals env p gv) g1))"])
               (simp_all add: frame_simps)
          show thesis
          proof (cases rule: act_cases [of w gc jo env gv "start_locals env p gv" g1])
            case silent
            then show thesis using that(1) call Pair Inr rest d0 d1 by simp
          next
            case (dispatch a g2 g3 b a')
            then show thesis using that(2) [of g0 g1 gv a g2 g3 b a'] call Pair Inr gov gv rest d0 d1 by simp
          qed
        qed
      qed
    qed
  qed
qed

lemma dispatch_permitted:
  assumes "g_contract (gc_boundary gc) = gc_contract gc"
  shows "g_dispatched (fst (call w gc jo env req p pf g)) = g_dispatched g
    \<or> (\<exists>a'. g_dispatched (fst (call w gc jo env req p pf g)) = g_dispatched g @ [(c_request_id env, p_tool p, a')]
         \<and> permitted w gc env (g_settings g) (g_denials (fst (admit_denials jo env g)))
             (call_facts w gc (require_judge (g_settings g)) req p pf)
         \<and> (\<exists>a m aj sch. call_args w gc p = Some a
              \<and> arguments_step w (gc_boundary gc) (p_tool p) (Some (model_dump w a)) = Inr (aj, sch)
              \<and> map_of (gateway_registry gc) (p_tool p) = Some m \<and> model_validate_json w m aj = Some a'))"
proof (cases rule: call_cases [of w gc jo env req p pf g])
  case (dispatch g0 g1 gv a g2 g3 b a')
  note gv = governD [OF dispatch(2) assms] and r = redeemD [OF dispatch(6)]
  have st: "g_settings g0 = g_settings g" using admit_denials_frame(2) [of jo env g] dispatch(1) by simp
  have facts: "f_tool (gv_facts gv) = p_tool p" "semantic_required (gv_facts gv) = require_judge (g_settings g)"
    by (simp_all add: gv(1) st call_facts_def PolicyFacts_def)
  have "permitted w gc env (g_settings g) (g_denials g0) (gv_facts gv)"
    using permittedI [OF gv(3)] facts gv(4) dispatch(3) st by simp
  moreover have "call_args w gc p = Some a" "x_tool b = p_tool p" using gv(2) dispatch(4) r(2) facts(1) by simp_all
  ultimately show ?thesis using gv(1) r(4,5) dispatch(1,8) facts(1) st by (simp, metis)
qed simp

section \<open>The journal through a call\<close>

lemma with_journal_keeps:
  "P (g_journal g) \<Longrightarrow> (\<And>ops j. jo = Some ops \<Longrightarrow> P j \<Longrightarrow> P (fst (f ops j))) \<Longrightarrow> P (g_journal (fst (with_journal jo f g)))"
  by (force simp: with_journal_def split: option.splits prod.splits)

lemma call_tail_keeps:
  assumes "admit_denials jo env g = (g0, Inr ())" "govern w gc jo env req p pf g0 = (g1, Inr gv)"
    and "P (g_journal (fst (act w gc jo env gv (start_locals env p gv) g1)))"
    and "\<And>ops v n fe j. jo = Some ops \<Longrightarrow> P j \<Longrightarrow> P (fst (fst (j_finish ops (c_journal env ''finish'') v n fe j)))"
    and "\<And>ops x j. jo = Some ops \<Longrightarrow> P j \<Longrightarrow> P (j_failed ops (c_journal env ''failed'') x j)"
  shows "P (g_journal (fst (call w gc jo env req p pf g)))"
proof -
  have "P (g_journal (fst (finish_call jo env l s)))" if "P (g_journal s)" for l s
  proof (cases jo)
    case (Some ops)
    from assms(4) [OF Some that, of "lo_envelope l" "g_denials s" "evidence_of l"] show ?thesis
      by (simp add: finish_call_def Some split_beta)
  qed (simp add: finish_call_def that)
  then have "P (g_journal (fst (call_inner w gc jo env req p pf g0)))"
    unfolding call_inner_def assms(2) obind_simps
    by (intro close_keeps [where P = "\<lambda>s. P (g_journal s)"]) (simp_all add: assms(3) frame_simps)
  then show ?thesis
    using assms(1,5) by (auto simp: call_def split: prod.splits sum.splits option.splits)
qed

end
