(* ===== verification/GatewaySafety.thy ===== *)
theory GatewaySafety
  imports Gateway LocalJournal
begin

text \<open>
  The gateway with a journal: what any provider of \<open>dispatch_journal\<close> gives a run of calls, and the
  properties of the gateway over the local journal and without one.
\<close>

section \<open>What the returned envelope says\<close>

text \<open>
  A released result is verified: there was a backend call, its provenance names the configured source and
  counts the records, and the result is those records or the exact account of their total.
\<close>

definition released_ok :: "gateway_config \<Rightarrow> envelope \<Rightarrow> bool" where
  "released_ok gc v \<longleftrightarrow> (case e_result v of None \<Rightarrow> True
     | Some r \<Rightarrow> tool_executed v \<and> verification v = RESULT_VERIFIED \<and> e_status v \<in> {OK, CLARIFICATION_REQUIRED}
         \<and> (\<exists>prov rows. e_provenance v = Some prov \<and> records_returned prov = int (length rows) \<and> length rows \<le> 100
              \<and> source_type prov = (if fixture (gc_adapter gc) then ''SYNTHETIC_TEST_FIXTURE'' else ''PUBLIC_GOVERNMENT_API'')
              \<and> (r = JObj [(''records'', JList rows)]
                 \<or> (\<exists>t. total_of (Fin False 0 0) rows = Inr t \<and> r = summary_json rows t))))"

lemma apply_attempt_summary_frame [simp]:
  "e_result (apply_attempt_summary ats m c v) = e_result v" "tool_executed (apply_attempt_summary ats m c v) = tool_executed v"
  by (simp_all add: apply_attempt_summary_def Let_def)

lemma set_validation_state_frame [simp]:
  "e_result (set_validation_state c v) = e_result v" "tool_executed (set_validation_state c v) = tool_executed v"
  by (simp_all add: set_validation_state_def)

lemma post_evaluate_frame:
  "post_evaluate w gc gv c v = Inr v' \<Longrightarrow> v' = v\<lparr>e_decision := e_decision v', e_policy_reasons := e_policy_reasons v'\<rparr>"
  "post_evaluate w gc gv c v = Inl x \<Longrightarrow> \<exists>e. x = OtherError e"
  by (auto simp: post_evaluate_def split: sum.splits)

lemma release_cases:
  obtains (refused) l' x where "release gc env tool a br l = (l', Inl x)" "tool_executed (lo_envelope l') = tool_executed (lo_envelope l)"
      "\<And>c. x \<noteq> Raised (BoundaryError c)"
  | (ok) l' b where "release gc env tool a br l = (l', Inr b)" "tool_executed (lo_envelope l') = tool_executed (lo_envelope l)"
      "e_result (lo_envelope l') = Some (JObj [(''records'', JList (d_records b))])" "e_provenance (lo_envelope l') = Some (d_provenance b)"
      "e_status (lo_envelope l') = OK" "verification (lo_envelope l') = RESULT_VERIFIED"
      "records_returned (d_provenance b) = int (length (d_records b))" "length (d_records b) \<le> 100"
      "source_type (d_provenance b) = (if fixture (gc_adapter gc) then ''SYNTHETIC_TEST_FIXTURE'' else ''PUBLIC_GOVERNMENT_API'')"
proof -
  obtain b out where br: "br = (b, out)" by (cases br)
  obtain l' r where r: "release gc env tool a br l = (l', r)" by fastforce
  show thesis
    using r that unfolding br release_def Let_def
    by (auto simp: batch_ok_def split: if_splits option.splits)
qed

lemma conclude_cases:
  obtains (raised) l' e where "conclude w gc gv tool a b l = (l', Inl (Raised (OtherError e)))"
      "tool_executed (lo_envelope l') = tool_executed (lo_envelope l)"
  | (settled) v where "conclude w gc gv tool a b l = (l\<lparr>lo_envelope := v\<rparr>, Inr ())"
      "tool_executed v = tool_executed (lo_envelope l)" "e_provenance v = e_provenance (lo_envelope l)"
      "verification v = verification (lo_envelope l)" "e_status v \<in> {e_status (lo_envelope l), CLARIFICATION_REQUIRED}"
      "e_result v = e_result (lo_envelope l)
       \<or> (\<exists>t. total_of (Fin False 0 0) (d_records b) = Inr t \<and> e_result v = Some (summary_json (d_records b) t))"
proof (cases "recipient_review a b")
  case None
  show thesis
  proof (cases "tool = ''summarize_federal_spending''")
    case True
    then show thesis
      using None that(1) [of l] that(2) [of "(lo_envelope l)\<lparr>e_result := Some (summary_json (d_records b) t), e_next := ACT_NONE\<rparr>" for t]
      by (cases "total_of (Fin False 0 0) (d_records b)") (simp_all add: conclude_def Let_def)
  next
    case False
    then show thesis using None that(2) [of "(lo_envelope l)\<lparr>e_next := ACT_NONE\<rparr>"] by (simp add: conclude_def Let_def)
  qed
next
  case (Some rs)
  obtain reason say where rs: "rs = (reason, say)" by (cases rs)
  define v1 where "v1 = (lo_envelope l)\<lparr>clarification := Some say, e_next := HUMAN_REVIEW_REQUIRED\<rparr>"
  show thesis
  proof (cases "post_evaluate w gc gv reason v1")
    case (Inl x)
    then show thesis using post_evaluate_frame(2) [OF Inl] that(1) Some rs by (auto simp: conclude_def Let_def v1_def)
  next
    case (Inr v2)
    have v2: "tool_executed v2 = tool_executed v1" "e_provenance v2 = e_provenance v1" "verification v2 = verification v1"
      "e_result v2 = e_result v1"
      by (subst post_evaluate_frame(1) [OF Inr], simp)+
    show thesis
      by (rule that(2) [of "v2\<lparr>e_status := CLARIFICATION_REQUIRED\<rparr>"])
         (use Some rs Inr v2 in \<open>simp_all add: conclude_def Let_def v1_def\<close>)
  qed
qed

text \<open>The \<open>try\<close> block: what it leaves in the envelope, by whether the backend was called.\<close>

definition try_post :: "gateway_config \<Rightarrow> bool \<Rightarrow> (locals, raised, unit) outcome \<Rightarrow> bool" where
  "try_post gc called res \<longleftrightarrow> tool_executed (lo_envelope (fst res)) = called
     \<and> (\<forall>c. snd res = Inl (Raised (BoundaryError c)) \<longrightarrow> e_result (lo_envelope (fst res)) = None)
     \<and> (snd res = Inr () \<longrightarrow> released_ok gc (lo_envelope (fst res)))"

lemma route_no_boundary_error: "raised_by x \<noteq> Raised (BoundaryError c)"
  by (cases x) auto

lemma try_dispatch_post:
  assumes "\<not> tool_executed (lo_envelope l)" "e_result (lo_envelope l) = None"
  shows "try_post gc (g_dispatched (fst (try_dispatch w gc jo env gv a l g)) \<noteq> g_dispatched g)
           (snd (try_dispatch w gc jo env gv a l g))"
proof -
  obtain g1 r where red: "redeem w gc jo env gv a g = (g1, r)" by fastforce
  have d: "g_dispatched g1 = g_dispatched g" using redeem_frame(1) [of w gc jo env gv a g] red by simp
  show ?thesis
  proof (cases r)
    case (Inl x)
    then show ?thesis using red d assms by (auto simp: try_dispatch_def try_post_def)
  next
    case (Inr ba)
    obtain b a' where ba: "ba = (b, a')" by (cases ba)
    show ?thesis
    proof (cases "route w gc env (x_tool b) a'")
      case None
      then show ?thesis using red d assms Inr ba by (auto simp: try_dispatch_def try_post_def Let_def)
    next
      case (Some res)
      define l2 where "l2 = l\<lparr>lo_pre := ''PASS'', lo_envelope := (lo_envelope l)\<lparr>tool_executed := True\<rparr>\<rparr>"
      have l2: "tool_executed (lo_envelope l2)" by (simp add: l2_def)
      have "try_post gc True (case res of Inl x \<Rightarrow> (l2, Inl (raised_by x))
          | Inr br \<Rightarrow> obind (release gc env (x_tool b) a' br l2) (\<lambda>b' l3. conclude w gc gv (x_tool b) a' b' l3))"
      proof (cases res)
        case (Inl x)
        then show ?thesis using l2 route_no_boundary_error by (auto simp: try_post_def)
      next
        case (Inr br)
        show ?thesis
        proof (cases rule: release_cases [of gc env "x_tool b" a' br l2])
          case (refused l' x)
          then show ?thesis using Inr l2 by (auto simp: try_post_def)
        next
          case (ok l' b')
          show ?thesis
          proof (cases rule: conclude_cases [of w gc gv "x_tool b" a' b' l'])
            case (raised l'' e)
            then show ?thesis using Inr l2 ok by (auto simp: try_post_def)
          next
            case (settled v)
            then have "released_ok gc v"
              using ok l2 by (auto simp: released_ok_def intro!: exI [where x = "d_records b'"])
            then show ?thesis using settled Inr l2 ok by (simp add: try_post_def)
          qed
        qed
      qed
      then show ?thesis unfolding l2_def using red d Inr ba Some by (simp add: try_dispatch_def Let_def)
    qed
  qed
qed

lemma handle_post:
  assumes "try_post gc called res" "handle w gc gv res = (l', Inr ())"
  shows "tool_executed (lo_envelope l') = called \<and> released_ok gc (lo_envelope l')"
proof -
  obtain l r where res: "res = (l, r)" by (cases res)
  have none: "e_result v = None \<Longrightarrow> released_ok gc v" for v by (simp add: released_ok_def)
  have post: "post_evaluate w gc gv c v = Inr v' \<Longrightarrow> tool_executed v' = tool_executed v \<and> e_result v' = e_result v" for c v v'
    by (subst (1 2) post_evaluate_frame(1) [where v' = v' and v = v]) simp_all
  show ?thesis
  proof (cases r)
    case (Inr u)
    then have "res = (l, Inr ())" using res by simp
    then show ?thesis using assms by (simp add: handle_def try_post_def)
  next
    case (Inl x)
    show ?thesis
    proof (cases x)
      case (RaisedAdapter y)
      have "tool_executed (lo_envelope l') = tool_executed (lo_envelope l) \<and> e_result (lo_envelope l') = None"
        using assms(2) unfolding res Inl RaisedAdapter
        by (auto simp: handle_def on_adapter_error_def Let_def split: if_splits sum.splits dest!: post)
      then show ?thesis using assms(1) none by (simp add: res try_post_def)
    next
      case (Raised y)
      show ?thesis
      proof (cases y)
        case (BoundaryError c)
        then show ?thesis using assms Inl Raised none by (auto simp: res handle_def on_boundary_error_def try_post_def)
      next
        case (OtherError c)
        have "tool_executed (lo_envelope l') = tool_executed (lo_envelope l) \<and> e_result (lo_envelope l') = None"
          using assms(2) unfolding res Inl Raised OtherError
          by (auto simp: handle_def on_malformed_def Let_def split: if_splits sum.splits dest!: post)
        then show ?thesis using assms(1) none by (simp add: res try_post_def)
      next
        case (LocalHold c)
        then show ?thesis using assms(2) Inl Raised by (simp add: res handle_def)
      qed
    qed
  qed
qed

lemma act_post:
  assumes "act w gc jo env gv (start_locals env p gv) g = (g', Inr l')"
  shows "tool_executed (lo_envelope l') = (g_dispatched g' \<noteq> g_dispatched g) \<and> released_ok gc (lo_envelope l')"
proof -
  let ?l = "start_locals env p gv"
  have start: "\<not> tool_executed (lo_envelope ?l)" "e_result (lo_envelope ?l) = None"
    by (simp_all add: start_locals_def new_envelope_def)
  show ?thesis
  proof (cases "decided (gv_policy gv) = PERMIT \<and> gv_args gv \<noteq> None")
    case True
    then obtain a where a: "gv_args gv = Some a" "decided (gv_policy gv) = PERMIT" by auto
    define t where "t = trace_record env ''execution_started'' (start_trace w gv (issued_envelope (gv_handle gv) g)) g"
    obtain g1 r where t: "t = (g1, r)" by fastforce
    then have g1: "g_dispatched g1 = g_dispatched g" using frame_eq(2) unfolding t_def by metis
    obtain g2 res where td: "try_dispatch w gc jo env gv a ?l g1 = (g2, res)" by (rule prod.exhaust)
    have "r = Inr ()" "g' = g2" "handle w gc gv res = (l', Inr ())"
      using assms a t td by (cases r; auto simp: act_def t_def [symmetric] split: prod.splits sum.splits)+
    with try_dispatch_post [OF start, of gc w jo env gv a g1] handle_post [of gc _ res w gv l'] td g1
    show ?thesis by auto
  next
    case False
    then show ?thesis
      using assms start
      by (cases "decided (gv_policy gv)"; cases "gv_args gv")
         (auto simp: act_def on_deny_def on_review_def released_ok_def Let_def split: if_splits)
  qed
qed

lemma settle_envelope_frame:
  "tool_executed (settle_envelope v fe) = tool_executed v" "released_ok gc v \<Longrightarrow> released_ok gc (settle_envelope v fe)"
  "e_dispatch (settle_envelope v fe) = e_dispatch v" "e_response (settle_envelope v fe) = e_response v"
  "metadata_available (settle_envelope v fe) = metadata_available v"
  by (simp_all add: settle_envelope_def hold_envelope_def released_ok_def)

lemma call_inner_result:
  "(case x of (g1, Inl e) \<Rightarrow> (k g1 e, Inl e) | (g1, Inr v) \<Rightarrow> (g1, Inr v)) = (s, Inr a) \<Longrightarrow> x = (s, Inr a)"
  by (auto split: prod.splits sum.splits)

text \<open>A call that returns: what happened, in terms of the journal's \<open>finish\<close>.\<close>

lemma returned_call:
  assumes "call w gc jo env req p pf g = (g', Inr v)"
  obtains l g1 g2 where "g_dispatched g2 = g_dispatched g1" "g_dispatched g' = g_dispatched g2"
    "tool_executed (lo_envelope l) = (g_dispatched g1 \<noteq> g_dispatched g)" "released_ok gc (lo_envelope l)"
    "finish_call jo env l g1 = (g2, Inr v)" "g_journal g' = g_journal g2"
proof -
  obtain g0 gv ga l g1 g2 where
    a: "admit_denials jo env g = (g0, Inr ())" and b: "govern w gc jo env req p pf g0 = (ga, Inr gv)"
    and c: "act w gc jo env gv (start_locals env p gv) ga = (g1, Inr l)" and d: "finish_call jo env l g1 = (g2, Inr v)"
    and e: "trace_record env ''completed'' (completed_trace w l v) g2 = (g', Inr ())"
  proof -
    obtain g0 where a: "admit_denials jo env g = (g0, Inr ())" and "call_inner w gc jo env req p pf g0 = (g', Inr v)"
      using assms unfolding call_def obind_Inr by (auto dest!: call_inner_result)
    then show thesis using that by (auto simp: call_inner_def obind_Inr)
  qed
  have fr: "g_dispatched g0 = g_dispatched g" "g_dispatched ga = g_dispatched g0" "g_dispatched g2 = g_dispatched g1"
    using admit_denials_frame(1) [of jo env g] govern_frame(1) [of w gc jo env req p pf g0] finish_call_frame(1) [of jo env l g1]
      a b d by simp_all
  show thesis
    using that [of g2 g1 l] fr act_post [OF c] d frame_eq(2) [OF e] by simp
qed

section \<open>Runs of calls\<close>

definition calls ::
    "libs \<Rightarrow> gateway_config \<Rightarrow> ('j, 'e) journal_ops option \<Rightarrow> ('e call_env \<times> string \<times> proposal \<times> bool) list
       \<Rightarrow> 'j gateway \<Rightarrow> 'j gateway" where
  "calls w gc jo xs g = foldl (\<lambda>g (env, req, p, pf). fst (call w gc jo env req p pf g)) g xs"

lemma calls_simps [simp]:
  "calls w gc jo [] g = g"
  "calls w gc jo ((env, req, p, pf) # xs) g = calls w gc jo xs (fst (call w gc jo env req p pf g))"
  by (simp_all add: calls_def)

lemma calls_inv:
  assumes "\<And>env req p pf g. P g \<Longrightarrow> P (fst (call w gc jo env req p pf g))" "P g"
  shows "P (calls w gc jo xs g)"
  using assms(2) by (induction xs arbitrary: g) (auto simp del: fst_conv, use assms(1) in blast)

context dispatch_journal
begin

text \<open>A held journal ends every call before anything happens.\<close>

lemma held_call:
  assumes "held (g_journal g)"
  shows "g_dispatched (fst (call w gc (Some ops) env req p pf g)) = g_dispatched g
    \<and> held (g_journal (fst (call w gc (Some ops) env req p pf g))) \<and> \<not> is_ok (snd (call w gc (Some ops) env req p pf g))"
proof -
  obtain x where x: "snd (j_admit ops (c_journal env ''admit'') (g_journal g)) = Inl x"
    using held_never_admits [OF assms] by blast
  have "held (fst (j_admit ops (c_journal env ''admit'') (g_journal g)))" by (rule admit_held [OF assms])
  then show ?thesis
    using x by (auto simp: call_def admit_denials_def split: prod.splits)
qed

text \<open>An exception past admission leaves the journal held; so does an outcome that is not known.\<close>

lemma raised_call_held:
  assumes "snd (call w gc (Some ops) env req p pf g) = Inl x" "snd (j_admit ops (c_journal env ''admit'') (g_journal g)) = Inr n"
  shows "held (g_journal (fst (call w gc (Some ops) env req p pf g)))"
  using assms failed_held
  by (auto simp: call_def admit_denials_def split: prod.splits sum.splits)

lemma admitted_recorded:
  assumes "recorded (g_journal g) r"
  shows "recorded (g_journal (fst (admit_denials (Some ops) env g))) r"
  using recorded_kept(1) [OF assms] by (simp add: admit_denials_def split_beta split: sum.split)

lemma governed_recorded:
  assumes "recorded (g_journal g) r"
  shows "recorded (g_journal (fst (govern w gc (Some ops) env req p pf g))) r"
  by (rule govern_keeps [where P = "\<lambda>s. recorded (g_journal s) r"])
     (auto simp: frame_simps assms intro!: with_journal_keeps [where P = "\<lambda>j. recorded j r"] recorded_kept)

lemma redeemed_recorded:
  assumes "recorded (g_journal g) r"
  shows "recorded (g_journal (fst (redeem w gc (Some ops) env gv a g))) r"
proof (cases "gv_error gv")
  case None
  show ?thesis
    unfolding redeem_def None option.case
    by (rule obind_keep [where P = "\<lambda>s. recorded (g_journal s) r"])
       (auto simp: split_beta intro!: with_journal_keeps [where P = "\<lambda>j. recorded j r"] recorded_kept assms)
qed (simp add: redeem_def assms)

lemma redeemed_intent:
  assumes "redeem w gc (Some ops) env gv a g = (g', Inr (b, a'))"
  shows "recorded (g_journal g') (c_request_id env)"
proof -
  obtain g0 h i where i: "with_journal (Some ops) (\<lambda>ops. j_intent ops (c_journal env ''intent'')
        (issued_envelope (gv_handle gv) g)) g = (g0, Inr ())" "g_journal g' = g_journal g0"
    "gv_handle gv = Some h" "map_of (b_issued (g_boundary g)) h = Some i" "b = a_binding (i_envelope i)"
    using redeemD(6) [OF assms] by blast
  have env: "issued_envelope (gv_handle gv) g = Some (i_envelope i)" by (simp add: issued_envelope_def i(3,4))
  obtain j where "j_intent ops (c_journal env ''intent'') (Some (i_envelope i)) (g_journal g) = (j, Inr ())" "g_journal g0 = j"
    using i(1) by (auto simp: with_journal_def env split: prod.splits)
  with intent_recorded [of "c_journal env ''intent''" "Some (i_envelope i)" "g_journal g"] show ?thesis
    using i(2,5) redeemD(3) [OF assms] by auto
qed

lemma call_keeps_recorded:
  assumes "recorded (g_journal g) r"
  shows "recorded (g_journal (fst (call w gc (Some ops) env req p pf g))) r"
proof -
  have act: "recorded (g_journal (fst (act w gc (Some ops) env gv l s))) r" if "recorded (g_journal s) r" for gv l s
    by (cases rule: act_journal_cases [of w gc "Some ops" env gv l s])
       (use that redeemed_recorded in auto)
  have inner: "recorded (g_journal (fst (call_inner w gc (Some ops) env req p pf s))) r" if "recorded (g_journal s) r" for s
  proof (cases "govern w gc (Some ops) env req p pf s")
    case (Pair s1 x)
    have s1: "recorded (g_journal s1) r" using governed_recorded [OF that, of w gc env req p pf] Pair by simp
    show ?thesis
      by (cases x; simp add: call_inner_def Pair s1)
         (intro close_keeps [where P = "\<lambda>s. recorded (g_journal s) r"],
          auto simp: act s1 frame_simps finish_call_def split_beta recorded_kept split: sum.split)
  qed
  show ?thesis
    using admitted_recorded [OF assms, of env] inner recorded_kept(6)
    by (auto simp: call_def split: prod.splits sum.splits intro!: obind_inv [where P = "\<lambda>s. recorded (g_journal s) r"])
       (metis fst_conv)+
qed

lemma call_dispatch_recorded:
  assumes "\<And>r t a. (r, t, a) \<in> set (g_dispatched g) \<Longrightarrow> recorded (g_journal g) r"
    and "(r, t, a) \<in> set (g_dispatched (fst (call w gc (Some ops) env req p pf g)))"
  shows "recorded (g_journal (fst (call w gc (Some ops) env req p pf g))) r"
proof (cases "(r, t, a) \<in> set (g_dispatched g)")
  case True
  then show ?thesis using assms(1) call_keeps_recorded by blast
next
  case False
  then show ?thesis
  proof (cases rule: call_cases [of w gc "Some ops" env req p pf g])
    case (dispatch g0 g1 gv x g2 g3 b a')
    then have r: "r = c_request_id env" using False assms(2) by simp
    have "recorded (g_journal (fst (act w gc (Some ops) env gv (start_locals env p gv) g1))) r"
      using redeemed_intent [OF dispatch(6)] dispatch(7) r by simp
    then show ?thesis
      by (intro call_tail_keeps [OF dispatch(1,2), where P = "\<lambda>j. recorded j r"]) (auto intro: recorded_kept)
  qed (use assms(2) in simp)
qed

text \<open>Over runs: every backend call has its intent on record, and a held journal ends them all.\<close>

lemma calls_dispatch_recorded:
  "list_all (\<lambda>(r, t, a). recorded (g_journal (calls w gc (Some ops) xs (g\<lparr>g_dispatched := []\<rparr>))) r)
     (g_dispatched (calls w gc (Some ops) xs (g\<lparr>g_dispatched := []\<rparr>)))"
proof -
  define P where "P s \<longleftrightarrow> (\<forall>r t a. (r, t, a) \<in> set (g_dispatched s) \<longrightarrow> recorded (g_journal s) r)" for s :: "'j gateway"
  have "P (calls w gc (Some ops) xs (g\<lparr>g_dispatched := []\<rparr>))"
  proof (rule calls_inv [where P = P])
    show "P s \<Longrightarrow> P (fst (call w gc (Some ops) env req p pf s))" for env req p pf s
      unfolding P_def using call_dispatch_recorded [where w = w and g = s] by blast
  qed (simp add: P_def)
  then show ?thesis by (auto simp: P_def list_all_iff)
qed

lemma held_calls:
  "held (g_journal g) \<Longrightarrow> g_dispatched (calls w gc (Some ops) xs g) = g_dispatched g
     \<and> held (g_journal (calls w gc (Some ops) xs g))"
proof (induction xs arbitrary: g)
  case (Cons x xs)
  obtain env req p pf where x: "x = (env, req, p, pf)" by (cases x)
  from held_call [OF Cons.prems, where w = w and gc = gc and env = env and req = req and p = p and pf = pf]
  show ?case using Cons.IH [of "fst (call w gc (Some ops) env req p pf g)"] by (simp add: x)
qed simp

end

lemma finish_settles_local:
  "finish_call (if b then Some (local_ops w) else None) env l g1 = (g2, Inr v) \<Longrightarrow>
     \<exists>fe. v = lo_envelope l \<or> v = settle_envelope (lo_envelope l) fe"
  using finish_envelope [of w "c_journal env ''finish''" "lo_envelope l" "g_denials g1" "evidence_of l" "g_journal g1"]
  by (auto simp: finish_call_def local_ops_def split: if_splits prod.splits sum.splits)

text \<open>
  The envelope tells the truth about execution: a call that returns, with the local journal or without
  one, says that the tool was executed exactly when it called the backend.
\<close>

theorem tool_executed_truthful:
  "case call w gc (if b then Some (local_ops w) else None) env req p pf g of
     (g', Inl x) \<Rightarrow> True
   | (g', Inr v) \<Rightarrow> tool_executed v = (g_dispatched g' \<noteq> g_dispatched g)"
proof (cases "call w gc (if b then Some (local_ops w) else None) env req p pf g")
  case (Pair g' r)
  show ?thesis
  proof (cases r)
    case (Inr v)
    with Pair have c: "call w gc (if b then Some (local_ops w) else None) env req p pf g = (g', Inr v)" by simp
    show ?thesis
      by (rule returned_call [OF c]) (use Pair Inr in \<open>auto simp: settle_envelope_frame dest!: finish_settles_local\<close>)
  qed (simp add: Pair)
qed

text \<open>
  C14. A released result is a verified one: when a returned envelope carries a result, a backend was called,
  the state is RESULT\_VERIFIED, the provenance names the configured source and counts at most a hundred
  records, and the result is those records or the total of their amounts.
\<close>

theorem released_result_verified:
  "case call w gc (if b then Some (local_ops w) else None) env req p pf g of
     (g', Inl x) \<Rightarrow> True | (g', Inr v) \<Rightarrow> released_ok gc v"
proof (cases "call w gc (if b then Some (local_ops w) else None) env req p pf g")
  case (Pair g' r)
  show ?thesis
  proof (cases r)
    case (Inr v)
    with Pair have c: "call w gc (if b then Some (local_ops w) else None) env req p pf g = (g', Inr v)" by simp
    show ?thesis
      by (rule returned_call [OF c]) (use Pair Inr in \<open>auto simp: settle_envelope_frame dest!: finish_settles_local\<close>)
  qed (simp add: Pair)
qed

text \<open>
  C4. Evidence comes before effect: over any run of calls on a local journal, every backend call made
  belongs to a request whose intent the journal recorded.
\<close>

theorem every_dispatch_intended:
  "list_all (\<lambda>(r, t, a). intent_recorded (g_journal (calls w gc (Some (local_ops w)) xs (g\<lparr>g_dispatched := []\<rparr>))) r)
     (g_dispatched (calls w gc (Some (local_ops w)) xs (g\<lparr>g_dispatched := []\<rparr>)))"
  by (rule local.calls_dispatch_recorded)

text \<open>
  C5. A failure is final: when an admitted call lets an exception out, the local journal is held, and no
  later call of any kind reaches the backend.
\<close>

theorem raised_call_is_final:
  assumes "snd (call w gc (Some (local_ops w)) env req p pf g) = Inl x"
    and "snd (admit (c_journal env ''admit'') (g_journal g)) = Inr n"
  shows "l_held (g_journal (calls w gc (Some (local_ops w)) xs (fst (call w gc (Some (local_ops w)) env req p pf g))))
    \<and> g_dispatched (calls w gc (Some (local_ops w)) xs (fst (call w gc (Some (local_ops w)) env req p pf g)))
      = g_dispatched (fst (call w gc (Some (local_ops w)) env req p pf g))"
proof -
  have "l_held (g_journal (fst (call w gc (Some (local_ops w)) env req p pf g)))"
    by (rule local.raised_call_held [OF assms(1)]) (use assms(2) in \<open>simp add: local_ops_def\<close>)
  then show ?thesis using local.held_calls by blast
qed

text \<open>
  C1. Nothing is dispatched that policy does not permit: a call makes at most one backend call, for the
  tool proposed, and then only when no tripwire, contract, tool or input check denies, the request is a
  plain read with nothing to review, no containment is in force, a required judge answered in scope and
  confidently, and the arguments are the proposal's own, normalised and bound before dispatch.
\<close>

theorem dispatch_only_permitted:
  assumes "g_contract (gc_boundary gc) = gc_contract gc"
  shows "g_dispatched (fst (call w gc jo env req p pf g)) = g_dispatched g
    \<or> (\<exists>a'. g_dispatched (fst (call w gc jo env req p pf g)) = g_dispatched g @ [(c_request_id env, p_tool p, a')]
         \<and> permitted w gc env (g_settings g) (g_denials (fst (admit_denials jo env g)))
             (call_facts w gc (require_judge (g_settings g)) req p pf)
         \<and> (\<exists>a m aj sch. call_args w gc p = Some a
              \<and> arguments_step w (gc_boundary gc) (p_tool p) (Some (model_dump w a)) = Inr (aj, sch)
              \<and> map_of (gateway_registry gc) (p_tool p) = Some m \<and> model_validate_json w m aj = Some a'))"
  by (rule dispatch_permitted [OF assms])

section \<open>Containment without a journal\<close>

lemma act_denials: "g_denials g \<le> g_denials (fst (act w gc jo env gv l g)) \<and> g_settings (fst (act w gc jo env gv l g)) = g_settings g"
proof (cases "decided (gv_policy gv) = PERMIT \<and> gv_args gv \<noteq> None")
  case True
  then obtain a where a: "gv_args gv = Some a" "decided (gv_policy gv) = PERMIT" by auto
  define t where "t = trace_record env ''execution_started'' (start_trace w gv (issued_envelope (gv_handle gv) g)) g"
  obtain g1 r where t: "t = (g1, r)" by fastforce
  then have g1: "g_denials g1 = g_denials g" "g_settings g1 = g_settings g" using frame_eq(2) unfolding t_def by metis+
  have "g_denials (fst (try_dispatch w gc jo env gv a l g1)) = g_denials g1
      \<and> g_settings (fst (try_dispatch w gc jo env gv a l g1)) = g_settings g1"
    by (cases rule: try_dispatch_cases [of w gc jo env gv a l g1]) (simp_all add: redeem_frame)
  then show ?thesis using a t g1 by (cases r) (simp_all add: act_def t_def [symmetric] split_beta)
next
  case False
  then show ?thesis by (auto simp: act_def on_deny_def Let_def split: decision.splits option.splits)
qed

lemma call_contained:
  assumes "2 \<le> g_denials g" "enable_agent_k (g_settings g)" "opt_ok enable_agent_k (c_settings env)"
  shows "2 \<le> g_denials (fst (call w gc None env req p pf g)) \<and> enable_agent_k (g_settings (fst (call w gc None env req p pf g)))"
proof -
  define P where "P s \<longleftrightarrow> 2 \<le> g_denials s \<and> enable_agent_k (g_settings s)" for s :: "'a gateway"
  have gov: "P (fst (govern w gc None env req p pf g))"
    by (rule govern_keeps [where P = P])
       (use assms in \<open>auto simp: P_def frame_simps opt_ok_def with_journal_def split: option.splits\<close>)
  have "P (fst (call_inner w gc None env req p pf g))"
  proof (cases "govern w gc None env req p pf g")
    case (Pair g1 r)
    show ?thesis
    proof (cases r)
      case (Inr gv)
      show ?thesis
        unfolding call_inner_def Pair Inr obind_simps
        by (rule close_keeps [where P = P])
           (use act_denials [of g1 w gc None env gv "start_locals env p gv"] gov Pair in \<open>simp_all add: P_def frame_simps\<close>)
    qed (use gov Pair in \<open>simp add: call_inner_def\<close>)
  qed
  then show ?thesis by (simp add: P_def call_def admit_denials_def split_beta split: sum.split)
qed

text \<open>
  Containment without a journal: once two denials have counted, no later call of the process reaches
  the backend, whatever it asks, as long as the host leaves the behavioural signal switched on.
\<close>

theorem containment_is_permanent:
  assumes "2 \<le> g_denials g" "enable_agent_k (g_settings g)" "g_contract (gc_boundary gc) = gc_contract gc"
    and "list_all (\<lambda>(env, req, p, pf). opt_ok enable_agent_k (c_settings env)) xs"
  shows "g_dispatched (calls w gc None xs g) = g_dispatched g \<and> 2 \<le> g_denials (calls w gc None xs g)"
  using assms(1,2,4)
proof (induction xs arbitrary: g)
  case (Cons x xs)
  obtain env req p pf where x: "x = (env, req, p, pf)" by (cases x)
  let ?g = "fst (call w gc None env req p pf g)"
  have kept: "2 \<le> g_denials ?g" "enable_agent_k (g_settings ?g)"
    using call_contained [of g env w gc req p pf] Cons.prems x by auto
  have "g_dispatched ?g = g_dispatched g"
    using dispatch_permitted [OF assms(3), of w None env req p pf g] Cons.prems(1,2)
    by (auto simp: permitted_def admit_denials_def)
  with Cons.IH [OF kept] Cons.prems x show ?case by simp
qed simp

section \<open>Instances\<close>

definition example_gateway_config :: gateway_config where
  "example_gateway_config = \<lparr>gc_adapter = example_adapter None, gc_upstream = example_upstream, gc_contract = None,
     gc_boundary = example_config\<rparr>"

definition example_gateway :: "'j \<Rightarrow> 'j gateway" where
  "example_gateway j = \<lparr>g_settings = \<lparr>require_judge = True, enable_agent_k = True, g_threshold = 1\<rparr>, g_denials = 0,
     g_boundary = \<lparr>b_issued = [], b_next = 0\<rparr>, g_trace = [], g_owner = None, g_journal = j, g_dispatched = []\<rparr>"

definition example_call_env :: "bool \<Rightarrow> 'e \<Rightarrow> 'e call_env" where
  "example_call_env writable e = \<lparr>c_request_id = ''r1'', c_now = ''t'', c_trace_ok = (\<lambda>_. writable),
     c_judge = Some perfect_judge, c_settings = None, c_issue_clock = Some 5, c_consume_clock = Some 8,
     c_attempts = (\<lambda>_. example_env (Responded (example_response 200 (Some JNull)))), c_retrieved = ''t'',
     c_handler = (\<lambda>_. Inl (AdapterOther ''ValueError'')), c_validator = (\<lambda>_ _. None), c_journal = (\<lambda>_. e)\<rparr>"

definition example_proposal :: proposal where
  "example_proposal = \<lparr>p_tool = ''find_federal_awards'', p_arguments = JObj []\<rparr>"

definition example_request :: string where
  "example_request = ''Find federal awards for recipient '' @ [quote_chr] @ ''Acme'' @ [quote_chr]"

definition example_call_facts :: policy_facts where
  "example_call_facts = call_facts example_libs example_gateway_config True example_request example_proposal False"

lemma example_call_policy:
  "evaluate_policy example_libs None example_call_facts perfect_judge KSignal 1
     = Inr \<lparr>decided = PERMIT, reasons = [''BOUNDED_PUBLIC_RESEARCH'']\<rparr>"
  by code_simp

lemma example_signals:
  "semantic_signals example_libs example_gateway_config (example_call_env True e)
     (g_settings (example_gateway j)) 0 example_call_facts
   = Inr \<lparr>sg_judge = perfect_judge, sg_k = KSignal, sg_asked = True, sg_skipped = False\<rparr>"
  by code_simp

lemma example_call_issue:
  "\<exists>s1. Execution.evaluate example_libs example_config (Some 5) ''r1'' example_call_facts perfect_judge KSignal
     (float_json example_libs 1) (Some (model_dump example_libs (ASearch example_search)))
     (policy_context example_libs (example_gateway j)) \<lparr>b_issued = [], b_next = 0\<rparr>
   = (s1, Inr (\<lparr>decided = PERMIT, reasons = [''BOUNDED_PUBLIC_RESEARCH'']\<rparr>, Some 0))"
proof -
  have g: "g_contract example_config = None" "g_max_age example_config = 30"
    by (simp_all add: example_config_def)
  have f: "arguments_json example_call_facts = Some ''{}''" "f_tool example_call_facts = ''find_federal_awards''"
    "semantic_required example_call_facts" "capability example_call_facts = OPERATION_SCOPE"
    by (simp_all add: example_call_facts_def call_facts_def PolicyFacts_def call_args_def gateway_registry_def
        example_gateway_config_def example_proposal_def TOOLS_def example_libs_def OPERATION_SCOPE_def)
  have a: "arguments_step example_libs example_config ''find_federal_awards'' (Some (JObj ms))
      = Inr (canonical_text (JObj [(''recipient_name'', JStr ''Acme'')]), replicate 64 (CHR ''0''))"
    if "ms \<in> {[], [(''recipient_name'', JStr ''Acme'')]}" for ms
    using that by (auto simp: arguments_step_def schema_step_def example_config_def TOOLS_def dict_eq_def
      canonical_schema_def canonical_def canonical_text_def dumps_def example_libs_def)
  have d: "model_dump example_libs (ASearch example_search) = JObj [(''recipient_name'', JStr ''Acme'')]"
    by (simp add: example_libs_def)
  have "(35 :: rat) \<le> DBL_MAX" by (simp add: DBL_MAX_def)
  then show ?thesis
    by (simp add: evaluate_def context_json_def context_ok_def policy_context_def example_gateway_def float_json_def g d
        f a example_call_policy fresh_facts_def example_loads issue_step_def now_step_def
        MAX_OUTSTANDING_ENVELOPES_def Let_def)
qed

lemma trace_writable: "c_trace_ok env st \<Longrightarrow> \<exists>t. trace_record env st ev g = (g\<lparr>g_trace := t\<rparr>, Inr ())"
  by (auto simp: trace_record_def record_event_def)

lemma example_governs:
  obtains g1 gv s1 where
    "govern example_libs example_gateway_config None (example_call_env True e) example_request example_proposal False (example_gateway j) = (g1, Inr gv)"
    "decided (gv_policy gv) = PERMIT" "gv_args gv = Some (ASearch example_search)" "gv_handle gv = Some 0" "gv_error gv = None"
    "gv_facts gv = example_call_facts" "g_boundary g1 = s1" "policy_context example_libs g1 = policy_context example_libs (example_gateway j)"
    "Execution.evaluate example_libs example_config (Some 5) ''r1'' example_call_facts perfect_judge KSignal
     (float_json example_libs 1) (Some (model_dump example_libs (ASearch example_search)))
     (policy_context example_libs (example_gateway j)) \<lparr>b_issued = [], b_next = 0\<rparr>
      = (s1, Inr (\<lparr>decided = PERMIT, reasons = [''BOUNDED_PUBLIC_RESEARCH'']\<rparr>, Some 0))"
proof -
  let ?env = "example_call_env True e"
  from example_call_issue [of j] obtain s1 where s1: "Execution.evaluate example_libs example_config (Some 5) ''r1'' example_call_facts perfect_judge KSignal
     (float_json example_libs 1) (Some (model_dump example_libs (ASearch example_search)))
     (policy_context example_libs (example_gateway j)) \<lparr>b_issued = [], b_next = 0\<rparr>
      = (s1, Inr (\<lparr>decided = PERMIT, reasons = [''BOUNDED_PUBLIC_RESEARCH'']\<rparr>, Some 0))"
    ..
  have w: "c_trace_ok ?env st" for st by (simp add: example_call_env_def)
  obtain t1 where t1: "trace_record ?env ''proposal'' [(''user_request'', JStr example_request), (''proposal'', proposal_json example_proposal)]
      (example_gateway j) = (example_gateway j\<lparr>g_trace := t1\<rparr>, Inr ())"
    using trace_writable [OF w] by blast
  have args: "call_args example_libs example_gateway_config example_proposal = Some (ASearch example_search)"
    by (simp add: call_args_def gateway_registry_def example_gateway_config_def example_proposal_def TOOLS_def example_libs_def)
  have facts: "call_facts example_libs example_gateway_config True example_request example_proposal False = example_call_facts"
    by (simp add: example_call_facts_def)
  have sem: "semantic_signals example_libs example_gateway_config ?env (g_settings (example_gateway j)) 0 example_call_facts
   = Inr \<lparr>sg_judge = perfect_judge, sg_k = KSignal, sg_asked = True, sg_skipped = False\<rparr>"
    by (rule example_signals)
  define gv where "gv = \<lparr>gv_facts = example_call_facts, gv_args = Some (ASearch example_search),
     gv_signals = \<lparr>sg_judge = perfect_judge, sg_k = KSignal, sg_asked = True, sg_skipped = False\<rparr>, gv_threshold = 1,
     gv_policy = \<lparr>decided = PERMIT, reasons = [''BOUNDED_PUBLIC_RESEARCH'']\<rparr>, gv_handle = Some 0, gv_error = None\<rparr>"
  let ?g2 = "example_gateway j\<lparr>g_trace := t1, g_boundary := s1\<rparr>"
  have issue: "issue_authority example_libs example_gateway_config ?env (policy_context example_libs (example_gateway j)) 1 example_call_facts
      (Some (ASearch example_search)) (gv_signals gv) (example_gateway j\<lparr>g_trace := t1\<rparr>) = (?g2, Inr gv)"
    using s1 by (simp add: issue_authority_def gv_def example_gateway_config_def example_call_env_def example_gateway_def)
  obtain t2 where t2: "trace_record ?env ''policy'' (policy_trace example_libs False gv) ?g2 = (?g2\<lparr>g_trace := t2\<rparr>, Inr ())"
    using trace_writable [OF w] by blast
  have st: "g_settings (example_gateway j) = \<lparr>require_judge = True, enable_agent_k = True, g_threshold = 1\<rparr>" "g_denials (example_gateway j) = 0"
    "c_settings ?env = None"
    "example_gateway j\<lparr>g_trace := t, g_settings := \<lparr>require_judge = True, enable_agent_k = True, g_threshold = 1\<rparr>\<rparr>
       = example_gateway j\<lparr>g_trace := t\<rparr>"
    "example_gateway j\<lparr>g_settings := \<lparr>require_judge = True, enable_agent_k = True, g_threshold = 1\<rparr>, g_trace := t\<rparr>
       = example_gateway j\<lparr>g_trace := t\<rparr>" for t
    by (simp_all add: example_gateway_def example_call_env_def)
  have "govern example_libs example_gateway_config None ?env example_request example_proposal False (example_gateway j) = (?g2\<lparr>g_trace := t2\<rparr>, Inr gv)"
    using sem issue t1 t2 facts args by (simp add: govern_def with_journal_def Let_def gv_def st)
  then show thesis
    by (rule that [OF _ _ _ _ _ _ _ _ s1]) (simp_all add: gv_def policy_context_def example_gateway_def)
qed

lemma example_dispatches:
  "g_dispatched (fst (call example_libs example_gateway_config None (example_call_env True e) example_request
      example_proposal False (example_gateway j))) = [(''r1'', ''find_federal_awards'', ASearch example_search)]"
proof -
  let ?env = "example_call_env True e"
  obtain g1 gv s1 where gov: "govern example_libs example_gateway_config None ?env example_request example_proposal False (example_gateway j) = (g1, Inr gv)"
    "decided (gv_policy gv) = PERMIT" "gv_args gv = Some (ASearch example_search)" "gv_handle gv = Some 0" "gv_error gv = None"
    "gv_facts gv = example_call_facts" "g_boundary g1 = s1" "policy_context example_libs g1 = policy_context example_libs (example_gateway j)"
    and ev: "Execution.evaluate example_libs example_config (Some 5) ''r1'' example_call_facts perfect_judge KSignal
     (float_json example_libs 1) (Some (model_dump example_libs (ASearch example_search)))
     (policy_context example_libs (example_gateway j)) \<lparr>b_issued = [], b_next = 0\<rparr>
      = (s1, Inr (\<lparr>decided = PERMIT, reasons = [''BOUNDED_PUBLIC_RESEARCH'']\<rparr>, Some 0))"
    by (rule example_governs)
  have w: "c_trace_ok ?env st" for st by (simp add: example_call_env_def)
  obtain t where t: "trace_record ?env ''execution_started'' (start_trace example_libs gv (issued_envelope (gv_handle gv) g1)) g1
      = (g1\<lparr>g_trace := t\<rparr>, Inr ())"
    using trace_writable [of ?env "''execution_started''"] w by blast
  have tool: "f_tool example_call_facts = ''find_federal_awards''"
    by (simp add: example_call_facts_def call_facts_def PolicyFacts_def example_proposal_def)
  have env: "c_request_id ?env = ''r1''" "c_consume_clock ?env = Some 8" by (simp_all add: example_call_env_def)
  have gc: "gc_boundary example_gateway_config = example_config" "g_max_age example_config = 30"
    "gateway_registry example_gateway_config = TOOLS" "gc_contract example_gateway_config = None"
    by (simp_all add: example_gateway_config_def gateway_registry_def example_config_def)
  obtain b where b: "consume example_libs example_config (Some 8) (Some 0) ''r1'' ''find_federal_awards''
      (Some (model_dump example_libs (ASearch example_search))) (policy_context example_libs (example_gateway j)) s1
      = (s1\<lparr>b_issued := alist_del 0 (b_issued s1)\<rparr>, Inr b)"
    using consume_fresh [OF boundary_inv_start ev, of 8] by (auto simp: gc tool)
  have ctx: "policy_context example_libs (g1\<lparr>g_trace := t\<rparr>) = policy_context example_libs (example_gateway j)"
    using gov(8) by (simp add: policy_context_def)
  let ?g = "g1\<lparr>g_trace := t\<rparr>" and ?s = "s1\<lparr>b_issued := alist_del 0 (b_issued s1)\<rparr>"
  have "x_tool b = ''find_federal_awards''"
    using b by (cases rule: consume_cases [of example_libs example_config "Some 8" "Some 0" "''r1''" "''find_federal_awards''"
      "Some (model_dump example_libs (ASearch example_search))" "policy_context example_libs (example_gateway j)" s1])
      (auto dest: check_envelopeD)
  then have red: "redeem example_libs example_gateway_config None ?env gv (ASearch example_search) ?g
      = (?g\<lparr>g_boundary := ?s\<rparr>, Inr (b, ASearch example_search))" and tb: "x_tool b = ''find_federal_awards''"
    using b ctx by (simp_all add: redeem_def gov with_journal_def env gc tool TOOLS_def example_libs_def)
  have "g_dispatched (fst (try_dispatch example_libs example_gateway_config None ?env gv (ASearch example_search) l ?g))
      = g_dispatched g1 @ [(''r1'', ''find_federal_awards'', ASearch example_search)]" for l
    by (simp add: try_dispatch_def red tb route_def contract_route_def gc env Let_def)
  then have act: "g_dispatched (fst (act example_libs example_gateway_config None ?env gv l g1))
      = g_dispatched g1 @ [(''r1'', ''find_federal_awards'', ASearch example_search)]" for l
    by (simp add: act_def gov(2,3) t split_beta)
  have g1: "g_dispatched g1 = []"
    using govern_frame(1) [of example_libs example_gateway_config None ?env example_request example_proposal False "example_gateway j"] gov(1)
    by (simp add: example_gateway_def)
  have "g_dispatched (fst (call_inner example_libs example_gateway_config None ?env example_request example_proposal False (example_gateway j)))
      = [(''r1'', ''find_federal_awards'', ASearch example_search)]"
    unfolding call_inner_def gov(1) obind_simps
    by (rule close_keeps [where P = "\<lambda>s. g_dispatched s = [(''r1'', ''find_federal_awards'', ASearch example_search)]"])
       (simp_all add: act g1 frame_simps)
  then show ?thesis by (simp add: call_def admit_denials_def split_beta split: sum.split)
qed

theorem dispatch_only_permitted_witness:
  "permitted example_libs example_gateway_config (example_call_env True ()) (g_settings (example_gateway ())) 0
     (call_facts example_libs example_gateway_config True example_request example_proposal False)"
  using dispatch_only_permitted [of example_gateway_config example_libs None "example_call_env True ()" example_request
      example_proposal False "example_gateway ()"] example_dispatches [of "()" "()"]
  by (simp add: example_gateway_config_def example_config_def example_gateway_def admit_denials_def)

definition example_journal :: local_journal where
  "example_journal = \<lparr>l_domain = example_domain, l_revision = [], l_source = [], l_generation = ''g1'', l_denials = 0,
     l_held = False, l_active = None, l_closed = False, l_open = True, l_sequence = 0, l_digest = [], l_rows = []\<rparr>"

definition example_admitted :: journal_env where
  "example_admitted = example_journal_env\<lparr>je_context := Some \<lparr>ic_principal = ''alice'', ic_issuer = ''iss'',
     ic_audience = ''aud'', ic_session = ''0123456789abcdef'', ic_request = ''r1'', ic_expires_at = 60\<rparr>\<rparr>"

lemma example_admits: "snd (admit example_admitted example_journal) = Inr 0"
  by (simp add: admit_def example_journal_def current_context_def context_admissible_def example_admitted_def
      example_journal_env_def example_domain_def)

lemma untraced_call_raises:
  "\<not> c_trace_ok env ''proposal'' \<Longrightarrow> \<exists>x. snd (call w gc jo env req p pf g) = Inl x"
proof -
  assume *: "\<not> c_trace_ok env ''proposal''"
  have "\<exists>x s. govern w gc jo env req p pf g = (s, Inl x)" for g
  proof (cases "with_journal jo (\<lambda>ops. j_begin ops (c_journal env ''begin'') (c_request_id env)) g")
    case (Pair s r)
    then show ?thesis using * by (cases r) (simp_all add: govern_def Let_def trace_record_def record_event_def)
  qed
  then have gov: "govern w gc jo env req p pf s \<noteq> (s', Inr gv)" for s s' gv by (metis prod.inject sum.distinct(1))
  have "snd (call w gc jo env req p pf g) \<noteq> Inr v" for v
  proof
    assume "snd (call w gc jo env req p pf g) = Inr v"
    then obtain g' where "call w gc jo env req p pf g = (g', Inr v)" by (metis prod.collapse)
    then obtain s where "call_inner w gc jo env req p pf s = (g', Inr v)"
      unfolding call_def obind_Inr by (auto dest!: call_inner_result)
    then show False using gov by (auto simp: call_inner_def obind_Inr)
  qed
  then show ?thesis by (cases "snd (call w gc jo env req p pf g)") auto
qed

theorem raised_call_is_final_witness:
  "l_held (g_journal (fst (call example_libs example_gateway_config (Some (local_ops example_libs))
     (example_call_env False example_admitted) example_request example_proposal False (example_gateway example_journal))))"
proof -
  let ?env = "example_call_env False example_admitted"
  have w: "\<not> c_trace_ok ?env ''proposal''" by (simp add: example_call_env_def)
  obtain x where x: "snd (call example_libs example_gateway_config (Some (local_ops example_libs)) ?env example_request
      example_proposal False (example_gateway example_journal)) = Inl x"
    using untraced_call_raises [of ?env] w by blast
  have a: "snd (admit (c_journal ?env ''admit'') (g_journal (example_gateway example_journal))) = Inr 0"
    using example_admits by (simp add: example_call_env_def example_gateway_def)
  from raised_call_is_final [OF x a, of "[]"] show ?thesis by simp
qed

theorem containment_is_permanent_witness:
  "g_dispatched (fst (call example_libs example_gateway_config None (example_call_env True ()) example_request
     example_proposal False ((example_gateway ())\<lparr>g_denials := 2\<rparr>))) = []"
  using containment_is_permanent [of "(example_gateway ())\<lparr>g_denials := 2\<rparr>" example_gateway_config
      "[(example_call_env True (), example_request, example_proposal, False)]" example_libs]
  by (simp add: example_gateway_config_def example_config_def example_gateway_def example_call_env_def opt_ok_def)

end
