(* ===== verification/Money.thy ===== *)
theory Money
  imports PyDecimal Policy
begin

text \<open>
  \<open>channel_b/faa_money_v1.py\<close>: the exact, bounded monetary value and the content identity of a response
  in which only the spelling of the award amounts is normalised. A Decimal in a decoded response is a
  number with its token (\<open>JNum\<close>).
\<close>

section \<open>Amounts\<close>

definition MONEY_VERSION :: string where "MONEY_VERSION = ''FAA-C1-MONEY-v1''"

definition unsupported :: "string \<Rightarrow> string + 'a" where "unsupported what = Inl (''FAA '' @ what)"

text \<open>The exponent of a token of the number grammar; \<open>None\<close>: no match. No exponent is zero.\<close>

definition number_exponent :: "string \<Rightarrow> int option" where
  "number_exponent token =
     (case p_int (snd (p_sign token)) of None \<Rightarrow> None
      | Some (ds, s2) \<Rightarrow> (case p_exp (snd (p_frac s2)) of (ex, rest) \<Rightarrow>
          if rest \<noteq> [] then None
          else if ex = [] then Some 0
          else (case take_sign (drop 1 ex) of (neg, xs) \<Rightarrow> Some (signed neg (undec xs)))))"

definition decimal_token :: "string \<Rightarrow> string + pydec" where
  "decimal_token token =
     (if 96 < length token then unsupported ''monetary token or exponent unsupported''
      else case number_exponent token of
          None \<Rightarrow> unsupported ''monetary token or exponent unsupported''
        | Some x \<Rightarrow> if 38 < \<bar>x\<bar> then unsupported ''monetary token or exponent unsupported''
            else (case Decimal token of None \<Rightarrow> Inl ''InvalidOperation'' | Some d \<Rightarrow> Inr d))"

definition integer_token :: "string \<Rightarrow> string + string" where
  "integer_token token = (if 96 < length token then unsupported ''JSON integer token too long'' else Inr token)"

datatype money_value = MStr string | MInt int | MDec pydec | MOther

text \<open>Trailing zeros of the coefficient go to the exponent.\<close>

function strip_zeros :: "nat \<Rightarrow> int \<Rightarrow> nat \<times> int" where
  "strip_zeros c e = (if c \<noteq> 0 \<and> c mod 10 = 0 then strip_zeros (c div 10) (e + 1) else (c, e))"
  by pat_completeness auto
termination by (relation "measure fst") auto

declare strip_zeros.simps [simp del]

definition read_amount :: "money_value \<Rightarrow> string + pydec" where
  "read_amount v = (case v of
       MStr s \<Rightarrow> decimal_token s
     | MInt i \<Rightarrow> decimal_token (dec_int i)
     | MDec d \<Rightarrow> Inr d
     | MOther \<Rightarrow> unsupported ''amount requires exact numeric evidence; float unsupported'')"

definition exact_amount :: "money_value \<Rightarrow> string + bool \<times> nat \<times> int" where
  "exact_amount v = rbind (read_amount v) (\<lambda>d. case d of
       Fin s c e \<Rightarrow>
         if 38 < \<bar>e\<bar> \<or> 38 < length (dec_nat c) then unsupported ''monetary precision unsupported''
         else if ten_pow 24 \<le> dec_value (Fin False c e) then unsupported ''monetary magnitude unsupported''
         else if c = 0 then Inr (False, 0, 0)
         else (case strip_zeros c e of (c', e') \<Rightarrow>
             if e' < - 12 then unsupported ''monetary scale unsupported'' else Inr (s, c', e'))
     | _ \<Rightarrow> unsupported ''amount must be finite'')"

definition amount_text :: "money_value \<Rightarrow> string + string" where
  "amount_text v = rbind (exact_amount v) (\<lambda>(s, c, e). Inr (format_f s c e))"

section \<open>Content identity of a response\<close>

fun money_of :: "json \<Rightarrow> money_value" where
  "money_of (JStr s) = MStr s"
| "money_of (JInt i) = MInt i"
| "money_of (JNum r s) = (case Decimal s of Some d \<Rightarrow> MDec d | None \<Rightarrow> MOther)"
| "money_of v = MOther"

definition canonical_row :: "json \<Rightarrow> string + json" where
  "canonical_row row = (case row of
       JObj ms \<Rightarrow> (case map_of ms ''Award Amount'' of
           None \<Rightarrow> unsupported ''amount missing''
         | Some v \<Rightarrow> rbind (amount_text (money_of v)) (\<lambda>t. Inr (JObj (alist_set ''Award Amount'' (JStr t) ms))))
     | _ \<Rightarrow> unsupported ''amount missing'')"

definition canonical_response :: "json \<Rightarrow> string + string" where
  "canonical_response obj = (case (obj, jget ''results'' obj) of
       (JObj ms, Some (JList rows)) \<Rightarrow>
         rbind (each_ok canonical_row rows) (\<lambda>rows'.
           (let v = JObj (alist_set ''results'' (JList rows') ms) in
            if \<not> plain v then Inl ''Unsupported FAA canonical JSON value''
            else (case dumps False v of None \<Rightarrow> Inl ''ValueError'' | Some s \<Rightarrow> Inr s)))
     | _ \<Rightarrow> unsupported ''response object required'')"

definition response_fingerprint :: "libs \<Rightarrow> json \<Rightarrow> string + string" where
  "response_fingerprint w obj =
     rbind (canonical_response obj) (\<lambda>s. Inr (sha256 w (MONEY_VERSION @ [CHR 0x0A] @ s)))"

section \<open>Canonical amounts\<close>

lemma strip_zeros_steps:
  "c \<noteq> 0 \<Longrightarrow> c mod 10 = 0 \<Longrightarrow> strip_zeros c e = strip_zeros (c div 10) (e + 1)"
  "c = 0 \<or> c mod 10 \<noteq> 0 \<Longrightarrow> strip_zeros c e = (c, e)"
  using strip_zeros.simps [of c e] by (simp_all only: if_True if_False simp_thms split: if_split_asm)

lemma dec_value_zero: "dec_value (Fin s c e) = 0 \<longleftrightarrow> c = 0"
  by (simp add: signed_def)

lemma dec_value_shift: "c mod 10 = 0 \<Longrightarrow> dec_value (Fin s (c div 10) (e + 1)) = dec_value (Fin s c e)"
proof -
  assume "c mod 10 = 0"
  then obtain k where c: "c = 10 * k" by (auto simp: mod_eq_0_iff_dvd)
  have "signed s (10 * k) = 10 * signed s k" by (simp add: signed_def)
  then show ?thesis by (simp add: c ten_pow_add ten_pow_def [of 1])
qed

lemma strip_zeros_canonical:
  "strip_zeros c e = (c', e') \<Longrightarrow> dec_value (Fin s c' e') = dec_value (Fin s c e) \<and> (c \<noteq> 0 \<longrightarrow> c' mod 10 \<noteq> 0)"
proof (induction c e rule: strip_zeros.induct)
  case (1 c e)
  show ?case
  proof (cases "c \<noteq> 0 \<and> c mod 10 = 0")
    case True
    then have "c div 10 \<noteq> 0" by presburger
    moreover have "strip_zeros (c div 10) (e + 1) = (c', e')" using 1(2) True strip_zeros_steps(1) by metis
    ultimately have "dec_value (Fin s c' e') = dec_value (Fin s (c div 10) (e + 1)) \<and> c' mod 10 \<noteq> 0" using 1(1) True by blast
    then show ?thesis using dec_value_shift True by metis
  next
    case False
    then have "c' = c" "e' = e" using 1(2) by (simp_all add: strip_zeros_steps(2))
    then show ?thesis using False by auto
  qed
qed

definition canonical_amount :: "bool \<times> nat \<times> int \<Rightarrow> bool" where
  "canonical_amount d = (case d of (s, c, e) \<Rightarrow> if c = 0 then \<not> s \<and> e = 0 else c mod 10 \<noteq> 0)"

definition amount_value :: "money_value \<Rightarrow> rat" where
  "amount_value v = (case read_amount v of Inl x \<Rightarrow> 0 | Inr d \<Rightarrow> dec_value d)"

lemma exact_amountD:
  assumes "exact_amount v = Inr (s, c, e)"
  shows "canonical_amount (s, c, e)" "dec_value (Fin s c e) = amount_value v"
proof -
  obtain d where d: "read_amount v = Inr d" using assms by (cases "read_amount v") (simp_all add: exact_amount_def)
  have "canonical_amount (s, c, e) \<and> dec_value (Fin s c e) = amount_value v"
  proof (cases d)
    case (Fin t k x)
    obtain k' x' where k: "strip_zeros k x = (k', x')" by fastforce
    have zero: "k = 0 \<Longrightarrow> dec_value d = 0" by (simp add: Fin dec_value_zero del: dec_value.simps)
    show ?thesis
      using assms d Fin k strip_zeros_canonical [OF k, of t] zero
      by (cases "k = 0") (auto simp: exact_amount_def canonical_amount_def amount_value_def unsupported_def signed_def split: if_splits)
  qed (use assms d in \<open>simp_all add: exact_amount_def unsupported_def\<close>)
  then show "canonical_amount (s, c, e)" "dec_value (Fin s c e) = amount_value v" by auto
qed

text \<open>A canonical form is determined by its value.\<close>

lemma canonical_amount_unique:
  assumes "canonical_amount (s, c, e)" "canonical_amount (t, d, f)" "dec_value (Fin s c e) = dec_value (Fin t d f)"
  shows "s = t \<and> c = d \<and> e = f"
proof (cases "c = 0")
  case True
  then have "d = 0" using assms(3) dec_value_zero by metis
  then show ?thesis using True assms(1,2) by (simp add: canonical_amount_def)
next
  case False
  then have d: "d \<noteq> 0" using assms(3) dec_value_zero by metis
  have *: "e' \<le> f' \<Longrightarrow> c' mod 10 \<noteq> 0 \<Longrightarrow> of_int (signed s' c') * ten_pow e' = of_int (signed t' d') * ten_pow f'
      \<Longrightarrow> signed s' c' = signed t' d' \<and> e' = f'" for e' f' c' d' s' t'
  proof -
    assume le: "e' \<le> f'" and c: "c' mod 10 \<noteq> 0" and eq: "of_int (signed s' c') * ten_pow e' = of_int (signed t' d') * ten_pow f'"
    have "of_int (signed s' c') = of_int (signed t' d' * 10 ^ nat (f' - e')) * (1 :: rat)"
      using eq unfolding ten_pow_diff [OF le, symmetric] by simp
    then have eq': "signed s' c' = signed t' d' * 10 ^ nat (f' - e')" by (simp only: mult_1_right of_int_eq_iff)
    have "nat (f' - e') = 0"
    proof (rule ccontr)
      assume "nat (f' - e') \<noteq> 0"
      then have "10 dvd signed s' c'" unfolding eq' by (simp add: dvd_power_le dvd_mult)
      then have "10 dvd int c'" by (simp add: signed_def split: if_splits)
      then show False using c by presburger
    qed
    then show ?thesis using eq' le by simp
  qed
  have nz: "c mod 10 \<noteq> 0" "d mod 10 \<noteq> 0" using assms(1,2) False d by (simp_all add: canonical_amount_def)
  have "signed s c = signed t d \<and> e = f"
    using * [of e f c s t d] * [of f e d t s c] nz assms(3) by (cases "e \<le> f") auto
  then show ?thesis using False d by (auto simp: signed_def split: if_splits)
qed

section \<open>Reading an amount back\<close>

lemma undec_append_digits: "undec (xs @ ys) = undec xs * 10 ^ length ys + undec ys"
proof (induction ys rule: rev_induct)
  case (snoc y ys)
  then show ?case by (simp add: algebra_simps)
qed simp

lemma undec_zeros: "undec (zeros n) = 0"
  by (induction n) (simp_all add: zeros_def replicate_append_same [symmetric])

lemma digits_scan: "list_all ascii_digit xs \<Longrightarrow> (\<And>c cs. rest = c # cs \<Longrightarrow> \<not> ascii_digit c) \<Longrightarrow> p_digits (xs @ rest) = (xs, rest)"
  by (induction xs) (auto simp: p_digits_def split: list.splits, (cases rest; auto)+)

lemma zeros_digits: "list_all ascii_digit (zeros n)"
  by (simp add: zeros_def ascii_digit_def list_all_iff)

lemma not_digit: "\<not> ascii_digit (CHR ''.'')" "\<not> ascii_digit (CHR ''-'')" "\<not> ascii_digit (CHR ''+'')" "\<not> ascii_digit (CHR ''_'')"
  by (simp_all add: ascii_digit_def)

lemma read_whole: "w \<noteq> [] \<Longrightarrow> list_all ascii_digit w \<Longrightarrow> read_number neg w = Some (Fin neg (undec w) 0)"
  using digits_scan [of w "[]"] by (simp add: read_number_def read_exp_def)

lemma read_point: "w \<noteq> [] \<Longrightarrow> list_all ascii_digit w \<Longrightarrow> list_all ascii_digit f
    \<Longrightarrow> read_number neg (w @ ''.'' @ f) = Some (Fin neg (undec (w @ f)) (- int (length f)))"
  using digits_scan [of w "''.'' @ f"] digits_scan [of f "[]"] not_digit(1) by (simp add: read_number_def read_exp_def)

lemma plain_digits_read:
  "\<exists>e'. read_number neg (plain_digits c e) = Some (Fin neg (c * 10 ^ nat e) e') \<and> e' = (if e < 0 then e else 0)"
proof -
  define ds where "ds = dec_nat c @ zeros (nat e)"
  have ds: "list_all ascii_digit ds" "ds \<noteq> []" "undec ds = c * 10 ^ nat e"
    by (simp_all add: ds_def dec_nat_digits zeros_digits dec_nat_nonempty undec_append_digits undec_zeros undec_dec_nat
        del: undec.simps) (simp add: zeros_def)
  have pd: "plain_digits c e = (if nat (- e) = 0 then ds else if nat (- e) < length ds
      then take (length ds - nat (- e)) ds @ ''.'' @ drop (length ds - nat (- e)) ds
      else ''0.'' @ zeros (nat (- e) - length ds) @ ds)"
    by (simp only: plain_digits_def ds_def Let_def)
  consider "nat (- e) = 0" | "nat (- e) \<noteq> 0" "nat (- e) < length ds" | "nat (- e) \<noteq> 0" "length ds \<le> nat (- e)" by linarith
  then show ?thesis
  proof cases
    case 1
    then show ?thesis using read_whole [OF ds(2,1)] ds(3) by (simp add: pd)
  next
    case 2
    let ?k = "length ds - nat (- e)"
    have split: "take ?k ds \<noteq> []" "list_all ascii_digit (take ?k ds)" "list_all ascii_digit (drop ?k ds)"
      using 2 ds(1,2) by (auto simp: list_all_iff dest: in_set_takeD in_set_dropD)
    show ?thesis
      using read_point [OF split, of neg] 2 ds(3) by (simp add: pd del: undec.simps)
  next
    case 3
    have "undec (''0'' @ zeros (nat (- e) - length ds) @ ds) = undec ds"
      by (simp add: undec_append_digits undec_zeros del: undec.simps append_Cons append_Nil) (simp add: undec_append_digits)
    moreover have "list_all ascii_digit (zeros (nat (- e) - length ds) @ ds)" by (simp add: zeros_digits ds(1))
    ultimately show ?thesis
      using read_point [of "''0''" "zeros (nat (- e) - length ds) @ ds" neg] 3 ds(3)
      by (simp add: pd ascii_digit_def zeros_def del: undec.simps)
  qed
qed

lemma plain_digits_chars:
  "\<exists>d ds. plain_digits c e = d # ds \<and> ascii_digit d \<and> list_all (\<lambda>x. ascii_digit x \<or> x = CHR ''.'') ds"
proof -
  define ds where "ds = dec_nat c @ zeros (nat e)"
  have ds: "list_all ascii_digit ds" "ds \<noteq> []" by (simp_all add: ds_def dec_nat_digits zeros_digits dec_nat_nonempty)
  have some: "w \<noteq> [] \<Longrightarrow> list_all ascii_digit w \<Longrightarrow> list_all (\<lambda>x. ascii_digit x \<or> x = CHR ''.'') r
      \<Longrightarrow> \<exists>d ds. w @ r = d # ds \<and> ascii_digit d \<and> list_all (\<lambda>x. ascii_digit x \<or> x = CHR ''.'') ds" for w r
    by (cases w) (auto simp: list_all_iff)
  have digits: "list_all ascii_digit xs \<Longrightarrow> list_all (\<lambda>x. ascii_digit x \<or> x = CHR ''.'') xs" for xs
    by (auto simp: list_all_iff)
  have pd: "plain_digits c e = (if nat (- e) = 0 then ds @ [] else if nat (- e) < length ds
      then take (length ds - nat (- e)) ds @ ''.'' @ drop (length ds - nat (- e)) ds
      else ''0'' @ ''.'' @ zeros (nat (- e) - length ds) @ ds)"
    by (simp add: plain_digits_def ds_def Let_def)
  have z: "list_all ascii_digit (zeros n)" for n by (rule zeros_digits)
  consider "nat (- e) = 0" | "nat (- e) \<noteq> 0" "nat (- e) < length ds" | "nat (- e) \<noteq> 0" "length ds \<le> nat (- e)" by linarith
  then show ?thesis
  proof cases
    case 1
    then show ?thesis unfolding pd using some [OF ds(2,1), of "[]"] by simp
  next
    case 2
    let ?k = "length ds - nat (- e)"
    have "take ?k ds \<noteq> []" "list_all ascii_digit (take ?k ds)" "list_all ascii_digit (drop ?k ds)"
      using 2 ds by (auto simp: list_all_iff dest: in_set_takeD in_set_dropD)
    then show ?thesis unfolding pd using 2 some [of "take ?k ds" "''.'' @ drop ?k ds"] digits by simp
  next
    case 3
    have "list_all (\<lambda>x. ascii_digit x \<or> x = CHR ''.'') (''.'' @ zeros (nat (- e) - length ds) @ ds)"
      using digits [OF z] digits [OF ds(1)] by simp
    moreover have "list_all ascii_digit ''0''" by (simp add: ascii_digit_def)
    ultimately show ?thesis unfolding pd using 3 some [of "''0''" "''.'' @ zeros (nat (- e) - length ds) @ ds"] by simp
  qed
qed

lemma strip_none: "list_all (\<lambda>c. \<not> space_char c) s \<Longrightarrow> strip_space s = s"
proof -
  have "list_all (\<lambda>c. \<not> space_char c) s \<Longrightarrow> dropWhile space_char s = s" for s by (cases s) auto
  then show "list_all (\<lambda>c. \<not> space_char c) s \<Longrightarrow> strip_space s = s"
    by (simp add: strip_of_def lstrip_of_def rstrip_of_def)
qed

lemma number_chars:
  "ascii_digit c \<Longrightarrow> \<not> space_char c \<and> c \<noteq> CHR ''_'' \<and> c \<noteq> CHR ''-'' \<and> c \<noteq> CHR ''+''
    \<and> lower_ascii c \<noteq> CHR ''i'' \<and> lower_ascii c \<noteq> CHR ''n'' \<and> lower_ascii c \<noteq> CHR ''s''"
  "\<not> space_char (CHR ''.'')" "\<not> space_char (CHR ''-'')"
proof -
  have "\<forall>c \<in> set ''0123456789''. \<not> space_char c \<and> c \<noteq> CHR ''_'' \<and> c \<noteq> CHR ''-'' \<and> c \<noteq> CHR ''+''
    \<and> lower_ascii c \<noteq> CHR ''i'' \<and> lower_ascii c \<noteq> CHR ''n'' \<and> lower_ascii c \<noteq> CHR ''s''"
    by code_simp
  then show "ascii_digit c \<Longrightarrow> \<not> space_char c \<and> c \<noteq> CHR ''_'' \<and> c \<noteq> CHR ''-'' \<and> c \<noteq> CHR ''+''
    \<and> lower_ascii c \<noteq> CHR ''i'' \<and> lower_ascii c \<noteq> CHR ''n'' \<and> lower_ascii c \<noteq> CHR ''s''"
    unfolding ascii_digit_def by blast
  show "\<not> space_char (CHR ''.'')" "\<not> space_char (CHR ''-'')" by code_simp+
qed

lemma Decimal_plain: "Decimal (sign_text s @ plain_digits c e) = Some (Fin s (c * 10 ^ nat e) (if e < 0 then e else 0))"
proof -
  obtain d ds where d: "plain_digits c e = d # ds" "ascii_digit d" "list_all (\<lambda>x. ascii_digit x \<or> x = CHR ''.'') ds"
    using plain_digits_chars by blast
  have "list_all (\<lambda>x. \<not> space_char x) (sign_text s @ d # ds)"
    using d number_chars by (auto simp: sign_text_def list_all_iff)
  note strip = strip_none [OF this]
  have "filter (\<lambda>c. c \<noteq> CHR ''_'') (sign_text s @ d # ds) = sign_text s @ d # ds"
    using d number_chars by (auto simp: sign_text_def list_all_iff filter_id_conv)
  moreover have "take_sign (sign_text s @ d # ds) = (s, d # ds)"
    using number_chars(1) [OF d(2)] by (simp add: take_sign_def sign_text_def)
  moreover have "map lower_ascii (d # ds) \<notin> {''inf'', ''infinity'', ''nan'', ''snan''}"
    using number_chars(1) [OF d(2)] by auto
  ultimately show ?thesis
    using plain_digits_read [of s c e] strip by (auto simp: Decimal_def d(1) [symmetric] simp del: list.map)
qed

lemma Decimal_format: "\<exists>d. Decimal (format_f s c e) = Some d \<and> dec_value d = dec_value (Fin s c e)"
proof (cases "c = 0 \<and> 0 < e")
  case True
  have "plain_digits 0 0 = ''0''" by (simp add: plain_digits_def zeros_def dec_nat.simps digit_def)
  then show ?thesis using Decimal_plain [of s 0 0] True by (simp add: format_f_def signed_def)
next
  case False
  have "of_int (signed s (c * 10 ^ nat e)) * ten_pow (if e < 0 then e else 0) = dec_value (Fin s c e)"
    by (cases "e < 0") (simp_all add: signed_def ten_pow_def)
  moreover have "format_f s c e = sign_text s @ plain_digits c e" using False by (auto simp: format_f_def)
  ultimately show ?thesis using Decimal_plain [of s c e] by simp
qed

lemma amount_text_read:
  assumes "amount_text v = Inr t"
  shows "\<exists>d. Decimal t = Some d \<and> dec_value d = amount_value v"
proof -
  obtain s c e where x: "exact_amount v = Inr (s, c, e)" "t = format_f s c e"
    using assms by (auto simp: amount_text_def rbind_Inr_iff)
  then show ?thesis using Decimal_format [of s c e] exact_amountD(2) [OF x(1)] by simp
qed

lemma amount_text_eq:
  assumes "amount_text a = Inr s" "amount_text b = Inr t"
  shows "s = t \<longleftrightarrow> amount_value a = amount_value b"
proof
  assume "s = t"
  then show "amount_value a = amount_value b" using amount_text_read [OF assms(1)] amount_text_read [OF assms(2)] by auto
next
  assume eq: "amount_value a = amount_value b"
  obtain x y where "exact_amount a = Inr x" "exact_amount b = Inr y" "s = (case x of (s, c, e) \<Rightarrow> format_f s c e)"
    "t = (case y of (s, c, e) \<Rightarrow> format_f s c e)"
    using assms by (auto simp: amount_text_def rbind_Inr_iff)
  moreover have "x = y"
    using exact_amountD [of a "fst x" "fst (snd x)" "snd (snd x)"] exact_amountD [of b "fst y" "fst (snd y)" "snd (snd y)"]
      canonical_amount_unique [of "fst x" "fst (snd x)" "snd (snd x)" "fst y" "fst (snd y)" "snd (snd y)"] calculation(1,2) eq
    by (simp add: prod_eq_iff)
  ultimately show "s = t" by simp
qed

text \<open>
  C20. Printing an amount loses nothing: the text of an accepted amount, read back, has its exact value.
\<close>

theorem amount_text_roundtrip:
  assumes "amount_text v = Inr t"
  shows "\<exists>d. Decimal t = Some d \<and> dec_value d = amount_value v"
  using assms by (rule amount_text_read)

lemma example_amounts:
  "amount_text (MDec (Fin False 1200 (- 2))) = Inr ''12''" "amount_text (MInt 12) = Inr ''12''"
  "amount_text (MStr ''12'') = Inr ''12''"
proof -
  have "strip_zeros 1200 (- 2) = (12, 0)" "strip_zeros 12 0 = (12, 0)" by (simp_all add: strip_zeros_steps)
  then show "amount_text (MDec (Fin False 1200 (- 2))) = Inr ''12''"
    by (simp add: amount_text_def exact_amount_def read_amount_def dec_nat_numerals format_f_def plain_digits_def
        sign_text_def zeros_def digit_def signed_def ten_pow_def)
  have "Decimal (sign_text False @ plain_digits 12 0) = Some (Fin False (12 * 10 ^ nat 0) (if (0 :: int) < 0 then 0 else 0))"
    by (rule Decimal_plain)
  then have "Decimal ''12'' = Some (Fin False 12 0)"
    by (simp add: sign_text_def plain_digits_def dec_nat_numerals digit_def zeros_def)
  then have "decimal_token ''12'' = Inr (Fin False 12 0)"
    by (simp add: decimal_token_def number_exponent_def p_int_def p_frac_def p_exp_def p_digits_def ascii_digit_def)
  then have "read_amount (MInt 12) = Inr (Fin False 12 0)" "read_amount (MStr ''12'') = Inr (Fin False 12 0)"
    by (simp_all add: read_amount_def dec_int_def dec_nat_numerals digit_def)
  then show "amount_text (MInt 12) = Inr ''12''" "amount_text (MStr ''12'') = Inr ''12''"
    using \<open>strip_zeros 12 0 = (12, 0)\<close>
    by (simp_all add: amount_text_def exact_amount_def dec_nat_numerals format_f_def plain_digits_def
        sign_text_def zeros_def digit_def signed_def ten_pow_def)
qed

theorem amount_text_roundtrip_witness:
  "\<exists>d. Decimal ''12'' = Some d \<and> dec_value d = amount_value (MInt 12)"
  by (rule amount_text_roundtrip [OF example_amounts(2)])

text \<open>
  C19. Amounts have one identity: two accepted amounts, however spelled, print alike exactly when they
  are the same amount of money.
\<close>

theorem money_identity:
  assumes "amount_text a = Inr s" "amount_text b = Inr t"
  shows "s = t \<longleftrightarrow> amount_value a = amount_value b"
  using assms by (rule amount_text_eq)

theorem money_identity_witness: "amount_value (MDec (Fin False 1200 (- 2))) = amount_value (MInt 12)"
  using money_identity [OF example_amounts(1,2)] by simp

section \<open>The fingerprint ignores only the spelling of amounts\<close>

definition same_up_to_money :: "json \<Rightarrow> json \<Rightarrow> bool" where
  "same_up_to_money r r' \<longleftrightarrow> (\<exists>ms x y. r = JObj (alist_set ''Award Amount'' x ms) \<and> r' = JObj (alist_set ''Award Amount'' y ms)
     \<and> is_ok (amount_text (money_of x)) \<and> is_ok (amount_text (money_of y))
     \<and> amount_value (money_of x) = amount_value (money_of y))"

lemma alist_set_twice [simp]: "alist_set k v (alist_set k u xs) = alist_set k v xs"
  by (induction k u xs rule: alist_set.induct) auto

lemma canonical_row_same: "same_up_to_money r r' \<Longrightarrow> canonical_row r = canonical_row r'"
proof -
  assume "same_up_to_money r r'"
  then obtain ms x y a b where r: "r = JObj (alist_set ''Award Amount'' x ms)" "r' = JObj (alist_set ''Award Amount'' y ms)"
    "amount_text (money_of x) = Inr a" "amount_text (money_of y) = Inr b" "amount_value (money_of x) = amount_value (money_of y)"
    by (auto simp: same_up_to_money_def is_ok_iff)
  then have "a = b" using amount_text_eq by metis
  then show ?thesis using r by (simp add: canonical_row_def map_of_alist_set)
qed

text \<open>
  Only the spelling of amounts is normalised away: responses whose rows agree up to the spelling of
  equal amounts have the same fingerprint.
\<close>

theorem fingerprint_ignores_spelling:
  assumes "list_all2 same_up_to_money rows rows'"
  shows "response_fingerprint w (JObj (alist_set ''results'' (JList rows) ms))
    = response_fingerprint w (JObj (alist_set ''results'' (JList rows') ms))"
proof -
  have "each_ok canonical_row rows = each_ok canonical_row rows'"
    using assms by (induction rule: list_all2_induct) (simp_all add: canonical_row_same)
  then show ?thesis by (simp add: response_fingerprint_def canonical_response_def map_of_alist_set)
qed

theorem fingerprint_ignores_spelling_witness:
  "response_fingerprint example_libs (JObj [(''results'', JList [JObj [(''Award Amount'', JInt 12)]])])
   = response_fingerprint example_libs (JObj [(''results'', JList [JObj [(''Award Amount'', JStr ''12'')]])])"
proof -
  have "amount_value (MInt 12) = amount_value (MStr ''12'')"
    using amount_text_eq [OF example_amounts(2,3)] by simp
  then have "same_up_to_money (JObj [(''Award Amount'', JInt 12)]) (JObj [(''Award Amount'', JStr ''12'')])"
    unfolding same_up_to_money_def
    by (intro exI [of _ "[]"] exI [of _ "JInt 12"] exI [of _ "JStr ''12''"]) (simp add: example_amounts)
  then show ?thesis using fingerprint_ignores_spelling [of _ _ example_libs "[]"] by simp
qed

end
