(* ===== verification/PgHistory.thy ===== *)
theory PgHistory
  imports LocalJournal
begin

text \<open>
  \<open>audit/postgres_history.py\<close>: the pure validation of a PostgreSQL ledger. A ledger is a list of rows of
  six columns; replay checks each row against the one before, reads its event back, checks the event
  against the call protocol and projects the state of the ledger. Every failure is \<open>LocalHold\<close>, of which
  only the code is kept here; a missing key, an operand of the wrong type and a number out of the range of
  a float end as \<open>HISTORY_INVALID\<close> too. A lookup of a missing key gives \<open>JNull\<close>: each is preceded by the
  check of the exact key set.
\<close>

section \<open>The vocabulary of the events\<close>

definition MAX_PAYLOAD_BYTES :: nat where "MAX_PAYLOAD_BYTES = 16384"

definition DECISIONS :: "json list" where
  "DECISIONS = map JStr [''PERMIT'', ''DENY'', ''REVIEW_REQUIRED'']"

definition DISPATCH_STATES :: "json list" where
  "DISPATCH_STATES = map JStr [''NOT_DISPATCHED'', ''DISPATCH_ATTEMPTED'', ''REQUEST_CONFIRMED'', ''DISPATCH_UNKNOWN'']"

definition RESPONSE_STATES :: "json list" where
  "RESPONSE_STATES = map JStr [''NO_RESPONSE'', ''RESPONSE_RECEIVED'', ''TRANSPORT_ERROR'']"

definition NEXT_ACTIONS :: "json list" where
  "NEXT_ACTIONS = map JStr [''NONE'', ''RETRY_BLOCKED'', ''HUMAN_REVIEW_REQUIRED'', ''STOP'']"

definition COMMON :: "string list" where
  "COMMON = [''kind'', ''domain_key'', ''epoch'', ''owner_id'', ''instance'', ''source_revision'',
     ''source_sha256'', ''time'']"

definition FIELDS :: "(string \<times> string list) list" where
  "FIELDS = [
     (''boot'', []),
     (''close'', []),
     (''begin'', [''request_id'', ''context'']),
     (''policy'', [''request_id'', ''initial_decision'', ''reasons'', ''binding_issued'', ''binding_issuance_error'']),
     (''intent'', [''request_id'', ''context'', ''authority'', ''containment_denials'', ''dispatch_state'']),
     (''finish'', [''request_id'', ''denials'', ''hold'', ''final_decision'', ''phase'', ''tool_executed'',
        ''dispatch_state'', ''response_state'', ''next_action'', ''pre_dispatch_verification'',
        ''execution_boundary_error'', ''binding_consumption'', ''attempt_metadata_available'', ''attempts'',
        ''policy_reasons'', ''error_codes'']),
     (''hold'', [''request_id'', ''reason'', ''dispatch_state'', ''response_state'', ''hold''])]"

definition CONTEXT_FIELDS :: "string list" where
  "CONTEXT_FIELDS = [''principal'', ''issuer'', ''audience'', ''session'', ''request'', ''expires_at'']"

definition AUTHORITY_FIELDS :: "string list" where
  "AUTHORITY_FIELDS = [''authority_source'', ''decision'', ''reasons'', ''policy_version'', ''binding'']"

definition BINDING_FIELDS :: "string list" where
  "BINDING_FIELDS = [''request_id'', ''tool'', ''arguments_sha256'', ''schema_sha256'', ''operation_scope'',
     ''policy_decision'', ''policy_sha256'', ''policy_facts_sha256'', ''policy_context_sha256'', ''binding_sha256'']"

definition ATTEMPT_FIELDS :: "string list" where
  "ATTEMPT_FIELDS = [''attempt'', ''max_attempts'', ''dispatch_state'', ''response_state'', ''status_code'',
     ''response_received'', ''retry_decision'']"

record ledger_state =
  ls_epoch :: int
  ls_owner :: "string option"
  ls_owner_active :: bool
  ls_denials :: int
  ls_held :: bool
  ls_sequence :: int
  ls_digest :: string
  ls_active :: "string option"
  ls_phase :: "string option"
  ls_initial :: "string option"
  ls_binding :: bool
  ls_seen :: "string set"

definition LedgerState :: ledger_state where
  "LedgerState = \<lparr>ls_epoch = 0, ls_owner = None, ls_owner_active = False, ls_denials = 0, ls_held = False,
     ls_sequence = 0, ls_digest = [], ls_active = None, ls_phase = None, ls_initial = None, ls_binding = False,
     ls_seen = {}\<rparr>"

section \<open>Checks of values\<close>

abbreviation fld :: "json \<Rightarrow> string \<Rightarrow> json" where "fld v k \<equiv> jget_or JNull k v"

definition canonical_event :: "json \<Rightarrow> string + string" where
  "canonical_event v = (case dumps True v of None \<Rightarrow> Inl ''HISTORY_SERIALIZATION_INVALID'' | Some s \<Rightarrow> Inr s)"

definition event_digest :: "libs \<Rightarrow> json \<Rightarrow> json \<Rightarrow> string + string" where
  "event_digest w previous payload = (case (previous, payload) of
      (JStr d, JStr p) \<Rightarrow> Inr (sha256 w (d @ p)) | _ \<Rightarrow> Inl ''HISTORY_INVALID'')"

fun ledger_text_ok :: "nat \<Rightarrow> json \<Rightarrow> bool" where
  "ledger_text_ok m (JStr s) = (0 < length s \<and> length s \<le> m)"
| "ledger_text_ok m _ = False"

fun sha_ok :: "nat \<Rightarrow> json \<Rightarrow> bool" where
  "sha_ok n (JStr s) = is_hex n s"
| "sha_ok n _ = False"

fun integer_ok :: "int \<Rightarrow> json \<Rightarrow> bool" where
  "integer_ok m (JInt i) = (m \<le> i)"
| "integer_ok m _ = False"

fun code_ok :: "json \<Rightarrow> bool" where
  "code_ok (JStr s) = (0 < length s \<and> length s \<le> 128 \<and> ascii_upper (hd s)
     \<and> list_all (\<lambda>c. ascii_upper c \<or> ascii_digit c \<or> c = CHR ''_'') s)"
| "code_ok _ = False"

definition nullable_code_ok :: "json \<Rightarrow> bool" where
  "nullable_code_ok v \<longleftrightarrow> v = JNull \<or> code_ok v"

fun codes_ok :: "json \<Rightarrow> bool" where
  "codes_ok (JList vs) = (length vs \<le> 128 \<and> list_all code_ok vs)"
| "codes_ok _ = False"

text \<open>The event's time: \<open>math.isfinite\<close> raises on an integer that no float can approximate.\<close>

fun event_time :: "json \<Rightarrow> rat option" where
  "event_time (JInt i) = (if \<bar>i\<bar> < 2 ^ 1024 - 2 ^ 970 then Some (of_int i) else None)"
| "event_time (JNum q s) = Some q"
| "event_time _ = None"

definition ledger_context_ok :: "json \<Rightarrow> json \<Rightarrow> rat \<Rightarrow> bool" where
  "ledger_context_ok v domain t \<longleftrightarrow>
     same_keys v CONTEXT_FIELDS
     \<and> list_all (\<lambda>k. py_eq (fld v k) (fld domain k)) [''principal'', ''issuer'', ''audience'']
     \<and> list_all (\<lambda>k. ledger_text_ok 128 (fld v k)) [''session'', ''request'']
     \<and> integer_ok 1 (fld v ''expires_at'')
     \<and> t < of_int (the (as_int (fld v ''expires_at'')))"

definition ends_sha256 :: "string \<Rightarrow> bool" where
  "ends_sha256 k \<longleftrightarrow> drop (length k - 7) k = ''_sha256''"

definition ledger_authority_ok :: "json \<Rightarrow> json \<Rightarrow> json \<Rightarrow> bool" where
  "ledger_authority_ok v rid rs \<longleftrightarrow>
     same_keys v AUTHORITY_FIELDS
     \<and> fld v ''authority_source'' = JStr ''DETERMINISTIC_POLICY_GATE''
     \<and> fld v ''decision'' = JStr ''PERMIT'' \<and> fld v ''policy_version'' = JStr POLICY_VERSION
     \<and> codes_ok (fld v ''reasons'') \<and> py_eq (fld v ''reasons'') rs
     \<and> (let binding = fld v ''binding'' in
        same_keys binding BINDING_FIELDS
        \<and> py_eq (fld binding ''request_id'') rid
        \<and> fld binding ''tool'' \<in> set (map (JStr \<circ> fst) TOOLS)
        \<and> fld binding ''operation_scope'' = JStr OPERATION_SCOPE
        \<and> fld binding ''policy_decision'' = JStr ''PERMIT''
        \<and> list_all (\<lambda>k. ends_sha256 k \<longrightarrow> sha_ok 64 (fld binding k)) BINDING_FIELDS)"

definition attempt_ok :: "json \<Rightarrow> bool" where
  "attempt_ok a \<longleftrightarrow>
     same_keys a ATTEMPT_FIELDS
     \<and> fld a ''attempt'' = JInt 1 \<and> fld a ''max_attempts'' = JInt 1
     \<and> fld a ''dispatch_state'' \<in> set DISPATCH_STATES - {JStr ''NOT_DISPATCHED''}
     \<and> fld a ''response_state'' \<in> set RESPONSE_STATES
     \<and> is_bool (fld a ''response_received'')
     \<and> fld a ''response_received'' = JBool (fld a ''response_state'' = JStr ''RESPONSE_RECEIVED'')
     \<and> fld a ''retry_decision'' \<in> {JStr ''NONE'', JStr ''RETRY_BLOCKED''}
     \<and> (if fld a ''response_received'' = JBool True
        then (case fld a ''status_code'' of JInt i \<Rightarrow> 100 \<le> i \<and> i \<le> 599 | _ \<Rightarrow> False)
        else fld a ''status_code'' = JNull)"

definition attempts_ok :: "json \<Rightarrow> json \<Rightarrow> bool" where
  "attempts_ok v avail \<longleftrightarrow> (case v of
      JList vs \<Rightarrow> length vs \<le> 1 \<and> avail = JBool (vs \<noteq> []) \<and> list_all attempt_ok vs
    | _ \<Rightarrow> False)"

section \<open>The events\<close>

text \<open>The variables of the replay loop; \<open>None\<close> from a step is a failed check.\<close>

record replay_vars =
  rv_state :: ledger_state
  rv_kind :: "string option"
  rv_instance :: json
  rv_context :: json
  rv_reasons :: json

definition ev_boot :: "json \<Rightarrow> replay_vars \<Rightarrow> replay_vars option" where
  "ev_boot event rv = (let s = rv_state rv in
     if rv_kind rv \<in> {Some ''provision'', Some ''close''}
        \<and> \<not> ls_held s \<and> \<not> ls_owner_active s \<and> ls_active s = None
        \<and> fld event ''epoch'' = JInt (ls_epoch s + 1)
     then Some (rv\<lparr>rv_state := s\<lparr>ls_epoch := ls_epoch s + 1, ls_owner := as_str (fld event ''owner_id''),
                                  ls_owner_active := True\<rparr>,
                   rv_instance := fld event ''instance''\<rparr>)
     else None)"

definition ev_close :: "replay_vars \<Rightarrow> replay_vars option" where
  "ev_close rv = (let s = rv_state rv in
     if ls_active s = None
     then Some (rv\<lparr>rv_state := s\<lparr>ls_owner := None, ls_owner_active := False\<rparr>\<rparr>)
     else None)"

definition ev_begin :: "json \<Rightarrow> rat \<Rightarrow> json \<Rightarrow> json \<Rightarrow> replay_vars \<Rightarrow> replay_vars option" where
  "ev_begin domain t event rid rv = (let s = rv_state rv in
     if ls_active s = None \<and> ledger_text_ok 128 rid \<and> the (as_str rid) \<notin> ls_seen s
        \<and> ledger_context_ok (fld event ''context'') domain t
     then Some (rv\<lparr>rv_context := fld event ''context'',
                   rv_state := s\<lparr>ls_active := as_str rid, ls_phase := Some ''begin'',
                                  ls_seen := insert (the (as_str rid)) (ls_seen s)\<rparr>\<rparr>)
     else None)"

definition ev_hold :: "json \<Rightarrow> json \<Rightarrow> replay_vars \<Rightarrow> replay_vars option" where
  "ev_hold event rid rv = (let s = rv_state rv in
     if rid = opt_str (ls_active s)
        \<and> fld event ''reason'' = JStr ''INCOMPLETE_CALL'' \<and> fld event ''hold'' = JBool True
        \<and> fld event ''dispatch_state'' = JStr ''DISPATCH_UNKNOWN''
        \<and> fld event ''response_state'' = JStr ''TRANSPORT_ERROR''
     then Some (rv\<lparr>rv_state := s\<lparr>ls_held := True\<rparr>\<rparr>)
     else None)"

definition ev_policy :: "json \<Rightarrow> replay_vars \<Rightarrow> replay_vars option" where
  "ev_policy event rv = (let s = rv_state rv in
     if ls_phase s = Some ''begin''
        \<and> fld event ''initial_decision'' \<in> set DECISIONS
        \<and> codes_ok (fld event ''reasons'')
        \<and> is_bool (fld event ''binding_issued'')
        \<and> nullable_code_ok (fld event ''binding_issuance_error'')
        \<and> (fld event ''initial_decision'' = JStr ''PERMIT'' \<or> fld event ''binding_issued'' \<noteq> JBool True)
        \<and> (fld event ''binding_issued'' \<noteq> JBool True \<or> fld event ''binding_issuance_error'' = JNull)
     then Some (rv\<lparr>rv_reasons := fld event ''reasons'',
                   rv_state := s\<lparr>ls_phase := Some ''policy'', ls_initial := as_str (fld event ''initial_decision''),
                                  ls_binding := (fld event ''binding_issued'' = JBool True)\<rparr>\<rparr>)
     else None)"

definition ev_intent :: "json \<Rightarrow> rat \<Rightarrow> json \<Rightarrow> json \<Rightarrow> replay_vars \<Rightarrow> replay_vars option" where
  "ev_intent domain t event rid rv = (let s = rv_state rv in
     if ls_phase s = Some ''policy''
        \<and> ls_initial s = Some ''PERMIT'' \<and> ls_binding s
        \<and> ledger_context_ok (fld event ''context'') domain t
        \<and> py_eq (fld event ''context'') (rv_context rv)
        \<and> integer_ok 0 (fld event ''containment_denials'')
        \<and> fld event ''containment_denials'' = JInt (ls_denials s)
        \<and> fld event ''dispatch_state'' = JStr ''NOT_DISPATCHED''
        \<and> ledger_authority_ok (fld event ''authority'') rid (rv_reasons rv)
     then Some (rv\<lparr>rv_state := s\<lparr>ls_phase := Some ''intent''\<rparr>\<rparr>)
     else None)"

text \<open>\<open>_finish\<close>: the shape of the event, then the two cases: the tool was executed, or it was not.\<close>

definition consumption :: "(json \<times> json) list" where
  "consumption = [(JStr ''PASS'', JStr ''VERIFIED''), (JStr ''FAIL'', JStr ''NOT_ESTABLISHED''),
     (JStr ''NOT_REQUIRED'', JStr ''NOT_REQUIRED'')]"

definition finish_shape_ok :: "ledger_state \<Rightarrow> json \<Rightarrow> bool" where
  "finish_shape_ok s event \<longleftrightarrow>
     ls_phase s \<in> {Some ''policy'', Some ''intent''}
     \<and> list_all (\<lambda>k. is_bool (fld event k)) [''hold'', ''tool_executed'', ''attempt_metadata_available'']
     \<and> integer_ok 0 (fld event ''denials'') \<and> ls_denials s \<le> the (as_int (fld event ''denials''))
     \<and> fld event ''final_decision'' \<in> set DECISIONS
     \<and> fld event ''dispatch_state'' \<in> set DISPATCH_STATES
     \<and> fld event ''response_state'' \<in> set RESPONSE_STATES
     \<and> fld event ''next_action'' \<in> set NEXT_ACTIONS
     \<and> map_of consumption (fld event ''pre_dispatch_verification'') = Some (fld event ''binding_consumption'')
     \<and> nullable_code_ok (fld event ''execution_boundary_error'')
     \<and> codes_ok (fld event ''policy_reasons'') \<and> codes_ok (fld event ''error_codes'')
     \<and> attempts_ok (fld event ''attempts'') (fld event ''attempt_metadata_available'')
     \<and> (fld event ''attempt_metadata_available'' = JBool True \<longrightarrow>
          (let final_attempt = last (the (as_list (fld event ''attempts''))) in
             fld event ''response_state'' = fld final_attempt ''response_state''
             \<and> (fld event ''dispatch_state'' = fld final_attempt ''dispatch_state''
                 \<or> fld event ''dispatch_state'' = JStr ''DISPATCH_UNKNOWN'')))
     \<and> fld event ''phase'' = JStr (if fld event ''tool_executed'' = JBool True then ''post_dispatch'' else ''pre_dispatch'')"

definition finish_unknown :: "json \<Rightarrow> bool" where
  "finish_unknown event \<longleftrightarrow>
     fld event ''attempt_metadata_available'' \<noteq> JBool True
     \<or> fld event ''dispatch_state'' \<noteq> JStr ''REQUEST_CONFIRMED''
     \<or> fld event ''response_state'' \<noteq> JStr ''RESPONSE_RECEIVED''
     \<or> list_ex (\<lambda>a. fld a ''dispatch_state'' = JStr ''DISPATCH_UNKNOWN''
                     \<or> fld a ''response_state'' = JStr ''TRANSPORT_ERROR'') (the (as_list (fld event ''attempts'')))"

definition finish_executed_ok :: "ledger_state \<Rightarrow> json \<Rightarrow> bool" where
  "finish_executed_ok s event \<longleftrightarrow>
     ls_phase s = Some ''intent'' \<and> ls_initial s = Some ''PERMIT''
     \<and> ls_binding s \<and> fld event ''pre_dispatch_verification'' = JStr ''PASS''
     \<and> fld event ''execution_boundary_error'' = JNull
     \<and> (finish_unknown event \<longrightarrow>
          fld event ''hold'' = JBool True \<and> fld event ''dispatch_state'' = JStr ''DISPATCH_UNKNOWN''
          \<and> fld event ''next_action'' = JStr ''HUMAN_REVIEW_REQUIRED'')"

definition finish_withheld_ok :: "ledger_state \<Rightarrow> json \<Rightarrow> bool" where
  "finish_withheld_ok s event \<longleftrightarrow>
     fld event ''dispatch_state'' = JStr ''NOT_DISPATCHED''
     \<and> fld event ''response_state'' = JStr ''NO_RESPONSE''
     \<and> fld event ''attempt_metadata_available'' \<noteq> JBool True \<and> \<not> truthy (fld event ''attempts'')
     \<and> fld event ''pre_dispatch_verification'' \<noteq> JStr ''PASS''
     \<and> (ls_initial s \<noteq> Some ''PERMIT'' \<or> fld event ''pre_dispatch_verification'' = JStr ''FAIL'')
     \<and> (fld event ''pre_dispatch_verification'' = JStr ''FAIL'' \<longrightarrow> fld event ''execution_boundary_error'' \<noteq> JNull)
     \<and> (ls_initial s \<noteq> Some ''PERMIT'' \<longrightarrow> fld event ''final_decision'' = opt_str (ls_initial s))"

definition ev_finish :: "json \<Rightarrow> replay_vars \<Rightarrow> replay_vars option" where
  "ev_finish event rv = (let s = rv_state rv in
     if finish_shape_ok s event
        \<and> (if fld event ''tool_executed'' = JBool True then finish_executed_ok s event else finish_withheld_ok s event)
     then Some (rv\<lparr>rv_state := s\<lparr>ls_denials := the (as_int (fld event ''denials'')),
                                  ls_held := ls_held s \<or> fld event ''hold'' = JBool True, ls_active := None,
                                  ls_phase := None, ls_initial := None, ls_binding := False\<rparr>,
                   rv_context := JNull, rv_reasons := JList []\<rparr>)
     else None)"

text \<open>The events of a provisioned ledger, after the checks of the fields they share.\<close>

definition ev_step :: "json \<Rightarrow> rat \<Rightarrow> string \<Rightarrow> json \<Rightarrow> json \<Rightarrow> replay_vars \<Rightarrow> replay_vars option" where
  "ev_step domain t k event rid rv = (let s = rv_state rv in
     if k = ''boot'' then ev_boot event rv
     else if ls_owner_active s \<and> fld event ''epoch'' = JInt (ls_epoch s)
        \<and> fld event ''owner_id'' = opt_str (ls_owner s) \<and> py_eq (fld event ''instance'') (rv_instance rv)
        \<and> (\<not> ls_held s \<or> k = ''hold'')
     then (if k = ''close'' then ev_close rv
       else if k = ''begin'' then ev_begin domain t event rid rv
       else if k = ''hold'' then ev_hold event rid rv
       else if ls_active s \<noteq> None \<and> rid = opt_str (ls_active s)
       then (if k = ''policy'' then ev_policy event rv
         else if k = ''intent'' then ev_intent domain t event rid rv
         else if k = ''finish'' then ev_finish event rv
         else Some rv)
       else None)
     else None)"

section \<open>Replay\<close>

record ledger_source =
  src_key :: string
  src_domain :: json
  src_revision :: string
  src_sha :: string

definition ledger_provision :: "ledger_source \<Rightarrow> json" where
  "ledger_provision c = JObj [(''kind'', JStr ''provision''), (''domain'', src_domain c),
     (''source_revision'', JStr (src_revision c)), (''source_sha256'', JStr (src_sha c)), (''version'', JInt 1)]"

text \<open>One event after its row has been read: the provisioning event is the first and only the first.\<close>

definition ledger_event :: "ledger_source \<Rightarrow> int \<Rightarrow> string \<Rightarrow> json \<Rightarrow> json \<Rightarrow> replay_vars \<Rightarrow> replay_vars option" where
  "ledger_event c sq k rid event rv =
     (if sq = 1 then
        (if rid = JNull \<and> is_int (fld event ''version'') \<and> py_eq event (ledger_provision c)
         then Some rv else None)
      else (case map_of FIELDS k of None \<Rightarrow> None
        | Some fs \<Rightarrow>
           (case event_time (fld event ''time'') of None \<Rightarrow> None
            | Some t \<Rightarrow>
               if same_keys event (COMMON @ fs)
                  \<and> fld event ''domain_key'' = JStr (src_key c)
                  \<and> fld event ''source_revision'' = JStr (src_revision c)
                  \<and> fld event ''source_sha256'' = JStr (src_sha c)
                  \<and> integer_ok 1 (fld event ''epoch'') \<and> ledger_text_ok 128 (fld event ''owner_id'')
                  \<and> ledger_text_ok 256 (fld event ''instance'')
                  \<and> py_eq rid (fld event ''request_id'')
               then ev_step (src_domain c) t k event rid rv else None)))"

definition replay_row :: "libs \<Rightarrow> ledger_source \<Rightarrow> json list \<Rightarrow> replay_vars \<Rightarrow> string + replay_vars" where
  "replay_row w c row rv = (case row of
     [sq, k, rid, payload, previous, dg] \<Rightarrow>
       (case (sq, k, payload) of (JInt n, JStr kd, JStr p) \<Rightarrow>
          if 1 \<le> n \<and> n = ls_sequence (rv_state rv) + 1 \<and> utf8_length p \<le> MAX_PAYLOAD_BYTES
             \<and> previous = JStr (ls_digest (rv_state rv)) \<and> sha_ok 64 dg
             \<and> event_digest w previous payload = Inr (the (as_str dg))
          then (case json_loads (float_of w) p of
              None \<Rightarrow> Inl ''HISTORY_INVALID''
            | Some event \<Rightarrow>
               if \<not> is_obj event then Inl ''HISTORY_INVALID''
               else rbind (canonical_event event) (\<lambda>text.
                 if text = p \<and> fld event ''kind'' = JStr kd
                 then (case ledger_event c n kd rid event rv of
                     None \<Rightarrow> Inl ''HISTORY_INVALID''
                   | Some rv' \<Rightarrow> Inr (rv'\<lparr>rv_state := rv_state rv'\<lparr>ls_sequence := n, ls_digest := the (as_str dg)\<rparr>,
                                        rv_kind := Some kd\<rparr>))
                 else Inl ''HISTORY_INVALID''))
          else Inl ''HISTORY_INVALID''
        | _ \<Rightarrow> Inl ''HISTORY_INVALID'')
   | _ \<Rightarrow> Inl ''HISTORY_INVALID'')"

fun replay_rows :: "libs \<Rightarrow> ledger_source \<Rightarrow> json list list \<Rightarrow> replay_vars \<Rightarrow> string + replay_vars" where
  "replay_rows w c [] rv = Inr rv"
| "replay_rows w c (r # rs) rv = rbind (replay_row w c r rv) (replay_rows w c rs)"

definition replay_start :: replay_vars where
  "replay_start = \<lparr>rv_state = LedgerState, rv_kind = None, rv_instance = JNull, rv_context = JNull, rv_reasons = JList []\<rparr>"

definition domain_ok :: "json \<Rightarrow> bool" where
  "domain_ok d \<longleftrightarrow> same_keys d [''issuer'', ''audience'', ''principal'', ''service_identity'']
     \<and> list_all (\<lambda>k. ledger_text_ok 256 (fld d k)) (jkeys d)
     \<and> fld d ''principal'' \<noteq> fld d ''service_identity''"

definition replay_ledger :: "libs \<Rightarrow> json list list \<Rightarrow> ledger_source \<Rightarrow> string + ledger_state" where
  "replay_ledger w rows c =
     (if rows \<noteq> [] \<and> length rows \<le> MAX_EVENTS
         \<and> is_hex 64 (src_key c) \<and> is_hex 40 (src_revision c) \<and> is_hex 64 (src_sha c) \<and> domain_ok (src_domain c)
      then rbind (canonical_event (src_domain c)) (\<lambda>text.
         if src_key c = sha256 w text then rbind (replay_rows w c rows replay_start) (\<lambda>rv. Inr (rv_state rv))
         else Inl ''HISTORY_INVALID'')
      else Inl ''HISTORY_INVALID'')"

end
