(* ===== verification/PgLedger.thy ===== *)
theory PgLedger
  imports PgHistory
begin

text \<open>
  What an accepted PostgreSQL ledger promises: the facts its rows record are never undone, its state is
  one the call protocol reaches, an executed call is there whole, an outcome that is not confirmed holds
  the ledger, and the last digest pins every row.
\<close>

section \<open>What an accepted row does\<close>

lemma ev_step_cases:
  assumes "ev_step domain t k event rid rv = Some rv'" "k \<in> fst ` set FIELDS"
  obtains
    (boot) "k = ''boot''" "\<not> ls_held (rv_state rv)" "\<not> ls_owner_active (rv_state rv)" "ls_active (rv_state rv) = None"
      "rv_state rv' = (rv_state rv)\<lparr>ls_epoch := ls_epoch (rv_state rv) + 1,
         ls_owner := as_str (fld event ''owner_id''), ls_owner_active := True\<rparr>"
  | (close) "k = ''close''" "\<not> ls_held (rv_state rv)" "ls_owner_active (rv_state rv)" "ls_active (rv_state rv) = None"
      "rv_state rv' = (rv_state rv)\<lparr>ls_owner := None, ls_owner_active := False\<rparr>"
  | (begins) r where "k = ''begin''" "\<not> ls_held (rv_state rv)" "ls_owner_active (rv_state rv)"
      "ls_active (rv_state rv) = None" "rid = JStr r" "r \<notin> ls_seen (rv_state rv)"
      "ledger_context_ok (fld event ''context'') domain t" "rv_context rv' = fld event ''context''"
      "rv_state rv' = (rv_state rv)\<lparr>ls_active := Some r, ls_phase := Some ''begin'', ls_seen := insert r (ls_seen (rv_state rv))\<rparr>"
  | (hold) "k = ''hold''" "ls_owner_active (rv_state rv)" "rid = opt_str (ls_active (rv_state rv))"
      "rv_state rv' = (rv_state rv)\<lparr>ls_held := True\<rparr>"
  | (policy) r d where "k = ''policy''" "\<not> ls_held (rv_state rv)" "ls_owner_active (rv_state rv)"
      "ls_active (rv_state rv) = Some r" "rid = JStr r" "ls_phase (rv_state rv) = Some ''begin''"
      "fld event ''initial_decision'' = JStr d" "JStr d \<in> set DECISIONS"
      "fld event ''binding_issued'' = JBool True \<longrightarrow> d = ''PERMIT''"
      "rv_state rv' = (rv_state rv)\<lparr>ls_phase := Some ''policy'', ls_initial := Some d,
         ls_binding := (fld event ''binding_issued'' = JBool True)\<rparr>"
  | (intent) r where "k = ''intent''" "\<not> ls_held (rv_state rv)" "ls_owner_active (rv_state rv)"
      "ls_active (rv_state rv) = Some r" "rid = JStr r" "ls_phase (rv_state rv) = Some ''policy''"
      "ls_initial (rv_state rv) = Some ''PERMIT''" "ls_binding (rv_state rv)"
      "ledger_authority_ok (fld event ''authority'') rid (rv_reasons rv)"
      "fld event ''containment_denials'' = JInt (ls_denials (rv_state rv))"
      "rv_state rv' = (rv_state rv)\<lparr>ls_phase := Some ''intent''\<rparr>"
  | (finish) r n where "k = ''finish''" "\<not> ls_held (rv_state rv)" "ls_owner_active (rv_state rv)"
      "ls_active (rv_state rv) = Some r" "rid = JStr r" "finish_shape_ok (rv_state rv) event"
      "if fld event ''tool_executed'' = JBool True then finish_executed_ok (rv_state rv) event
       else finish_withheld_ok (rv_state rv) event"
      "fld event ''denials'' = JInt n" "ls_denials (rv_state rv) \<le> n"
      "rv_state rv' = (rv_state rv)\<lparr>ls_denials := n, ls_held := (fld event ''hold'' = JBool True),
         ls_active := None, ls_phase := None, ls_initial := None, ls_binding := False\<rparr>"
proof -
  have ks: "k = ''boot'' \<or> k = ''close'' \<or> k = ''begin'' \<or> k = ''hold'' \<or> k = ''policy'' \<or> k = ''intent'' \<or> k = ''finish''"
    using assms(2) by (auto simp: FIELDS_def)
  note defs = ev_step_def ev_boot_def ev_close_def ev_begin_def ev_hold_def ev_policy_def ev_intent_def ev_finish_def
  have str: "\<exists>r. v = JStr r" if "ledger_text_ok m v" for m v using that by (cases v) auto
  have dec: "\<exists>d. v = JStr d" if "v \<in> set DECISIONS" for v using that by (auto simp: DECISIONS_def)
  have int: "\<exists>n. fld event ''denials'' = JInt n" if "finish_shape_ok s event" for s
    using that by (cases "fld event ''denials''") (auto simp: finish_shape_ok_def)
  have den: "ls_denials s \<le> n" if "finish_shape_ok s event" "fld event ''denials'' = JInt n" for s n
    using that by (auto simp: finish_shape_ok_def)
  have act: "\<exists>r. ls_active (rv_state rv) = Some r" if "k = ''policy'' \<or> k = ''intent'' \<or> k = ''finish''"
    using that assms(1) by (auto simp: defs Let_def split: if_splits)
  from ks show thesis
  proof (elim disjE)
    assume kd: "k = ''boot''" with assms(1) show thesis by (intro boot) (auto simp: defs Let_def split: if_splits)
  next
    assume kd: "k = ''close''" with assms(1) show thesis by (intro close) (auto simp: defs Let_def split: if_splits)
  next
    assume kd: "k = ''begin''"
    with assms(1) obtain r where "rid = JStr r" using str [of 128 rid] by (auto simp: defs Let_def split: if_splits)
    with kd assms(1) show thesis by (intro begins) (auto simp: defs Let_def split: if_splits)
  next
    assume kd: "k = ''hold''" with assms(1) show thesis by (intro hold) (auto simp: defs Let_def split: if_splits)
  next
    assume kd: "k = ''policy''"
    then obtain r where r: "ls_active (rv_state rv) = Some r" using act by blast
    with kd assms(1) obtain d where "fld event ''initial_decision'' = JStr d"
      using dec [of "fld event ''initial_decision''"] by (auto simp: defs Let_def split: if_splits)
    with kd r assms(1) show thesis by (intro policy [of r d]) (auto simp: defs Let_def opt_str_def split: if_splits)
  next
    assume kd: "k = ''intent''"
    then obtain r where r: "ls_active (rv_state rv) = Some r" using act by blast
    with kd assms(1) show thesis by (intro intent [of r]) (auto simp: defs Let_def opt_str_def split: if_splits)
  next
    assume kd: "k = ''finish''"
    then obtain r where r: "ls_active (rv_state rv) = Some r" using act by blast
    with kd assms(1) obtain n where "fld event ''denials'' = JInt n" using int by (auto simp: defs Let_def split: if_splits)
    with kd r assms(1) show thesis
      by (intro finish [of r n]) (auto simp: defs Let_def opt_str_def den split: if_splits)
  qed
qed

text \<open>The event a row carries, read back from its payload.\<close>

definition row_event :: "libs \<Rightarrow> json list \<Rightarrow> json" where
  "row_event w row = the (json_loads (float_of w) (the (as_str (row ! 3))))"

lemma ledger_event_later:
  assumes "ledger_event c n k rid event rv = Some rv'" "n \<noteq> 1"
  obtains t where "ev_step (src_domain c) t k event rid rv = Some rv'" "k \<in> fst ` set FIELDS"
    "py_eq rid (fld event ''request_id'')" "event_time (fld event ''time'') = Some t"
proof -
  have "k \<in> fst ` set FIELDS" if "map_of FIELDS k = Some x" for x
    using that by (metis map_of_eq_None_iff option.distinct(1))
  then show thesis using assms by (auto simp: ledger_event_def split: if_splits option.splits intro: that)
qed

lemma replay_row_cases:
  assumes "replay_row w c row rv = Inr rv'"
  obtains k rid p event rv1 where
    "row = [JInt (ls_sequence (rv_state rv) + 1), JStr k, rid, JStr p, JStr (ls_digest (rv_state rv)),
            JStr (sha256 w (ls_digest (rv_state rv) @ p))]"
    "json_loads (float_of w) p = Some event" "dumps True event = Some p" "fld event ''kind'' = JStr k" "is_obj event"
    "ledger_event c (ls_sequence (rv_state rv) + 1) k rid event rv = Some rv1"
    "rv' = rv1\<lparr>rv_state := rv_state rv1\<lparr>ls_sequence := ls_sequence (rv_state rv) + 1,
              ls_digest := sha256 w (ls_digest (rv_state rv) @ p)\<rparr>, rv_kind := Some k\<rparr>"
    "row_event w row = event" "utf8_length p \<le> MAX_PAYLOAD_BYTES" "is_hex 64 (sha256 w (ls_digest (rv_state rv) @ p))"
proof -
  obtain sq kd rid payload previous dg where row: "row = [sq, kd, rid, payload, previous, dg]"
    using assms by (auto simp: replay_row_def split: list.splits)
  obtain n k p where t: "sq = JInt n" "kd = JStr k" "payload = JStr p"
    using assms by (auto simp: row replay_row_def split: json.splits)
  obtain dd where dd: "dg = JStr dd"
    using assms by (cases dg) (auto simp: row t replay_row_def)
  show thesis
    using assms
    by (auto simp: row t dd replay_row_def event_digest_def canonical_event_def row_event_def rbind_Inr_iff
        split: if_splits option.splits intro!: that)
qed

lemma replay_row_sequence:
  "replay_row w c row rv = Inr rv' \<Longrightarrow> ls_sequence (rv_state rv') = ls_sequence (rv_state rv) + 1"
  by (elim replay_row_cases) simp

lemma replay_start_sequence [simp]: "ls_sequence (rv_state replay_start) = 0"
  by (simp add: replay_start_def LedgerState_def)

text \<open>A row after the first, by its kind.\<close>

lemma later_row_cases:
  assumes "replay_row w c row rv = Inr rv'" "1 \<le> ls_sequence (rv_state rv)"
  obtains t k p rv1 where "ev_step (src_domain c) t k (row_event w row) (row ! 2) rv = Some rv1"
    "k \<in> fst ` set FIELDS" "row ! 1 = JStr k" "fld (row_event w row) ''kind'' = JStr k" "row ! 3 = JStr p"
    "py_eq (row ! 2) (fld (row_event w row) ''request_id'')"
    "event_time (fld (row_event w row) ''time'') = Some t"
    "rv' = rv1\<lparr>rv_state := rv_state rv1\<lparr>ls_sequence := ls_sequence (rv_state rv) + 1,
              ls_digest := sha256 w (ls_digest (rv_state rv) @ p)\<rparr>, rv_kind := Some k\<rparr>"
proof -
  obtain k rid p event rv1 where r: "row = [JInt (ls_sequence (rv_state rv) + 1), JStr k, rid, JStr p,
        JStr (ls_digest (rv_state rv)), JStr (sha256 w (ls_digest (rv_state rv) @ p))]"
    and *: "ledger_event c (ls_sequence (rv_state rv) + 1) k rid event rv = Some rv1" "row_event w row = event"
      "fld event ''kind'' = JStr k"
      "rv' = rv1\<lparr>rv_state := rv_state rv1\<lparr>ls_sequence := ls_sequence (rv_state rv) + 1,
              ls_digest := sha256 w (ls_digest (rv_state rv) @ p)\<rparr>, rv_kind := Some k\<rparr>"
    using replay_row_cases [OF assms(1)] by metis
  from assms(2) have "ls_sequence (rv_state rv) + 1 \<noteq> 1" by simp
  then obtain t where "ev_step (src_domain c) t k event rid rv = Some rv1" "k \<in> fst ` set FIELDS"
    "py_eq rid (fld event ''request_id'')" "event_time (fld event ''time'') = Some t"
    using ledger_event_later [OF *(1)] by metis
  then show thesis using * r by (intro that) simp_all
qed

lemma first_row:
  assumes "replay_row w c row replay_start = Inr rv'"
  obtains p where "rv' = replay_start\<lparr>rv_state := LedgerState\<lparr>ls_sequence := 1, ls_digest := sha256 w p\<rparr>, rv_kind := rv_kind rv'\<rparr>"
    "row ! 1 = JStr (the (rv_kind rv'))" "py_eq (row_event w row) (ledger_provision c)"
proof -
  obtain k rid p event rv1 where r: "row = [JInt (ls_sequence (rv_state replay_start) + 1), JStr k, rid, JStr p,
        JStr (ls_digest (rv_state replay_start)), JStr (sha256 w (ls_digest (rv_state replay_start) @ p))]"
    and *: "ledger_event c (ls_sequence (rv_state replay_start) + 1) k rid event replay_start = Some rv1" "row_event w row = event"
      "rv' = rv1\<lparr>rv_state := rv_state rv1\<lparr>ls_sequence := ls_sequence (rv_state replay_start) + 1,
              ls_digest := sha256 w (ls_digest (rv_state replay_start) @ p)\<rparr>, rv_kind := Some k\<rparr>"
    using replay_row_cases [OF assms] by metis
  show thesis
    using * r by (intro that [of p])
      (auto simp: replay_start_def LedgerState_def ledger_event_def split: if_splits)
qed

lemma replay_rows_snoc:
  "replay_rows w c (rs @ [r]) rv = rbind (replay_rows w c rs rv) (replay_row w c r)"
  by (induction rs arbitrary: rv) (auto simp: rbind_assoc rbind_def split: sum.splits)

lemma replay_rows_append:
  "replay_rows w c (xs @ ys) rv = rbind (replay_rows w c xs rv) (replay_rows w c ys)"
  by (induction xs arbitrary: rv) (auto simp: rbind_assoc rbind_def split: sum.splits)

text \<open>The accepted ledgers, as the rows grow: the first row provisions, each later row takes one step.\<close>

lemma accepted_induct [consumes 2, case_names provision later]:
  assumes "replay_rows w c rs replay_start = Inr rv" "rs \<noteq> []"
    and "\<And>row rv1. replay_row w c row replay_start = Inr rv1 \<Longrightarrow> P [row] rv1"
    and "\<And>xs rv1 row rv2. replay_rows w c xs replay_start = Inr rv1 \<Longrightarrow> xs \<noteq> [] \<Longrightarrow> P xs rv1 \<Longrightarrow>
      ls_sequence (rv_state rv1) = int (length xs) \<Longrightarrow> replay_row w c row rv1 = Inr rv2 \<Longrightarrow> P (xs @ [row]) rv2"
  shows "P rs rv"
proof -
  have "P rs rv \<and> ls_sequence (rv_state rv) = int (length rs)"
    using assms(1,2)
  proof (induction rs arbitrary: rv rule: rev_induct)
    case (snoc row xs)
    then obtain rv1 where rv1: "replay_rows w c xs replay_start = Inr rv1" "replay_row w c row rv1 = Inr rv"
      by (auto simp: replay_rows_snoc rbind_Inr_iff)
    show ?case
    proof (cases "xs = []")
      case True
      with rv1 have r: "replay_row w c row replay_start = Inr rv" by simp
      then show ?thesis using assms(3) [OF r] replay_row_sequence [OF r] True by simp
    next
      case False
      with snoc rv1 have *: "P xs rv1" "ls_sequence (rv_state rv1) = int (length xs)" by auto
      have "ls_sequence (rv_state rv) = ls_sequence (rv_state rv1) + 1"
        by (rule replay_row_sequence [OF rv1(2)])
      with * assms(4) [OF rv1(1) False *] rv1(2) show ?thesis by simp
    qed
  qed simp
  then show ?thesis by simp
qed

section \<open>The invariant of a ledger\<close>

definition ledger_wf :: "ledger_state \<Rightarrow> bool" where
  "ledger_wf s \<longleftrightarrow>
     ls_phase s \<in> {None, Some ''begin'', Some ''policy'', Some ''intent''}
     \<and> (ls_active s = None \<longleftrightarrow> ls_phase s = None)
     \<and> (\<forall>r. ls_active s = Some r \<longrightarrow> r \<in> ls_seen s \<and> ls_owner_active s)
     \<and> (ls_phase s = Some ''policy'' \<longrightarrow> (\<exists>d. ls_initial s = Some d \<and> JStr d \<in> set DECISIONS))
     \<and> (ls_phase s = Some ''intent'' \<longrightarrow> ls_initial s = Some ''PERMIT'' \<and> ls_binding s)
     \<and> (ls_binding s \<longrightarrow> ls_initial s = Some ''PERMIT'')
     \<and> 0 \<le> ls_denials s \<and> 0 \<le> ls_epoch s"

lemma wf_chain [simp]:
  "ledger_wf (s\<lparr>ls_sequence := n, ls_digest := d\<rparr>) = ledger_wf s"
  by (simp add: ledger_wf_def)

lemma ev_step_wf:
  assumes "ev_step domain t k event rid rv = Some rv'" "k \<in> fst ` set FIELDS" "ledger_wf (rv_state rv)"
  shows "ledger_wf (rv_state rv')"
  using assms(1,2)
proof (cases rule: ev_step_cases)
  case (finish r n)
  with assms(3) show ?thesis by (auto simp: ledger_wf_def)
qed (use assms(3) in \<open>auto simp: ledger_wf_def\<close>)

lemma accepted_wf:
  assumes "replay_rows w c rs replay_start = Inr rv" "rs \<noteq> []"
  shows "ledger_wf (rv_state rv)"
  using assms
proof (induction rule: accepted_induct)
  case (provision row rv1)
  from first_row [OF this] obtain p where
    rv: "rv1 = replay_start\<lparr>rv_state := LedgerState\<lparr>ls_sequence := 1, ls_digest := sha256 w p\<rparr>, rv_kind := rv_kind rv1\<rparr>"
    by metis
  show ?case by (subst rv) (simp add: ledger_wf_def LedgerState_def)
next
  case (later xs rv1 row rv2)
  then have "1 \<le> ls_sequence (rv_state rv1)" by (cases xs) auto
  from later(4) this show ?case
  proof (cases rule: later_row_cases)
    case (1 t k p rv1)
    then show ?thesis using ev_step_wf [OF 1(1,2) later(5)] by simp
  qed
qed

section \<open>The call protocol\<close>

text \<open>
  The protocol a ledger promises, without the fields of its events: an owner opens, calls run one at a
  time under a fresh request, a call is executed only after it was permitted with a binding and intended, and a
  hold ends everything. Every step is named by its move, and the move fixes what the step does.
\<close>

datatype call_stage = Idle | Began string | Decided string bool | Intended string

datatype ledger_move = Opens | Closes | Begins string | Decides string bool | Intends string
  | Concludes string bool int bool   \<comment> \<open>request, executed, denials, held\<close>
  | Halts "string option"

record protocol =
  p_owned :: bool
  p_held :: bool
  p_stage :: call_stage
  p_requests :: "string set"
  p_denials :: int

fun stage_request :: "call_stage \<Rightarrow> string option" where
  "stage_request Idle = None"
| "stage_request (Began r) = Some r"
| "stage_request (Decided r b) = Some r"
| "stage_request (Intended r) = Some r"

inductive protocol_step :: "protocol \<Rightarrow> ledger_move \<Rightarrow> protocol \<Rightarrow> bool" where
  opens: "\<not> p_owned s \<Longrightarrow> \<not> p_held s \<Longrightarrow> p_stage s = Idle \<Longrightarrow> protocol_step s Opens (s\<lparr>p_owned := True\<rparr>)"
| closes: "p_owned s \<Longrightarrow> \<not> p_held s \<Longrightarrow> p_stage s = Idle \<Longrightarrow> protocol_step s Closes (s\<lparr>p_owned := False\<rparr>)"
| begins: "p_owned s \<Longrightarrow> \<not> p_held s \<Longrightarrow> p_stage s = Idle \<Longrightarrow> r \<notin> p_requests s \<Longrightarrow>
    protocol_step s (Begins r) (s\<lparr>p_stage := Began r, p_requests := insert r (p_requests s)\<rparr>)"
| decides: "p_owned s \<Longrightarrow> \<not> p_held s \<Longrightarrow> p_stage s = Began r \<Longrightarrow> protocol_step s (Decides r b) (s\<lparr>p_stage := Decided r b\<rparr>)"
| intends: "p_owned s \<Longrightarrow> \<not> p_held s \<Longrightarrow> p_stage s = Decided r True \<Longrightarrow> protocol_step s (Intends r) (s\<lparr>p_stage := Intended r\<rparr>)"
| executed: "p_owned s \<Longrightarrow> \<not> p_held s \<Longrightarrow> p_stage s = Intended r \<Longrightarrow> p_denials s \<le> n \<Longrightarrow>
    protocol_step s (Concludes r True n h) (s\<lparr>p_stage := Idle, p_denials := n, p_held := h\<rparr>)"
| withheld: "p_owned s \<Longrightarrow> \<not> p_held s \<Longrightarrow> p_stage s = Decided r b \<or> p_stage s = Intended r \<Longrightarrow> p_denials s \<le> n \<Longrightarrow>
    protocol_step s (Concludes r False n h) (s\<lparr>p_stage := Idle, p_denials := n, p_held := h\<rparr>)"
| halts: "p_owned s \<Longrightarrow> r = stage_request (p_stage s) \<Longrightarrow> protocol_step s (Halts r) (s\<lparr>p_held := True\<rparr>)"

inductive protocol_run :: "protocol \<Rightarrow> ledger_move list \<Rightarrow> protocol \<Rightarrow> bool" where
  run_start: "protocol_run s [] s"
| run_step: "protocol_run s ms s' \<Longrightarrow> protocol_step s' m s'' \<Longrightarrow> protocol_run s (ms @ [m]) s''"

inductive_cases protocol_stepE: "protocol_step s m s'"

lemma protocol_step_unique: "protocol_step s m s1 \<Longrightarrow> protocol_step s m s2 \<Longrightarrow> s1 = s2"
  by (cases m) (auto elim!: protocol_stepE)

definition protocol_start :: protocol where
  "protocol_start = \<lparr>p_owned = False, p_held = False, p_stage = Idle, p_requests = {}, p_denials = 0\<rparr>"

definition stage_of :: "ledger_state \<Rightarrow> call_stage" where
  "stage_of s = (case ls_active s of None \<Rightarrow> Idle
     | Some r \<Rightarrow> if ls_phase s = Some ''policy'' then Decided r (ls_initial s = Some ''PERMIT'' \<and> ls_binding s)
                 else if ls_phase s = Some ''intent'' then Intended r else Began r)"

definition protocol_of :: "ledger_state \<Rightarrow> protocol" where
  "protocol_of s = \<lparr>p_owned = ls_owner_active s, p_held = ls_held s, p_stage = stage_of s,
     p_requests = ls_seen s, p_denials = ls_denials s\<rparr>"

text \<open>The move a row records, read off its kind, its request and its event.\<close>

definition event_move :: "string \<Rightarrow> json \<Rightarrow> json \<Rightarrow> ledger_move" where
  "event_move k rid event = (let r = the (as_str rid) in
     if k = ''boot'' then Opens else if k = ''close'' then Closes else if k = ''begin'' then Begins r
     else if k = ''policy'' then Decides r (fld event ''initial_decision'' = JStr ''PERMIT'' \<and> fld event ''binding_issued'' = JBool True)
     else if k = ''intent'' then Intends r
     else if k = ''finish'' then Concludes r (fld event ''tool_executed'' = JBool True) (the (as_int (fld event ''denials'')))
       (fld event ''hold'' = JBool True)
     else Halts (as_str rid))"

definition row_move :: "libs \<Rightarrow> json list \<Rightarrow> ledger_move" where
  "row_move w row = event_move (the (as_str (row ! 1))) (row ! 2) (row_event w row)"

lemma protocol_of_chain [simp]: "protocol_of (s\<lparr>ls_sequence := n, ls_digest := d\<rparr>) = protocol_of s"
  by (simp add: protocol_of_def stage_of_def split: option.split)

lemma stage_request_of: "stage_request (stage_of s) = ls_active s"
  by (simp add: stage_of_def split: option.split)

lemma as_str_opt: "as_str (opt_str x) = x"
  by (cases x) (simp_all add: opt_str_def)

lemma ev_step_protocol:
  assumes "ev_step domain t k event rid rv = Some rv'" "k \<in> fst ` set FIELDS" "ledger_wf (rv_state rv)"
  shows "protocol_step (protocol_of (rv_state rv)) (event_move k rid event) (protocol_of (rv_state rv'))"
  using assms(1,2)
proof (cases rule: ev_step_cases)
  case boot
  then show ?thesis
    using opens [of "protocol_of (rv_state rv)"] by (simp add: protocol_of_def stage_of_def event_move_def)
next
  case close
  then show ?thesis
    using closes [of "protocol_of (rv_state rv)"] by (simp add: protocol_of_def stage_of_def event_move_def)
next
  case (begins r)
  then show ?thesis
    using protocol_step.begins [of "protocol_of (rv_state rv)" r] by (simp add: protocol_of_def stage_of_def event_move_def)
next
  case hold
  then show ?thesis
    using halts [of "protocol_of (rv_state rv)" "as_str rid"]
    by (simp add: protocol_of_def as_str_opt stage_request_of event_move_def) (simp add: stage_of_def cong: option.case_cong if_cong)
next
  case (policy r d)
  then show ?thesis
    using decides [of "protocol_of (rv_state rv)" r "d = ''PERMIT'' \<and> fld event ''binding_issued'' = JBool True"]
    by (simp add: protocol_of_def stage_of_def event_move_def)
next
  case (intent r)
  then show ?thesis
    using intends [of "protocol_of (rv_state rv)" r] by (simp add: protocol_of_def stage_of_def event_move_def)
next
  case (finish r n)
  show ?thesis
  proof (cases "fld event ''tool_executed'' = JBool True")
    case True
    with finish have "ls_phase (rv_state rv) = Some ''intent''" by (simp add: finish_executed_ok_def)
    with finish True show ?thesis
      using executed [of "protocol_of (rv_state rv)" r n "fld event ''hold'' = JBool True"]
      by (simp add: protocol_of_def stage_of_def event_move_def)
  next
    case False
    from finish have "ls_phase (rv_state rv) = Some ''policy'' \<or> ls_phase (rv_state rv) = Some ''intent''"
      by (auto simp: finish_shape_ok_def)
    with finish False show ?thesis
      using withheld [of "protocol_of (rv_state rv)" r
          "ls_initial (rv_state rv) = Some ''PERMIT'' \<and> ls_binding (rv_state rv)" n "fld event ''hold'' = JBool True"]
      by (auto simp: protocol_of_def stage_of_def event_move_def)
  qed
qed

lemma later_row_protocol:
  assumes "replay_row w c row rv = Inr rv'" "1 \<le> ls_sequence (rv_state rv)" "ledger_wf (rv_state rv)"
  shows "protocol_step (protocol_of (rv_state rv)) (row_move w row) (protocol_of (rv_state rv'))"
  using assms(1,2)
proof (cases rule: later_row_cases)
  case (1 t k p rv1)
  then show ?thesis using ev_step_protocol [OF 1(1,2) assms(3)] by (simp add: row_move_def)
qed

lemma replay_ledgerD:
  assumes "replay_ledger w rows c = Inr s"
  obtains rv where "replay_rows w c rows replay_start = Inr rv" "s = rv_state rv" "rows \<noteq> []"
  using assms by (auto simp: replay_ledger_def rbind_Inr_iff split: if_splits)

text \<open>
  C8. Refinement, row by row: the moves which the rows of an accepted ledger record, one for each row after the
  provision and in their order, are a run of the call protocol from its start, and the replayed state is the one
  that run ends in. So no request begins twice, nothing is intended that was not permitted with a binding, and
  nothing is executed that was not intended.
\<close>

theorem ledger_refines_protocol:
  assumes "replay_ledger w rows c = Inr s"
  shows "protocol_run protocol_start (map (row_move w) (tl rows)) (protocol_of s)"
proof -
  obtain rv where rv: "replay_rows w c rows replay_start = Inr rv" "s = rv_state rv" "rows \<noteq> []"
    using assms by (rule replay_ledgerD)
  from rv(1,3) have "protocol_run protocol_start (map (row_move w) (tl rows)) (protocol_of (rv_state rv))"
  proof (induction rule: accepted_induct)
    case (provision row rv1)
    from first_row [OF this] obtain p where
      rv: "rv1 = replay_start\<lparr>rv_state := LedgerState\<lparr>ls_sequence := 1, ls_digest := sha256 w p\<rparr>, rv_kind := rv_kind rv1\<rparr>"
      by metis
    have "protocol_of (rv_state rv1) = protocol_start"
      by (subst rv) (simp add: protocol_of_def LedgerState_def stage_of_def protocol_start_def)
    then show ?case by (simp add: run_start)
  next
    case (later xs rv1 row rv2)
    then have "1 \<le> ls_sequence (rv_state rv1)" by (cases xs) auto
    from run_step [OF later(5) later_row_protocol [OF later(4) this accepted_wf [OF later(1,2)]]] later(2)
    show ?case by (cases xs) simp_all
  qed
  with rv show ?thesis by simp
qed


section \<open>An executed call is recorded whole\<close>

definition row_is :: "string \<Rightarrow> string \<Rightarrow> json list \<Rightarrow> bool" where
  "row_is k r row \<longleftrightarrow> row ! 1 = JStr k \<and> row ! 2 = JStr r"

definition permit_row :: "libs \<Rightarrow> json list \<Rightarrow> bool" where
  "permit_row w row \<longleftrightarrow> fld (row_event w row) ''initial_decision'' = JStr ''PERMIT''
     \<and> fld (row_event w row) ''binding_issued'' = JBool True"

definition authority_row :: "libs \<Rightarrow> string \<Rightarrow> json list \<Rightarrow> bool" where
  "authority_row w r row \<longleftrightarrow>
     fld (fld (row_event w row) ''authority'') ''decision'' = JStr ''PERMIT''
     \<and> fld (fld (fld (row_event w row) ''authority'') ''binding'') ''request_id'' = JStr r"

text \<open>How the rows of an accepted ledger that is not held end, by the phase of the active call.\<close>

definition call_trail :: "libs \<Rightarrow> json list list \<Rightarrow> ledger_state \<Rightarrow> bool" where
  "call_trail w rows s \<longleftrightarrow> (\<forall>r. ls_active s = Some r \<and> \<not> ls_held s \<longrightarrow>
     (ls_phase s = Some ''begin'' \<longrightarrow> (\<exists>us b. rows = us @ [b] \<and> row_is ''begin'' r b))
     \<and> (ls_phase s = Some ''policy'' \<longrightarrow> (\<exists>us b p. rows = us @ [b, p] \<and> row_is ''begin'' r b \<and> row_is ''policy'' r p
          \<and> (ls_initial s = Some ''PERMIT'' \<and> ls_binding s \<longrightarrow> permit_row w p)))
     \<and> (ls_phase s = Some ''intent'' \<longrightarrow> (\<exists>us b p i. rows = us @ [b, p, i] \<and> row_is ''begin'' r b \<and> row_is ''policy'' r p
          \<and> row_is ''intent'' r i \<and> permit_row w p \<and> authority_row w r i)))"

lemma trail_chain [simp]: "call_trail w rows (s\<lparr>ls_sequence := n, ls_digest := d\<rparr>) = call_trail w rows s"
  by (simp add: call_trail_def)

lemma trail_idle: "ls_active s = None \<or> ls_held s \<Longrightarrow> call_trail w rows s"
  by (auto simp: call_trail_def)

lemma authority_names:
  "ledger_authority_ok v (JStr r) rs \<Longrightarrow> fld v ''decision'' = JStr ''PERMIT'' \<and> fld (fld v ''binding'') ''request_id'' = JStr r"
  by (simp add: ledger_authority_ok_def Let_def)

lemma ev_step_trail:
  assumes "ev_step domain t k (row_event w row) rid rv = Some rv'" "k \<in> fst ` set FIELDS"
    and "row ! 1 = JStr k" "row ! 2 = rid" "call_trail w rows (rv_state rv)"
  shows "call_trail w (rows @ [row]) (rv_state rv')"
  using assms(1,2)
proof (cases rule: ev_step_cases)
  case (begins r)
  then show ?thesis using assms(3,4) by (auto simp: call_trail_def row_is_def)
next
  case (policy r d)
  with assms(5) obtain us b where "rows = us @ [b]" "row_is ''begin'' r b" by (auto simp: call_trail_def)
  with policy assms(3,4) show ?thesis by (auto simp: call_trail_def row_is_def permit_row_def)
next
  case (intent r)
  with assms(5) obtain us b p where "rows = us @ [b, p]" "row_is ''begin'' r b" "row_is ''policy'' r p" "permit_row w p"
    by (auto simp: call_trail_def)
  with intent assms(3,4) show ?thesis
    by (auto simp: call_trail_def row_is_def authority_row_def authority_names)
qed (auto intro: trail_idle)

lemma accepted_trail:
  assumes "replay_rows w c rs replay_start = Inr rv" "rs \<noteq> []"
  shows "call_trail w rs (rv_state rv)"
  using assms
proof (induction rule: accepted_induct)
  case (provision row rv1)
  from first_row [OF this] obtain p where
    rv: "rv1 = replay_start\<lparr>rv_state := LedgerState\<lparr>ls_sequence := 1, ls_digest := sha256 w p\<rparr>, rv_kind := rv_kind rv1\<rparr>"
    by metis
  show ?case by (subst rv) (simp add: LedgerState_def trail_idle)
next
  case (later xs rv1 row rv2)
  then have "1 \<le> ls_sequence (rv_state rv1)" by (cases xs) auto
  from later(4) this show ?case
  proof (cases rule: later_row_cases)
    case (1 t k p rv')
    then show ?thesis using ev_step_trail [OF 1(1,2) _ refl later(5)] by simp
  qed
qed

lemma accepted_sequence:
  "replay_rows w c rs replay_start = Inr rv \<Longrightarrow> rs \<noteq> [] \<Longrightarrow> ls_sequence (rv_state rv) = int (length rs)"
  by (induction rule: accepted_induct) (simp_all add: replay_row_sequence)

lemma accepted_prefix:
  assumes "replay_ledger w (xs @ ys) c = Inr s" "xs \<noteq> []"
  shows "\<exists>s'. replay_ledger w xs c = Inr s'"
  using assms by (auto simp: replay_ledger_def replay_rows_append rbind_Inr_iff split: if_splits)

text \<open>The step of one row of an accepted ledger.\<close>

lemma accepted_row:
  assumes "replay_ledger w (xs @ row # ys) c = Inr s" "row ! 1 \<noteq> JStr ''provision'' \<or> xs \<noteq> []"
  obtains t k rv rv1 rv2 where "xs \<noteq> []" "replay_rows w c xs replay_start = Inr rv"
    "ev_step (src_domain c) t k (row_event w row) (row ! 2) rv = Some rv1" "k \<in> fst ` set FIELDS" "row ! 1 = JStr k"
    "replay_rows w c (xs @ [row]) replay_start = Inr rv2" "\<exists>n d. rv_state rv2 = (rv_state rv1)\<lparr>ls_sequence := n, ls_digest := d\<rparr>"
    "call_trail w xs (rv_state rv)" "ledger_wf (rv_state rv)"
    "py_eq (row ! 2) (fld (row_event w row) ''request_id'')"
proof -
  obtain rvs where "replay_rows w c (xs @ row # ys) replay_start = Inr rvs" using assms(1) by (rule replay_ledgerD)
  then obtain rv rv2 where rv: "replay_rows w c xs replay_start = Inr rv" "replay_row w c row rv = Inr rv2"
    by (auto simp: replay_rows_append rbind_Inr_iff)
  have ne: "xs \<noteq> []"
  proof
    assume "xs = []"
    with rv have r: "replay_row w c row replay_start = Inr rv2" by simp
    obtain k rid p event rv1 where k: "row = [JInt (ls_sequence (rv_state replay_start) + 1), JStr k, rid, JStr p,
        JStr (ls_digest (rv_state replay_start)), JStr (sha256 w (ls_digest (rv_state replay_start) @ p))]"
      "fld event ''kind'' = JStr k"
      "ledger_event c (ls_sequence (rv_state replay_start) + 1) k rid event replay_start = Some rv1"
      using replay_row_cases [OF r] by metis
    have "py_eq event (ledger_provision c)" using k(3) by (simp add: ledger_event_def split: if_splits)
    then have "k = ''provision''" using k(2) py_eq_jget [of event "ledger_provision c" "''kind''"]
      by (cases "jget ''kind'' event") (auto simp: ledger_provision_def jget_or_def)
    with k assms(2) \<open>xs = []\<close> show False by simp
  qed
  have "ls_sequence (rv_state rv) = int (length xs)"
    by (rule accepted_sequence [OF rv(1) ne])
  with ne have "1 \<le> ls_sequence (rv_state rv)" by (cases xs) auto
  from rv(2) this show thesis
  proof (cases rule: later_row_cases)
    case (1 t k p rv1)
    then show thesis
      using ne rv accepted_trail [OF rv(1) ne] accepted_wf [OF rv(1) ne]
      by (intro that [OF ne rv(1) 1(1,2,3), of rv2]) (auto simp: replay_rows_snoc)
  qed
qed


text \<open>
  C7. No execution without its whole authorisation on record: in an accepted ledger, a finish event that
  says the tool was executed comes directly after the intent, the permitting policy decision with its
  issued binding, and the begin event of the same request, in this order, and the authority it records
  was bound to that request.
\<close>

theorem executed_call_is_whole:
  assumes "replay_ledger w (xs @ row # ys) c = Inr s" "row ! 1 = JStr ''finish''"
    and "fld (row_event w row) ''tool_executed'' = JBool True"
  shows "\<exists>us b p i r. xs = us @ [b, p, i] \<and> row ! 2 = JStr r \<and> row_is ''begin'' r b \<and> row_is ''policy'' r p
    \<and> row_is ''intent'' r i \<and> permit_row w p \<and> authority_row w r i"
proof -
  have later: "row ! 1 \<noteq> JStr ''provision'' \<or> xs \<noteq> []" using assms(2) by simp
  from assms(1) later show ?thesis
  proof (cases rule: accepted_row)
    case (1 t k rv rv1 rv2)
    then have k: "k = ''finish''" using assms(2) by simp
    from 1(3,4) show ?thesis
    proof (cases rule: ev_step_cases)
      case (finish r n)
      then have "ls_phase (rv_state rv) = Some ''intent''" using assms(3) by (simp add: finish_executed_ok_def)
      with finish 1(8) show ?thesis unfolding call_trail_def by blast
    qed (use k in simp_all)
  qed
qed

text \<open>
  A call that was executed ends either with a confirmed dispatch, a received response and an HTTP
  status on record, or with the ledger held.
\<close>

theorem executed_confirmed_or_held:
  assumes "replay_ledger w (xs @ [row]) c = Inr s" "row ! 1 = JStr ''finish''"
    and "fld (row_event w row) ''tool_executed'' = JBool True"
  shows "ls_held s \<or> (fld (row_event w row) ''dispatch_state'' = JStr ''REQUEST_CONFIRMED''
    \<and> fld (row_event w row) ''response_state'' = JStr ''RESPONSE_RECEIVED''
    \<and> (\<exists>a i. fld (row_event w row) ''attempts'' = JList [a] \<and> fld a ''status_code'' = JInt i \<and> 100 \<le> i \<and> i \<le> 599))"
proof -
  have later: "row ! 1 \<noteq> JStr ''provision'' \<or> xs \<noteq> []" using assms(2) by simp
  from assms(1) later show ?thesis
  proof (cases rule: accepted_row)
    case (1 t k rv rv1 rv2)
    then have k: "k = ''finish''" using assms(2) by simp
    have s: "ls_held s = ls_held (rv_state rv1)"
      using assms(1) 1(6,7) by (auto elim!: replay_ledgerD)
    from 1(3,4) show ?thesis
    proof (cases rule: ev_step_cases)
      case (finish r n)
      let ?e = "row_event w row"
      have f: "finish_shape_ok (rv_state rv) ?e" "finish_executed_ok (rv_state rv) ?e"
        using finish assms(3) by simp_all
      show ?thesis
      proof (cases "finish_unknown ?e")
        case True
        with f(2) finish s show ?thesis by (simp add: finish_executed_ok_def)
      next
        case False
        then have m: "fld ?e ''attempt_metadata_available'' = JBool True" by (simp add: finish_unknown_def)
        with f(1) obtain a where a: "fld ?e ''attempts'' = JList [a]" "attempt_ok a"
          unfolding finish_shape_ok_def attempts_ok_def
          by (auto split: json.splits simp: le_Suc_eq length_Suc_conv)
        with f(1) m False have "fld a ''response_received'' = JBool True"
          by (simp add: finish_shape_ok_def finish_unknown_def attempt_ok_def)
        with a False show ?thesis
          by (auto simp: attempt_ok_def finish_unknown_def split: json.splits)
      qed
    qed (use k in simp_all)
  qed
qed

text \<open>What the rows record is never undone.\<close>

definition ledger_extends :: "ledger_state \<Rightarrow> ledger_state \<Rightarrow> bool" where
  "ledger_extends s s' \<longleftrightarrow> ls_denials s \<le> ls_denials s' \<and> (ls_held s \<longrightarrow> ls_held s')
     \<and> ls_epoch s \<le> ls_epoch s' \<and> ls_seen s \<subseteq> ls_seen s' \<and> ls_sequence s \<le> ls_sequence s'"

lemma extends_trans: "ledger_extends s t \<Longrightarrow> ledger_extends t u \<Longrightarrow> ledger_extends s u"
  by (auto simp: ledger_extends_def)

lemma ev_step_extends:
  "ev_step domain t k event rid rv = Some rv1 \<Longrightarrow> k \<in> fst ` set FIELDS \<Longrightarrow>
     rv_state rv2 = (rv_state rv1)\<lparr>ls_sequence := ls_sequence (rv_state rv) + 1, ls_digest := d\<rparr> \<Longrightarrow>
     ledger_extends (rv_state rv) (rv_state rv2)"
  by (cases rule: ev_step_cases, assumption, assumption) (auto simp: ledger_extends_def)

lemma rows_extend:
  assumes "replay_rows w c xs replay_start = Inr rv" "xs \<noteq> []" "replay_rows w c (xs @ ys) replay_start = Inr rv'"
  shows "ledger_extends (rv_state rv) (rv_state rv')"
  using assms(3)
proof (induction ys arbitrary: rv' rule: rev_induct)
  case Nil
  with assms(1) show ?case by (simp add: ledger_extends_def)
next
  case (snoc row ys)
  then obtain rv1 where rv1: "replay_rows w c (xs @ ys) replay_start = Inr rv1" "replay_row w c row rv1 = Inr rv'"
    by (auto simp: replay_rows_snoc rbind_Inr_iff simp flip: append_assoc)
  have "ls_sequence (rv_state rv1) = int (length (xs @ ys))"
    using accepted_sequence [OF rv1(1)] assms(2) by simp
  then have "1 \<le> ls_sequence (rv_state rv1)" using assms(2) by (cases xs) auto
  from rv1(2) this have "ledger_extends (rv_state rv1) (rv_state rv')"
  proof (cases rule: later_row_cases)
    case (1 t k p rv2)
    then show ?thesis by (intro ev_step_extends [OF 1(1,2)]) simp
  qed
  with snoc.IH [OF rv1(1)] show ?case by (rule extends_trans)
qed

text \<open>
  An accepted ledger is evidence that only grows: each of its non-empty prefixes is accepted too,
  and from there on the denials never decrease, a hold is never lifted and admits nothing but further
  hold events, and no request identifier is begun again.
\<close>

theorem accepted_ledger_grows:
  assumes "replay_ledger w (xs @ ys) c = Inr s'" "xs \<noteq> []"
  shows "\<exists>s. replay_ledger w xs c = Inr s \<and> ledger_extends s s' \<and> ls_sequence s = int (length xs)
    \<and> (ls_held s \<longrightarrow> list_all (\<lambda>row. row ! 1 = JStr ''hold'') ys)
    \<and> list_all (\<lambda>row. \<forall>r \<in> ls_seen s. \<not> row_is ''begin'' r row) ys"
proof -
  obtain s where s: "replay_ledger w xs c = Inr s" using accepted_prefix [OF assms] by blast
  obtain rv where rv: "replay_rows w c xs replay_start = Inr rv" "s = rv_state rv" using s by (rule replay_ledgerD)
  obtain rv' where rv': "replay_rows w c (xs @ ys) replay_start = Inr rv'" "s' = rv_state rv'"
    using assms(1) by (rule replay_ledgerD)
  have each: "(ls_held s \<longrightarrow> row ! 1 = JStr ''hold'') \<and> (\<forall>r \<in> ls_seen s. \<not> row_is ''begin'' r row)"
    if ys: "ys = us @ row # vs" for us row vs
  proof -
    have acc: "replay_ledger w ((xs @ us) @ row # vs) c = Inr s'" "row ! 1 \<noteq> JStr ''provision'' \<or> xs @ us \<noteq> []"
      using assms ys by simp_all
    then show ?thesis
    proof (cases rule: accepted_row)
      case (1 t k rvu rv1 rv2)
      have "ledger_extends s (rv_state rvu)" using rows_extend [OF rv(1) assms(2) 1(2)] rv(2) by simp
      then have kept: "ls_held s \<longrightarrow> ls_held (rv_state rvu)" "ls_seen s \<subseteq> ls_seen (rv_state rvu)"
        by (simp_all add: ledger_extends_def)
      from 1(3,4) show ?thesis
        by (cases rule: ev_step_cases) (use 1(5) kept in \<open>auto simp: row_is_def\<close>)
    qed
  qed
  have "list_all (\<lambda>row. (ls_held s \<longrightarrow> row ! 1 = JStr ''hold'') \<and> (\<forall>r \<in> ls_seen s. \<not> row_is ''begin'' r row)) ys"
    using each by (auto simp: list_all_iff dest!: split_list)
  then show ?thesis
    using s rv rows_extend [OF rv(1) assms(2) rv'(1)] rv'(2) accepted_sequence [OF rv(1) assms(2)]
    by (auto simp: list_all_iff)
qed


section \<open>The last digest pins the ledger\<close>

definition row_text :: "json list \<Rightarrow> string" where
  "row_text row = the (as_str (row ! 3))"

lemma row_text_record:
  assumes "replay_row w c row rv = Inr rv'"
  shows "is_record (row_text row) \<and> ls_digest (rv_state rv') = chain_hash w (ls_digest (rv_state rv)) (row_text row)"
  using assms
proof (cases rule: replay_row_cases)
  case (1 k rid p event rv1)
  then obtain ms where "event = JObj ms" by (cases event) auto
  with 1 show ?thesis by (auto simp: row_text_def is_record_def chain_hash_def dumps_def split: if_splits)
qed

lemma rows_digest:
  "replay_rows w c rs rv = Inr rv' \<Longrightarrow> list_all is_record (map row_text rs)
     \<and> ls_digest (rv_state rv') = foldl (chain_hash w) (ls_digest (rv_state rv)) (map row_text rs)"
  by (induction rs arbitrary: rv) (auto simp: rbind_Inr_iff dest!: row_text_record)

text \<open>
  The last digest pins the ledger: two accepted ledgers that end in the same digest carry the same
  payloads in the same order, unless SHA-256 itself fails.
\<close>

theorem ledger_digest_pins_payloads:
  assumes "replay_ledger w xs c = Inr s" "replay_ledger w ys c' = Inr s'" "ls_digest s = ls_digest s'"
  shows "map row_text xs = map row_text ys \<or> sha_broken w"
proof (cases "sha_broken w")
  case False
  obtain rv where rv: "replay_rows w c xs replay_start = Inr rv" "s = rv_state rv" using assms(1) by (rule replay_ledgerD)
  obtain rv' where rv': "replay_rows w c' ys replay_start = Inr rv'" "s' = rv_state rv'" using assms(2) by (rule replay_ledgerD)
  have "map row_text xs = map row_text ys"
    using rows_digest [OF rv(1)] rows_digest [OF rv'(1)] assms(3) rv(2) rv'(2)
    by (intro chain.head_determines_chain [OF False]) (simp_all add: replay_start_def LedgerState_def)
  then show ?thesis ..
qed simp

section \<open>A ledger that is accepted\<close>

text \<open>The row a backend stores for an event.\<close>

definition ledger_row :: "libs \<Rightarrow> int \<Rightarrow> string \<Rightarrow> json \<Rightarrow> json list" where
  "ledger_row w n d event =
     (let p = enc True (jsort event) in
      [JInt n, fld event ''kind'', fld event ''request_id'', JStr p, JStr d, JStr (sha256 w (d @ p))])"

fun ledger_rows :: "libs \<Rightarrow> int \<Rightarrow> string \<Rightarrow> json list \<Rightarrow> json list list" where
  "ledger_rows w n d [] = []"
| "ledger_rows w n d (e # es) =
     ledger_row w n d e # ledger_rows w (n + 1) (sha256 w (d @ enc True (jsort e))) es"


text \<open>A bound on the length of an encoding that is quick to evaluate: six bytes for each character of a string.\<close>

fun enc_bound :: "json \<Rightarrow> nat" where
  "enc_bound (JStr s) = 6 * length s + 2"
| "enc_bound (JList vs) = sum_list (map (\<lambda>v. enc_bound v + 1) vs) + 2"
| "enc_bound (JObj ms) = sum_list (map (\<lambda>(k, v). 6 * length k + 4 + enc_bound v) ms) + 2"
| "enc_bound v = utf8_length (enc True v)"

lemma utf8_append [simp]: "utf8_length [] = 0" "utf8_length (c # s) = (if of_char c < (128::nat) then 1 else 2) + utf8_length s"
  "utf8_length (s @ t) = utf8_length s + utf8_length t"
  by (simp_all add: utf8_length_def)

lemma utf8_concat: "list_all (\<lambda>x. utf8_length x \<le> m) xs \<Longrightarrow> utf8_length (concat xs) \<le> m * length xs"
  by (induction xs) auto

lemma utf8_join: "utf8_length (join '','' xs) \<le> sum_list (map (\<lambda>x. utf8_length x + 1) xs)"
proof -
  have "utf8_length (concat (map (\<lambda>y. '','' @ y) xs)) = sum_list (map (\<lambda>x. utf8_length x + 1) xs)" for xs
    by (induction xs) simp_all
  moreover have "(@) '','' = (#) CHR '',''" by (rule ext) simp
  ultimately show ?thesis by (cases xs) simp_all
qed

lemma digit_ascii: "d < 16 \<Longrightarrow> of_char (digit d) < (128::nat)"
proof -
  assume "d < 16"
  then have "digit d \<in> set hex_alphabet" unfolding digit_def by (intro nth_mem) simp
  moreover have "\<forall>c \<in> set hex_alphabet. of_char c < (128::nat)" by simp
  ultimately show ?thesis by blast
qed

lemma utf8_esc: "utf8_length (esc True c) \<le> 6"
proof -
  have "of_char c < (256::nat)" by (rule nat_of_char_less_256)
  then have "of_char (digit (of_char c div 16)) < (128::nat)" "of_char (digit (of_char c mod 16)) < (128::nat)"
    by (auto intro!: digit_ascii simp: less_mult_imp_div_less)
  then show ?thesis
    by (auto simp: esc_def bslash_def short_escape_def split: option.splits if_splits)
qed

lemma utf8_enc_str: "utf8_length (enc_str True s) \<le> 6 * length s + 2"
  using utf8_concat [of 6 "map (esc True) s"] by (simp add: enc_str_def quote_chr_def list_all_iff utf8_esc)

lemma utf8_enc: "utf8_length (enc True v) \<le> enc_bound v"
proof (induction v rule: enc_bound.induct)
  case (2 vs)
  have "sum_list (map (\<lambda>v. utf8_length (enc True v) + 1) vs) \<le> sum_list (map (\<lambda>v. enc_bound v + 1) vs)"
    using 2 by (intro sum_list_mono) simp
  then show ?case using utf8_join [of "map (enc True) vs"] by (simp add: comp_def)
next
  case (3 ms)
  have "sum_list (map (\<lambda>(k, v). utf8_length (enc_str True k @ '':'' @ enc True v) + 1) ms)
      \<le> sum_list (map (\<lambda>(k, v). 6 * length k + 4 + enc_bound v) ms)"
  proof (rule sum_list_mono)
    fix x assume x: "x \<in> set ms"
    obtain k v where kv: "x = (k, v)" by (cases x)
    have "utf8_length (enc True v) \<le> enc_bound v" using 3 [OF x] kv by blast
    then show "(case x of (k, v) \<Rightarrow> utf8_length (enc_str True k @ '':'' @ enc True v) + 1)
        \<le> (case x of (k, v) \<Rightarrow> 6 * length k + 4 + enc_bound v)"
      using utf8_enc_str [of k] by (simp add: kv)
  qed
  then show ?case
    using utf8_join [of "map (\<lambda>(k, v). enc_str True k @ '':'' @ enc True v) ms"]
    by (simp add: comp_def case_prod_unfold)
next
  case (1 s)
  then show ?case using utf8_enc_str [of s] by simp
qed simp_all

lemma sum_list_insort: "sum_list (map f (insort_key g x xs)) = f x + sum_list (map f xs)" for f :: "'a \<Rightarrow> nat"
  by (induction xs) simp_all

lemma sum_list_sort: "sum_list (map f (sort_key g xs)) = sum_list (map f xs)" for f :: "'a \<Rightarrow> nat"
  by (induction xs) (simp_all add: sum_list_insort)

lemma enc_bound_jsort [simp]: "enc_bound (jsort v) = enc_bound v"
proof (induction v rule: jsort.induct)
  case (1 vs)
  then have "map (\<lambda>v. enc_bound (jsort v) + 1) vs = map (\<lambda>v. enc_bound v + 1) vs" by simp
  then show ?case by (simp only: jsort.simps enc_bound.simps map_map comp_def)
next
  case (2 ms)
  then have "map (\<lambda>(k, v). 6 * length k + 4 + enc_bound (jsort v)) ms = map (\<lambda>(k, v). 6 * length k + 4 + enc_bound v) ms"
    by auto
  then show ?case by (simp add: sum_list_sort comp_def case_prod_unfold cong: map_cong)
qed simp_all

lemma ledger_row_accepted:
  assumes "readable (float_of w) e" "keys_distinct e" "is_obj e" "jsort e = e" "utf8_length (enc True e) \<le> MAX_PAYLOAD_BYTES"
    and "fld e ''kind'' = JStr k" "n = ls_sequence (rv_state rv) + 1" "1 \<le> n" "d = ls_digest (rv_state rv)"
    and "is_hex 64 (sha256 w (d @ enc True e))" "ledger_event c n k (fld e ''request_id'') e rv = Some rv1"
  shows "replay_row w c (ledger_row w n d e) rv =
    Inr (rv1\<lparr>rv_state := rv_state rv1\<lparr>ls_sequence := n, ls_digest := sha256 w (d @ enc True e)\<rparr>, rv_kind := Some k\<rparr>)"
proof -
  have fin: "finite_json e" using assms(1) by (rule readable_finite)
  then have dump: "dumps True e = Some (enc True e)" using assms(4) by (simp add: dumps_def)
  have "json_loads (float_of w) (enc True e) = Some e"
    using loads_dumps [OF assms(1,2) dump] assms(4) by simp
  with assms dump show ?thesis
    by (simp add: ledger_row_def replay_row_def Let_def event_digest_def canonical_event_def)
qed


text \<open>The replay of events alone, for a hash whose value does not matter.\<close>

fun run_events :: "ledger_source \<Rightarrow> string \<Rightarrow> json list \<Rightarrow> replay_vars \<Rightarrow> replay_vars option" where
  "run_events c d [] rv = Some rv"
| "run_events c d (e # es) rv =
     (let n = ls_sequence (rv_state rv) + 1; k = the (as_str (fld e ''kind'')) in
      case ledger_event c n k (fld e ''request_id'') e rv of None \<Rightarrow> None
      | Some rv1 \<Rightarrow> run_events c d es (rv1\<lparr>rv_state := rv_state rv1\<lparr>ls_sequence := n, ls_digest := d\<rparr>, rv_kind := Some k\<rparr>))"

definition event_ok :: "libs \<Rightarrow> json \<Rightarrow> bool" where
  "event_ok w e \<longleftrightarrow> readable (float_of w) e \<and> keys_distinct e \<and> is_obj e \<and> jsort e = e \<and> enc_bound e \<le> MAX_PAYLOAD_BYTES
     \<and> is_str (fld e ''kind'')"

lemma run_events_replay:
  assumes "\<And>s. sha256 w s = d" "is_hex 64 d" "list_all (event_ok w) es" "run_events c d es rv = Some rv'"
    and "0 \<le> ls_sequence (rv_state rv)"
  shows "replay_rows w c (ledger_rows w (ls_sequence (rv_state rv) + 1) (ls_digest (rv_state rv)) es) rv = Inr rv'"
  using assms(3-5)
proof (induction es arbitrary: rv)
  case (Cons e es)
  obtain k where k: "fld e ''kind'' = JStr k"
    using Cons.prems(1) by (cases "fld e ''kind''") (auto simp: event_ok_def)
  let ?n = "ls_sequence (rv_state rv) + 1"
  obtain rv1 where rv1: "ledger_event c ?n k (fld e ''request_id'') e rv = Some rv1"
    and run: "run_events c d es (rv1\<lparr>rv_state := rv_state rv1\<lparr>ls_sequence := ?n, ls_digest := d\<rparr>, rv_kind := Some k\<rparr>) = Some rv'"
    using Cons.prems(2) k by (auto simp: Let_def split: option.splits)
  have "utf8_length (enc True e) \<le> MAX_PAYLOAD_BYTES" "jsort e = e"
    using Cons.prems(1) utf8_enc [of e] by (auto simp: event_ok_def)
  then have "replay_row w c (ledger_row w ?n (ls_digest (rv_state rv)) e) rv =
      Inr (rv1\<lparr>rv_state := rv_state rv1\<lparr>ls_sequence := ?n, ls_digest := d\<rparr>, rv_kind := Some k\<rparr>)"
    using Cons.prems assms(1,2) k rv1
    by (subst ledger_row_accepted [where k = k and ?rv1.0 = rv1]) (simp_all add: event_ok_def)
  then show ?case using Cons.IH [OF _ run] Cons.prems assms(1) by (simp add: \<open>jsort e = e\<close>)
qed simp

section \<open>An accepted ledger\<close>

definition hex_zeros :: "nat \<Rightarrow> string" where "hex_zeros n = replicate n (CHR ''0'')"

definition example_ledger_domain :: json where
  "example_ledger_domain = JObj [(''audience'', JStr ''a''), (''issuer'', JStr ''i''), (''principal'', JStr ''p''),
     (''service_identity'', JStr ''s'')]"

definition example_source :: ledger_source where
  "example_source = \<lparr>src_key = hex_zeros 64, src_domain = example_ledger_domain, src_revision = hex_zeros 40, src_sha = hex_zeros 64\<rparr>"

definition example_common :: "string \<Rightarrow> (string \<times> json) list" where
  "example_common k = [(''domain_key'', JStr (hex_zeros 64)), (''epoch'', JInt 1), (''instance'', JStr ''n''),
     (''kind'', JStr k), (''owner_id'', JStr ''o''), (''source_revision'', JStr (hex_zeros 40)),
     (''source_sha256'', JStr (hex_zeros 64)), (''time'', JInt 5)]"

definition example_event :: "string \<Rightarrow> (string \<times> json) list \<Rightarrow> json" where
  "example_event k fs = jsort (JObj (example_common k @ fs))"

definition example_ledger_context :: json where
  "example_ledger_context = JObj [(''audience'', JStr ''a''), (''expires_at'', JInt 9), (''issuer'', JStr ''i''),
     (''principal'', JStr ''p''), (''request'', JStr ''q''), (''session'', JStr ''t'')]"

definition example_authority :: json where
  "example_authority = JObj [(''authority_source'', JStr ''DETERMINISTIC_POLICY_GATE''),
     (''binding'', JObj (map (\<lambda>k. (k, JStr (hex_zeros 64))) (filter ends_sha256 BINDING_FIELDS) @
        [(''operation_scope'', JStr OPERATION_SCOPE), (''policy_decision'', JStr ''PERMIT''),
         (''request_id'', JStr ''r1''), (''tool'', JStr ''find_federal_awards'')])),
     (''decision'', JStr ''PERMIT''), (''policy_version'', JStr POLICY_VERSION), (''reasons'', JList [JStr ''BOUNDED''])]"

definition example_attempt :: json where
  "example_attempt = JObj [(''attempt'', JInt 1), (''dispatch_state'', JStr ''REQUEST_CONFIRMED''), (''max_attempts'', JInt 1),
     (''response_received'', JBool True), (''response_state'', JStr ''RESPONSE_RECEIVED''),
     (''retry_decision'', JStr ''NONE''), (''status_code'', JInt 200)]"

definition example_begun :: "json list" where
  "example_begun = [jsort (ledger_provision example_source), example_event ''boot'' [],
     example_event ''begin'' [(''context'', example_ledger_context), (''request_id'', JStr ''r1'')],
     example_event ''policy'' [(''binding_issuance_error'', JNull), (''binding_issued'', JBool True),
       (''initial_decision'', JStr ''PERMIT''), (''reasons'', JList [JStr ''BOUNDED'']), (''request_id'', JStr ''r1'')],
     example_event ''intent'' [(''authority'', example_authority), (''containment_denials'', JInt 0),
       (''context'', example_ledger_context), (''dispatch_state'', JStr ''NOT_DISPATCHED''), (''request_id'', JStr ''r1'')]]"

definition example_finish :: json where
  "example_finish = example_event ''finish'' [(''attempt_metadata_available'', JBool True),
     (''attempts'', JList [example_attempt]), (''binding_consumption'', JStr ''VERIFIED''), (''denials'', JInt 0),
     (''dispatch_state'', JStr ''REQUEST_CONFIRMED''), (''error_codes'', JList []), (''execution_boundary_error'', JNull),
     (''final_decision'', JStr ''PERMIT''), (''hold'', JBool False), (''next_action'', JStr ''NONE''),
     (''phase'', JStr ''post_dispatch''), (''policy_reasons'', JList [JStr ''BOUNDED'']),
     (''pre_dispatch_verification'', JStr ''PASS''), (''request_id'', JStr ''r1''),
     (''response_state'', JStr ''RESPONSE_RECEIVED''), (''tool_executed'', JBool True)]"

lemmas example_defs = example_begun_def example_finish_def example_event_def example_common_def ledger_provision_def
  example_source_def example_ledger_domain_def example_ledger_context_def example_authority_def example_attempt_def
  hex_zeros_def

lemma example_bounded: "list_all (\<lambda>e. enc_bound e \<le> MAX_PAYLOAD_BYTES) (example_begun @ [example_finish])"
  by (simp add: example_defs BINDING_FIELDS_def ends_sha256_def MAX_PAYLOAD_BYTES_def utf8_length_def dec_int_def dec_nat.simps
    POLICY_VERSION_def OPERATION_SCOPE_def digit_def del: jsort.simps)

lemma example_sorted: "list_all (\<lambda>e. jsort e = e) (example_begun @ [example_finish])"
  by code_simp

lemma example_events_ok: "list_all (event_ok example_libs) (example_begun @ [example_finish])"
proof -
  have "list_all (\<lambda>e. plain e \<and> keys_distinct e \<and> is_obj e \<and> is_str (fld e ''kind'')) (example_begun @ [example_finish])"
    by code_simp
  with example_sorted example_bounded show ?thesis by (simp add: event_ok_def list_all_iff plain_readable)
qed

lemma example_run:
  "case run_events example_source (hex_zeros 64) (example_begun @ [example_finish]) replay_start of
     None \<Rightarrow> False
   | Some rv \<Rightarrow> \<not> ls_held (rv_state rv) \<and> ls_active (rv_state rv) = None \<and> ls_seen (rv_state rv) = {''r1''} \<and> ls_digest (rv_state rv) = hex_zeros 64
       \<and> ls_owner_active (rv_state rv)"
  by code_simp

lemma length_ledger_rows [simp]: "length (ledger_rows w n d es) = length es"
  by (induction es arbitrary: n d) simp_all

lemma ledger_rows_snoc:
  "ledger_rows w n d (es @ [e]) = ledger_rows w n d es @
     [ledger_row w (n + int (length es)) (foldl (\<lambda>d e. sha256 w (d @ enc True (jsort e))) d es) e]"
  by (induction es arbitrary: n d) (simp_all add: add.assoc add.commute)

lemma row_event_ledger_row: "event_ok w e \<Longrightarrow> row_event w (ledger_row w n d e) = e"
  using loads_dumps [of "float_of w" e True "enc True e"]
  by (auto simp: event_ok_def row_event_def ledger_row_def Let_def dumps_def readable_finite)

definition example_ledger :: "json list list" where
  "example_ledger = ledger_rows example_libs 1 [] example_begun"

definition example_last :: "json list" where
  "example_last = ledger_row example_libs 6 (hex_zeros 64) example_finish"

definition example_ledger_state :: ledger_state where
  "example_ledger_state = projr (replay_ledger example_libs (example_ledger @ [example_last]) example_source)"

lemma example_ledger_rows: "ledger_rows example_libs 1 [] (example_begun @ [example_finish]) = example_ledger @ [example_last]"
  by (simp add: ledger_rows_snoc example_ledger_def example_last_def example_begun_def example_libs_def hex_zeros_def)

lemma example_domain_ok: "domain_ok example_ledger_domain" "canonical_event example_ledger_domain = Inr (enc True example_ledger_domain)"
  by code_simp+

lemma example_source_domain: "src_domain example_source = example_ledger_domain"
  by (simp add: example_source_def)

lemma zeros_hex [simp]: "is_hex n (hex_zeros n)"
  by (simp add: hex_zeros_def is_hex_replicate)

lemma example_replay:
  assumes "run_events c (hex_zeros 64) es replay_start = Some rv" "list_all (event_ok example_libs) es" "es \<noteq> []" "length es \<le> 10"
    and "domain_ok (src_domain c)" "canonical_event (src_domain c) = Inr t" "src_key c = hex_zeros 64"
    and "is_hex 40 (src_revision c)" "is_hex 64 (src_sha c)"
  shows "replay_ledger example_libs (ledger_rows example_libs 1 [] es) c = Inr (rv_state rv)"
proof -
  have "replay_rows example_libs c (ledger_rows example_libs 1 [] es) replay_start = Inr rv"
    using run_events_replay [of example_libs "hex_zeros 64" es c replay_start rv] assms
    by (simp add: example_libs_def hex_zeros_def is_hex_replicate) (simp add: replay_start_def LedgerState_def)
  then show ?thesis
    using assms(3-9)
    by (cases es) (simp_all add: replay_ledger_def MAX_EVENTS_def example_libs_def hex_zeros_def is_hex_replicate)
qed

lemma example_accepted:
  "replay_ledger example_libs (example_ledger @ [example_last]) example_source = Inr example_ledger_state"
  "\<not> ls_held example_ledger_state" "ls_digest example_ledger_state = hex_zeros 64"
proof -
  obtain rv where rv: "run_events example_source (hex_zeros 64) (example_begun @ [example_finish]) replay_start = Some rv"
    "\<not> ls_held (rv_state rv)" "ls_digest (rv_state rv) = hex_zeros 64"
    using example_run by (auto split: option.splits)
  have "replay_ledger example_libs (example_ledger @ [example_last]) example_source = Inr (rv_state rv)"
    using example_replay [OF rv(1) example_events_ok _ _ _ example_domain_ok(2) [folded example_source_domain],
        unfolded example_ledger_rows] example_domain_ok(1)
    by (simp add: example_begun_def example_source_def)
  then show "replay_ledger example_libs (example_ledger @ [example_last]) example_source = Inr example_ledger_state"
    "\<not> ls_held example_ledger_state" "ls_digest example_ledger_state = hex_zeros 64"
    using rv by (simp_all add: example_ledger_state_def)
qed

lemma example_last_facts:
  "example_last ! 1 = JStr ''finish''" "row_event example_libs example_last = example_finish"
  "fld example_finish ''tool_executed'' = JBool True"
proof -
  show "row_event example_libs example_last = example_finish"
    using example_events_ok by (simp add: example_last_def row_event_ledger_row)
  have "fld example_finish ''kind'' = JStr ''finish'' \<and> fld example_finish ''tool_executed'' = JBool True" by code_simp
  then show "example_last ! 1 = JStr ''finish''" "fld example_finish ''tool_executed'' = JBool True"
    by (simp_all add: example_last_def ledger_row_def Let_def)
qed

theorem ledger_refines_protocol_witness:
  "protocol_run protocol_start (map (row_move example_libs) (tl (example_ledger @ [example_last]))) (protocol_of example_ledger_state)"
  by (rule ledger_refines_protocol [OF example_accepted(1)])

theorem executed_call_is_whole_witness:
  "\<exists>us b p i r. example_ledger = us @ [b, p, i] \<and> example_last ! 2 = JStr r \<and> row_is ''begin'' r b \<and> row_is ''policy'' r p
    \<and> row_is ''intent'' r i \<and> permit_row example_libs p \<and> authority_row example_libs r i"
  by (rule executed_call_is_whole [of _ _ _ "[]", OF example_accepted(1) example_last_facts(1)]) (simp add: example_last_facts)

theorem executed_confirmed_or_held_witness:
  "fld example_finish ''dispatch_state'' = JStr ''REQUEST_CONFIRMED''"
  using executed_confirmed_or_held [OF example_accepted(1) example_last_facts(1)] example_accepted(2) by (simp add: example_last_facts)

theorem accepted_ledger_grows_witness:
  "\<exists>s. replay_ledger example_libs example_ledger example_source = Inr s \<and> ledger_extends s example_ledger_state"
proof -
  have "example_ledger \<noteq> []" by (simp add: example_ledger_def example_begun_def)
  then show ?thesis using accepted_ledger_grows [OF example_accepted(1)] by blast
qed

theorem ledger_digest_pins_payloads_witness:
  "map row_text (example_ledger @ [example_last]) = map row_text (example_ledger @ [example_last]) \<or> sha_broken example_libs"
  by (rule ledger_digest_pins_payloads [OF example_accepted(1) example_accepted(1) refl])

end
