(* ===== verification/PgJournal.thy ===== *)
theory PgJournal
  imports PgLedger
begin

text \<open>
  \<open>audit/postgres_journal.py\<close>: the PostgreSQL dispatch journal. What the database holds for one domain is
  a \<open>pg_store\<close> (the projection row and the events), part of the state, so another session that writes to
  it is a change between two operations. What the database, the clock and the process answer in one
  operation is a \<open>pg_env\<close>. A transaction that raises leaves the store as it was; a commit may also raise
  after it took effect.
\<close>

section \<open>The store and its environment\<close>

record pg_store =
  st_row :: "json list option"      \<comment> \<open>the ten columns of domain\_state\<close>
  st_events :: "json list list"     \<comment> \<open>the six columns of events, in the order of the sequence\<close>

record pg_env =
  pe_transactional :: bool             \<comment> \<open>autocommit is off\<close>
  pe_sql :: "string \<Rightarrow> bool"           \<comment> \<open>the statement returns\<close>
  pe_fsync :: bool
  pe_synchronous :: bool
  pe_versions :: "int list"
  pe_lock :: "int \<Rightarrow> bool"
  pe_commit :: commit_fate
  pe_time :: "nat \<Rightarrow> rat"              \<comment> \<open>the readings of the clock\<close>
  pe_context :: "invocation_context option"

definition SCHEMA_VERSION :: int where "SCHEMA_VERSION = 1"

record pg_identity =
  pi_domain :: trust_domain
  pi_revision :: string
  pi_source :: string

definition stable_domain :: "trust_domain \<Rightarrow> json" where
  "stable_domain d = (case domain_json d of JObj ms \<Rightarrow> JObj (filter (\<lambda>(k, v). k \<noteq> ''instance'') ms) | v \<Rightarrow> v)"

definition domain_text :: "trust_domain \<Rightarrow> string" where
  "domain_text d = enc True (jsort (stable_domain d))"

definition domain_identity :: "libs \<Rightarrow> trust_domain \<Rightarrow> string" where
  "domain_identity w d = sha256 w (domain_text d)"

definition pg_source :: "libs \<Rightarrow> pg_identity \<Rightarrow> ledger_source" where
  "pg_source w i = \<lparr>src_key = domain_identity w (pi_domain i), src_domain = stable_domain (pi_domain i),
     src_revision = pi_revision i, src_sha = pi_source i\<rparr>"

text \<open>
  \<open>head\<close> is the revision git reports and \<open>manifest\<close> the digests of the sources, when they can be read.
  Every failure after the first check, the mismatch included, is caught and reported alike.
\<close>

definition read_source_identity :: "libs \<Rightarrow> string option \<Rightarrow> json option \<Rightarrow> string \<Rightarrow> exn + string" where
  "read_source_identity w head manifest revision =
     (if \<not> is_hex 40 revision then Inl (LocalHold ''SOURCE_REVISION_INVALID'')
      else case (head, manifest) of
          (Some h, Some m) \<Rightarrow>
            if h \<noteq> revision then Inl (LocalHold ''SOURCE_IDENTITY_UNVERIFIABLE'')
            else (case dumps True m of None \<Rightarrow> Inl (LocalHold ''SOURCE_IDENTITY_UNVERIFIABLE'') | Some t \<Rightarrow> Inr (sha256 w t))
        | _ \<Rightarrow> Inl (LocalHold ''SOURCE_IDENTITY_UNVERIFIABLE''))"

section \<open>One transaction\<close>

definition sql_error :: exn where "sql_error = OtherError ''OperationalError''"

definition pg_prepare :: "pg_env \<Rightarrow> exn + unit" where
  "pg_prepare e =
     (if \<not> pe_sql e ''prepare'' then Inl sql_error
      else if \<not> pe_fsync e \<or> \<not> pe_synchronous e then Inl (LocalHold ''POSTGRES_DURABILITY_UNAVAILABLE'')
      else if pe_versions e \<noteq> [SCHEMA_VERSION] then Inl (LocalHold ''POSTGRES_SCHEMA_UNSUPPORTED'')
      else Inr ())"

text \<open>\<open>int.from_bytes(bytes.fromhex(key)[:8], "big", signed=True)\<close>.\<close>

definition lock_key :: "string \<Rightarrow> int" where
  "lock_key key = (let n = foldl (\<lambda>a c. 16 * a + int (the (hex_value c))) 0 (take 16 key) in
     if n < 2 ^ 63 then n else n - 2 ^ 64)"

definition claim_lock :: "pg_env \<Rightarrow> string \<Rightarrow> exn + unit" where
  "claim_lock e key = (if \<not> pe_sql e ''lock'' then Inl sql_error
     else if \<not> pe_lock e (lock_key key) then Inl (LocalHold ''POSTGRES_OWNER_CONFLICT'') else Inr ())"

text \<open>The seven columns a ledger state projects to.\<close>

definition projection :: "ledger_state \<Rightarrow> json list" where
  "projection s = [JInt (ls_epoch s), opt_str (ls_owner s), JBool (ls_owner_active s), JInt (ls_denials s),
     JBool (ls_held s), JInt (ls_sequence s), JStr (ls_digest s)]"

definition hist_hold :: "string + 'a \<Rightarrow> exn + 'a" where
  "hist_hold r = (case r of Inl c \<Rightarrow> Inl (LocalHold c) | Inr a \<Rightarrow> Inr a)"

definition pg_load :: "libs \<Rightarrow> pg_env \<Rightarrow> pg_identity \<Rightarrow> pg_store \<Rightarrow> exn + ledger_state \<times> json list list" where
  "pg_load w e i st =
     (if \<not> pe_sql e ''state'' then Inl sql_error
      else case st_row st of None \<Rightarrow> Inl (LocalHold ''POSTGRES_DOMAIN_NOT_PROVISIONED'')
      | Some row \<Rightarrow>
        if length row \<noteq> 10 \<or> row ! 0 \<noteq> JStr (domain_text (pi_domain i)) \<or> row ! 1 \<noteq> JStr (pi_revision i)
           \<or> row ! 2 \<noteq> JStr (pi_source i)
        then Inl (LocalHold ''POSTGRES_DOMAIN_OR_SOURCE_MISMATCH'')
        else if \<not> pe_sql e ''history'' then Inl sql_error
        else (let rows = take (MAX_EVENTS + 1) (st_events st) in
          rbind (hist_hold (replay_ledger w rows (pg_source w i))) (\<lambda>s.
            if drop 3 row \<noteq> projection s then Inl (LocalHold ''POSTGRES_PROJECTION_INVALID'')
            else Inr (s, rows))))"

text \<open>The conditional update: the row as it was, or it matches nothing and the fence rejects.\<close>

definition fence_matches :: "pg_identity \<Rightarrow> ledger_state \<Rightarrow> json list \<Rightarrow> bool" where
  "fence_matches i s row \<longleftrightarrow> row ! 3 = JInt (ls_epoch s) \<and> row ! 4 = opt_str (ls_owner s)
     \<and> row ! 5 = JBool (ls_owner_active s) \<and> row ! 8 = JInt (ls_sequence s) \<and> row ! 9 = JStr (ls_digest s)
     \<and> row ! 1 = JStr (pi_revision i) \<and> row ! 2 = JStr (pi_source i)"

definition pg_append ::
    "libs \<Rightarrow> pg_env \<Rightarrow> pg_identity \<Rightarrow> ledger_state \<Rightarrow> json list list \<Rightarrow> json \<Rightarrow> pg_store \<Rightarrow> exn + ledger_state \<times> pg_store" where
  "pg_append w e i s rows event st =
     rbind (hist_hold (canonical_event event)) (\<lambda>payload.
       let row = [JInt (ls_sequence s + 1), fld event ''kind'', fld event ''request_id'', JStr payload,
                  JStr (ls_digest s), JStr (sha256 w (ls_digest s @ payload))]
       in rbind (hist_hold (replay_ledger w (rows @ [row]) (pg_source w i))) (\<lambda>after.
            if \<not> pe_sql e ''event'' \<or> list_ex (\<lambda>r. r ! 0 = row ! 0) (st_events st) \<or> \<not> pe_sql e ''update''
            then Inl sql_error
            else (case st_row st of
                Some r \<Rightarrow> if fence_matches i s r
                  then Inr (after, \<lparr>st_row = Some (take 3 r @ projection after), st_events = st_events st @ [row]\<rparr>)
                  else Inl (LocalHold ''POSTGRES_OWNER_FENCE_REJECTED'')
              | None \<Rightarrow> Inl (LocalHold ''POSTGRES_OWNER_FENCE_REJECTED''))))"

section \<open>Provisioning\<close>

definition provision_postgres_domain ::
    "libs \<Rightarrow> pg_env \<Rightarrow> trust_domain \<Rightarrow> string \<Rightarrow> exn + string \<Rightarrow> pg_store \<Rightarrow> pg_store \<times> (exn + unit)" where
  "provision_postgres_domain w e d revision identity st =
     (let failure = Inl (LocalHold ''POSTGRES_PROVISION_UNCONFIRMED'');
          r = rbind identity (\<lambda>source.
            let i = \<lparr>pi_domain = d, pi_revision = revision, pi_source = source\<rparr> in
            if \<not> pe_transactional e then Inl (LocalHold ''POSTGRES_TRANSACTION_REQUIRED'')
            else rbind (pg_prepare e) (\<lambda>_. rbind (claim_lock e (domain_identity w d)) (\<lambda>_.
              if \<not> pe_sql e ''provision'' \<or> st_row st \<noteq> None then Inl sql_error
              else rbind (pg_append w e i LedgerState [] (ledger_provision (pg_source w i))
                     (st\<lparr>st_row := Some (JStr (domain_text d) # JStr revision # JStr source # projection LedgerState)\<rparr>))
                   (\<lambda>(after, st'). Inr st'))))
      in case r of Inl x \<Rightarrow> (st, failure)
         | Inr st' \<Rightarrow> (case pe_commit e of Committed \<Rightarrow> (st', Inr ()) | CommitLost \<Rightarrow> (st', failure)
                        | CommitFailed \<Rightarrow> (st, failure)))"

section \<open>The journal\<close>

record pg_journal =
  pj_id :: pg_identity
  pj_owner :: string
  pj_state :: ledger_state
  pj_poisoned :: bool
  pj_closed :: bool
  pj_connected :: bool
  pj_store :: pg_store

definition pg_held :: "pg_journal \<Rightarrow> bool" where
  "pg_held j \<longleftrightarrow> pj_poisoned j \<or> ls_held (pj_state j)"

definition stop_code :: "exn \<Rightarrow> string" where
  "stop_code x = (let c = (case x of LocalHold s \<Rightarrow> s | _ \<Rightarrow> ''POSTGRES_TRANSACTION_UNCONFIRMED'') in
     if 1 \<le> length c \<and> length c \<le> 128 \<and> list_all (\<lambda>k. ascii_upper k \<or> ascii_digit k \<or> k = CHR ''_'') c
     then c else ''POSTGRES_TRANSACTION_UNCONFIRMED'')"

definition pg_stop :: "pg_journal \<Rightarrow> exn \<Rightarrow> (pg_journal, exn, 'a) outcome" where
  "pg_stop j x = (j\<lparr>pj_poisoned := True, pj_connected := False\<rparr>, Inl (LocalHold (stop_code x)))"

text \<open>\<open>except BaseException as exc: self._stop(exc)\<close> around an operation.\<close>

definition stopping :: "(pg_journal, exn, 'a) outcome \<Rightarrow> (pg_journal, exn, 'a) outcome" where
  "stopping r = (case r of (j, Inl x) \<Rightarrow> pg_stop j x | (j, Inr a) \<Rightarrow> (j, Inr a))"

definition pg_event ::
    "libs \<Rightarrow> pg_identity \<Rightarrow> string \<Rightarrow> int \<Rightarrow> string \<Rightarrow> rat \<Rightarrow> (string \<times> json) list \<Rightarrow> json" where
  "pg_event w i k epoch owner now fs = dict_of
     ([(''kind'', JStr k), (''domain_key'', JStr (domain_identity w (pi_domain i))), (''epoch'', JInt epoch),
       (''owner_id'', JStr owner), (''instance'', JStr (dom_instance (pi_domain i))),
       (''source_revision'', JStr (pi_revision i)), (''source_sha256'', JStr (pi_source i)),
       (''time'', float_json w now)] @ fs)"

text \<open>The end of a transaction whose statements gave the state after and the store after.\<close>

definition pg_commit :: "pg_env \<Rightarrow> exn + ledger_state \<times> pg_store \<Rightarrow> pg_journal \<Rightarrow> (pg_journal, exn, unit) outcome" where
  "pg_commit e r j = (case r of
       Inl x \<Rightarrow> pg_stop j x
     | Inr (after, st) \<Rightarrow> (case pe_commit e of
           Committed \<Rightarrow> (j\<lparr>pj_state := after, pj_store := st\<rparr>, Inr ())
         | CommitLost \<Rightarrow> pg_stop (j\<lparr>pj_store := st\<rparr>) sql_error
         | CommitFailed \<Rightarrow> pg_stop j sql_error))"

definition owner_id_ok :: "string \<Rightarrow> bool" where
  "owner_id_ok s \<longleftrightarrow> 1 \<le> length s \<and> length s \<le> 128
     \<and> list_all (\<lambda>c. ascii_upper c \<or> ascii_lower c \<or> ascii_digit c \<or> c \<in> set ''_.:-'') s"

text \<open>The constructor; a journal that is not returned has released its session.\<close>

definition PostgresDispatchJournal ::
    "libs \<Rightarrow> pg_env \<Rightarrow> trust_domain \<Rightarrow> string \<Rightarrow> exn + string \<Rightarrow> string \<Rightarrow> pg_store \<Rightarrow> pg_store \<times> (exn + pg_journal)" where
  "PostgresDispatchJournal w e d revision identity owner st = (case identity of
       Inl x \<Rightarrow> (st, Inl x)
     | Inr source \<Rightarrow>
        if \<not> owner_id_ok owner then (st, Inl (LocalHold ''POSTGRES_OWNER_ID_INVALID''))
        else (let i = \<lparr>pi_domain = d, pi_revision = revision, pi_source = source\<rparr>;
                  j = \<lparr>pj_id = i, pj_owner = owner, pj_state = LedgerState, pj_poisoned = False, pj_closed = False,
                       pj_connected = True, pj_store = st\<rparr>;
                  r = (if \<not> pe_transactional e then Inl (LocalHold ''POSTGRES_TRANSACTION_REQUIRED'')
                    else rbind (pg_prepare e) (\<lambda>_. rbind (claim_lock e (domain_identity w d)) (\<lambda>_.
                      rbind (pg_load w e i st) (\<lambda>(s, rows).
                        if ls_held s \<or> ls_active s \<noteq> None \<or> ls_owner_active s then Inl (LocalHold ''POSTGRES_RECOVERY_HOLD'')
                        else pg_append w e i s rows (pg_event w i ''boot'' (ls_epoch s + 1) owner (pe_time e 0) []) st))));
                  (j', res) = pg_commit e r j
              in (pj_store j', (case res of Inl x \<Rightarrow> Inl x | Inr u \<Rightarrow> Inr j'))))"

definition pg_context :: "pg_env \<Rightarrow> nat \<Rightarrow> pg_journal \<Rightarrow> exn + json" where
  "pg_context e n j =
     (if context_admissible (pi_domain (pj_id j)) (pe_time e n) (pe_context e)
      then Inr (context_evidence (the (pe_context e)))
      else Inl (LocalHold ''AUTH_CONTEXT_INVALID_OR_EXPIRED''))"

text \<open>\<open>_run\<close>; \<open>None\<close> only verifies. The event is stamped with the \<open>n\<close>th reading of the clock.\<close>

definition pg_run ::
    "libs \<Rightarrow> pg_env \<Rightarrow> nat \<Rightarrow> (string \<times> (string \<times> json) list) option \<Rightarrow> pg_journal \<Rightarrow> (pg_journal, exn, unit) outcome" where
  "pg_run w e n ev j =
     (if pj_closed j \<or> pg_held j \<or> \<not> pj_connected j then (j, Inl (LocalHold ''POSTGRES_DURABLE_HOLD''))
      else pg_commit e
        (rbind (pg_prepare e) (\<lambda>_. rbind (pg_load w e (pj_id j) (pj_store j)) (\<lambda>(s, rows).
           if ls_epoch s \<noteq> ls_epoch (pj_state j) \<or> ls_owner s \<noteq> Some (pj_owner j) \<or> \<not> ls_owner_active s \<or> s \<noteq> pj_state j
           then Inl (LocalHold ''POSTGRES_OWNER_OR_HISTORY_CHANGED'')
           else (case ev of None \<Rightarrow> Inr (s, pj_store j)
             | Some (k, fs) \<Rightarrow> pg_append w e (pj_id j) s rows
                 (pg_event w (pj_id j) k (ls_epoch (pj_state j)) (pj_owner j) (pe_time e n) fs) (pj_store j))))) j)"

definition pg_admit :: "libs \<Rightarrow> pg_env \<Rightarrow> pg_journal \<Rightarrow> (pg_journal, exn, int) outcome" where
  "pg_admit w e j = stopping
     (if ls_active (pj_state j) \<noteq> None then (j, Inl (LocalHold ''POSTGRES_REQUEST_ACTIVE''))
      else obind (j, pg_context e 0 j) (\<lambda>_ j. obind (pg_run w e 0 None j) (\<lambda>_ j.
        obind (j, pg_context e 1 j) (\<lambda>_ j. (j, Inr (ls_denials (pj_state j)))))))"

definition pg_begin :: "libs \<Rightarrow> pg_env \<Rightarrow> string \<Rightarrow> pg_journal \<Rightarrow> (pg_journal, exn, unit) outcome" where
  "pg_begin w e rid j = stopping
     (obind (j, pg_context e 0 j) (\<lambda>c j. pg_run w e 1 (Some (''begin'', [(''request_id'', JStr rid), (''context'', c)])) j))"

definition pg_policy :: "libs \<Rightarrow> pg_env \<Rightarrow> string \<Rightarrow> (string \<times> json) list \<Rightarrow> pg_journal \<Rightarrow> (pg_journal, exn, unit) outcome" where
  "pg_policy w e rid evidence j = stopping
     (if fst ` set evidence \<noteq> {''initial_decision'', ''reasons'', ''binding_issued'', ''binding_issuance_error''}
      then (j, Inl (LocalHold ''POSTGRES_POLICY_EVIDENCE_INVALID''))
      else pg_run w e 0 (Some (''policy'', (''request_id'', JStr rid) # evidence)) j)"

definition pg_intent :: "libs \<Rightarrow> pg_env \<Rightarrow> authority_envelope option \<Rightarrow> pg_journal \<Rightarrow> (pg_journal, exn, unit) outcome" where
  "pg_intent w e auth j = stopping (case auth of
       None \<Rightarrow> (j, Inl (LocalHold ''POSTGRES_INTENT_BINDING_MISSING''))
     | Some a \<Rightarrow>
        if Some (x_request_id (a_binding a)) \<noteq> ls_active (pj_state j) then (j, Inl (LocalHold ''POSTGRES_INTENT_BINDING_MISSING''))
        else obind (j, pg_context e 0 j) (\<lambda>c j.
          obind (pg_run w e 1 (Some (''intent'', [(''request_id'', opt_str (ls_active (pj_state j))), (''context'', c),
             (''authority'', envelope_audit_record w a), (''containment_denials'', JInt (ls_denials (pj_state j))),
             (''dispatch_state'', JStr ''NOT_DISPATCHED'')])) j) (\<lambda>_ j.
          obind (j, pg_context e 2 j) (\<lambda>_ j. (j, Inr ())))))"

text \<open>
  \<open>finish\<close>: the evidence has the three fields and the attempts the fields of \<open>AttemptRecord\<close> by their types
  here. The envelope is settled before the transaction, and stays so when it raises.
\<close>

definition pg_attempt :: "attempt_record \<Rightarrow> json" where
  "pg_attempt a = JObj
     [(''attempt'', JInt (int (at_attempt a))), (''max_attempts'', JInt (int (at_max_attempts a))),
      (''dispatch_state'', JStr (dispatch_text (at_dispatch a))), (''response_state'', JStr (response_text (at_response a))),
      (''status_code'', (case at_status a of None \<Rightarrow> JNull | Some n \<Rightarrow> JInt (int n))),
      (''response_received'', JBool (at_received a)), (''retry_decision'', JStr (retry_text (at_decision a)))]"

definition pg_settle :: "envelope \<Rightarrow> finish_evidence \<Rightarrow> envelope" where
  "pg_settle v ev = (if outcome_unknown v ev then (hold_envelope v)\<lparr>e_dispatch := DISPATCH_UNKNOWN\<rparr> else v)"

definition pg_finish_fields :: "envelope \<Rightarrow> int \<Rightarrow> bool \<Rightarrow> finish_evidence \<Rightarrow> (string \<times> json) list" where
  "pg_finish_fields v denials unknown ev =
     [(''request_id'', JStr (e_request_id v)), (''denials'', JInt denials), (''hold'', JBool unknown),
      (''final_decision'', JStr (decision_text (e_decision v))),
      (''phase'', JStr (if tool_executed v then ''post_dispatch'' else ''pre_dispatch'')),
      (''tool_executed'', JBool (tool_executed v)), (''dispatch_state'', JStr (dispatch_text (e_dispatch v))),
      (''response_state'', JStr (response_text (e_response v))), (''next_action'', JStr (action_text (e_next v))),
      (''pre_dispatch_verification'', JStr (pre_dispatch ev)),
      (''binding_consumption'', JStr (if pre_dispatch ev = ''PASS'' then ''VERIFIED''
         else if pre_dispatch ev = ''FAIL'' then ''NOT_ESTABLISHED'' else ''NOT_REQUIRED'')),
      (''execution_boundary_error'', opt_str (boundary_error ev)),
      (''attempt_metadata_available'', JBool (metadata_available v)),
      (''attempts'', JList (map pg_attempt (attempts_made ev))),
      (''policy_reasons'', JList (map JStr (e_policy_reasons v))),
      (''error_codes'', JList (map (\<lambda>x. JStr (error_code x)) (e_errors v)))]"

definition pg_finish ::
    "libs \<Rightarrow> pg_env \<Rightarrow> envelope \<Rightarrow> int \<Rightarrow> finish_evidence \<Rightarrow> pg_journal \<Rightarrow> (pg_journal \<times> envelope, exn, unit) outcome" where
  "pg_finish w e v denials ev j =
     (let v' = pg_settle v ev;
          (j', r) = stopping (pg_run w e 0 (Some (''finish'', pg_finish_fields v' denials (outcome_unknown v ev) ev)) j)
      in ((j', v'), r))"

definition pg_failed :: "libs \<Rightarrow> pg_env \<Rightarrow> exn \<Rightarrow> pg_journal \<Rightarrow> pg_journal" where
  "pg_failed w e x j =
     (if \<not> pg_held j \<and> \<not> pj_closed j
      then fst (pg_run w e 0 (Some (''hold'', [(''request_id'', opt_str (ls_active (pj_state j))),
             (''reason'', JStr ''INCOMPLETE_CALL''), (''hold'', JBool True), (''dispatch_state'', JStr ''DISPATCH_UNKNOWN''),
             (''response_state'', JStr ''TRANSPORT_ERROR'')])) j)
      else j)\<lparr>pj_poisoned := True, pj_connected := False\<rparr>"

definition pg_close :: "libs \<Rightarrow> pg_env \<Rightarrow> pg_journal \<Rightarrow> (pg_journal, exn, unit) outcome" where
  "pg_close w e j =
     (let (j', r) = (if \<not> pj_closed j \<and> \<not> pg_held j \<and> ls_active (pj_state j) = None then pg_run w e 0 (Some (''close'', [])) j
                     else if ls_active (pj_state j) \<noteq> None then (j\<lparr>pj_poisoned := True\<rparr>, Inr ()) else (j, Inr ()))
      in (j'\<lparr>pj_closed := True, pj_connected := False\<rparr>, r))"

definition pg_ops :: "libs \<Rightarrow> (pg_journal, pg_env) journal_ops" where
  "pg_ops w = \<lparr>j_admit = pg_admit w, j_begin = pg_begin w, j_policy = pg_policy w, j_intent = pg_intent w,
     j_finish = pg_finish w, j_failed = pg_failed w\<rparr>"

end
