(* ===== verification/PgJournalSafety.thy ===== *)
theory PgJournalSafety
  imports PgJournal GatewaySafety
begin

text \<open>
  What the PostgreSQL journal promises: one owner, a database that always holds an accepted ledger, intents
  on record before any dispatch, unknown outcomes held; it is a provider of \<open>dispatch_journal\<close>.
\<close>


section \<open>What a transaction does to the store\<close>

text \<open>The store holds an accepted ledger and its projection row agrees with the replayed state.\<close>

definition consistent :: "libs \<Rightarrow> pg_identity \<Rightarrow> pg_store \<Rightarrow> ledger_state \<Rightarrow> bool" where
  "consistent w i st s \<longleftrightarrow> replay_ledger w (st_events st) (pg_source w i) = Inr s
     \<and> st_row st = Some ([JStr (domain_text (pi_domain i)), JStr (pi_revision i), JStr (pi_source i)] @ projection s)"

lemma hist_hold_Inr [simp]: "hist_hold r = Inr a \<longleftrightarrow> r = Inr a"
  by (cases r) (simp_all add: hist_hold_def)

lemma if_Inl_Inr: "(if b then Inl x else r) = Inr a \<longleftrightarrow> \<not> b \<and> r = Inr a"
  by simp

lemma take3: "3 \<le> length r \<Longrightarrow> take 3 r = [r ! 0, r ! 1, r ! 2]"
  by (cases r; cases "tl r"; cases "tl (tl r)") (auto simp: numeral_3_eq_3)

lemma pg_load_Inr:
  assumes "pg_load w e i st = Inr (s, rows)"
  shows "consistent w i st s \<and> rows = st_events st"
proof -
  obtain row where some: "st_row st = Some row"
    using assms by (cases "st_row st") (simp_all add: pg_load_def split: if_split_asm)
  have row: "st_row st = Some row" "length row = 10" "row ! 0 = JStr (domain_text (pi_domain i))"
    "row ! 1 = JStr (pi_revision i)" "row ! 2 = JStr (pi_source i)" "drop 3 row = projection s"
    and rep: "replay_ledger w (take (MAX_EVENTS + 1) (st_events st)) (pg_source w i) = Inr s"
    and rows: "rows = take (MAX_EVENTS + 1) (st_events st)"
    using assms
    by (simp_all add: pg_load_def some Let_def if_Inl_Inr rbind_Inr_iff del: One_nat_def)
       (elim conjE, hypsubst, assumption)
  have "length (take (MAX_EVENTS + 1) (st_events st)) \<le> MAX_EVENTS"
    using rep by (auto simp: replay_ledger_def split: if_splits)
  then have all: "take (MAX_EVENTS + 1) (st_events st) = st_events st" by simp
  have "row = take 3 row @ drop 3 row" by simp
  then have "row = [JStr (domain_text (pi_domain i)), JStr (pi_revision i), JStr (pi_source i)] @ projection s"
    using row take3 [of row] by simp
  then show ?thesis using row(1) rep rows all by (simp add: consistent_def)
qed

lemma pg_append_Inr:
  assumes "pg_append w e i s (st_events st) event st = Inr (after, st')" "consistent w i st s'"
  obtains row where "st_events st' = st_events st @ [row]" "consistent w i st' after"
    "row ! 1 = fld event ''kind''" "row ! 2 = fld event ''request_id''"
proof -
  obtain payload row where row: "row = [JInt (ls_sequence s + 1), fld event ''kind'', fld event ''request_id'', JStr payload,
                  JStr (ls_digest s), JStr (sha256 w (ls_digest s @ payload))]"
    "replay_ledger w (st_events st @ [row]) (pg_source w i) = Inr after"
    "st' = \<lparr>st_row = Some (take 3 (the (st_row st)) @ projection after), st_events = st_events st @ [row]\<rparr>"
    using assms(1) by (auto simp: pg_append_def Let_def rbind_Inr_iff split: if_splits option.splits)
  show thesis
  proof (rule that [of row])
    show "consistent w i st' after"
      using row assms(2) by (simp add: consistent_def take3)
  qed (simp_all add: row)
qed

text \<open>A transaction of an open journal that reached its commit.\<close>

definition pg_body ::
    "libs \<Rightarrow> pg_env \<Rightarrow> nat \<Rightarrow> (string \<times> (string \<times> json) list) option \<Rightarrow> pg_journal \<Rightarrow> exn + ledger_state \<times> pg_store" where
  "pg_body w e n ev j =
     rbind (pg_prepare e) (\<lambda>_. rbind (pg_load w e (pj_id j) (pj_store j)) (\<lambda>(s, rows).
           if ls_epoch s \<noteq> ls_epoch (pj_state j) \<or> ls_owner s \<noteq> Some (pj_owner j) \<or> \<not> ls_owner_active s \<or> s \<noteq> pj_state j
           then Inl (LocalHold ''POSTGRES_OWNER_OR_HISTORY_CHANGED'')
           else (case ev of None \<Rightarrow> Inr (s, pj_store j)
             | Some (k, fs) \<Rightarrow> pg_append w e (pj_id j) s rows
                 (pg_event w (pj_id j) k (ls_epoch (pj_state j)) (pj_owner j) (pe_time e n) fs) (pj_store j))))"

definition event_row :: "libs \<Rightarrow> pg_env \<Rightarrow> nat \<Rightarrow> string \<Rightarrow> (string \<times> json) list \<Rightarrow> pg_journal \<Rightarrow> json list \<Rightarrow> bool" where
  "event_row w e n k fs j row \<longleftrightarrow>
     (let event = pg_event w (pj_id j) k (ls_epoch (pj_state j)) (pj_owner j) (pe_time e n) fs
      in row ! 1 = fld event ''kind'' \<and> row ! 2 = fld event ''request_id'')"

lemma pg_body_Inr:
  assumes "pg_body w e n ev j = Inr (after, st')"
  shows "consistent w (pj_id j) (pj_store j) (pj_state j) \<and> ls_owner_active (pj_state j) \<and> consistent w (pj_id j) st' after
     \<and> (case ev of None \<Rightarrow> after = pj_state j \<and> st' = pj_store j
        | Some (k, fs) \<Rightarrow> \<exists>row. st_events st' = st_events (pj_store j) @ [row] \<and> event_row w e n k fs j row)"
proof -
  obtain rows where load: "pg_load w e (pj_id j) (pj_store j) = Inr (pj_state j, rows)" and act: "ls_owner_active (pj_state j)"
    using assms by (auto simp: pg_body_def rbind_Inr_iff split: if_splits)
  note c = pg_load_Inr [OF load]
  show ?thesis
  proof (cases ev)
    case None
    with assms load act c show ?thesis by (auto simp: pg_body_def rbind_Inr_iff split: if_splits)
  next
    case (Some x)
    obtain k fs where x: "x = (k, fs)" by (cases x)
    have app: "pg_append w e (pj_id j) (pj_state j) (st_events (pj_store j))
        (pg_event w (pj_id j) k (ls_epoch (pj_state j)) (pj_owner j) (pe_time e n) fs) (pj_store j) = Inr (after, st')"
      using assms load c by (auto simp: pg_body_def rbind_Inr_iff Some x split: if_splits)
    obtain row where "st_events st' = st_events (pj_store j) @ [row]" "consistent w (pj_id j) st' after"
      "row ! 1 = fld (pg_event w (pj_id j) k (ls_epoch (pj_state j)) (pj_owner j) (pe_time e n) fs) ''kind''"
      "row ! 2 = fld (pg_event w (pj_id j) k (ls_epoch (pj_state j)) (pj_owner j) (pe_time e n) fs) ''request_id''"
      using pg_append_Inr [OF app] c by blast
    with act c show ?thesis by (auto simp: Some x event_row_def Let_def)
  qed
qed

lemma pg_run_body:
  "pg_run w e n ev j =
     (if pj_closed j \<or> pg_held j \<or> \<not> pj_connected j then (j, Inl (LocalHold ''POSTGRES_DURABLE_HOLD''))
      else pg_commit e (pg_body w e n ev j) j)"
  by (simp add: pg_run_def pg_body_def)

text \<open>
  The three ends of \<open>_run\<close>: nothing happened; the transaction took effect but its commit raised; it
  returned.
\<close>

lemma pg_run_cases:
  obtains (refused) x where "snd (pg_run w e n ev j) = Inl x" "fst (pg_run w e n ev j) \<in> {j, j\<lparr>pj_poisoned := True, pj_connected := False\<rparr>}"
  | (lost) x after st where "pg_body w e n ev j = Inr (after, st)" "\<not> pg_held j" "\<not> pj_closed j" "snd (pg_run w e n ev j) = Inl x"
      "fst (pg_run w e n ev j) = j\<lparr>pj_poisoned := True, pj_connected := False, pj_store := st\<rparr>"
  | (ran) after st where "pg_body w e n ev j = Inr (after, st)" "\<not> pg_held j" "\<not> pj_closed j" "pj_connected j"
      "pg_run w e n ev j = (j\<lparr>pj_state := after, pj_store := st\<rparr>, Inr ())"
proof (cases "pj_closed j \<or> pg_held j \<or> \<not> pj_connected j")
  case True
  then show thesis using refused by (simp add: pg_run_def)
next
  case False
  then have run: "pg_run w e n ev j = pg_commit e (pg_body w e n ev j) j" by (simp add: pg_run_body)
  show thesis
  proof (cases "pg_body w e n ev j")
    case (Inl x)
    with run show thesis using refused by (simp add: pg_commit_def pg_stop_def)
  next
    case (Inr b)
    obtain after st where b: "b = (after, st)" by (cases b)
    with run Inr False show thesis
      using refused lost ran by (cases "pe_commit e") (simp_all add: pg_commit_def pg_stop_def)
  qed
qed

section \<open>What every operation keeps\<close>

definition pg_inv :: "libs \<Rightarrow> pg_journal \<Rightarrow> bool" where
  "pg_inv w j \<longleftrightarrow> (\<exists>s. consistent w (pj_id j) (pj_store j) s)
     \<and> (\<not> pj_poisoned j \<longrightarrow> consistent w (pj_id j) (pj_store j) (pj_state j))"

text \<open>The database says that the domain has an active owner.\<close>

definition pg_owned :: "libs \<Rightarrow> pg_identity \<Rightarrow> pg_store \<Rightarrow> bool" where
  "pg_owned w i st \<longleftrightarrow> (\<exists>s. consistent w i st s \<and> ls_owner_active s)"

definition pg_step :: "libs \<Rightarrow> pg_journal \<Rightarrow> pg_journal \<Rightarrow> bool" where
  "pg_step w j j' \<longleftrightarrow> pj_id j' = pj_id j \<and> (pg_held j \<longrightarrow> pg_held j')
     \<and> (pg_held j \<or> pj_closed j \<longrightarrow> pj_store j' = pj_store j) \<and> (pj_closed j \<longrightarrow> pj_closed j')
     \<and> prefix (st_events (pj_store j)) (st_events (pj_store j')) \<and> (pg_inv w j \<longrightarrow> pg_inv w j')"

definition pg_work :: "libs \<Rightarrow> pg_journal \<Rightarrow> pg_journal \<Rightarrow> bool" where
  "pg_work w j j' \<longleftrightarrow> pg_step w j j' \<and> (pg_owned w (pj_id j) (pj_store j) \<longrightarrow> pg_owned w (pj_id j') (pj_store j'))"

lemma work_refl [simp]: "pg_work w j j"
  by (simp add: pg_work_def pg_step_def)

lemma step_trans_pg: "pg_step w j j' \<Longrightarrow> pg_step w j' j'' \<Longrightarrow> pg_step w j j''"
  by (auto simp: pg_step_def intro: prefix_order.trans)

lemma work_trans: "pg_work w j j' \<Longrightarrow> pg_work w j' j'' \<Longrightarrow> pg_work w j j''"
  by (auto simp: pg_work_def intro: step_trans_pg)

lemma work_stopped [simp]: "pg_work w j (j\<lparr>pj_poisoned := True, pj_connected := False\<rparr>)"
  by (simp add: pg_work_def pg_step_def pg_held_def pg_inv_def)

lemma consistent_owner:
  assumes "consistent w i st s" "consistent w i st' s'" "st_events st' = st_events st @ [row]"
    and "ls_owner_active s" "row ! 1 \<noteq> JStr ''close''"
  shows "ls_owner_active s'"
proof -
  obtain rv where rv: "replay_rows w (pg_source w i) (st_events st) replay_start = Inr rv" "s = rv_state rv" "st_events st \<noteq> []"
    using assms(1) by (auto simp: consistent_def elim: replay_ledgerD)
  obtain rv' where "replay_rows w (pg_source w i) (st_events st @ [row]) replay_start = Inr rv'" "s' = rv_state rv'"
    using assms(2,3) by (auto simp: consistent_def elim: replay_ledgerD)
  then have rv': "replay_row w (pg_source w i) row rv = Inr rv'" "s' = rv_state rv'"
    using rv(1) by (auto simp: replay_rows_snoc)
  have "1 \<le> ls_sequence (rv_state rv)" using accepted_sequence [OF rv(1,3)] rv(3) by (cases "st_events st") auto
  from rv'(1) this show ?thesis
  proof (cases rule: later_row_cases)
    case (1 t k p rv1)
    from 1(1,2) show ?thesis
      by (cases rule: ev_step_cases) (use 1 rv'(2) rv(2) assms(4,5) in auto)
  qed
qed

text \<open>The event a run may append: none, or one that does not close the domain.\<close>

definition works :: "(string \<times> (string \<times> json) list) option \<Rightarrow> bool" where
  "works ev \<longleftrightarrow> (case ev of None \<Rightarrow> True | Some (k, fs) \<Rightarrow> k \<noteq> ''close'' \<and> ''kind'' \<notin> fst ` set fs)"

lemma map_of_rev_fresh: "k \<notin> fst ` set fs \<Longrightarrow> map_of (rev fs @ xs) k = map_of xs k"
  by (simp add: map_add_def map_of_eq_None_iff [THEN iffD2])

lemma pg_event_kind: "''kind'' \<notin> fst ` set fs \<Longrightarrow> fld (pg_event w i k epoch owner t fs) ''kind'' = JStr k"
  by (simp add: pg_event_def jget_or_def jget_dict_of map_of_rev_fresh del: map_of_append)

lemma pg_event_request:
  "fs = (''request_id'', v) # fs' \<Longrightarrow> ''request_id'' \<notin> fst ` set fs' \<Longrightarrow>
     fld (pg_event w i k epoch owner t fs) ''request_id'' = v"
  by (simp add: pg_event_def jget_or_def jget_dict_of map_of_rev_fresh del: map_of_append)

lemma pg_body_step:
  assumes "pg_body w e n ev j = Inr (after, st)"
  shows "prefix (st_events (pj_store j)) (st_events st)" "consistent w (pj_id j) st after"
    "works ev \<Longrightarrow> pg_owned w (pj_id j) (pj_store j) \<Longrightarrow> pg_owned w (pj_id j) st"
proof -
  note b = pg_body_Inr [OF assms]
  show "consistent w (pj_id j) st after" using b by simp
  show "prefix (st_events (pj_store j)) (st_events st)" using b by (cases ev) auto
  assume wk: "works ev"
  show "pg_owned w (pj_id j) st"
  proof (cases ev)
    case (Some x)
    obtain k fs where x: "x = (k, fs)" by (cases x)
    obtain row where row: "st_events st = st_events (pj_store j) @ [row]" "event_row w e n k fs j row"
      using b by (auto simp: Some x)
    then have "row ! 1 = JStr k" using wk pg_event_kind by (simp add: event_row_def Let_def works_def Some x)
    then have "row ! 1 \<noteq> JStr ''close''" using wk by (simp add: works_def Some x)
    then have "ls_owner_active after" using consistent_owner [OF _ _ row(1)] b by blast
    then show ?thesis using b by (auto simp: pg_owned_def)
  qed (use b in \<open>auto simp: pg_owned_def\<close>)
qed

lemma step_run: "pg_step w j (fst (pg_run w e n ev j))"
proof (cases rule: pg_run_cases [of w e n ev j])
  case (refused x)
  then show ?thesis by (auto simp: pg_step_def pg_held_def pg_inv_def)
next
  case (lost x after st)
  then show ?thesis using pg_body_step [OF lost(1)] by (auto simp: pg_step_def pg_held_def pg_inv_def)
next
  case (ran after st)
  then show ?thesis using pg_body_step [OF ran(1)] by (auto simp: pg_step_def pg_held_def pg_inv_def)
qed

lemma work_run: "works ev \<Longrightarrow> pg_work w j (fst (pg_run w e n ev j))"
proof -
  assume wk: "works ev"
  have "pg_owned w (pj_id j) (pj_store j) \<Longrightarrow> pg_owned w (pj_id j) (pj_store (fst (pg_run w e n ev j)))"
    by (cases rule: pg_run_cases [of w e n ev j]) (use pg_body_step(3) [OF _ wk] in auto)
  moreover have "pj_id (fst (pg_run w e n ev j)) = pj_id j" using step_run by (simp add: pg_step_def)
  ultimately show ?thesis using step_run by (simp add: pg_work_def)
qed

lemma work_stopping: "pg_work w j (fst r) \<Longrightarrow> pg_work w j (fst (stopping r))"
  by (cases r; cases "snd r") (simp_all add: stopping_def pg_stop_def work_trans [OF _ work_stopped])

lemma work_obind:
  "pg_work w j (fst x) \<Longrightarrow> (\<And>a s. pg_work w s (fst (f a s))) \<Longrightarrow> pg_work w j (fst (obind x f))"
  by (rule obind_keep [of "pg_work w j"], assumption) (erule work_trans, blast)

lemma work_pure: "pg_work w j j' \<Longrightarrow> pg_work w j (fst (j', r))"
  by simp

lemmas work_intros = work_stopping work_obind work_run work_pure work_refl

lemma work_admit: "pg_work w j (fst (pg_admit w e j))"
  unfolding pg_admit_def by (auto intro!: work_intros simp: works_def)

lemma work_begin: "pg_work w j (fst (pg_begin w e rid j))"
  unfolding pg_begin_def by (auto intro!: work_intros simp: works_def)

lemma work_policy: "pg_work w j (fst (pg_policy w e rid ev j))"
proof (cases "fst ` set ev = {''initial_decision'', ''reasons'', ''binding_issued'', ''binding_issuance_error''}")
  case True
  then have "''kind'' \<notin> fst ` set ev" by (simp only:) simp
  then have "works (Some (''policy'', (''request_id'', JStr rid) # ev))" by (simp add: works_def)
  then show ?thesis unfolding pg_policy_def using True by (simp add: work_run work_stopping)
next
  case False
  then show ?thesis unfolding pg_policy_def by (simp add: work_stopping)
qed

lemma work_intent: "pg_work w j (fst (pg_intent w e a j))"
  unfolding pg_intent_def by (auto intro!: work_intros simp: works_def split: option.split)

lemma pg_finish_run:
  "fst (fst (pg_finish w e v n ev j)) = fst (stopping (pg_run w e 0 (Some (''finish'', pg_finish_fields (pg_settle v ev) n (outcome_unknown v ev) ev)) j))"
  "snd (pg_finish w e v n ev j) = snd (stopping (pg_run w e 0 (Some (''finish'', pg_finish_fields (pg_settle v ev) n (outcome_unknown v ev) ev)) j))"
  "snd (fst (pg_finish w e v n ev j)) = pg_settle v ev"
  by (simp_all add: pg_finish_def Let_def split_beta)

lemma work_finish: "pg_work w j (fst (fst (pg_finish w e v n ev j)))"
  unfolding pg_finish_run by (intro work_intros) (simp add: works_def pg_finish_fields_def)

lemma work_failed: "pg_work w j (pg_failed w e x j)"
proof -
  have "pg_work w j (if \<not> pg_held j \<and> \<not> pj_closed j
      then fst (pg_run w e 0 (Some (''hold'', [(''request_id'', opt_str (ls_active (pj_state j))),
             (''reason'', JStr ''INCOMPLETE_CALL''), (''hold'', JBool True), (''dispatch_state'', JStr ''DISPATCH_UNKNOWN''),
             (''response_state'', JStr ''TRANSPORT_ERROR'')])) j)
      else j)"
    by (auto intro!: work_intros simp: works_def)
  then show ?thesis unfolding pg_failed_def using work_stopped by (rule work_trans)
qed

lemma step_close_pg: "pg_step w j (fst (pg_close w e j))"
proof -
  have "pg_step w s (s\<lparr>pj_closed := True, pj_connected := False\<rparr>)"
    "pg_step w s (s\<lparr>pj_poisoned := True, pj_closed := True, pj_connected := False\<rparr>)" for s
    by (auto simp: pg_step_def pg_held_def pg_inv_def)
  then show ?thesis
    using step_run [of w j e 0 "Some (''close'', [])"]
    by (auto simp: pg_close_def Let_def split_beta intro: step_trans_pg)
qed

section \<open>The journal protocol\<close>

text \<open>The database records an intent for the request.\<close>

definition pg_recorded :: "pg_journal \<Rightarrow> string \<Rightarrow> bool" where
  "pg_recorded j r \<longleftrightarrow> (\<exists>row \<in> set (st_events (pj_store j)). row_is ''intent'' r row)"

lemma recorded_work: "pg_work w j j' \<Longrightarrow> pg_recorded j r \<Longrightarrow> pg_recorded j' r"
  by (auto simp: pg_work_def pg_step_def pg_recorded_def prefix_def)

lemma held_work: "pg_work w j j' \<Longrightarrow> pg_held j \<Longrightarrow> pg_held j'"
  by (simp add: pg_work_def pg_step_def)

lemma stopping_held: "snd (stopping r) = Inl x \<Longrightarrow> pg_held (fst (stopping r))"
  by (cases r; cases "snd r") (auto simp: stopping_def pg_stop_def pg_held_def)

lemma stopping_Inr: "snd (stopping r) = Inr a \<longleftrightarrow> snd r = Inr a" "snd r = Inr a \<Longrightarrow> fst (stopping r) = fst r"
  by (cases r; cases "snd r"; auto simp: stopping_def pg_stop_def)+

lemma run_Inr:
  assumes "snd (pg_run w e n ev j) = Inr u"
  obtains after st where "pg_body w e n ev j = Inr (after, st)" "\<not> pg_held j" "fst (pg_run w e n ev j) = j\<lparr>pj_state := after, pj_store := st\<rparr>"
  using assms by (cases rule: pg_run_cases [of w e n ev j]) auto

lemma run_verify:
  assumes "snd (pg_run w e n None j) = Inr u"
  shows "fst (pg_run w e n None j) = j \<and> \<not> pg_held j"
  using assms by (rule run_Inr) (use pg_body_Inr [of w e n None j] in fastforce)

lemma admit_Inr: "snd (pg_admit w e j) = Inr n \<Longrightarrow> fst (pg_admit w e j) = j \<and> \<not> pg_held j"
proof -
  assume a: "snd (pg_admit w e j) = Inr n"
  obtain j1 r1 where run: "pg_run w e 0 None j = (j1, r1)" by fastforce
  from a have "r1 = Inr ()"
    by (cases r1; cases "pg_context e 0 j") (auto simp: pg_admit_def stopping_Inr run split: if_splits)
  with run_verify [of w e 0 j] run have "j1 = j" "\<not> pg_held j" by auto
  then show ?thesis
    using a run \<open>r1 = Inr ()\<close>
    by (cases "pg_context e 0 j"; cases "pg_context e 1 j") (auto simp: pg_admit_def stopping_Inr split: if_splits)
qed

lemma intent_Inr:
  assumes "snd (pg_intent w e a j) = Inr ()"
  shows "\<exists>env. a = Some env \<and> pg_recorded (fst (pg_intent w e a j)) (x_request_id (a_binding env))"
proof -
  obtain env where env: "a = Some env" "ls_active (pj_state j) = Some (x_request_id (a_binding env))"
    using assms by (cases a) (auto simp: pg_intent_def stopping_Inr split: if_splits)
  obtain c where c: "pg_context e 0 j = Inr c"
    using assms by (cases "pg_context e 0 j") (auto simp: pg_intent_def env stopping_Inr)
  let ?fs = "[(''request_id'', opt_str (ls_active (pj_state j))), (''context'', c),
             (''authority'', envelope_audit_record w env), (''containment_denials'', JInt (ls_denials (pj_state j))),
             (''dispatch_state'', JStr ''NOT_DISPATCHED'')]"
  have int: "pg_intent w e a j = stopping (obind (pg_run w e 1 (Some (''intent'', ?fs)) j)
       (\<lambda>_ j. obind (j, pg_context e 2 j) (\<lambda>_ j. (j, Inr ()))))"
    by (simp add: pg_intent_def env c)
  obtain j1 r1 where run: "pg_run w e 1 (Some (''intent'', ?fs)) j = (j1, r1)" by fastforce
  have r1: "r1 = Inr ()" using assms by (cases r1) (simp_all add: int stopping_Inr run del: One_nat_def)
  then have fin: "fst (pg_intent w e a j) = j1"
    using assms by (cases "pg_context e 2 j1") (simp_all add: int stopping_Inr run del: One_nat_def)
  have "snd (pg_run w e 1 (Some (''intent'', ?fs)) j) = Inr ()" unfolding run r1 by simp
  then obtain after st where b: "pg_body w e 1 (Some (''intent'', ?fs)) j = Inr (after, st)" "j1 = j\<lparr>pj_state := after, pj_store := st\<rparr>"
    using run by (elim run_Inr) simp
  obtain row where row: "st_events st = st_events (pj_store j) @ [row]" "event_row w e 1 ''intent'' ?fs j row"
    using pg_body_Inr [OF b(1)] by auto
  have "row_is ''intent'' (x_request_id (a_binding env)) row"
    using row(2) env(2) by (simp add: event_row_def Let_def pg_event_kind pg_event_request row_is_def opt_str_def)
  then show ?thesis using env(1) fin b(2) row(1) by (auto simp: pg_recorded_def)
qed

text \<open>A finish event that holds makes the replayed ledger held, once the event reads back as written.\<close>

lemma pg_event_good: "floats_ok w \<Longrightarrow> good_fields w fs \<Longrightarrow> good w (pg_event w i k epoch owner t fs)"
  unfolding pg_event_def by (intro good_dict_of) (simp add: good_fields_def)

lemma finish_fields_good: "good_fields w (pg_finish_fields v n u ev)"
  by (auto simp: pg_finish_fields_def good_fields_def pg_attempt_def list_all_iff split: option.splits)

lemma consistent_finish:
  assumes "consistent w i st s" "consistent w i st' s'" "st_events st' = st_events st @ [row]"
    and "row ! 1 = JStr ''finish''" "fld (row_event w row) ''hold'' = JBool True"
  shows "ls_held s'"
proof -
  have acc: "replay_ledger w (st_events st @ [row]) (pg_source w i) = Inr s'" "row ! 1 \<noteq> JStr ''provision'' \<or> st_events st \<noteq> []"
    using assms(2,3,4) by (simp_all add: consistent_def)
  then show ?thesis
  proof (cases rule: accepted_row)
    case (1 t k rv rv1 rv2)
    then have k: "k = ''finish''" using assms(4) by simp
    have s: "ls_held s' = ls_held (rv_state rv1)" using acc(1) 1(6,7) by (auto elim!: replay_ledgerD)
    from 1(3,4) show ?thesis by (cases rule: ev_step_cases) (use k s assms(5) in simp_all)
  qed
qed

lemma append_event:
  assumes "pg_append w e i s rows event st = Inr (after, st')" "good w event"
  shows "\<exists>row. st_events st' = st_events st @ [row] \<and> (\<forall>k v. jget k event = Some v \<longrightarrow> fld (row_event w row) k = jsort v)"
proof -
  obtain payload where p: "dumps True event = Some payload"
    using assms(1) by (auto simp: pg_append_def rbind_Inr_iff canonical_event_def split: option.splits)
  define row where "row = [JInt (ls_sequence s + 1), fld event ''kind'', fld event ''request_id'', JStr payload,
                  JStr (ls_digest s), JStr (sha256 w (ls_digest s @ payload))]"
  have "st_events st' = st_events st @ [row]"
    using assms(1) p by (auto simp: pg_append_def rbind_Inr_iff canonical_event_def Let_def row_def split: if_splits option.splits)
  moreover obtain u where "json_loads (float_of w) payload = Some u" "\<forall>k. jget k u = map_option jsort (jget k event)"
    using event_readback [OF assms(2) p] by blast
  then have "fld (row_event w row) k = jsort v" if "jget k event = Some v" for k v
    using that by (simp add: row_event_def row_def jget_or_def)
  ultimately show ?thesis by blast
qed

text \<open>The rows of a finish with an unknown outcome, wherever they reached the database, hold the ledger.\<close>

lemma finish_body_held:
  assumes "floats_ok w" "pg_body w e 0 (Some (''finish'', pg_finish_fields v n True ev)) j = Inr (after, st)"
  shows "consistent w (pj_id j) st after \<and> ls_held after \<and> st \<noteq> pj_store j"
proof -
  let ?fs = "pg_finish_fields v n True ev"
  let ?event = "pg_event w (pj_id j) ''finish'' (ls_epoch (pj_state j)) (pj_owner j) (pe_time e 0) ?fs"
  obtain rows where "pg_append w e (pj_id j) (pj_state j) rows ?event (pj_store j) = Inr (after, st)"
    using assms(2) by (auto simp: pg_body_def rbind_Inr_iff split: if_splits)
  moreover have "good w ?event" by (rule pg_event_good [OF assms(1) finish_fields_good])
  ultimately obtain row where row: "st_events st = st_events (pj_store j) @ [row]"
    "\<forall>k v. jget k ?event = Some v \<longrightarrow> fld (row_event w row) k = jsort v"
    using append_event by blast
  have "jget ''hold'' ?event = Some (JBool True)" by (simp add: pg_event_def jget_dict_of pg_finish_fields_def)
  with row(2) have hold: "fld (row_event w row) ''hold'' = JBool True" by fastforce
  obtain row' where "st_events st = st_events (pj_store j) @ [row']" "event_row w e 0 ''finish'' ?fs j row'"
    using pg_body_Inr [OF assms(2)] by auto
  then have "row ! 1 = JStr ''finish''"
    using row(1) by (simp add: event_row_def Let_def pg_event_kind pg_finish_fields_def)
  moreover have c: "consistent w (pj_id j) (pj_store j) (pj_state j)" "consistent w (pj_id j) st after"
    using pg_body_Inr [OF assms(2)] by auto
  ultimately have "ls_held after" using consistent_finish [OF c row(1) _ hold] by blast
  then show ?thesis using c(2) row(1) by auto
qed

lemma finish_held:
  assumes "floats_ok w" "snd (pg_finish w e v n ev j) = Inr ()" "outcome_unknown v ev"
  shows "pg_held (fst (fst (pg_finish w e v n ev j)))
    \<and> (\<exists>s. consistent w (pj_id j) (pj_store (fst (fst (pg_finish w e v n ev j)))) s \<and> ls_held s)"
proof -
  let ?fs = "pg_finish_fields (pg_settle v ev) n True ev"
  have run: "snd (pg_run w e 0 (Some (''finish'', ?fs)) j) = Inr ()"
    "fst (fst (pg_finish w e v n ev j)) = fst (pg_run w e 0 (Some (''finish'', ?fs)) j)"
    using assms(2,3) by (simp_all add: pg_finish_run stopping_Inr)
  from run(1) obtain after st where b: "pg_body w e 0 (Some (''finish'', ?fs)) j = Inr (after, st)"
    "fst (pg_run w e 0 (Some (''finish'', ?fs)) j) = j\<lparr>pj_state := after, pj_store := st\<rparr>"
    by (rule run_Inr)
  then show ?thesis using finish_body_held [OF assms(1) b(1)] run(2) by (auto simp: pg_held_def)
qed

lemma stopping_store: "pj_store (fst (stopping r)) = pj_store (fst r)"
  by (cases r; cases "snd r") (auto simp: stopping_def pg_stop_def)

lemma finish_store:
  assumes "floats_ok w" "outcome_unknown v ev"
  shows "if pj_store (fst (fst (pg_finish w e v n ev j))) = pj_store j then snd (pg_finish w e v n ev j) \<noteq> Inr ()
    else \<exists>s. consistent w (pj_id j) (pj_store (fst (fst (pg_finish w e v n ev j)))) s \<and> ls_held s"
proof -
  let ?run = "pg_run w e 0 (Some (''finish'', pg_finish_fields (pg_settle v ev) n True ev)) j"
  have f: "pj_store (fst (fst (pg_finish w e v n ev j))) = pj_store (fst ?run)"
    "snd (pg_finish w e v n ev j) = Inr () \<longleftrightarrow> snd ?run = Inr ()"
    using assms(2) by (simp_all add: pg_finish_run stopping_store stopping_Inr)
  show ?thesis
  proof (cases rule: pg_run_cases [of w e 0 "Some (''finish'', pg_finish_fields (pg_settle v ev) n True ev)" j])
    case (refused x)
    then have "pj_store (fst ?run) = pj_store j" by auto
    with refused f show ?thesis by simp
  next
    case (lost x after st)
    with f finish_body_held [OF assms(1) lost(1)] show ?thesis by auto
  next
    case (ran after st)
    with f finish_body_held [OF assms(1) ran(1)] show ?thesis by auto
  qed
qed

lemma pg_settles: "settles v ev (pg_settle v ev)"
  by (simp add: settles_def pg_settle_def)

interpretation pg: dispatch_journal "pg_ops w" pg_held pg_recorded "floats_ok w" for w
proof unfold_locales
  fix j :: pg_journal and e a
  show "snd (j_intent (pg_ops w) e a j) = Inr () \<Longrightarrow>
      \<exists>env. a = Some env \<and> pg_recorded (fst (j_intent (pg_ops w) e a j)) (x_request_id (a_binding env))"
    using intent_Inr by (simp add: pg_ops_def)
  show "pg_held (j_failed (pg_ops w) e x j)" for x
    by (simp add: pg_ops_def pg_failed_def pg_held_def)
qed (simp_all add: pg_ops_def admit_Inr finish_held pg_finish_run(3) pg_settles
       held_work [OF work_admit] held_work [OF work_begin] held_work [OF work_policy] held_work [OF work_intent]
       held_work [OF work_finish]
       recorded_work [OF work_admit] recorded_work [OF work_begin] recorded_work [OF work_policy]
       recorded_work [OF work_intent] recorded_work [OF work_finish] recorded_work [OF work_failed])

section \<open>Opened journals\<close>

inductive pg_working :: "libs \<Rightarrow> pg_journal \<Rightarrow> pg_journal \<Rightarrow> bool" for w where
  Admit: "pg_working w j (fst (pg_admit w e j))"
| Begin: "pg_working w j (fst (pg_begin w e rid j))"
| Policy: "pg_working w j (fst (pg_policy w e rid ev j))"
| Intent: "pg_working w j (fst (pg_intent w e a j))"
| Finish: "pg_working w j (fst (fst (pg_finish w e v n fe j)))"
| Failed: "pg_working w j (pg_failed w e x j)"

inductive pg_running :: "libs \<Rightarrow> pg_journal \<Rightarrow> pg_journal \<Rightarrow> bool" for w where
  Working: "pg_working w j j' \<Longrightarrow> pg_running w j j'"
| Closing: "pg_running w j (fst (pg_close w e j))"

lemma working_work: "pg_working w j j' \<Longrightarrow> pg_work w j j'"
  by (induction rule: pg_working.induct)
     (rule work_admit work_begin work_policy work_intent work_finish work_failed)+

lemma running_step: "(pg_running w)\<^sup>*\<^sup>* j j' \<Longrightarrow> pg_step w j j'"
proof (induction rule: rtranclp_induct)
  case (step j1 j2)
  from step(2) have "pg_step w j1 j2"
    by (cases rule: pg_running.cases) (auto simp: step_close_pg dest: working_work simp: pg_work_def)
  with step(3) show ?case by (rule step_trans_pg)
qed (simp add: pg_step_def)

lemma working_run_work: "(pg_working w)\<^sup>*\<^sup>* j j' \<Longrightarrow> pg_work w j j'"
  by (induction rule: rtranclp_induct) (auto intro: work_trans working_work)

lemma consistent_boot:
  assumes "consistent w i st s" "consistent w i st' s'" "st_events st' = st_events st @ [row]" "row ! 1 = JStr ''boot''"
  shows "ls_owner_active s'"
proof -
  have acc: "replay_ledger w (st_events st @ [row]) (pg_source w i) = Inr s'" "row ! 1 \<noteq> JStr ''provision'' \<or> st_events st \<noteq> []"
    using assms(2-4) by (simp_all add: consistent_def)
  then show ?thesis
  proof (cases rule: accepted_row)
    case (1 t k rv rv1 rv2)
    then have k: "k = ''boot''" using assms(4) by simp
    have s: "ls_owner_active s' = ls_owner_active (rv_state rv1)" using acc(1) 1(6,7) by (auto elim!: replay_ledgerD)
    from 1(3,4) show ?thesis by (cases rule: ev_step_cases) (use k s in simp_all)
  qed
qed

lemma pg_opened:
  assumes "PostgresDispatchJournal w e d revision identity owner st = (st', Inr j)"
  obtains source s row where "identity = Inr source" "pj_id j = \<lparr>pi_domain = d, pi_revision = revision, pi_source = source\<rparr>"
    "consistent w (pj_id j) st s" "\<not> ls_held s" "ls_active s = None" "\<not> ls_owner_active s"
    "st' = pj_store j" "st_events st' = st_events st @ [row]" "consistent w (pj_id j) st' (pj_state j)"
    "ls_owner_active (pj_state j)" "\<not> pj_poisoned j"
proof -
  obtain source where src: "identity = Inr source" using assms by (cases identity) (auto simp: PostgresDispatchJournal_def)
  let ?i = "\<lparr>pi_domain = d, pi_revision = revision, pi_source = source\<rparr>"
  let ?j = "\<lparr>pj_id = ?i, pj_owner = owner, pj_state = LedgerState, pj_poisoned = False, pj_closed = False,
                       pj_connected = True, pj_store = st\<rparr>"
  obtain after st2 s rows where load: "pg_load w e ?i st = Inr (s, rows)" and ok: "\<not> ls_held s" "ls_active s = None" "\<not> ls_owner_active s"
    and app: "pg_append w e ?i s rows (pg_event w ?i ''boot'' (ls_epoch s + 1) owner (pe_time e 0) []) st = Inr (after, st2)"
    and j: "j = ?j\<lparr>pj_state := after, pj_store := st2\<rparr>" "st' = st2"
    using assms unfolding PostgresDispatchJournal_def src sum.case Let_def
    by (auto simp: pg_commit_def pg_stop_def rbind_Inr_iff if_Inl_Inr split: if_splits sum.splits commit_fate.splits prod.splits)
  note c = pg_load_Inr [OF load]
  have app2: "pg_append w e ?i s (st_events st) (pg_event w ?i ''boot'' (ls_epoch s + 1) owner (pe_time e 0) []) st = Inr (after, st2)"
    using app c by simp
  obtain row where row: "st_events st2 = st_events st @ [row]" "consistent w ?i st2 after" "row ! 1 = JStr ''boot''"
    by (rule pg_append_Inr [OF app2 c [THEN conjunct1]]) (simp add: pg_event_kind)
  have "ls_owner_active after" using consistent_boot [OF _ row(2,1,3)] c by blast
  then show thesis using src c ok j row by (intro that [of source s row]) simp_all
qed

text \<open>
  C10. The database is never left without an accepted ledger: from the moment a journal is opened,
  whatever operations follow and wherever a statement or a commit fails, the events of the domain are an
  accepted ledger that extends the one found, its projection row agrees with the replay, and a journal
  that has not stopped knows exactly that state.
\<close>

theorem pg_store_always_accepted:
  assumes "PostgresDispatchJournal w e d revision identity owner st = (st', Inr j)" "(pg_running w)\<^sup>*\<^sup>* j j'"
  shows "\<exists>s. consistent w (pj_id j) (pj_store j') s \<and> prefix (st_events st) (st_events (pj_store j'))
     \<and> (\<not> pj_poisoned j' \<longrightarrow> s = pj_state j')"
proof -
  obtain s row where o: "st_events (pj_store j) = st_events st @ [row]" "consistent w (pj_id j) (pj_store j) (pj_state j)"
    using assms(1) by (rule pg_opened) auto
  then have "pg_inv w j" by (auto simp: pg_inv_def)
  moreover have step: "pg_step w j j'" by (rule running_step [OF assms(2)])
  ultimately have "pg_inv w j'" "pj_id j' = pj_id j" "prefix (st_events (pj_store j)) (st_events (pj_store j'))"
    by (simp_all add: pg_step_def)
  moreover have "prefix (st_events st) (st_events (pj_store j))" by (simp add: o(1))
  ultimately show ?thesis
    by (cases "pj_poisoned j'") (auto simp: pg_inv_def intro: prefix_order.trans)
qed

lemma consistent_unique: "consistent w i st s \<Longrightarrow> consistent w i st s' \<Longrightarrow> s = s'"
  by (simp add: consistent_def)

lemma consistent_identity:
  "consistent w i st s \<Longrightarrow> consistent w i' st s' \<Longrightarrow> pi_domain i = pi_domain i' \<Longrightarrow> i = i'"
  by (simp add: consistent_def)

lemma pg_open_refused:
  assumes "consistent w i st s" "ls_owner_active s" "pi_domain i = d"
  shows "\<exists>x. PostgresDispatchJournal w e d revision identity owner st = (st, Inl x)"
proof (cases identity)
  case (Inr source)
  let ?i = "\<lparr>pi_domain = d, pi_revision = revision, pi_source = source\<rparr>"
  have owned: "ls_owner_active s2" if "pg_load w e ?i st = Inr (s2, rows)" for s2 rows
  proof -
    have c: "consistent w ?i st s2" using pg_load_Inr [OF that] by simp
    have "i = ?i" by (rule consistent_identity [OF assms(1) c]) (simp add: assms(3))
    then have "consistent w ?i st s" using assms(1) by (rule subst [where P = "\<lambda>i. consistent w i st s"])
    then have "s = s2" using c by (rule consistent_unique)
    with assms(2) show ?thesis by simp
  qed
  obtain y where y: "rbind (pg_load w e ?i st) (\<lambda>(s, rows).
      if ls_held s \<or> ls_active s \<noteq> None \<or> ls_owner_active s then Inl (LocalHold ''POSTGRES_RECOVERY_HOLD'')
      else pg_append w e ?i s rows (pg_event w ?i ''boot'' (ls_epoch s + 1) owner (pe_time e 0) []) st) = Inl y"
    using owned by (cases "pg_load w e ?i st") auto
  have "\<exists>x. (if \<not> pe_transactional e then Inl (LocalHold ''POSTGRES_TRANSACTION_REQUIRED'')
      else rbind (pg_prepare e) (\<lambda>_. rbind (claim_lock e (domain_identity w d)) (\<lambda>_. Inl y :: exn + ledger_state \<times> pg_store))) = Inl x"
    by (cases "pg_prepare e"; cases "claim_lock e (domain_identity w d)") simp_all
  then obtain x where "(if \<not> pe_transactional e then Inl (LocalHold ''POSTGRES_TRANSACTION_REQUIRED'')
      else rbind (pg_prepare e) (\<lambda>_. rbind (claim_lock e (domain_identity w d)) (\<lambda>_. Inl y :: exn + ledger_state \<times> pg_store))) = Inl x"
    by blast
  then show ?thesis
    unfolding PostgresDispatchJournal_def Inr sum.case Let_def y by (simp add: pg_commit_def pg_stop_def)
qed (simp add: PostgresDispatchJournal_def)

text \<open>
  C9. One owner: while a journal opened on a domain has not been closed, every other attempt to open the
  same domain is refused and leaves the database as it was, whatever the first journal did or failed to do.
\<close>

theorem pg_single_owner:
  assumes "PostgresDispatchJournal w e d revision identity owner st = (st', Inr j)" "(pg_working w)\<^sup>*\<^sup>* j j'"
  shows "\<exists>x. PostgresDispatchJournal w e2 d revision2 identity2 owner2 (pj_store j') = (pj_store j', Inl x)"
proof -
  obtain source s row where o: "identity = Inr source" "pj_id j = \<lparr>pi_domain = d, pi_revision = revision, pi_source = source\<rparr>"
    "consistent w (pj_id j) (pj_store j) (pj_state j)" "ls_owner_active (pj_state j)"
    using assms(1) by (rule pg_opened) auto
  have work: "pg_work w j j'" by (rule working_run_work [OF assms(2)])
  then obtain s1 where s1: "consistent w (pj_id j) (pj_store j') s1" "ls_owner_active s1"
    using o by (auto simp: pg_work_def pg_step_def pg_owned_def)
  then show ?thesis by (rule pg_open_refused) (use work o(2) in \<open>simp add: pg_work_def pg_step_def\<close>)
qed

text \<open>
  C11. An outcome that is not known is held for good: when the tool was executed and its outcome is not
  confirmed, the caller gets neither a result nor a retry, and the journal is held whether or not the transaction
  succeeds. The database is either as it was before, and then the caller is told that the
  transaction failed; or it has the event of the finish, also when the commit took effect but
  its confirmation was lost, and then its ledger is held.
\<close>

theorem pg_unknown_outcome_holds:
  assumes "outcome_unknown v ev" "floats_ok w"
  shows "e_result (snd (fst (pg_finish w e v n ev j))) = None
    \<and> list_all (\<lambda>x. \<not> retryable x) (e_errors (snd (fst (pg_finish w e v n ev j))))
    \<and> e_dispatch (snd (fst (pg_finish w e v n ev j))) = DISPATCH_UNKNOWN
    \<and> pg_held (fst (fst (pg_finish w e v n ev j)))
    \<and> (if pj_store (fst (fst (pg_finish w e v n ev j))) = pj_store j then snd (pg_finish w e v n ev j) \<noteq> Inr ()
       else \<exists>s. consistent w (pj_id j) (pj_store (fst (fst (pg_finish w e v n ev j)))) s \<and> ls_held s)"
proof -
  have "pg_held (fst (fst (pg_finish w e v n ev j)))"
  proof (cases "snd (pg_finish w e v n ev j)")
    case (Inl x)
    then show ?thesis using stopping_held by (simp add: pg_finish_run)
  next
    case (Inr u)
    then show ?thesis using finish_held [OF assms(2) _ assms(1)] by simp
  qed
  moreover have "e_result (pg_settle v ev) = None" "list_all (\<lambda>x. \<not> retryable x) (e_errors (pg_settle v ev))"
    using pg.settled_result [OF assms(1), of w e n j] by (simp_all add: pg_ops_def pg_finish_run)
  ultimately show ?thesis
    using assms finish_store [OF assms(2,1), of e n j] by (simp add: pg_finish_run(3)) (simp add: pg_settle_def)
qed

text \<open>
  Evidence before effect, in the database: over any run of gateway calls on a PostgreSQL journal,
  every backend call made belongs to a request whose intent row is in the events of the domain.
\<close>

theorem pg_every_dispatch_intended:
  "list_all (\<lambda>(r, t, a). pg_recorded (g_journal (calls w gc (Some (pg_ops w)) xs (g\<lparr>g_dispatched := []\<rparr>))) r)
     (g_dispatched (calls w gc (Some (pg_ops w)) xs (g\<lparr>g_dispatched := []\<rparr>)))"
  by (rule pg.calls_dispatch_recorded)


section \<open>An opened journal\<close>

definition example_pg_domain :: trust_domain where
  "example_pg_domain = \<lparr>dom_issuer = ''i'', dom_audience = ''a'', dom_principal = ''p'', dom_service = ''s'', dom_instance = ''n''\<rparr>"

definition example_identity :: pg_identity where
  "example_identity = \<lparr>pi_domain = example_pg_domain, pi_revision = hex_zeros 40, pi_source = hex_zeros 64\<rparr>"

definition example_pg_env :: pg_env where
  "example_pg_env = \<lparr>pe_transactional = True, pe_sql = (\<lambda>_. True), pe_fsync = True, pe_synchronous = True,
     pe_versions = [1], pe_lock = (\<lambda>_. True), pe_commit = Committed, pe_time = (\<lambda>_. 5), pe_context = None\<rparr>"

definition example_provision :: json where
  "example_provision = jsort (ledger_provision (pg_source example_libs example_identity))"

definition example_boot :: json where
  "example_boot = pg_event example_libs example_identity ''boot'' 1 ''o'' 5 []"

definition example_provisioned :: pg_store where
  "example_provisioned = \<lparr>st_row = Some ([JStr (domain_text example_pg_domain), JStr (hex_zeros 40), JStr (hex_zeros 64)]
       @ projection (LedgerState\<lparr>ls_sequence := 1, ls_digest := hex_zeros 64\<rparr>)),
     st_events = ledger_rows example_libs 1 [] [example_provision]\<rparr>"

lemma example_pg_events:
  "list_all (\<lambda>e. jsort e = e \<and> keys_distinct e \<and> is_obj e \<and> is_str (fld e ''kind'')) [example_provision, jsort example_boot]"
  by code_simp

lemma example_pg_bounded: "list_all (\<lambda>e. enc_bound e \<le> MAX_PAYLOAD_BYTES) [example_provision, jsort example_boot]"
  by code_simp

lemma example_pg_readable: "list_all (readable (float_of example_libs)) [example_provision, jsort example_boot]"
proof -
  have "good example_libs example_boot"
    unfolding example_boot_def by (rule pg_event_good [OF example_floats]) (simp add: good_fields_def)
  moreover have "plain example_provision" by code_simp
  ultimately show ?thesis by (simp add: good_def plain_readable)
qed

lemma example_pg_run:
  "run_events (pg_source example_libs example_identity) (hex_zeros 64) [example_provision] replay_start =
     Some (replay_start\<lparr>rv_state := LedgerState\<lparr>ls_sequence := 1, ls_digest := hex_zeros 64\<rparr>, rv_kind := Some ''provision''\<rparr>)"
  "run_events (pg_source example_libs example_identity) (hex_zeros 64) [example_provision, jsort example_boot] replay_start \<noteq> None"
  by code_simp+

lemma example_pg_source:
  "domain_ok (src_domain (pg_source example_libs example_identity))"
  "canonical_event (src_domain (pg_source example_libs example_identity)) = Inr (domain_text example_pg_domain)"
  "src_key (pg_source example_libs example_identity) = hex_zeros 64"
  "is_hex 40 (src_revision (pg_source example_libs example_identity))" "is_hex 64 (src_sha (pg_source example_libs example_identity))"
  by code_simp+

lemmas example_pg_replay = example_replay [OF _ _ _ _ example_pg_source]

lemma example_event_ok: "list_all (event_ok example_libs) [example_provision, jsort example_boot]"
  using example_pg_events example_pg_bounded example_pg_readable by (simp add: event_ok_def)

lemma example_provisioned_replay:
  "replay_ledger example_libs (st_events example_provisioned) (pg_source example_libs example_identity)
     = Inr (LedgerState\<lparr>ls_sequence := 1, ls_digest := hex_zeros 64\<rparr>)"
  using example_pg_replay [OF example_pg_run(1)] example_event_ok by (simp add: example_provisioned_def)

lemma example_sha: "sha256 example_libs x = hex_zeros 64"
  by (simp add: example_libs_def hex_zeros_def)

lemma example_boot_replay:
  "\<exists>s. replay_ledger example_libs (st_events example_provisioned @ [ledger_row example_libs 2 (hex_zeros 64) (jsort example_boot)])
     (pg_source example_libs example_identity) = Inr s"
proof -
  obtain rv where "run_events (pg_source example_libs example_identity) (hex_zeros 64) [example_provision, jsort example_boot] replay_start = Some rv"
    using example_pg_run(2) by blast
  from example_pg_replay [OF this example_event_ok]
  have "replay_ledger example_libs (ledger_rows example_libs 1 [] [example_provision, jsort example_boot])
      (pg_source example_libs example_identity) = Inr (rv_state rv)" by simp
  moreover have "st_events example_provisioned @ [ledger_row example_libs 2 (hex_zeros 64) (jsort example_boot)]
      = ledger_rows example_libs 1 [] [example_provision, jsort example_boot]"
    by (simp only: example_provisioned_def pg_store.simps ledger_rows.simps append.simps example_sha one_add_one)
  ultimately show ?thesis by metis
qed

lemma pg_append_accepted:
  assumes "finite_json event" "fld event ''kind'' = JStr k" "replay_ledger w (rows @ [ledger_row w (ls_sequence s + 1) (ls_digest s) (jsort event)]) (pg_source w i) = Inr after"
    and "fld event ''request_id'' = opt_str r" "pe_sql e = (\<lambda>_. True)" "\<not> list_ex (\<lambda>r. r ! 0 = JInt (ls_sequence s + 1)) (st_events st)"
    and "st_row st = Some row" "fence_matches i s row"
  shows "\<exists>st'. pg_append w e i s rows event st = Inr (after, st')"
proof -
  have "fld (jsort event) x = jsort (fld event x)" for x
    by (simp add: jget_or_def jget_jsort split: option.split)
  then have "ledger_row w (ls_sequence s + 1) (ls_digest s) (jsort event) = [JInt (ls_sequence s + 1), fld event ''kind'',
      fld event ''request_id'', JStr (enc True (jsort event)), JStr (ls_digest s), JStr (sha256 w (ls_digest s @ enc True (jsort event)))]"
    using assms(2,4) by (cases r) (simp_all add: ledger_row_def Let_def opt_str_def jsort_idem)
  with assms show ?thesis
    by (simp add: pg_append_def canonical_event_def dumps_def Let_def hist_hold_def)
qed

lemma fence_projection: "fence_matches i s ([a, JStr (pi_revision i), JStr (pi_source i)] @ projection s)"
  by (simp add: fence_matches_def projection_def numeral_eq_Suc)

lemma example_opens_pg:
  "\<exists>st' j. PostgresDispatchJournal example_libs example_pg_env example_pg_domain (hex_zeros 40) (Inr (hex_zeros 64)) ''o'' example_provisioned = (st', Inr j)"
proof -
  let ?s = "LedgerState\<lparr>ls_sequence := 1, ls_digest := hex_zeros 64\<rparr>"
  have id: "\<lparr>pi_domain = example_pg_domain, pi_revision = hex_zeros 40, pi_source = hex_zeros 64\<rparr> = example_identity"
    by (simp add: example_identity_def)
  have len: "length (st_events example_provisioned) = 1" by (simp add: example_provisioned_def)
  have load: "pg_load example_libs example_pg_env example_identity example_provisioned = Inr (?s, st_events example_provisioned)"
    using example_provisioned_replay len
    by (simp add: pg_load_def example_pg_env_def example_provisioned_def hist_hold_def example_identity_def projection_def MAX_EVENTS_def)
  obtain after where after: "replay_ledger example_libs (st_events example_provisioned @ [ledger_row example_libs 2 (hex_zeros 64) (jsort example_boot)])
     (pg_source example_libs example_identity) = Inr after" using example_boot_replay by blast
  have boot: "finite_json example_boot" "fld example_boot ''kind'' = JStr ''boot''" "fld example_boot ''request_id'' = opt_str None"
    by code_simp+
  have "\<exists>st'. pg_append example_libs example_pg_env example_identity ?s (st_events example_provisioned) example_boot example_provisioned = Inr (after, st')"
  proof (rule pg_append_accepted [OF boot(1,2) _ boot(3)])
    show "replay_ledger example_libs (st_events example_provisioned @ [ledger_row example_libs (ls_sequence ?s + 1) (ls_digest ?s) (jsort example_boot)])
       (pg_source example_libs example_identity) = Inr after" using after by simp
    show "fence_matches example_identity ?s ([JStr (domain_text example_pg_domain), JStr (hex_zeros 40), JStr (hex_zeros 64)]
        @ projection ?s)"
      using fence_projection [of example_identity ?s] by (simp add: example_identity_def)
  qed (simp_all add: example_pg_env_def example_provisioned_def ledger_row_def Let_def LedgerState_def)
  then obtain st' where app: "pg_append example_libs example_pg_env example_identity ?s (st_events example_provisioned)
      (pg_event example_libs example_identity ''boot'' 1 ''o'' 5 []) example_provisioned = Inr (after, st')"
    by (auto simp: example_boot_def)
  have s: "\<not> ls_held ?s" "ls_active ?s = None" "\<not> ls_owner_active ?s" "ls_epoch ?s = 0" by (simp_all add: LedgerState_def)
  have "owner_id_ok ''o''" by code_simp
  then show ?thesis
    using load app s
    by (simp add: PostgresDispatchJournal_def id Let_def pg_prepare_def claim_lock_def pg_commit_def SCHEMA_VERSION_def)
       (simp add: example_pg_env_def SCHEMA_VERSION_def)
qed

text \<open>A journal opened on the provisioned store, and the store after.\<close>

definition example_pg :: pg_journal where
  "example_pg = projr (snd (PostgresDispatchJournal example_libs example_pg_env example_pg_domain (hex_zeros 40)
     (Inr (hex_zeros 64)) ''o'' example_provisioned))"

lemma example_pg_opened:
  "\<exists>st'. PostgresDispatchJournal example_libs example_pg_env example_pg_domain (hex_zeros 40) (Inr (hex_zeros 64)) ''o''
     example_provisioned = (st', Inr example_pg)"
  using example_opens_pg by (auto simp: example_pg_def)

lemma example_pg_admit: "pg_working example_libs example_pg (fst (pg_admit example_libs example_pg_env example_pg))"
  by (rule Admit)

theorem pg_store_always_accepted_witness:
  "\<exists>s. consistent example_libs (pj_id example_pg) (pj_store (fst (pg_admit example_libs example_pg_env example_pg))) s
     \<and> prefix (st_events example_provisioned) (st_events (pj_store (fst (pg_admit example_libs example_pg_env example_pg))))"
proof -
  obtain st' where o: "PostgresDispatchJournal example_libs example_pg_env example_pg_domain (hex_zeros 40)
      (Inr (hex_zeros 64)) ''o'' example_provisioned = (st', Inr example_pg)" using example_pg_opened by blast
  show ?thesis
    using pg_store_always_accepted [OF o r_into_rtranclp, OF Working, OF example_pg_admit] by blast
qed

theorem pg_single_owner_witness:
  "\<exists>x. PostgresDispatchJournal example_libs example_pg_env example_pg_domain (hex_zeros 40) (Inr (hex_zeros 64)) ''other''
     (pj_store (fst (pg_admit example_libs example_pg_env example_pg)))
       = (pj_store (fst (pg_admit example_libs example_pg_env example_pg)), Inl x)"
proof -
  obtain st' where o: "PostgresDispatchJournal example_libs example_pg_env example_pg_domain (hex_zeros 40)
      (Inr (hex_zeros 64)) ''o'' example_provisioned = (st', Inr example_pg)" using example_pg_opened by blast
  show ?thesis by (rule pg_single_owner [OF o r_into_rtranclp, OF example_pg_admit])
qed

text \<open>An envelope of an executed call without attempt metadata.\<close>

definition example_unknown :: envelope where
  "example_unknown = (new_envelope PERMIT ''find_federal_awards'' ''r1'' JUDGE_FAILED KSignal [''BOUNDED''])
     \<lparr>tool_executed := True, e_result := Some JNull\<rparr>"

definition example_evidence :: finish_evidence where
  "example_evidence = \<lparr>pre_dispatch = ''PASS'', boundary_error = None, attempts_made = []\<rparr>"

theorem pg_unknown_outcome_holds_witness:
  "pg_held (fst (fst (pg_finish example_libs example_pg_env example_unknown 0 example_evidence example_pg)))"
  using pg_unknown_outcome_holds [of example_unknown example_evidence example_libs example_pg_env 0 example_pg]
  by (simp add: example_floats outcome_unknown_def example_unknown_def new_envelope_def)

end
