(* ===== verification/Fencing.thy ===== *)
theory Fencing
  imports PgHistory
begin

text \<open>
  \<open>audit/fencing_receiver_experiment_v1.py\<close>: the cooperative receiver that applies a database effect under
  a fence. The receiver locks its scope row (and in F2 the authority row) until it commits, so one
  reception is one step over the database; publishing an authority is a change of the database between
  two steps. A \<open>receiver_env\<close> says which statements and hooks return and how the commit ends.
\<close>

section \<open>Requests\<close>

record f_request =
  f_scope :: string
  f_owner :: string
  f_epoch :: int
  f_request_id :: string
  f_payload :: string

text \<open>
  The pairs of an object as \<open>object_pairs_hook\<close> sees them. A duplicate inside a nested object raises too;
  a nested object is refused below in any case, with the same outcome.
\<close>

fun p_pairs :: "(string \<Rightarrow> json) \<Rightarrow> nat \<Rightarrow> string \<Rightarrow> (string \<times> json) list option" where
  "p_pairs flt 0 s = None"
| "p_pairs flt (Suc n) s = (case ws s of [] \<Rightarrow> None
     | c # cs \<Rightarrow> if c \<noteq> quote_chr then None
         else (case p_str cs of None \<Rightarrow> None
           | Some (k, s2) \<Rightarrow> (case ws s2 of [] \<Rightarrow> None
              | d # s3 \<Rightarrow> if d \<noteq> CHR '':'' then None
                  else (case p_val flt (2 * length s3 + 1) s3 of None \<Rightarrow> None
                    | Some (v, r) \<Rightarrow> (case ws r of [] \<Rightarrow> None
                        | x # rest \<Rightarrow> if x = CHR '','' then map_option (Cons (k, v)) (p_pairs flt n rest)
                            else if x = CHR ''}'' \<and> ws rest = [] then Some [(k, v)] else None)))))"

definition identifier_ok :: "json \<Rightarrow> bool" where
  "identifier_ok v = ledger_text_ok 128 v"

definition request_fields :: "string list" where
  "request_fields = [''scope'', ''owner'', ''epoch'', ''request_id'', ''payload_sha256'']"

definition parse_request :: "libs \<Rightarrow> string \<Rightarrow> f_request option" where
  "parse_request w raw =
     (if 4096 < utf8_length raw then None
      else case ws raw of c # body \<Rightarrow>
        if c \<noteq> CHR ''{'' then None
        else (case p_pairs (float_of w) (length body) body of None \<Rightarrow> None
          | Some ps \<Rightarrow>
             let obj = JObj ps in
             if \<not> distinct (map fst ps) \<or> \<not> same_keys obj request_fields then None
             else if \<not> list_all (\<lambda>k. identifier_ok (fld obj k)) [''scope'', ''owner'', ''request_id''] then None
             else (case fld obj ''epoch'' of
                 JInt e \<Rightarrow> if 1 \<le> e \<and> e < 2 ^ 63 \<and> sha_ok 64 (fld obj ''payload_sha256'')
                   then Some \<lparr>f_scope = the (as_str (fld obj ''scope'')), f_owner = the (as_str (fld obj ''owner'')),
                        f_epoch = e, f_request_id = the (as_str (fld obj ''request_id'')),
                        f_payload = the (as_str (fld obj ''payload_sha256''))\<rparr>
                   else None
               | _ \<Rightarrow> None))
      | [] \<Rightarrow> None)"

text \<open>\<open>fingerprint\<close>: the hash of the JSON list, with ASCII escapes and no spaces.\<close>

definition f_fingerprint :: "libs \<Rightarrow> f_request \<Rightarrow> string" where
  "f_fingerprint w r = sha256 w (enc True (JList [JStr (f_scope r), JStr (f_owner r), JInt (f_epoch r),
     JStr (f_request_id r), JStr (f_payload r)]))"

section \<open>The receiver\<close>

datatype f_mode = ModeU | F1 | F2

fun mode_text :: "f_mode \<Rightarrow> string" where
  "mode_text ModeU = ''U''" | "mode_text F1 = ''F1''" | "mode_text F2 = ''F2''"

record f_outcome =
  o_status :: string
  o_effect :: string
  o_reason :: string

definition check_authority :: "f_request \<Rightarrow> json list option \<Rightarrow> string option" where
  "check_authority r row = (case row of
      Some [epoch, owner, revoked] \<Rightarrow>
        (case (epoch, owner, revoked) of
           (JInt e, JStr ow, JBool rv) \<Rightarrow>
             if e < 1 \<or> ow = [] then Some ''AUTHORITY_UNKNOWN''
             else if rv then Some ''REVOKED''
             else if e \<noteq> f_epoch r \<or> ow \<noteq> f_owner r then Some ''STALE_OR_UNKNOWN_OWNER''
             else None
         | _ \<Rightarrow> Some ''AUTHORITY_UNKNOWN'')
    | _ \<Rightarrow> Some ''AUTHORITY_UNKNOWN'')"

record f_effect =
  fe_mode :: f_mode
  fe_scope :: string
  fe_request_id :: string
  fe_epoch :: int
  fe_payload :: string

record f_db =
  db_scopes :: "f_mode \<Rightarrow> string \<Rightarrow> json option"         \<comment> \<open>highest\_epoch\<close>
  db_authority :: "string \<Rightarrow> json list option"
  db_receipts :: "f_mode \<Rightarrow> string \<Rightarrow> string \<Rightarrow> string option"
  db_effects :: "f_effect list"

datatype f_commit = Acknowledged | Unacknowledged | Aborted

record receiver_env =
  re_connected :: bool
  re_transactional :: bool
  re_fsync :: bool
  re_returns :: "string \<Rightarrow> bool"     \<comment> \<open>the statement or the hook of this name returns\<close>
  re_commit :: f_commit

definition f_answer :: "string \<Rightarrow> string \<Rightarrow> string \<Rightarrow> f_outcome" where
  "f_answer s e r = \<lparr>o_status = s, o_effect = e, o_reason = r\<rparr>"

text \<open>
  What the transaction comes to before its commit: \<open>Inl\<close> is an answer on the way (or the exception, as
  \<open>UNKNOWN\<close>), which rolls back; \<open>Inr\<close> is the database to commit.
\<close>

definition uncertain :: f_outcome where
  "uncertain = f_answer ''UNKNOWN'' ''UNKNOWN'' ''STORE_OR_COMMIT_UNCONFIRMED''"

definition refused :: "string \<Rightarrow> f_outcome" where
  "refused r = f_answer ''REJECTED'' ''REFUSED'' r"

definition step_if :: "receiver_env \<Rightarrow> string \<Rightarrow> f_outcome + 'a \<Rightarrow> f_outcome + 'a" where
  "step_if e s k = (if re_returns e s then k else Inl uncertain)"

definition lock_scope :: "receiver_env \<Rightarrow> f_mode \<Rightarrow> f_request \<Rightarrow> f_db \<Rightarrow> f_outcome + int" where
  "lock_scope e m r db =
     (if \<not> re_connected e \<or> \<not> re_transactional e \<or> \<not> re_fsync e then Inl uncertain
      else step_if e ''receiver_transaction_started'' (step_if e ''scope'' (case db_scopes db m (f_scope r) of
          Some (JInt h) \<Rightarrow> if h < 0 then Inl (refused ''SCOPE_UNKNOWN'') else step_if e ''receiver_scope_locked'' (Inr h)
        | _ \<Rightarrow> Inl (refused ''SCOPE_UNKNOWN''))))"

definition fence :: "receiver_env \<Rightarrow> f_mode \<Rightarrow> f_request \<Rightarrow> int \<Rightarrow> f_db \<Rightarrow> f_outcome + f_db" where
  "fence e m r h db = (case m of
      ModeU \<Rightarrow> Inr db
    | F1 \<Rightarrow> if f_epoch r < h then Inl (refused ''LOWER_THAN_HIGHEST_SEEN'')
        else step_if e ''raise'' (Inr (db\<lparr>db_scopes := (db_scopes db)(m := (db_scopes db m)(f_scope r := Some (JInt (f_epoch r))))\<rparr>))
    | F2 \<Rightarrow> step_if e ''authority'' (step_if e ''authority_locked_and_checked''
        (case check_authority r (db_authority db (f_scope r)) of
           None \<Rightarrow> Inr db
         | Some reason \<Rightarrow> Inl (refused reason))))"

definition receipt :: "libs \<Rightarrow> receiver_env \<Rightarrow> f_mode \<Rightarrow> f_request \<Rightarrow> f_db \<Rightarrow> f_outcome + f_db" where
  "receipt w e m r db =
     (if m = ModeU then Inr db
      else step_if e ''receipts'' (case db_receipts db m (f_scope r) (f_request_id r) of
          Some prior \<Rightarrow> Inl (if prior \<noteq> f_fingerprint w r then refused ''REQUEST_ID_CONFLICT''
                             else f_answer ''DUPLICATE'' ''ALREADY_COMMITTED'' ''NO_NEW_EFFECT'')
        | None \<Rightarrow> step_if e ''receipt'' (Inr (db\<lparr>db_receipts := (db_receipts db)(m := (db_receipts db m)
            (f_scope r := (db_receipts db m (f_scope r))(f_request_id r \<mapsto> f_fingerprint w r)))\<rparr>))))"

definition effect_of :: "f_mode \<Rightarrow> f_request \<Rightarrow> f_effect" where
  "effect_of m r = \<lparr>fe_mode = m, fe_scope = f_scope r, fe_request_id = f_request_id r, fe_epoch = f_epoch r,
     fe_payload = f_payload r\<rparr>"

definition transaction :: "libs \<Rightarrow> receiver_env \<Rightarrow> f_mode \<Rightarrow> f_request \<Rightarrow> f_db \<Rightarrow> f_outcome + f_db" where
  "transaction w e m r db =
     rbind (lock_scope e m r db) (\<lambda>h. rbind (fence e m r h db) (\<lambda>db1. rbind (receipt w e m r db1) (\<lambda>db2.
       step_if e ''before_effect'' (step_if e ''effect'' (step_if e ''effect_inserted_uncommitted''
         (Inr (db2\<lparr>db_effects := db_effects db2 @ [effect_of m r]\<rparr>)))))))"

definition receive :: "libs \<Rightarrow> receiver_env \<Rightarrow> f_mode \<Rightarrow> string \<Rightarrow> f_db \<Rightarrow> f_db \<times> f_outcome" where
  "receive w e m raw db = (case parse_request w raw of
      None \<Rightarrow> (db, f_answer ''REJECTED'' ''REFUSED'' ''INVALID_REQUEST'')
    | Some r \<Rightarrow> (case transaction w e m r db of
        Inl a \<Rightarrow> (db, a)
      | Inr db' \<Rightarrow> (case re_commit e of
          Aborted \<Rightarrow> (db, uncertain)
        | Unacknowledged \<Rightarrow> (db', uncertain)
        | Acknowledged \<Rightarrow> (db', if re_returns e ''effect_commit_acknowledged''
            then f_answer ''ACCEPTED'' ''APPLIED'' ''COMMIT_ACKNOWLEDGED'' else uncertain))))"

section \<open>What a reception does\<close>

lemma step_if_Inr [simp]: "step_if e s k = Inr a \<longleftrightarrow> re_returns e s \<and> k = Inr a"
  by (simp add: step_if_def)

lemma transactionD:
  assumes "transaction w e m r db = Inr db'"
  shows "db_effects db' = db_effects db @ [effect_of m r]"
    and "db_authority db' = db_authority db"
    and "m \<noteq> ModeU \<Longrightarrow> db_receipts db m (f_scope r) (f_request_id r) = None
       \<and> db_receipts db' = (db_receipts db)(m := (db_receipts db m)
            (f_scope r := (db_receipts db m (f_scope r))(f_request_id r \<mapsto> f_fingerprint w r)))"
    and "m = F2 \<Longrightarrow> check_authority r (db_authority db (f_scope r)) = None \<and> db_scopes db' = db_scopes db"
    and "m = F1 \<Longrightarrow> \<exists>h. db_scopes db m (f_scope r) = Some (JInt h) \<and> h \<le> f_epoch r
       \<and> db_scopes db' = (db_scopes db)(m := (db_scopes db m)(f_scope r := Some (JInt (f_epoch r))))"
    and "m = ModeU \<Longrightarrow> db_receipts db' = db_receipts db \<and> db_scopes db' = db_scopes db"
  using assms
  by (auto simp: transaction_def lock_scope_def fence_def receipt_def rbind_Inr_iff Let_def
      split: if_splits option.splits json.splits f_mode.splits)

lemma unapplied_answers [simp]: "o_effect uncertain \<noteq> ''APPLIED''" "o_effect (refused c) \<noteq> ''APPLIED''"
  by (simp_all add: uncertain_def refused_def f_answer_def)

lemma step_if_Inl: "step_if e s k = Inl a \<Longrightarrow> a = uncertain \<or> k = Inl a"
  by (simp add: step_if_def split: if_splits)

lemma unapplied:
  "lock_scope e m r db = Inl a \<Longrightarrow> o_effect a \<noteq> ''APPLIED''"
  "fence e m r h db = Inl a \<Longrightarrow> o_effect a \<noteq> ''APPLIED''"
  "receipt w e m r db = Inl a \<Longrightarrow> o_effect a \<noteq> ''APPLIED''"
  "step_if e s (step_if e t (step_if e u (Inr db))) = Inl a \<Longrightarrow> o_effect a \<noteq> ''APPLIED''"
proof -
  assume "lock_scope e m r db = Inl a"
  then show "o_effect a \<noteq> ''APPLIED''"
    by (cases "db_scopes db m (f_scope r)")
       (auto simp: lock_scope_def split: if_splits json.splits dest!: step_if_Inl)
next
  assume "fence e m r h db = Inl a"
  then show "o_effect a \<noteq> ''APPLIED''"
    by (cases m) (auto simp: fence_def split: if_splits option.splits dest!: step_if_Inl)
next
  assume "receipt w e m r db = Inl a"
  then show "o_effect a \<noteq> ''APPLIED''"
    by (auto simp: receipt_def f_answer_def split: if_splits option.splits dest!: step_if_Inl)
next
  assume "step_if e s (step_if e t (step_if e u (Inr db))) = Inl a"
  then show "o_effect a \<noteq> ''APPLIED''" by (auto dest!: step_if_Inl)
qed

lemma receive_cases:
  obtains (none) "fst (receive w e m raw db) = db" "o_effect (snd (receive w e m raw db)) \<noteq> ''APPLIED''"
  | (applied) r db' where "parse_request w raw = Some r" "transaction w e m r db = Inr db'" "fst (receive w e m raw db) = db'"
proof (cases "parse_request w raw")
  case None
  then show thesis using none by (simp add: receive_def f_answer_def)
next
  case (Some r)
  have inl: "o_effect a \<noteq> ''APPLIED''" if "transaction w e m r db = Inl a" for a
    using that by (auto simp: transaction_def rbind_Inl_iff unapplied)
  show thesis
  proof (cases "transaction w e m r db")
    case (Inl a)
    then show thesis using none inl by (simp add: receive_def Some)
  next
    case (Inr db')
    then show thesis using Some none applied
      by (cases "re_commit e") (auto simp: receive_def uncertain_def f_answer_def)
  qed
qed

text \<open>
  No effect without its fence: when a reception changes the effects, it adds exactly the effect of
  the request it parsed; in F2 the authority row it locked names that owner and epoch and is not revoked,
  and in F1 no higher epoch had been seen on the scope, which now records this one.
\<close>

theorem effect_is_fenced:
  assumes "db_effects (fst (receive w e m raw db)) \<noteq> db_effects db"
  shows "\<exists>r. parse_request w raw = Some r \<and> db_effects (fst (receive w e m raw db)) = db_effects db @ [effect_of m r]
    \<and> (m = F2 \<longrightarrow> db_authority db (f_scope r) = Some [JInt (f_epoch r), JStr (f_owner r), JBool False])
    \<and> (m = F1 \<longrightarrow> (\<exists>h. db_scopes db F1 (f_scope r) = Some (JInt h) \<and> h \<le> f_epoch r)
         \<and> db_scopes (fst (receive w e m raw db)) F1 (f_scope r) = Some (JInt (f_epoch r)))"
proof (cases rule: receive_cases [of w e m raw db])
  case (applied r db')
  have auth: "row = [JInt (f_epoch r), JStr (f_owner r), JBool False]" if "check_authority r (Some row) = None" for row
    using that by (auto simp: check_authority_def split: list.splits json.splits if_splits)
  have "db_authority db (f_scope r) = Some [JInt (f_epoch r), JStr (f_owner r), JBool False]" if "m = F2"
  proof (cases "db_authority db (f_scope r)")
    case (Some row)
    then show ?thesis using auth transactionD(4) [OF applied(2) that] by simp
  qed (use transactionD(4) [OF applied(2) that] in \<open>simp add: check_authority_def\<close>)
  then show ?thesis
    using applied transactionD(1,5) [OF applied(2)] by auto
qed (use assms in simp)

section \<open>Effects are single use\<close>

datatype f_op = Receive receiver_env f_mode string | Publish string "json list option"

definition effect_key :: "f_effect \<Rightarrow> f_mode \<times> string \<times> string" where
  "effect_key x = (fe_mode x, fe_scope x, fe_request_id x)"

text \<open>One step of the receivers and the publisher: the database after, and the fenced effect it gained.\<close>

definition f_step :: "libs \<Rightarrow> f_op \<Rightarrow> f_db \<Rightarrow> f_db \<times> (f_mode \<times> string \<times> string) option" where
  "f_step w x db = (case x of
      Publish s row \<Rightarrow> (db\<lparr>db_authority := (db_authority db)(s := row)\<rparr>, None)
    | Receive e m raw \<Rightarrow> (let db' = fst (receive w e m raw db) in
        (db', if m \<noteq> ModeU \<and> db_effects db' \<noteq> db_effects db then Some (effect_key (last (db_effects db'))) else None)))"

definition unused :: "f_db \<Rightarrow> f_mode \<times> string \<times> string \<Rightarrow> bool" where
  "unused db = (\<lambda>(m, s, r). db_receipts db m s r = None)"

lemma f_step_cases:
  obtains (quiet) "snd (f_step w x db) = None" "db_receipts (fst (f_step w x db)) = db_receipts db"
      "filter (\<lambda>y. fe_mode y \<noteq> ModeU) (db_effects (fst (f_step w x db))) = filter (\<lambda>y. fe_mode y \<noteq> ModeU) (db_effects db)"
  | (effect) m r where "m \<noteq> ModeU" "snd (f_step w x db) = Some (m, f_scope r, f_request_id r)"
      "db_receipts db m (f_scope r) (f_request_id r) = None"
      "db_receipts (fst (f_step w x db)) = (db_receipts db)(m := (db_receipts db m)
            (f_scope r := (db_receipts db m (f_scope r))(f_request_id r \<mapsto> f_fingerprint w r)))"
      "db_effects (fst (f_step w x db)) = db_effects db @ [effect_of m r]"
proof (cases x)
  case (Publish s row)
  then show thesis using quiet by (simp add: f_step_def)
next
  case (Receive e m raw)
  show thesis
  proof (cases rule: receive_cases [of w e m raw db])
    case none
    then show thesis using quiet by (simp add: f_step_def Receive Let_def)
  next
    case (applied r db')
    then show thesis
      using quiet effect [of m r] transactionD(1,3,6) [OF applied(2)]
      by (cases "m = ModeU") (auto simp: f_step_def Receive Let_def effect_key_def effect_of_def)
  qed
qed

interpretation fenced: single_use "\<lambda>_. True" unused "\<lambda>_ _. True" "f_step w" for w
proof unfold_locales
  fix db :: f_db and x :: f_op and h :: "f_mode \<times> string \<times> string"
  show "snd (f_step w x db) = Some h \<Longrightarrow> unused db h"
    by (cases rule: f_step_cases [of w x db]) (auto simp: unused_def)
  show "snd (f_step w x db) = Some h \<Longrightarrow> True \<and> \<not> unused (fst (f_step w x db)) h"
    by (cases rule: f_step_cases [of w x db]) (auto simp: unused_def)
  show "\<not> unused db h \<Longrightarrow> True \<and> \<not> unused (fst (f_step w x db)) h"
    by (cases rule: f_step_cases [of w x db]) (auto simp: unused_def split: if_splits)
qed simp

lemma run_effects:
  "map effect_key (filter (\<lambda>y. fe_mode y \<noteq> ModeU) (db_effects (fst (run_ops (f_step w) xs db)))) =
     map effect_key (filter (\<lambda>y. fe_mode y \<noteq> ModeU) (db_effects db)) @ snd (run_ops (f_step w) xs db)"
proof (induction xs arbitrary: db)
  case (Cons x xs)
  show ?case
    by (cases rule: f_step_cases [of w x db])
       (use Cons.IH [of "fst (f_step w x db)"] in \<open>auto simp: effect_key_def effect_of_def\<close>)
qed simp

text \<open>
  C21. Under a fence every effect is applied once: whatever requests arrive, repeated or concurrent with
  publications, with statements failing and commits lost, the fenced effects of a database that started
  without any carry pairwise different request identifiers within their mode and scope.
\<close>

theorem fenced_effects_applied_once:
  assumes "db_effects db = []"
  shows "distinct (map effect_key (filter (\<lambda>y. fe_mode y \<noteq> ModeU) (db_effects (fst (run_ops (f_step w) xs db)))))"
  using fenced.redeemed_once [where w = w and s = db and xs = xs] by (simp add: run_effects assms)

section \<open>An instance\<close>

definition example_request :: string where
  "example_request = enc True (JObj [(''scope'', JStr ''s''), (''owner'', JStr ''o''), (''epoch'', JInt 3),
     (''request_id'', JStr ''r''), (''payload_sha256'', JStr (replicate 64 (CHR ''a'')))])"

definition example_receiver :: receiver_env where
  "example_receiver = \<lparr>re_connected = True, re_transactional = True, re_fsync = True, re_returns = (\<lambda>_. True),
     re_commit = Acknowledged\<rparr>"

definition example_db :: f_db where
  "example_db = \<lparr>db_scopes = (\<lambda>m s. Some (JInt 0)), db_authority = (\<lambda>s. Some [JInt 3, JStr ''o'', JBool False]),
     db_receipts = (\<lambda>m s r. None), db_effects = []\<rparr>"

lemma example_parsed: "parse_request example_libs example_request =
    Some \<lparr>f_scope = ''s'', f_owner = ''o'', f_epoch = 3, f_request_id = ''r'', f_payload = replicate 64 (CHR ''a'')\<rparr>"
  by code_simp

lemma example_effect: "db_effects (fst (receive example_libs example_receiver F2 example_request example_db)) \<noteq> []"
  by (simp add: receive_def example_parsed transaction_def lock_scope_def fence_def receipt_def check_authority_def
      example_receiver_def example_db_def step_if_def)

theorem effect_is_fenced_witness:
  "\<exists>r. parse_request example_libs example_request = Some r \<and> f_epoch r = 3
     \<and> db_authority example_db (f_scope r) = Some [JInt (f_epoch r), JStr (f_owner r), JBool False]"
  using effect_is_fenced [of example_libs example_receiver F2 example_request example_db] example_effect
  by (auto simp: example_db_def example_parsed)

theorem fenced_effects_applied_once_witness:
  "distinct (map effect_key (filter (\<lambda>y. fe_mode y \<noteq> ModeU) (db_effects (fst (run_ops (f_step example_libs)
     [Receive example_receiver F2 example_request, Receive example_receiver F2 example_request] example_db)))))"
  by (rule fenced_effects_applied_once) (simp add: example_db_def)

end
