(* ===== verification/AttemptBudget.thy ===== *)
theory AttemptBudget
  imports Interfaces PyJson
begin

text \<open>
  \<open>evals/harness/attempt_budget_v2.py\<close>: the SQLite ledger that admits and counts the model attempts and
  MCP calls of one evaluation run. The tables are lists of rows in rowid order; a column that holds JSON
  text holds its value here. Every write is one immediate transaction, so one operation is one step over
  the file, whichever process makes it. A \<open>budget_env\<close> gives what the operation finds outside: the file,
  SQLite's answers, the fate of the commit, fresh identifiers and the clock. A failing statement leaves
  the file as it was and raises, wherever it stands in the transaction; constraint violations are
  modelled. Arguments have the annotated types.
\<close>

section \<open>Vocabulary and checks of values\<close>

definition ROLES :: "string list" where "ROLES = [''planner'', ''judge'']"

definition OUTCOMES :: "string list" where
  "OUTCOMES = [''RESERVATION_NO_SEND'', ''RESPONSE_OBSERVED'', ''COMPLETION_UNKNOWN'', ''MODEL_IDENTITY_REJECTED'',
     ''RESPONSE_REJECTED'']"

definition KNOWN_OUTCOMES :: "string list" where
  "KNOWN_OUTCOMES = [''RESPONSE_OBSERVED'', ''RESERVATION_NO_SEND'']"

definition stop_outcome :: "string \<Rightarrow> bool" where
  "stop_outcome x \<longleftrightarrow> x \<in> set OUTCOMES \<and> x \<notin> set [''RESERVATION_NO_SEND'', ''RESPONSE_OBSERVED'']"

definition METADATA_FIELDS :: "string list" where
  "METADATA_FIELDS = [''provider'', ''returned_model'', ''returned_model_sha256'', ''http_status'',
     ''started_at_utc'', ''completed_at_utc'', ''elapsed_ms'', ''prompt_tokens'', ''completion_tokens'',
     ''total_tokens'', ''usage_state'', ''cancellation_state'', ''deadline_disposition'',
     ''provider_correlation_id'', ''error_code'', ''delegate_entered'', ''response_arrived_at_utc'',
     ''response_arrival_elapsed_ms'', ''response_read_completed_at_utc'', ''acceptance_state'']"

definition INTEGER_METADATA :: "string list" where
  "INTEGER_METADATA = [''http_status'', ''prompt_tokens'', ''completion_tokens'', ''total_tokens'']"

definition MCP_METADATA_FIELDS :: "string list" where
  "MCP_METADATA_FIELDS = [''initial_policy_decision'', ''final_policy_disposition'', ''binding_issued'',
     ''binding_consumed'', ''adapter_entries'', ''synthetic_http_attempts'', ''client_receipt_state'',
     ''backend_dispatch_state'', ''error_code'', ''mcp_call_id'', ''correlation_id'']"

datatype budget_error =
    BudgetError string
  | BudgetUnavailable string
  | BudgetExceeded string
  | BudgetStopped string
  | RecoveryBlocked string
  | BudgetValueError string
  | BudgetOverflowError
  | BudgetFileExists

definition identity_ok :: "string \<Rightarrow> bool" where
  "identity_ok s \<longleftrightarrow> 0 < length s \<and> length s \<le> 160
     \<and> list_all (\<lambda>c. ascii_upper c \<or> ascii_lower c \<or> ascii_digit c \<or> c \<in> set ''_.:/-'') s"

definition need :: "bool \<Rightarrow> budget_error \<Rightarrow> budget_error + unit" where
  "need b x = (if b then Inr () else Inl x)"

definition identity :: "string \<Rightarrow> string \<Rightarrow> budget_error + unit" where
  "identity s label = need (identity_ok s) (BudgetValueError label)"

definition hash_check :: "string \<Rightarrow> budget_error + unit" where
  "hash_check s = need (is_hex 64 s) (BudgetValueError ''INVALID_DOCUMENTARY_HASH'')"

definition metadata_text_ok :: "json \<Rightarrow> bool" where
  "metadata_text_ok v = (case v of
      JStr s \<Rightarrow> s \<noteq> [] \<and> length s \<le> 200 \<and> list_all (\<lambda>c. (32::nat) \<le> of_char c) s
    | _ \<Rightarrow> False)"

text \<open>\<open>math.isfinite\<close> raises \<open>OverflowError\<close> on an integer that no float can approximate.\<close>

definition elapsed_error :: "json \<Rightarrow> budget_error option" where
  "elapsed_error v = (let bad = Some (BudgetValueError ''INVALID_ATTEMPT_ELAPSED_METADATA'') in case v of
      JInt i \<Rightarrow> if 2 ^ 1024 - 2 ^ 970 \<le> \<bar>i\<bar> then Some BudgetOverflowError else if i < 0 then bad else None
    | JNum q _ \<Rightarrow> if q < 0 then bad else None
    | _ \<Rightarrow> bad)"

definition metadata_item_error :: "string \<Rightarrow> json \<Rightarrow> budget_error option" where
  "metadata_item_error k v =
     (if k = ''delegate_entered'' then
        (if is_bool v then None else Some (BudgetValueError ''INVALID_ATTEMPT_DELEGATE_OBSERVATION''))
      else if v = JNull then None
      else if k \<in> set INTEGER_METADATA then
        (case v of
           JInt i \<Rightarrow> if i < 0 then Some (BudgetValueError ''INVALID_ATTEMPT_INTEGER_METADATA'')
             else if k = ''http_status'' \<and> \<not> (100 \<le> i \<and> i \<le> 599) then Some (BudgetValueError ''INVALID_HTTP_STATUS'')
             else None
         | _ \<Rightarrow> Some (BudgetValueError ''INVALID_ATTEMPT_INTEGER_METADATA''))
      else if k \<in> set [''elapsed_ms'', ''response_arrival_elapsed_ms''] then elapsed_error v
      else if k = ''returned_model_sha256'' then
        (case v of JStr s \<Rightarrow> if is_hex 64 s then None else Some (BudgetValueError ''INVALID_DOCUMENTARY_HASH'')
         | _ \<Rightarrow> Some (BudgetValueError ''INVALID_DOCUMENTARY_HASH''))
      else if metadata_text_ok v then None
      else Some (BudgetValueError ''INVALID_ATTEMPT_TEXT_METADATA''))"

definition mcp_item_error :: "string \<Rightarrow> json \<Rightarrow> budget_error option" where
  "mcp_item_error k v =
     (if v = JNull then None
      else if k \<in> set [''binding_issued'', ''binding_consumed''] then
        (if is_bool v then None else Some (BudgetValueError ''INVALID_MCP_BOOLEAN_METADATA''))
      else if k \<in> set [''adapter_entries'', ''synthetic_http_attempts''] then
        (case v of JInt i \<Rightarrow> if i < 0 then Some (BudgetValueError ''INVALID_MCP_COUNT_METADATA'') else None
         | _ \<Rightarrow> Some (BudgetValueError ''INVALID_MCP_COUNT_METADATA''))
      else if metadata_text_ok v then None
      else Some (BudgetValueError ''INVALID_MCP_TEXT_METADATA''))"

fun items_error :: "(string \<Rightarrow> json \<Rightarrow> budget_error option) \<Rightarrow> (string \<times> json) list \<Rightarrow> budget_error option" where
  "items_error f [] = None"
| "items_error f ((k, v) # ms) = (case f k v of Some x \<Rightarrow> Some x | None \<Rightarrow> items_error f ms)"

definition checked_metadata ::
    "string list \<Rightarrow> string \<Rightarrow> (string \<Rightarrow> json \<Rightarrow> budget_error option) \<Rightarrow> json option \<Rightarrow> budget_error + json" where
  "checked_metadata fields code f value = (case value of
      None \<Rightarrow> Inr (JObj [])
    | Some (JObj ms) \<Rightarrow> if \<not> set (map fst ms) \<subseteq> set fields then Inl (BudgetValueError code)
        else (case items_error f ms of Some x \<Rightarrow> Inl x | None \<Rightarrow> Inr (JObj ms))
    | Some _ \<Rightarrow> Inl (BudgetValueError code))"

definition metadata :: "json option \<Rightarrow> budget_error + json" where
  "metadata value = checked_metadata METADATA_FIELDS ''UNSUPPORTED_ATTEMPT_METADATA'' metadata_item_error value"

definition mcp_metadata :: "json option \<Rightarrow> budget_error + json" where
  "mcp_metadata value = checked_metadata MCP_METADATA_FIELDS ''UNSUPPORTED_MCP_METADATA'' mcp_item_error value"

section \<open>The tables\<close>

record reservation =
  rv_attempt_id :: string
  rv_correlation_id :: string
  rv_run_id :: string
  rv_observation_id :: string
  rv_role :: string
  rv_model :: string
  rv_request :: string
  rv_prompt :: string
  rv_schema :: string
  rv_retry_count :: int
  rv_retry_reason :: "string option"
  rv_reserved_at :: string

record attempt_row =
  at_id :: string
  at_correlation :: string
  at_reservation :: reservation
  at_observation :: string
  at_role :: string
  at_retry :: int
  at_state :: string
  at_started :: "string option"
  at_completed :: "string option"
  at_outcome :: "string option"
  at_metadata :: json

record mcp_row =
  mc_observation :: string
  mc_reservation :: string
  mc_proposal :: string
  mc_state :: string
  mc_reserved :: string
  mc_admitted :: "string option"
  mc_completed :: "string option"
  mc_outcome :: "string option"
  mc_metadata :: json

record fence_row =
  fr_observation :: string
  fr_fence :: string
  fr_open :: bool
  fr_opened :: string
  fr_closed :: "string option"
  fr_summary :: "string option"

record meta_row =
  mt_version :: int
  mt_run_id :: string
  mt_role_caps :: "json option"      \<comment> \<open>the value of the text; \<open>None\<close> if it is not JSON\<close>
  mt_max :: json
  mt_stopped :: bool
  mt_reason :: "string option"

record budget_db =
  bd_meta :: "meta_row option"
  bd_observations :: "(string \<times> string) list"
  bd_attempts :: "attempt_row list"
  bd_mcp :: "mcp_row list"
  bd_fences :: "fence_row list"

datatype budget_file = Missing | Uninitialized | Store budget_db

record budget_env =
  be_file :: bool          \<comment> \<open>a regular file, no link\<close>
  be_opens :: bool         \<comment> \<open>SQLite opens it\<close>
  be_sql :: bool           \<comment> \<open>the statements succeed\<close>
  be_commit :: commit_fate
  be_id :: string          \<comment> \<open>\<open>uuid4().hex\<close>, twice\<close>
  be_id2 :: string
  be_now :: string

record budget =
  bu_run_id :: string
  bu_caps :: json
  bu_max :: int
  bu_active :: "(string \<times> string) option"

record run_settings =
  st_caps :: json
  st_max :: int
  st_stopped :: bool
  st_reason :: "string option"

definition cap_ok :: "json option \<Rightarrow> bool" where
  "cap_ok v = (case v of Some (JInt i) \<Rightarrow> 0 \<le> i \<and> i \<le> 12 | _ \<Rightarrow> False)"

definition limits_error :: "json \<Rightarrow> json \<Rightarrow> string option" where
  "limits_error caps m =
     (if \<not> same_keys caps ROLES
        \<or> \<not> list_all (\<lambda>r. cap_ok (jget r caps)) ROLES then Some ''INVALID_ROLE_CAPS''
      else (case m of JInt n \<Rightarrow> if 1 \<le> n \<and> n \<le> 6 then None else Some ''INVALID_OBSERVATION_CAP''
            | _ \<Rightarrow> Some ''INVALID_OBSERVATION_CAP''))"

definition budget_settings :: "string \<Rightarrow> (json \<times> int) option \<Rightarrow> budget_db \<Rightarrow> budget_error + run_settings" where
  "budget_settings run_id known d = (case bd_meta d of
      None \<Rightarrow> Inl (BudgetUnavailable ''BUDGET_CONTRACT_MISMATCH'')
    | Some r \<Rightarrow>
        if mt_version r \<noteq> 2 \<or> mt_run_id r \<noteq> run_id then Inl (BudgetUnavailable ''BUDGET_CONTRACT_MISMATCH'')
        else (case mt_role_caps r of None \<Rightarrow> Inl (BudgetUnavailable ''BUDGET_CONTRACT_MISMATCH'')
          | Some caps \<Rightarrow>
              if limits_error caps (mt_max r) \<noteq> None then Inl (BudgetUnavailable ''BUDGET_CONTRACT_MISMATCH'')
              else let m = the (as_int (mt_max r)) in
                if (case known of None \<Rightarrow> False | Some (c, n) \<Rightarrow> \<not> py_eq caps c \<or> m \<noteq> n)
                then Inl (BudgetUnavailable ''BUDGET_CONTRACT_CHANGED'')
                else Inr \<lparr>st_caps = caps, st_max = m, st_stopped = mt_stopped r, st_reason = mt_reason r\<rparr>))"

definition store_failed :: budget_error where
  "store_failed = BudgetUnavailable ''BUDGET_STORE_OPERATION_FAILED''"

definition connection :: "budget_env \<Rightarrow> budget_file \<Rightarrow> (budget_db \<Rightarrow> budget_error + 'a) \<Rightarrow> budget_error + 'a" where
  "connection e f k =
     (if f = Missing \<or> \<not> be_file e \<or> \<not> be_opens e then Inl (BudgetUnavailable ''BUDGET_STORE_UNAVAILABLE'')
      else if \<not> be_sql e then Inl store_failed
      else (case f of Store d \<Rightarrow> k d | _ \<Rightarrow> Inl store_failed))"

definition own_settings :: "budget \<Rightarrow> budget_db \<Rightarrow> budget_error + run_settings" where
  "own_settings b d = budget_settings (bu_run_id b) (Some (bu_caps b, bu_max b)) d"

text \<open>
  The body of a transaction: \<open>Inl\<close> is raised and rolled back; \<open>Inr\<close> is the database that is committed, and
  what happens then: a halt is committed before the code raises.
\<close>

type_synonym 'a commits = "budget_error + budget_db \<times> (budget_error + 'a)"

definition budget_transaction ::
    "budget_env \<Rightarrow> budget \<Rightarrow> budget_file \<Rightarrow> (run_settings \<Rightarrow> budget_db \<Rightarrow> 'a commits) \<Rightarrow> budget_file \<times> (budget_error + 'a)" where
  "budget_transaction e b f body =
     (case connection e f (\<lambda>d. rbind (own_settings b d) (\<lambda>s. body s d)) of
        Inl x \<Rightarrow> (f, Inl x)
      | Inr (d, r) \<Rightarrow> (case be_commit e of
            Committed \<Rightarrow> (Store d, r)
          | CommitLost \<Rightarrow> (Store d, Inl store_failed)
          | CommitFailed \<Rightarrow> (f, Inl store_failed)))"

definition halt :: "string \<Rightarrow> budget_db \<Rightarrow> budget_db" where
  "halt reason d = d\<lparr>bd_meta := map_option (\<lambda>r. r\<lparr>mt_stopped := True,
     mt_reason := (case mt_reason r of None \<Rightarrow> Some reason | Some x \<Rightarrow> Some x)\<rparr>) (bd_meta d)\<rparr>"

definition halt_raise :: "string \<Rightarrow> budget_error \<Rightarrow> budget_db \<Rightarrow> 'a commits" where
  "halt_raise reason x d = Inr (halt reason d, Inl x)"

definition reserve_observation ::
    "budget_env \<Rightarrow> string \<Rightarrow> run_settings \<Rightarrow> (budget_db \<Rightarrow> 'a commits) \<Rightarrow> budget_db \<Rightarrow> 'a commits" where
  "reserve_observation e obs s k d =
     (if obs \<in> set (map fst (bd_observations d)) then k d
      else if st_max s \<le> int (length (bd_observations d)) then
        halt_raise ''OBSERVATION_BUDGET_EXHAUSTED'' (BudgetExceeded ''OBSERVATION_BUDGET_EXHAUSTED'') d
      else k (d\<lparr>bd_observations := bd_observations d @ [(obs, be_now e)]\<rparr>))"

fun fence_access :: "(string \<times> string) option \<Rightarrow> string \<Rightarrow> fence_row list \<Rightarrow> budget_error + unit" where
  "fence_access active obs [] = Inr ()"
| "fence_access active obs (r # rs) =
     (if active \<noteq> Some (fr_observation r, fr_fence r) then Inl (RecoveryBlocked ''UNRESOLVED_OBSERVATION_FENCE'')
      else if obs \<noteq> fr_observation r then Inl (RecoveryBlocked ''OTHER_OBSERVATION_FENCE_ACTIVE'')
      else fence_access active obs rs)"

definition assert_fence_access :: "budget \<Rightarrow> budget_db \<Rightarrow> string \<Rightarrow> budget_error + unit" where
  "assert_fence_access b d obs = fence_access (bu_active b) obs (filter fr_open (bd_fences d))"

definition fence_of :: "string \<Rightarrow> budget_db \<Rightarrow> fence_row option" where
  "fence_of obs d = find (\<lambda>r. fr_observation r = obs) (bd_fences d)"

definition holds_open :: "(string \<times> string) option \<Rightarrow> string \<Rightarrow> budget_db \<Rightarrow> bool" where
  "holds_open active obs d = (case fence_of obs d of None \<Rightarrow> False
     | Some r \<Rightarrow> fr_open r \<and> active = Some (obs, fr_fence r))"

definition running :: "run_settings \<Rightarrow> budget_error + unit" where
  "running s = need (\<not> st_stopped s) (BudgetStopped ''RUN_STOPPED'')"

section \<open>The run and its observations\<close>

definition after_checks :: "budget_file \<Rightarrow> budget_error + unit \<Rightarrow> budget_file \<times> (budget_error + 'a) \<Rightarrow> budget_file \<times> (budget_error + 'a)" where
  "after_checks f g k = (case g of Inl x \<Rightarrow> (f, Inl x) | Inr _ \<Rightarrow> k)"

record budget_path =
  bp_unc :: bool
  bp_link :: bool
  bp_absolute :: bool

definition AttemptBudget :: "budget_env \<Rightarrow> budget_path \<Rightarrow> string \<Rightarrow> budget_file \<Rightarrow> budget_error + budget" where
  "AttemptBudget e p run_id f =
     rbind (identity run_id ''INVALID_RUN_ID'') (\<lambda>_.
     rbind (need (\<not> bp_unc p \<and> \<not> bp_link p) (BudgetUnavailable ''LOCAL_REGULAR_BUDGET_FILE_REQUIRED'')) (\<lambda>_.
     rbind (connection e f (budget_settings run_id None)) (\<lambda>s.
     Inr \<lparr>bu_run_id = run_id, bu_caps = st_caps s, bu_max = st_max s, bu_active = None\<rparr>)))"

definition initial_db :: "string \<Rightarrow> json \<Rightarrow> int \<Rightarrow> budget_db" where
  "initial_db run_id caps m = \<lparr>bd_meta = Some \<lparr>mt_version = 2, mt_run_id = run_id, mt_role_caps = Some caps,
       mt_max = JInt m, mt_stopped = False, mt_reason = None\<rparr>,
     bd_observations = [], bd_attempts = [], bd_mcp = [], bd_fences = []\<rparr>"

definition default_caps :: json where
  "default_caps = JObj [(''planner'', JInt 12), (''judge'', JInt 12)]"

definition budget_create ::
    "budget_env \<Rightarrow> budget_path \<Rightarrow> string \<Rightarrow> json option \<Rightarrow> int \<Rightarrow> budget_file \<Rightarrow> budget_file \<times> (budget_error + budget)" where
  "budget_create e p run_id role_caps m f = (let caps = (case role_caps of None \<Rightarrow> default_caps | Some c \<Rightarrow> c) in
     after_checks f (rbind (identity run_id ''INVALID_RUN_ID'') (\<lambda>_.
       rbind (case limits_error caps (JInt m) of None \<Rightarrow> Inr () | Some c \<Rightarrow> Inl (BudgetValueError c)) (\<lambda>_.
       rbind (need (bp_absolute p \<and> \<not> bp_unc p \<and> \<not> bp_link p) (BudgetUnavailable ''LOCAL_ABSOLUTE_BUDGET_PATH_REQUIRED'')) (\<lambda>_.
       need (f = Missing) BudgetFileExists))))
     (let g = (if be_opens e \<and> be_sql e \<and> be_commit e \<noteq> CommitFailed then Store (initial_db run_id (jsort caps) m) else Uninitialized) in
      (g, if be_opens e \<and> be_sql e \<and> be_commit e = Committed then AttemptBudget e p run_id g
          else Inl (BudgetUnavailable ''BUDGET_INITIALIZATION_FAILED_PRESERVED''))))"

definition assert_active_observation :: "budget_env \<Rightarrow> budget \<Rightarrow> string option \<Rightarrow> budget_file \<Rightarrow> budget_error + unit" where
  "assert_active_observation e b observation f =
     rbind (case observation of Some obs \<Rightarrow> Inr obs
       | None \<Rightarrow> (case bu_active b of None \<Rightarrow> Inl (RecoveryBlocked ''ACKNOWLEDGED_OBSERVATION_FENCE_REQUIRED'')
           | Some (obs, _) \<Rightarrow> Inr obs)) (\<lambda>obs.
     connection e f (\<lambda>d. rbind (own_settings b d) (\<lambda>s. rbind (running s) (\<lambda>_.
       rbind (assert_fence_access b d obs) (\<lambda>_.
       need (holds_open (bu_active b) obs d) (RecoveryBlocked ''ACKNOWLEDGED_OBSERVATION_FENCE_REQUIRED''))))))"

definition attempt_pending :: "attempt_row \<Rightarrow> bool" where
  "attempt_pending r \<longleftrightarrow> at_state r = ''RESERVED'' \<or> at_state r = ''IN_FLIGHT''"

definition mcp_pending :: "mcp_row \<Rightarrow> bool" where
  "mcp_pending r \<longleftrightarrow> mc_state r = ''RESERVED'' \<or> mc_state r = ''ADMITTED''"

definition pending :: "budget_db \<Rightarrow> bool" where
  "pending d \<longleftrightarrow> list_ex attempt_pending (bd_attempts d) \<or> list_ex mcp_pending (bd_mcp d)"

definition open_fence :: "budget_env \<Rightarrow> string \<Rightarrow> budget_db \<Rightarrow> string commits" where
  "open_fence e obs d =
     (if be_id e \<in> set (map fr_fence (bd_fences d)) \<or> obs \<in> set (map fr_observation (bd_fences d)) then Inl store_failed
      else Inr (d\<lparr>bd_fences := bd_fences d @ [\<lparr>fr_observation = obs, fr_fence = be_id e, fr_open = True,
        fr_opened = be_now e, fr_closed = None, fr_summary = None\<rparr>]\<rparr>, Inr (be_id e)))"

definition begin_new :: "budget_env \<Rightarrow> budget \<Rightarrow> string \<Rightarrow> run_settings \<Rightarrow> budget_db \<Rightarrow> string commits" where
  "begin_new e b obs s d =
     rbind (running s) (\<lambda>_. rbind (assert_fence_access b d obs) (\<lambda>_.
     rbind (need (\<not> pending d) (RecoveryBlocked ''UNRESOLVED_PENDING_ATTEMPT'')) (\<lambda>_.
     rbind (need (fence_of obs d = None) (BudgetError ''OBSERVATION_FENCE_ALREADY_EXISTS'')) (\<lambda>_.
     reserve_observation e obs s (open_fence e obs) d))))"

definition begin_observation :: "budget_env \<Rightarrow> string \<Rightarrow> budget \<Rightarrow> budget_file \<Rightarrow> (budget \<times> budget_file) \<times> (budget_error + string)" where
  "begin_observation e obs b f =
     (if \<not> identity_ok obs then ((b, f), Inl (BudgetValueError ''INVALID_OBSERVATION_ID''))
      else case bu_active b of
        Some (held, fence_id) \<Rightarrow> ((b, f),
          if held \<noteq> obs then Inl (RecoveryBlocked ''OTHER_OBSERVATION_FENCE_ACTIVE'')
          else rbind (assert_active_observation e b (Some obs) f) (\<lambda>_. Inr fence_id))
      | None \<Rightarrow> (case budget_transaction e b f (begin_new e b obs) of
            (g, Inl x) \<Rightarrow> ((b, g), Inl x)
          | (g, Inr fence_id) \<Rightarrow> ((b\<lparr>bu_active := Some (obs, fence_id)\<rparr>, g), Inr fence_id)))"

definition join_observation :: "budget_env \<Rightarrow> string \<Rightarrow> string \<Rightarrow> budget \<Rightarrow> budget_file \<Rightarrow> (budget \<times> budget_file) \<times> (budget_error + unit)" where
  "join_observation e obs fence_id b f =
     (case rbind (identity obs ''INVALID_OBSERVATION_ID'') (\<lambda>_.
        rbind (identity fence_id ''INVALID_FENCE_ID'') (\<lambda>_.
        rbind (need (bu_active b = None) (BudgetError ''OBSERVATION_CAPABILITY_ALREADY_SET'')) (\<lambda>_.
        connection e f (\<lambda>d. rbind (own_settings b d) (\<lambda>s. rbind (running s) (\<lambda>_.
          need (holds_open (Some (obs, fence_id)) obs d) (RecoveryBlocked ''CURRENT_OBSERVATION_CAPABILITY_REQUIRED''))))))) of
        Inl x \<Rightarrow> ((b, f), Inl x)
      | Inr _ \<Rightarrow> ((b\<lparr>bu_active := Some (obs, fence_id)\<rparr>, f), Inr ()))"

text \<open>SQL's \<open>NOT IN\<close> is not true of \<open>NULL\<close>.\<close>

definition unsafe_attempt :: "attempt_row \<Rightarrow> bool" where
  "unsafe_attempt r \<longleftrightarrow> at_state r \<noteq> ''TERMINAL'' \<or>
     (case at_outcome r of None \<Rightarrow> False | Some x \<Rightarrow> x \<notin> set KNOWN_OUTCOMES)"

definition unsafe_mcp :: "mcp_row \<Rightarrow> bool" where
  "unsafe_mcp r \<longleftrightarrow> mc_state r \<noteq> ''TERMINAL'' \<or>
     (case mc_outcome r of None \<Rightarrow> False | Some x \<Rightarrow> x \<noteq> ''CLIENT_RESPONSE_OBSERVED'')"

definition unsafe :: "budget_db \<Rightarrow> bool" where
  "unsafe d \<longleftrightarrow> list_ex unsafe_attempt (bd_attempts d) \<or> list_ex unsafe_mcp (bd_mcp d)"

definition close_fence :: "string \<Rightarrow> string \<Rightarrow> string \<Rightarrow> budget_db \<Rightarrow> budget_db" where
  "close_fence now summary obs d = d\<lparr>bd_fences := map (\<lambda>r. if fr_observation r = obs \<and> fr_open r
     then r\<lparr>fr_open := False, fr_closed := Some now, fr_summary := Some summary\<rparr> else r) (bd_fences d)\<rparr>"

definition close_body :: "budget_env \<Rightarrow> budget \<Rightarrow> string \<Rightarrow> string \<Rightarrow> run_settings \<Rightarrow> budget_db \<Rightarrow> unit commits" where
  "close_body e b obs summary s d =
     rbind (need (\<not> st_stopped s) (BudgetStopped ''STOP_CLEARANCE_NOT_AUTHORIZED'')) (\<lambda>_.
     rbind (assert_fence_access b d obs) (\<lambda>_.
     rbind (need (holds_open (bu_active b) obs d) (RecoveryBlocked ''CURRENT_OBSERVATION_CAPABILITY_REQUIRED'')) (\<lambda>_.
     rbind (need (\<not> unsafe d) (RecoveryBlocked ''UNRESOLVED_CUSTODY_CANNOT_CLOSE_FENCE'')) (\<lambda>_.
     Inr (close_fence (be_now e) summary obs d, Inr ())))))"

definition close_safe_observation :: "budget_env \<Rightarrow> string \<Rightarrow> string \<Rightarrow> budget \<Rightarrow> budget_file \<Rightarrow> (budget \<times> budget_file) \<times> (budget_error + unit)" where
  "close_safe_observation e obs summary b f =
     (case after_checks f (hash_check summary) (budget_transaction e b f (close_body e b obs summary)) of
        (g, Inl x) \<Rightarrow> ((b, g), Inl x)
      | (g, Inr _) \<Rightarrow> ((b\<lparr>bu_active := None\<rparr>, g), Inr ()))"

section \<open>Attempts\<close>

definition same_request :: "reservation \<Rightarrow> string \<Rightarrow> string \<Rightarrow> string \<Rightarrow> string \<Rightarrow> bool" where
  "same_request o1 model request prompt schema \<longleftrightarrow>
     rv_model o1 = model \<and> rv_request o1 = request \<and> rv_prompt o1 = prompt \<and> rv_schema o1 = schema"

definition retry_check :: "attempt_row list \<Rightarrow> int \<Rightarrow> string \<Rightarrow> string \<Rightarrow> string \<Rightarrow> string \<Rightarrow> budget_error + unit" where
  "retry_check prior n model request prompt schema =
     rbind (need (\<not> list_ex (\<lambda>r. at_retry r = n) prior) (BudgetError ''DUPLICATE_ATTEMPT_RESERVATION'')) (\<lambda>_.
     if n = 0 then Inr ()
     else (case prior of
         [r] \<Rightarrow> rbind (need (\<exists>x \<in> set KNOWN_OUTCOMES. at_outcome r = Some x) (BudgetError ''RETRY_WITHOUT_KNOWN_PRIOR_COMPLETION''))
           (\<lambda>_. need (same_request (at_reservation r) model request prompt schema) (BudgetError ''RETRY_IDENTITY_MISMATCH''))
       | _ \<Rightarrow> Inl (BudgetError ''RETRY_WITHOUT_KNOWN_PRIOR_COMPLETION'')))"

definition role_count :: "string \<Rightarrow> budget_db \<Rightarrow> int" where
  "role_count role d = int (length (filter (\<lambda>r. at_role r = role) (bd_attempts d)))"

definition role_cap :: "json \<Rightarrow> string \<Rightarrow> int" where
  "role_cap caps role = the (as_int (jget_or JNull role caps))"

definition prior_attempts :: "string \<Rightarrow> string \<Rightarrow> budget_db \<Rightarrow> attempt_row list" where
  "prior_attempts obs role d = filter (\<lambda>r. at_observation r = obs \<and> at_role r = role) (bd_attempts d)"

definition reserved_row :: "reservation \<Rightarrow> attempt_row" where
  "reserved_row v = \<lparr>at_id = rv_attempt_id v, at_correlation = rv_correlation_id v, at_reservation = v,
     at_observation = rv_observation_id v, at_role = rv_role v, at_retry = rv_retry_count v, at_state = ''RESERVED'',
     at_started = None, at_completed = None, at_outcome = None, at_metadata = JObj []\<rparr>"

text \<open>The keys of the table: a row that breaks one is refused by SQLite.\<close>

definition attempt_clashes :: "attempt_row \<Rightarrow> attempt_row \<Rightarrow> bool" where
  "attempt_clashes r q \<longleftrightarrow> at_id q = at_id r \<or> at_correlation q = at_correlation r
     \<or> at_observation q = at_observation r \<and> at_role q = at_role r \<and> at_retry q = at_retry r"

definition insert_attempt :: "reservation \<Rightarrow> budget_db \<Rightarrow> reservation commits" where
  "insert_attempt v d =
     (if list_ex (attempt_clashes (reserved_row v)) (bd_attempts d) then Inl store_failed
      else Inr (d\<lparr>bd_attempts := bd_attempts d @ [reserved_row v]\<rparr>, Inr v))"

record attempt_request =
  rq_observation :: string
  rq_role :: string
  rq_model :: string
  rq_request :: string
  rq_prompt :: string
  rq_schema :: string
  rq_retry :: int
  rq_reason :: "string option"

definition make_reservation :: "budget_env \<Rightarrow> string \<Rightarrow> attempt_request \<Rightarrow> reservation" where
  "make_reservation e run_id q = \<lparr>rv_attempt_id = be_id e, rv_correlation_id = be_id2 e, rv_run_id = run_id,
     rv_observation_id = rq_observation q, rv_role = rq_role q, rv_model = rq_model q, rv_request = rq_request q,
     rv_prompt = rq_prompt q, rv_schema = rq_schema q, rv_retry_count = rq_retry q, rv_retry_reason = rq_reason q,
     rv_reserved_at = be_now e\<rparr>"

definition reserve_checks :: "attempt_request \<Rightarrow> budget_error + unit" where
  "reserve_checks q =
     rbind (identity (rq_observation q) ''INVALID_OBSERVATION_ID'') (\<lambda>_.
     rbind (identity (rq_model q) ''INVALID_REQUESTED_MODEL'') (\<lambda>_.
     rbind (need (rq_role q \<in> set ROLES \<and> (rq_retry q = 0 \<or> rq_retry q = 1)) (BudgetValueError ''INVALID_ROLE_OR_RETRY_INDEX'')) (\<lambda>_.
     rbind (hash_check (rq_request q)) (\<lambda>_. rbind (hash_check (rq_prompt q)) (\<lambda>_. rbind (hash_check (rq_schema q)) (\<lambda>_.
     rbind (case rq_reason q of None \<Rightarrow> Inr () | Some r \<Rightarrow> identity r ''INVALID_RETRY_REASON'') (\<lambda>_.
     need ((rq_retry q = 0) = (rq_reason q = None)) (BudgetValueError ''RETRY_REASON_BINDING_REQUIRED''))))))))"

definition reserve_body :: "budget_env \<Rightarrow> budget \<Rightarrow> attempt_request \<Rightarrow> run_settings \<Rightarrow> budget_db \<Rightarrow> reservation commits" where
  "reserve_body e b q s d =
     rbind (running s) (\<lambda>_. rbind (assert_fence_access b d (rq_observation q)) (\<lambda>_.
     rbind (retry_check (prior_attempts (rq_observation q) (rq_role q) d) (rq_retry q)
       (rq_model q) (rq_request q) (rq_prompt q) (rq_schema q)) (\<lambda>_.
     if role_cap (st_caps s) (rq_role q) \<le> role_count (rq_role q) d then
       halt_raise ''ROLE_BUDGET_EXHAUSTED'' (BudgetExceeded ''ROLE_BUDGET_EXHAUSTED'') d
     else reserve_observation e (rq_observation q) s (insert_attempt (make_reservation e (bu_run_id b) q)) d)))"

definition reserve :: "budget_env \<Rightarrow> budget \<Rightarrow> attempt_request \<Rightarrow> budget_file \<Rightarrow> budget_file \<times> (budget_error + reservation)" where
  "reserve e b q f = after_checks f (reserve_checks q) (budget_transaction e b f (reserve_body e b q))"

definition bound_row :: "reservation \<Rightarrow> budget_db \<Rightarrow> budget_error + attempt_row" where
  "bound_row v d = (case find (\<lambda>r. at_id r = rv_attempt_id v) (bd_attempts d) of
      Some r \<Rightarrow> if at_reservation r = v then Inr r else Inl (BudgetError ''RESERVATION_BINDING_MISMATCH'')
    | None \<Rightarrow> Inl (BudgetError ''RESERVATION_BINDING_MISMATCH''))"

definition update_attempt :: "string \<Rightarrow> (attempt_row \<Rightarrow> attempt_row) \<Rightarrow> budget_db \<Rightarrow> budget_db" where
  "update_attempt i f d = d\<lparr>bd_attempts := map (\<lambda>r. if at_id r = i then f r else r) (bd_attempts d)\<rparr>"

definition start_body :: "budget_env \<Rightarrow> budget \<Rightarrow> reservation \<Rightarrow> run_settings \<Rightarrow> budget_db \<Rightarrow> unit commits" where
  "start_body e b v s d =
     rbind (running s) (\<lambda>_. rbind (assert_fence_access b d (rv_observation_id v)) (\<lambda>_. rbind (bound_row v d) (\<lambda>r.
     rbind (need (at_state r = ''RESERVED'') (BudgetError ''ATTEMPT_ALREADY_STARTED_OR_COMPLETED'')) (\<lambda>_.
     Inr (update_attempt (rv_attempt_id v) (\<lambda>r. r\<lparr>at_state := ''IN_FLIGHT'', at_started := Some (be_now e)\<rparr>) d, Inr ())))))"

definition start_attempt :: "budget_env \<Rightarrow> budget \<Rightarrow> reservation \<Rightarrow> budget_file \<Rightarrow> budget_file \<times> (budget_error + unit)" where
  "start_attempt e b v f = budget_transaction e b f (start_body e b v)"

definition finish_body :: "budget_env \<Rightarrow> reservation \<Rightarrow> string \<Rightarrow> json \<Rightarrow> run_settings \<Rightarrow> budget_db \<Rightarrow> unit commits" where
  "finish_body e v x md s d =
     rbind (bound_row v d) (\<lambda>r.
     rbind (need (attempt_pending r) (BudgetError ''ATTEMPT_ALREADY_COMPLETED'')) (\<lambda>_.
     rbind (need (\<not> (x = ''RESERVATION_NO_SEND'' \<and> at_state r \<noteq> ''RESERVED'')) (BudgetError ''CANNOT_CLAIM_NO_SEND_AFTER_START'')) (\<lambda>_.
     rbind (need (\<not> (x = ''RESPONSE_OBSERVED'' \<and> at_state r \<noteq> ''IN_FLIGHT'')) (BudgetError ''RESPONSE_REQUIRES_STARTED_ATTEMPT'')) (\<lambda>_.
     let d1 = update_attempt (rv_attempt_id v) (\<lambda>r. r\<lparr>at_state := ''TERMINAL'', at_completed := Some (be_now e),
           at_outcome := Some x, at_metadata := jsort md\<rparr>) d
     in Inr (if stop_outcome x then halt x d1 else d1, Inr ())))))"

definition finish_attempt :: "budget_env \<Rightarrow> budget \<Rightarrow> reservation \<Rightarrow> string \<Rightarrow> json option \<Rightarrow> budget_file \<Rightarrow> budget_file \<times> (budget_error + unit)" where
  "finish_attempt e b v x md f =
     (case rbind (need (x \<in> set OUTCOMES) (BudgetValueError ''UNSUPPORTED_ATTEMPT_OUTCOME'')) (\<lambda>_. metadata md) of
        Inl y \<Rightarrow> (f, Inl y)
      | Inr safe \<Rightarrow> budget_transaction e b f (finish_body e v x safe))"

definition stop_run :: "budget_env \<Rightarrow> budget \<Rightarrow> string \<Rightarrow> budget_file \<Rightarrow> budget_file \<times> (budget_error + unit)" where
  "stop_run e b reason f =
     after_checks f (identity reason ''INVALID_STOP_REASON'')
       (budget_transaction e b f (\<lambda>s d. Inr (halt reason d, Inr ())))"

section \<open>MCP calls\<close>

definition call_of :: "string \<Rightarrow> budget_db \<Rightarrow> mcp_row option" where
  "call_of obs d = find (\<lambda>r. mc_observation r = obs) (bd_mcp d)"

definition reserved_call :: "budget_env \<Rightarrow> string \<Rightarrow> string \<Rightarrow> mcp_row" where
  "reserved_call e obs proposal = \<lparr>mc_observation = obs, mc_reservation = be_id e, mc_proposal = proposal,
     mc_state = ''RESERVED'', mc_reserved = be_now e, mc_admitted = None, mc_completed = None, mc_outcome = None,
     mc_metadata = JObj []\<rparr>"

definition insert_call :: "mcp_row \<Rightarrow> budget_db \<Rightarrow> string commits" where
  "insert_call r d =
     (if list_ex (\<lambda>q. mc_observation q = mc_observation r \<or> mc_reservation q = mc_reservation r) (bd_mcp d) then Inl store_failed
      else Inr (d\<lparr>bd_mcp := bd_mcp d @ [r]\<rparr>, Inr (mc_reservation r)))"

definition mcp_checks :: "string \<Rightarrow> string \<Rightarrow> budget_error + unit" where
  "mcp_checks obs proposal = rbind (identity obs ''INVALID_OBSERVATION_ID'') (\<lambda>_. hash_check proposal)"

definition reserve_mcp_body :: "budget_env \<Rightarrow> budget \<Rightarrow> string \<Rightarrow> string \<Rightarrow> run_settings \<Rightarrow> budget_db \<Rightarrow> string commits" where
  "reserve_mcp_body e b obs proposal s d =
     rbind (running s) (\<lambda>_. rbind (assert_fence_access b d obs) (\<lambda>_.
     rbind (need (call_of obs d = None) (BudgetError ''DUPLICATE_MCP_RESERVATION'')) (\<lambda>_.
     reserve_observation e obs s (insert_call (reserved_call e obs proposal)) d)))"

definition reserve_mcp :: "budget_env \<Rightarrow> budget \<Rightarrow> string \<Rightarrow> string \<Rightarrow> budget_file \<Rightarrow> budget_file \<times> (budget_error + string)" where
  "reserve_mcp e b obs proposal f =
     after_checks f (mcp_checks obs proposal) (budget_transaction e b f (reserve_mcp_body e b obs proposal))"

definition update_call :: "string \<Rightarrow> (mcp_row \<Rightarrow> mcp_row) \<Rightarrow> budget_db \<Rightarrow> budget_db" where
  "update_call obs f d = d\<lparr>bd_mcp := map (\<lambda>r. if mc_observation r = obs then f r else r) (bd_mcp d)\<rparr>"

definition admit_mcp_body :: "budget_env \<Rightarrow> budget \<Rightarrow> string \<Rightarrow> string \<Rightarrow> run_settings \<Rightarrow> budget_db \<Rightarrow> unit commits" where
  "admit_mcp_body e b obs proposal s d =
     rbind (running s) (\<lambda>_. rbind (assert_fence_access b d obs) (\<lambda>_.
     (case call_of obs d of None \<Rightarrow> Inl (BudgetError ''MCP_RESERVATION_MISSING'')
      | Some r \<Rightarrow>
          rbind (need (mc_proposal r = proposal) (BudgetError ''MCP_PROPOSAL_BINDING_MISMATCH'')) (\<lambda>_.
          rbind (need (mc_state r = ''RESERVED'') (BudgetError ''MCP_RESERVATION_ALREADY_ADMITTED_OR_COMPLETED'')) (\<lambda>_.
          Inr (update_call obs (\<lambda>r. r\<lparr>mc_state := ''ADMITTED'', mc_admitted := Some (be_now e)\<rparr>) d, Inr ()))))))"

definition admit_mcp :: "budget_env \<Rightarrow> budget \<Rightarrow> string \<Rightarrow> string \<Rightarrow> budget_file \<Rightarrow> budget_file \<times> (budget_error + unit)" where
  "admit_mcp e b obs proposal f =
     after_checks f (mcp_checks obs proposal) (budget_transaction e b f (admit_mcp_body e b obs proposal))"

definition finish_mcp_body :: "budget_env \<Rightarrow> string \<Rightarrow> string \<Rightarrow> json \<Rightarrow> run_settings \<Rightarrow> budget_db \<Rightarrow> unit commits" where
  "finish_mcp_body e obs x md s d =
     (case call_of obs d of None \<Rightarrow> Inl (BudgetError ''MCP_RESERVATION_MISSING_OR_COMPLETED'')
      | Some r \<Rightarrow>
          rbind (need (mcp_pending r) (BudgetError ''MCP_RESERVATION_MISSING_OR_COMPLETED'')) (\<lambda>_.
          let d1 = update_call obs (\<lambda>r. r\<lparr>mc_state := ''TERMINAL'', mc_completed := Some (be_now e),
                mc_outcome := Some x, mc_metadata := jsort md\<rparr>) d
          in Inr (if x = ''CLIENT_RECEIPT_UNKNOWN'' then halt x d1 else d1, Inr ())))"

definition finish_mcp :: "budget_env \<Rightarrow> budget \<Rightarrow> string \<Rightarrow> string \<Rightarrow> json option \<Rightarrow> budget_file \<Rightarrow> budget_file \<times> (budget_error + unit)" where
  "finish_mcp e b obs x md f =
     (case rbind (need (x = ''CLIENT_RESPONSE_OBSERVED'' \<or> x = ''CLIENT_RECEIPT_UNKNOWN'') (BudgetValueError ''UNSUPPORTED_MCP_OUTCOME''))
        (\<lambda>_. mcp_metadata md) of
        Inl y \<Rightarrow> (f, Inl y)
      | Inr safe \<Rightarrow> budget_transaction e b f (finish_mcp_body e obs x safe))"

section \<open>Recovery and reading\<close>

definition ensure_body :: "budget \<Rightarrow> run_settings \<Rightarrow> budget_db \<Rightarrow> unit commits" where
  "ensure_body b s d =
     rbind (assert_fence_access b d (case bu_active b of None \<Rightarrow> [] | Some (obs, _) \<Rightarrow> obs)) (\<lambda>_.
     if pending d then halt_raise ''UNRESOLVED_PENDING_ATTEMPT'' (RecoveryBlocked ''UNRESOLVED_PENDING_ATTEMPT'') d
     else rbind (running s) (\<lambda>_. Inr (d, Inr ())))"

definition ensure_recoverable :: "budget_env \<Rightarrow> budget \<Rightarrow> budget_file \<Rightarrow> budget_file \<times> (budget_error + unit)" where
  "ensure_recoverable e b f = budget_transaction e b f (ensure_body b)"

record budget_snapshot =
  sn_run_id :: string
  sn_settings :: run_settings
  sn_counts :: "(string \<times> int) list"
  sn_observation_count :: int
  sn_attempts :: "attempt_row list"
  sn_mcp_calls :: "mcp_row list"
  sn_fences :: "fence_row list"
  sn_blocked :: bool

definition snapshot :: "budget_env \<Rightarrow> budget \<Rightarrow> budget_file \<Rightarrow> budget_error + budget_snapshot" where
  "snapshot e b f = connection e f (\<lambda>d. rbind (own_settings b d) (\<lambda>s.
     Inr \<lparr>sn_run_id = bu_run_id b, sn_settings = s,
       sn_counts = map (\<lambda>r. (r, role_count r d)) [''judge'', ''planner''],
       sn_observation_count = int (length (bd_observations d)), sn_attempts = bd_attempts d,
       sn_mcp_calls = bd_mcp d, sn_fences = bd_fences d,
       sn_blocked = (st_stopped s \<or> list_ex fr_open (bd_fences d))\<rparr>))"

section \<open>Runs of several processes\<close>

text \<open>
  Processes are numbered; each holds at most one controller of the run. A controller is lost when its
  process ends and a new one attaches: nothing of it but the file survives.
\<close>

datatype budget_op =
    Begin string
  | Join string string
  | CloseSafe string string
  | Reserve attempt_request
  | StartAttempt reservation
  | FinishAttempt reservation string "json option"
  | StopRun string
  | ReserveMcp string string
  | AdmitMcp string string
  | FinishMcp string string "json option"
  | EnsureRecoverable

record budget_world =
  bw_file :: budget_file
  bw_procs :: "nat \<Rightarrow> budget option"

definition on_file :: "budget \<Rightarrow> budget_file \<times> (budget_error + 'a) \<Rightarrow> (budget \<times> budget_file) \<times> (budget_error + unit)" where
  "on_file b r = ((b, fst r), rbind (snd r) (\<lambda>_. Inr ()))"

definition on_self :: "(budget \<times> budget_file) \<times> (budget_error + 'a) \<Rightarrow> (budget \<times> budget_file) \<times> (budget_error + unit)" where
  "on_self r = (fst r, rbind (snd r) (\<lambda>_. Inr ()))"

fun budget_exec :: "budget_env \<Rightarrow> budget_op \<Rightarrow> budget \<Rightarrow> budget_file \<Rightarrow> (budget \<times> budget_file) \<times> (budget_error + unit)" where
  "budget_exec e (Begin obs) b f = on_self (begin_observation e obs b f)"
| "budget_exec e (Join obs fence_id) b f = on_self (join_observation e obs fence_id b f)"
| "budget_exec e (CloseSafe obs summary) b f = on_self (close_safe_observation e obs summary b f)"
| "budget_exec e (Reserve q) b f = on_file b (reserve e b q f)"
| "budget_exec e (StartAttempt v) b f = on_file b (start_attempt e b v f)"
| "budget_exec e (FinishAttempt v x md) b f = on_file b (finish_attempt e b v x md f)"
| "budget_exec e (StopRun reason) b f = on_file b (stop_run e b reason f)"
| "budget_exec e (ReserveMcp obs p) b f = on_file b (reserve_mcp e b obs p f)"
| "budget_exec e (AdmitMcp obs p) b f = on_file b (admit_mcp e b obs p f)"
| "budget_exec e (FinishMcp obs x md) b f = on_file b (finish_mcp e b obs x md f)"
| "budget_exec e EnsureRecoverable b f = on_file b (ensure_recoverable e b f)"

text \<open>What may leave the process once the call returned: a model request, or an MCP call.\<close>

datatype admission = Sends string | Calls string

fun admission_of :: "budget_op \<Rightarrow> admission option" where
  "admission_of (StartAttempt v) = Some (Sends (rv_attempt_id v))"
| "admission_of (AdmitMcp obs p) = Some (Calls obs)"
| "admission_of _ = None"

datatype world_op = AttachAs nat budget_env budget_path string | Do nat budget_env budget_op

fun budget_step :: "world_op \<Rightarrow> budget_world \<Rightarrow> budget_world \<times> admission option" where
  "budget_step (AttachAs i e p run_id) w =
     (w\<lparr>bw_procs := (bw_procs w)(i := (case AttemptBudget e p run_id (bw_file w) of Inl _ \<Rightarrow> None | Inr b \<Rightarrow> Some b))\<rparr>, None)"
| "budget_step (Do i e x) w = (case bw_procs w i of None \<Rightarrow> (w, None)
     | Some b \<Rightarrow> (case budget_exec e x b (bw_file w) of
         ((b', f), r) \<Rightarrow> (\<lparr>bw_file = f, bw_procs = (bw_procs w)(i := Some b')\<rparr>, if is_ok r then admission_of x else None)))"

section \<open>The abstract custody machine\<close>

text \<open>
  What one operation may do to the ledger, without processes, capabilities and failures. Every operation
  either leaves the file alone or makes one of these steps (\<open>exec_custody\<close>), so what holds of all runs of
  this machine holds of the ledger whatever the processes do and however they are interleaved.
\<close>

definition stopped :: "budget_db \<Rightarrow> bool" where
  "stopped d = (case bd_meta d of None \<Rightarrow> False | Some r \<Rightarrow> mt_stopped r)"

definition stop_reason :: "budget_db \<Rightarrow> string option" where
  "stop_reason d = (case bd_meta d of None \<Rightarrow> None | Some r \<Rightarrow> mt_reason r)"

definition run_caps :: "budget_db \<Rightarrow> json" where
  "run_caps d = the (mt_role_caps (the (bd_meta d)))"

definition run_max :: "budget_db \<Rightarrow> int" where
  "run_max d = the (as_int (mt_max (the (bd_meta d))))"

definition observed :: "string \<Rightarrow> string \<Rightarrow> budget_db \<Rightarrow> budget_db \<Rightarrow> bool" where
  "observed now obs d d1 \<longleftrightarrow>
     (if obs \<in> set (map fst (bd_observations d)) then d1 = d
      else int (length (bd_observations d)) < run_max d \<and> d1 = d\<lparr>bd_observations := bd_observations d @ [(obs, now)]\<rparr>)"

definition fenced_for :: "string \<Rightarrow> budget_db \<Rightarrow> bool" where
  "fenced_for obs d \<longleftrightarrow> list_all (\<lambda>r. fr_observation r = obs) (filter fr_open (bd_fences d))"

definition find_attempt :: "string \<Rightarrow> budget_db \<Rightarrow> attempt_row option" where
  "find_attempt i d = find (\<lambda>r. at_id r = i) (bd_attempts d)"

definition new_fence :: "string \<Rightarrow> string \<Rightarrow> string \<Rightarrow> fence_row" where
  "new_fence obs i now = \<lparr>fr_observation = obs, fr_fence = i, fr_open = True, fr_opened = now, fr_closed = None,
     fr_summary = None\<rparr>"

definition finish_row :: "string \<Rightarrow> string \<Rightarrow> json \<Rightarrow> attempt_row \<Rightarrow> attempt_row" where
  "finish_row now x md r = r\<lparr>at_state := ''TERMINAL'', at_completed := Some now, at_outcome := Some x, at_metadata := md\<rparr>"

definition finish_call_row :: "string \<Rightarrow> string \<Rightarrow> json \<Rightarrow> mcp_row \<Rightarrow> mcp_row" where
  "finish_call_row now x md r = r\<lparr>mc_state := ''TERMINAL'', mc_completed := Some now, mc_outcome := Some x, mc_metadata := md\<rparr>"

inductive custody_step :: "budget_db \<Rightarrow> budget_db \<Rightarrow> bool" where
  halted: "custody_step d (halt reason d)"
| opened: "\<lbrakk>\<not> stopped d; filter fr_open (bd_fences d) = []; \<not> pending d; observed now obs d d1;
    obs \<notin> set (map fr_observation (bd_fences d)); i \<notin> set (map fr_fence (bd_fences d))\<rbrakk>
    \<Longrightarrow> custody_step d (d1\<lparr>bd_fences := bd_fences d1 @ [new_fence obs i now]\<rparr>)"
| closed: "\<lbrakk>\<not> stopped d; \<not> unsafe d\<rbrakk> \<Longrightarrow> custody_step d (close_fence now summary obs d)"
| reserved: "\<lbrakk>\<not> stopped d; fenced_for (rv_observation_id v) d; rv_role v \<in> set ROLES;
    rv_retry_count v = 0 \<or> rv_retry_count v = 1;
    retry_check (prior_attempts (rv_observation_id v) (rv_role v) d) (rv_retry_count v)
      (rv_model v) (rv_request v) (rv_prompt v) (rv_schema v) = Inr ();
    role_count (rv_role v) d < role_cap (run_caps d) (rv_role v); observed now (rv_observation_id v) d d1;
    \<not> list_ex (attempt_clashes (reserved_row v)) (bd_attempts d)\<rbrakk>
    \<Longrightarrow> custody_step d (d1\<lparr>bd_attempts := bd_attempts d1 @ [reserved_row v]\<rparr>)"
| started: "\<lbrakk>\<not> stopped d; find_attempt i d = Some r; at_state r = ''RESERVED''; fenced_for (rv_observation_id (at_reservation r)) d\<rbrakk>
    \<Longrightarrow> custody_step d (update_attempt i (\<lambda>r. r\<lparr>at_state := ''IN_FLIGHT'', at_started := Some now\<rparr>) d)"
| finished: "\<lbrakk>find_attempt i d = Some r; attempt_pending r; x \<in> set OUTCOMES; d1 = update_attempt i (finish_row now x md) d\<rbrakk>
    \<Longrightarrow> custody_step d (if stop_outcome x then halt x d1 else d1)"
| call_reserved: "\<lbrakk>\<not> stopped d; fenced_for (mc_observation r) d; call_of (mc_observation r) d = None; mc_state r = ''RESERVED'';
    mc_outcome r = None; observed now (mc_observation r) d d1\<rbrakk>
    \<Longrightarrow> custody_step d (d1\<lparr>bd_mcp := bd_mcp d1 @ [r]\<rparr>)"
| call_admitted: "\<lbrakk>\<not> stopped d; call_of obs d = Some r; mc_state r = ''RESERVED''; fenced_for obs d\<rbrakk>
    \<Longrightarrow> custody_step d (update_call obs (\<lambda>r. r\<lparr>mc_state := ''ADMITTED'', mc_admitted := Some now\<rparr>) d)"
| call_finished: "\<lbrakk>call_of obs d = Some r; mcp_pending r; d1 = update_call obs (finish_call_row now x md) d\<rbrakk>
    \<Longrightarrow> custody_step d (if x = ''CLIENT_RECEIPT_UNKNOWN'' then halt x d1 else d1)"

section \<open>Every operation is a custody step\<close>

lemma need_Inr [simp]: "need b x = Inr u \<longleftrightarrow> b" and need_Inl [simp]: "need b x = Inl y \<longleftrightarrow> \<not> b \<and> y = x"
  by (auto simp: need_def)

lemma own_settingsD:
  assumes "own_settings b d = Inr s"
  shows "st_caps s = run_caps d" "st_max s = run_max d" "st_stopped s = stopped d"
    "limits_error (run_caps d) (JInt (run_max d)) = None"
  using assms
  by (auto simp: own_settings_def budget_settings_def run_caps_def run_max_def stopped_def limits_error_def Let_def
      split: option.splits if_splits json.splits)

lemma connection_Inr: "connection e f k = Inr a \<longleftrightarrow> (\<exists>d. f = Store d \<and> be_file e \<and> be_opens e \<and> be_sql e \<and> k d = Inr a)"
  by (cases f) (auto simp: connection_def)

lemma budget_transaction_cases:
  obtains (kept) x where "budget_transaction e b f body = (f, Inl x)"
  | (made) d s d' r where "f = Store d" "own_settings b d = Inr s" "body s d = Inr (d', r)"
      "budget_transaction e b f body = (Store d', r)" "be_commit e = Committed"
  | (lost) d s d' r x where "f = Store d" "own_settings b d = Inr s" "body s d = Inr (d', r)"
      "budget_transaction e b f body = (Store d', Inl x)"
proof (cases "connection e f (\<lambda>d. rbind (own_settings b d) (\<lambda>s. body s d))")
  case (Inl x)
  then show thesis using kept by (simp add: budget_transaction_def)
next
  case (Inr p)
  then obtain d s d' r where "f = Store d" "own_settings b d = Inr s" "body s d = Inr (d', r)" "p = (d', r)"
    by (cases p) (auto simp: connection_Inr rbind_Inr_iff)
  then show thesis using Inr kept made lost
    by (cases "be_commit e") (auto simp: budget_transaction_def)
qed

lemma transaction_custody:
  assumes "\<And>s d d' r. own_settings b d = Inr s \<Longrightarrow> body s d = Inr (d', r) \<Longrightarrow> d' = d \<or> custody_step d d'"
  shows "fst (budget_transaction e b f body) = f \<or>
    (\<exists>d d'. f = Store d \<and> fst (budget_transaction e b f body) = Store d' \<and> custody_step d d')"
  using assms by (cases rule: budget_transaction_cases [of e b f body]) auto

lemma reserve_observation_Inr:
  assumes "reserve_observation e obs s k d = Inr (d', r)" "st_max s = run_max d"
  obtains (halts) c where "d' = halt c d"
  | (goes) d1 where "observed (be_now e) obs d d1" "k d1 = Inr (d', r)"
  using assms by (auto simp: reserve_observation_def observed_def halt_raise_def split: if_splits)

lemma fence_access_ok: "fence_access active obs rs = Inr u \<longleftrightarrow>
    list_all (\<lambda>r. active = Some (fr_observation r, fr_fence r) \<and> obs = fr_observation r) rs"
  by (induction rs) (auto split: if_splits)

lemma fence_access_fenced: "assert_fence_access b d obs = Inr u \<Longrightarrow> fenced_for obs d"
  by (auto simp: assert_fence_access_def fence_access_ok fenced_for_def list_all_iff)

lemma fence_access_none:
  "assert_fence_access b d obs = Inr u \<Longrightarrow> bu_active b = None \<Longrightarrow> filter fr_open (bd_fences d) = []"
  by (cases "filter fr_open (bd_fences d)") (auto simp: assert_fence_access_def fence_access_ok)

lemma running_ok [simp]: "running s = Inr u \<longleftrightarrow> \<not> st_stopped s"
  by (auto simp: running_def need_def)

lemma begin_custody:
  assumes "own_settings b d = Inr s" "bu_active b = None" "begin_new e b obs s d = Inr (d', r)"
  shows "custody_step d d'"
proof -
  note st = own_settingsD [OF assms(1)]
  have g: "\<not> stopped d" "filter fr_open (bd_fences d) = []" "\<not> pending d"
    "reserve_observation e obs s (open_fence e obs) d = Inr (d', r)"
    using assms(3) fence_access_none [OF _ assms(2)] by (auto simp: begin_new_def rbind_Inr_iff st)
  from g(4) st(2) show ?thesis
  proof (cases rule: reserve_observation_Inr)
    case (halts c)
    then show ?thesis by (simp add: custody_step.halted)
  next
    case (goes d1)
    have "bd_fences d1 = bd_fences d" using goes(1) by (auto simp: observed_def split: if_splits)
    with goes have "d' = d1\<lparr>bd_fences := bd_fences d1 @ [new_fence obs (be_id e) (be_now e)]\<rparr>"
      "obs \<notin> set (map fr_observation (bd_fences d))" "be_id e \<notin> set (map fr_fence (bd_fences d))"
      by (auto simp: open_fence_def new_fence_def split: if_splits)
    then show ?thesis using custody_step.opened [OF g(1-3) goes(1)] by simp
  qed
qed

lemma close_custody:
  assumes "own_settings b d = Inr s" "close_body e b obs summary s d = Inr (d', r)"
  shows "custody_step d d'"
  using assms(2) own_settingsD(3) [OF assms(1)]
  by (auto simp: close_body_def rbind_Inr_iff intro: custody_step.closed)

lemma reserve_custody:
  assumes "own_settings b d = Inr s" "reserve_checks q = Inr ()" "reserve_body e b q s d = Inr (d', r)"
  shows "custody_step d d'"
proof -
  note st = own_settingsD [OF assms(1)]
  define v where "v = make_reservation e (bu_run_id b) q"
  have v: "rv_observation_id v = rq_observation q" "rv_role v = rq_role q" "rv_retry_count v = rq_retry q"
    "rv_model v = rq_model q" "rv_request v = rq_request q" "rv_prompt v = rq_prompt q" "rv_schema v = rq_schema q"
    by (simp_all add: v_def make_reservation_def)
  have c: "rv_role v \<in> set ROLES" "rv_retry_count v = 0 \<or> rv_retry_count v = 1"
    using assms(2) by (auto simp: reserve_checks_def rbind_Inr_iff v)
  have g: "\<not> stopped d" "fenced_for (rv_observation_id v) d"
    "retry_check (prior_attempts (rv_observation_id v) (rv_role v) d) (rv_retry_count v)
      (rv_model v) (rv_request v) (rv_prompt v) (rv_schema v) = Inr ()"
    and k: "(if role_cap (run_caps d) (rv_role v) \<le> role_count (rv_role v) d then
       halt_raise ''ROLE_BUDGET_EXHAUSTED'' (BudgetExceeded ''ROLE_BUDGET_EXHAUSTED'') d
     else reserve_observation e (rv_observation_id v) s (insert_attempt v) d) = Inr (d', r)"
    using assms(3) by (auto simp: reserve_body_def rbind_Inr_iff st v v_def [symmetric] dest: fence_access_fenced)
  show ?thesis
  proof (cases "role_cap (run_caps d) (rv_role v) \<le> role_count (rv_role v) d")
    case True
    then show ?thesis using k by (auto simp: halt_raise_def intro: custody_step.halted)
  next
    case False
    then have "reserve_observation e (rv_observation_id v) s (insert_attempt v) d = Inr (d', r)" using k by simp
    from this st(2) show ?thesis
    proof (cases rule: reserve_observation_Inr)
      case (halts c)
      then show ?thesis by (simp add: custody_step.halted)
    next
      case (goes d1)
      have "bd_attempts d1 = bd_attempts d" using goes(1) by (auto simp: observed_def split: if_splits)
      with goes have "d' = d1\<lparr>bd_attempts := bd_attempts d1 @ [reserved_row v]\<rparr>"
        "\<not> list_ex (attempt_clashes (reserved_row v)) (bd_attempts d)"
        by (auto simp: insert_attempt_def split: if_splits)
      then show ?thesis using custody_step.reserved [OF g(1,2) c g(3) _ goes(1)] False by simp
    qed
  qed
qed

lemma bound_row_Inr: "bound_row v d = Inr r \<longleftrightarrow> find_attempt (rv_attempt_id v) d = Some r \<and> at_reservation r = v"
  by (auto simp: bound_row_def find_attempt_def split: option.splits)

lemma start_custody:
  assumes "own_settings b d = Inr s" "start_body e b v s d = Inr (d', r)"
  shows "custody_step d d'"
  using assms(2) own_settingsD(3) [OF assms(1)]
  by (auto simp: start_body_def rbind_Inr_iff bound_row_Inr dest: fence_access_fenced intro!: custody_step.started)

lemma finish_custody:
  assumes "x \<in> set OUTCOMES" "finish_body e v x md s d = Inr (d', r)"
  shows "custody_step d d'"
proof -
  obtain q where q: "find_attempt (rv_attempt_id v) d = Some q" "attempt_pending q"
    "d' = (let d1 = update_attempt (rv_attempt_id v) (finish_row (be_now e) x (jsort md)) d in if stop_outcome x then halt x d1 else d1)"
    using assms(2) by (auto simp: finish_body_def rbind_Inr_iff bound_row_Inr Let_def finish_row_def [abs_def])
  then show ?thesis using custody_step.finished [OF q(1,2) assms(1)] by (simp add: Let_def)
qed

lemma reserve_mcp_custody:
  assumes "own_settings b d = Inr s" "reserve_mcp_body e b obs p s d = Inr (d', r)"
  shows "custody_step d d'"
proof -
  note st = own_settingsD [OF assms(1)]
  define c where "c = reserved_call e obs p"
  have c: "mc_observation c = obs" "mc_state c = ''RESERVED''" "mc_outcome c = None" by (simp_all add: c_def reserved_call_def)
  have g: "\<not> stopped d" "fenced_for obs d" "call_of obs d = None"
    "reserve_observation e obs s (insert_call c) d = Inr (d', r)"
    using assms(2) by (auto simp: reserve_mcp_body_def rbind_Inr_iff st c_def dest: fence_access_fenced)
  from g(4) st(2) show ?thesis
  proof (cases rule: reserve_observation_Inr)
    case (halts c)
    then show ?thesis by (simp add: custody_step.halted)
  next
    case (goes d1)
    then have "d' = d1\<lparr>bd_mcp := bd_mcp d1 @ [c]\<rparr>" by (auto simp: insert_call_def split: if_splits)
    then show ?thesis using custody_step.call_reserved [of d c, unfolded c(1), OF g(1-3) c(2,3) goes(1)] by simp
  qed
qed

lemma admit_mcp_custody:
  assumes "own_settings b d = Inr s" "admit_mcp_body e b obs p s d = Inr (d', r)"
  shows "custody_step d d'"
  using assms(2) own_settingsD(3) [OF assms(1)]
  by (auto simp: admit_mcp_body_def rbind_Inr_iff split: option.splits dest: fence_access_fenced
      intro!: custody_step.call_admitted)

lemma finish_mcp_custody:
  assumes "finish_mcp_body e obs x md s d = Inr (d', r)"
  shows "custody_step d d'"
proof -
  obtain q where q: "call_of obs d = Some q" "mcp_pending q"
    "d' = (let d1 = update_call obs (finish_call_row (be_now e) x (jsort md)) d in if x = ''CLIENT_RECEIPT_UNKNOWN'' then halt x d1 else d1)"
    using assms by (auto simp: finish_mcp_body_def rbind_Inr_iff Let_def finish_call_row_def [abs_def] split: option.splits)
  then show ?thesis using custody_step.call_finished [OF q(1,2)] by (simp add: Let_def)
qed

lemma ensure_custody: "ensure_body b s d = Inr (d', r) \<Longrightarrow> d' = d \<or> custody_step d d'"
  by (auto simp: ensure_body_def rbind_Inr_iff halt_raise_def split: if_splits intro: custody_step.halted)

definition kept_or_stepped :: "budget_file \<Rightarrow> budget_file \<Rightarrow> bool" where
  "kept_or_stepped f g \<longleftrightarrow> g = f \<or> (\<exists>d d'. f = Store d \<and> g = Store d' \<and> custody_step d d')"

lemma after_checks_fst: "fst (after_checks f g k) = (if is_ok g then fst k else f)"
  by (cases g) (simp_all add: after_checks_def)

lemma kept_transaction:
  assumes "\<And>s d d' r. own_settings b d = Inr s \<Longrightarrow> body s d = Inr (d', r) \<Longrightarrow> d' = d \<or> custody_step d d'"
  shows "kept_or_stepped f (fst (budget_transaction e b f body))"
  using transaction_custody [of b body e f] assms by (auto simp: kept_or_stepped_def)

lemma kept_checks: "(g = Inr () \<Longrightarrow> kept_or_stepped f (fst k)) \<Longrightarrow> kept_or_stepped f (fst (after_checks f g k))"
  by (cases g) (auto simp: after_checks_def kept_or_stepped_def)

lemma exec_custody: "kept_or_stepped f (snd (fst (budget_exec e x b f)))"
proof (cases x)
  case (Begin obs)
  show ?thesis
  proof (cases "bu_active b")
    case None
    have "kept_or_stepped f (fst (budget_transaction e b f (begin_new e b obs)))"
      by (rule kept_transaction) (use begin_custody [OF _ None] in blast)
    then show ?thesis using Begin None
      by (cases "budget_transaction e b f (begin_new e b obs)"; cases "snd (budget_transaction e b f (begin_new e b obs))")
         (auto simp: begin_observation_def on_self_def kept_or_stepped_def)
  next
    case (Some a)
    then show ?thesis using Begin by (cases a) (simp add: begin_observation_def on_self_def kept_or_stepped_def)
  qed
next
  case (Join obs i)
  then show ?thesis by (simp add: join_observation_def on_self_def kept_or_stepped_def split: sum.split)
next
  case (CloseSafe obs summary)
  have "kept_or_stepped f (fst (after_checks f (hash_check summary) (budget_transaction e b f (close_body e b obs summary))))"
    by (intro kept_checks kept_transaction) (use close_custody in blast)
  then show ?thesis using CloseSafe
    by (simp add: close_safe_observation_def on_self_def split_beta split: sum.split prod.split)
next
  case (Reserve q)
  have "kept_or_stepped f (fst (reserve e b q f))"
    unfolding reserve_def by (intro kept_checks kept_transaction) (use reserve_custody in blast)
  then show ?thesis using Reserve by (simp add: on_file_def)
next
  case (StartAttempt v)
  have "kept_or_stepped f (fst (start_attempt e b v f))"
    unfolding start_attempt_def by (intro kept_transaction) (use start_custody in blast)
  then show ?thesis using StartAttempt by (simp add: on_file_def)
next
  case (FinishAttempt v y md)
  have "kept_or_stepped f (fst (finish_attempt e b v y md f))"
  proof (cases "rbind (need (y \<in> set OUTCOMES) (BudgetValueError ''UNSUPPORTED_ATTEMPT_OUTCOME'')) (\<lambda>_. metadata md)")
    case (Inr safe)
    then have "y \<in> set OUTCOMES" by (auto simp: rbind_Inr_iff)
    then show ?thesis unfolding finish_attempt_def Inr by simp (intro kept_transaction, use finish_custody in blast)
  qed (simp add: finish_attempt_def kept_or_stepped_def)
  then show ?thesis using FinishAttempt by (simp add: on_file_def)
next
  case (StopRun reason)
  have "kept_or_stepped f (fst (stop_run e b reason f))"
    unfolding stop_run_def by (intro kept_checks kept_transaction) (auto intro: custody_step.halted)
  then show ?thesis using StopRun by (simp add: on_file_def)
next
  case (ReserveMcp obs p)
  have "kept_or_stepped f (fst (reserve_mcp e b obs p f))"
    unfolding reserve_mcp_def by (intro kept_checks kept_transaction) (use reserve_mcp_custody in blast)
  then show ?thesis using ReserveMcp by (simp add: on_file_def)
next
  case (AdmitMcp obs p)
  have "kept_or_stepped f (fst (admit_mcp e b obs p f))"
    unfolding admit_mcp_def by (intro kept_checks kept_transaction) (use admit_mcp_custody in blast)
  then show ?thesis using AdmitMcp by (simp add: on_file_def)
next
  case (FinishMcp obs y md)
  have "kept_or_stepped f (fst (budget_transaction e b f (finish_mcp_body e obs y safe)))" for safe
    by (intro kept_transaction) (use finish_mcp_custody in blast)
  then have "kept_or_stepped f (fst (finish_mcp e b obs y md f))"
    by (simp add: finish_mcp_def kept_or_stepped_def split: sum.split)
  then show ?thesis using FinishMcp by (simp add: on_file_def)
next
  case EnsureRecoverable
  have "kept_or_stepped f (fst (ensure_recoverable e b f))"
    unfolding ensure_recoverable_def by (intro kept_transaction) (use ensure_custody in blast)
  then show ?thesis using EnsureRecoverable by (simp add: on_file_def)
qed

lemma step_custody: "kept_or_stepped (bw_file w) (bw_file (fst (budget_step x w)))"
proof (cases x)
  case (Do i e y)
  show ?thesis
  proof (cases "bw_procs w i")
    case (Some b)
    then show ?thesis using exec_custody [of "bw_file w" e y b] by (auto simp: Do split: prod.split)
  qed (simp add: Do kept_or_stepped_def)
qed (simp add: kept_or_stepped_def)

section \<open>What the machine keeps\<close>

definition attempt_slot :: "attempt_row \<Rightarrow> string \<times> string \<times> int" where
  "attempt_slot r = (at_observation r, at_role r, at_retry r)"

definition custody_ok :: "budget_db \<Rightarrow> bool" where
  "custody_ok d \<longleftrightarrow>
     list_all (\<lambda>role. role_count role d \<le> role_cap (run_caps d) role) ROLES
     \<and> distinct (map fst (bd_observations d)) \<and> int (length (bd_observations d)) \<le> run_max d
     \<and> distinct (map at_id (bd_attempts d)) \<and> distinct (map attempt_slot (bd_attempts d))
     \<and> set (map attempt_slot (bd_attempts d)) \<subseteq> set (map fst (bd_observations d)) \<times> set ROLES \<times> {0, 1}
     \<and> distinct (map mc_observation (bd_mcp d))
     \<and> set (map mc_observation (bd_mcp d)) \<subseteq> set (map fst (bd_observations d))
     \<and> length (filter fr_open (bd_fences d)) \<le> 1"

definition stops_ok :: "budget_db \<Rightarrow> bool" where
  "stops_ok d \<longleftrightarrow> stopped d
     \<or> list_all (\<lambda>r. case at_outcome r of None \<Rightarrow> True | Some x \<Rightarrow> \<not> stop_outcome x) (bd_attempts d)
       \<and> list_all (\<lambda>r. mc_outcome r \<noteq> Some ''CLIENT_RECEIPT_UNKNOWN'') (bd_mcp d)"

lemma halt_frame [simp]:
  "bd_observations (halt c d) = bd_observations d" "bd_attempts (halt c d) = bd_attempts d"
  "bd_mcp (halt c d) = bd_mcp d" "bd_fences (halt c d) = bd_fences d"
  "run_caps (halt c d) = run_caps d" "run_max (halt c d) = run_max d"
  by (simp_all add: halt_def run_caps_def run_max_def) (cases "bd_meta d"; simp)+

lemma stopped_halt [simp]: "stopped (halt c d) = (bd_meta d \<noteq> None)" "stopped d \<Longrightarrow> stopped (halt c d)"
  by (auto simp: stopped_def halt_def split: option.splits)

lemma stopped_meta [simp]: "stopped d \<Longrightarrow> \<exists>r. bd_meta d = Some r"
  by (auto simp: stopped_def split: option.splits)

lemma update_attempt_frame [simp]:
  "bd_meta (update_attempt i f d) = bd_meta d" "bd_observations (update_attempt i f d) = bd_observations d"
  "bd_mcp (update_attempt i f d) = bd_mcp d" "bd_fences (update_attempt i f d) = bd_fences d"
  by (simp_all add: update_attempt_def)

lemma update_call_frame [simp]:
  "bd_meta (update_call i f d) = bd_meta d" "bd_observations (update_call i f d) = bd_observations d"
  "bd_attempts (update_call i f d) = bd_attempts d" "bd_fences (update_call i f d) = bd_fences d"
  by (simp_all add: update_call_def)

lemma update_attempt_keys:
  assumes "\<And>r. at_id (f r) = at_id r" "\<And>r. attempt_slot (f r) = attempt_slot r"
  shows "map at_id (bd_attempts (update_attempt i f d)) = map at_id (bd_attempts d)"
    and "map attempt_slot (bd_attempts (update_attempt i f d)) = map attempt_slot (bd_attempts d)"
  using assms by (auto simp: update_attempt_def)

lemma update_call_keys:
  assumes "\<And>r. mc_observation (f r) = mc_observation r"
  shows "map mc_observation (bd_mcp (update_call i f d)) = map mc_observation (bd_mcp d)"
  using assms by (auto simp: update_call_def)

lemma role_count_slots:
  "role_count role d = int (length (filter (\<lambda>(x, y, z). y = role) (map attempt_slot (bd_attempts d))))"
  by (simp add: role_count_def attempt_slot_def filter_map comp_def)

lemma close_fence_frame [simp]:
  "bd_meta (close_fence t m obs d) = bd_meta d" "bd_observations (close_fence t m obs d) = bd_observations d"
  "bd_attempts (close_fence t m obs d) = bd_attempts d" "bd_mcp (close_fence t m obs d) = bd_mcp d"
  by (simp_all add: close_fence_def)

lemma close_fence_open:
  "filter fr_open (bd_fences (close_fence t m obs d)) =
     filter (\<lambda>r. fr_open r \<and> fr_observation r \<noteq> obs) (bd_fences d)"
proof -
  have "filter fr_open (map (\<lambda>r. if fr_observation r = obs \<and> fr_open r
      then r\<lparr>fr_open := False, fr_closed := Some t, fr_summary := Some m\<rparr> else r) xs)
    = filter (\<lambda>r. fr_open r \<and> fr_observation r \<noteq> obs) xs" for xs
    by (induction xs) auto
  then show ?thesis by (simp add: close_fence_def)
qed

lemma close_fence_open_le:
  "length (filter fr_open (bd_fences (close_fence t m obs d))) \<le> length (filter fr_open (bd_fences d))"
  proof -
  have "length (filter (\<lambda>r. fr_open r \<and> fr_observation r \<noteq> obs) xs) \<le> length (filter fr_open xs)" for xs
    by (induction xs) auto
  then show ?thesis by (simp add: close_fence_open)
qed

lemma slot_simps [simp]:
  "at_id (r\<lparr>at_state := y, at_started := t\<rparr>) = at_id r" "attempt_slot (r\<lparr>at_state := y, at_started := t\<rparr>) = attempt_slot r"
  "at_id (finish_row now x md r) = at_id r" "attempt_slot (finish_row now x md r) = attempt_slot r"
  "mc_observation (finish_call_row now x md c) = mc_observation c"
  by (simp_all add: attempt_slot_def finish_row_def finish_call_row_def)

lemma meta_frame:
  "bd_meta d' = bd_meta d \<Longrightarrow> run_caps d' = run_caps d" "bd_meta d' = bd_meta d \<Longrightarrow> run_max d' = run_max d"
  "bd_meta d' = bd_meta d \<Longrightarrow> stopped d' = stopped d" "bd_meta d' = bd_meta d \<Longrightarrow> stop_reason d' = stop_reason d"
  by (simp_all add: run_caps_def run_max_def stopped_def stop_reason_def)

lemma update_meta [simp]:
  "run_caps (update_attempt i f d) = run_caps d" "run_max (update_attempt i f d) = run_max d"
  "stopped (update_attempt i f d) = stopped d" "stop_reason (update_attempt i f d) = stop_reason d"
  "run_caps (update_call i g d) = run_caps d" "run_max (update_call i g d) = run_max d"
  "stopped (update_call i g d) = stopped d" "stop_reason (update_call i g d) = stop_reason d"
  "run_caps (close_fence t m obs d) = run_caps d" "run_max (close_fence t m obs d) = run_max d"
  "stopped (close_fence t m obs d) = stopped d" "stop_reason (close_fence t m obs d) = stop_reason d"
  "run_caps (d\<lparr>bd_observations := x1\<rparr>) = run_caps d" "run_max (d\<lparr>bd_observations := x1\<rparr>) = run_max d" "stopped (d\<lparr>bd_observations := x1\<rparr>) = stopped d" "stop_reason (d\<lparr>bd_observations := x1\<rparr>) = stop_reason d"
  "run_caps (d\<lparr>bd_attempts := x2\<rparr>) = run_caps d" "run_max (d\<lparr>bd_attempts := x2\<rparr>) = run_max d" "stopped (d\<lparr>bd_attempts := x2\<rparr>) = stopped d" "stop_reason (d\<lparr>bd_attempts := x2\<rparr>) = stop_reason d"
  "run_caps (d\<lparr>bd_mcp := x3\<rparr>) = run_caps d" "run_max (d\<lparr>bd_mcp := x3\<rparr>) = run_max d" "stopped (d\<lparr>bd_mcp := x3\<rparr>) = stopped d" "stop_reason (d\<lparr>bd_mcp := x3\<rparr>) = stop_reason d"
  "run_caps (d\<lparr>bd_fences := x4\<rparr>) = run_caps d" "run_max (d\<lparr>bd_fences := x4\<rparr>) = run_max d" "stopped (d\<lparr>bd_fences := x4\<rparr>) = stopped d" "stop_reason (d\<lparr>bd_fences := x4\<rparr>) = stop_reason d"
  by (rule meta_frame; simp)+

lemma observed_frame:
  assumes "observed now obs d d1"
  shows "bd_meta d1 = bd_meta d" "bd_attempts d1 = bd_attempts d" "bd_mcp d1 = bd_mcp d" "bd_fences d1 = bd_fences d"
    "set (map fst (bd_observations d1)) = insert obs (set (map fst (bd_observations d)))"
    "distinct (map fst (bd_observations d)) \<Longrightarrow> distinct (map fst (bd_observations d1))"
    "int (length (bd_observations d)) \<le> run_max d \<Longrightarrow> int (length (bd_observations d1)) \<le> run_max d"
  using assms by (auto simp: observed_def split: if_splits)

lemma custody_contract: "custody_step d d' \<Longrightarrow> run_caps d' = run_caps d \<and> run_max d' = run_max d"
  by (induction rule: custody_step.induct) (auto intro!: meta_frame dest: observed_frame(1))

lemma custody_ok_keys:
  assumes "custody_ok d" "bd_observations d' = bd_observations d" "run_caps d' = run_caps d" "run_max d' = run_max d"
    "map at_id (bd_attempts d') = map at_id (bd_attempts d)"
    "map attempt_slot (bd_attempts d') = map attempt_slot (bd_attempts d)"
    "map mc_observation (bd_mcp d') = map mc_observation (bd_mcp d)"
    "length (filter fr_open (bd_fences d')) \<le> length (filter fr_open (bd_fences d))"
  shows "custody_ok d'"
  using assms(1,8) unfolding custody_ok_def role_count_slots assms(2-7) by linarith

lemma custody_ok_observed:
  assumes "custody_ok d" "observed now obs d d1"
  shows "custody_ok d1"
  using assms(1) observed_frame [OF assms(2)] meta_frame(1,2) [OF observed_frame(1) [OF assms(2)]]
  unfolding custody_ok_def role_count_slots by (auto simp: subset_iff list_all_iff)

lemma custody_ok_step: "custody_step d d' \<Longrightarrow> custody_ok d \<Longrightarrow> custody_ok d'"
proof (induction rule: custody_step.induct)
  case (halted d c)
  show ?case by (rule custody_ok_keys [OF halted]) simp_all
next
  case (opened d now obs d1 i)
  note f = observed_frame [OF opened(4)]
  have "custody_ok d1" using custody_ok_observed opened by blast
  then show ?case
    unfolding custody_ok_def role_count_slots using opened(2) by (simp add: f run_caps_def run_max_def)
next
  case (closed d now summary obs)
  show ?case by (rule custody_ok_keys [OF closed(3)]) (simp_all add: close_fence_open_le)
next
  case (reserved d v now d1)
  note f = observed_frame [OF reserved(7)]
  have c1: "custody_ok d1" using custody_ok_observed reserved by blast
  let ?d = "d1\<lparr>bd_attempts := bd_attempts d1 @ [reserved_row v]\<rparr>"
  have m: "run_caps d1 = run_caps d" "run_max d1 = run_max d" by (rule meta_frame [OF f(1)])+
  have slot: "attempt_slot (reserved_row v) = (rv_observation_id v, rv_role v, rv_retry_count v)"
    by (simp add: attempt_slot_def reserved_row_def)
  have cnt: "role_count role ?d = role_count role d + (if rv_role v = role then 1 else 0)" for role
    by (simp add: role_count_def f(2) reserved_row_def)
  have new: "at_id (reserved_row v) \<notin> set (map at_id (bd_attempts d))"
    "attempt_slot (reserved_row v) \<notin> set (map attempt_slot (bd_attempts d))"
    using reserved(8) by (auto simp: list_ex_iff attempt_clashes_def attempt_slot_def)
  have "list_all (\<lambda>role. role_count role ?d \<le> role_cap (run_caps d) role) ROLES"
    using reserved(9) reserved(6) by (auto simp: custody_ok_def list_all_iff cnt)
  moreover have "attempt_slot (reserved_row v) \<in> set (map fst (bd_observations d1)) \<times> set ROLES \<times> {0, 1}"
    using reserved(3,4) unfolding slot f(5) by auto
  ultimately show ?case using c1 new by (auto simp: custody_ok_def m f(2))
next
  case (started d i r now)
  show ?case
    by (rule custody_ok_keys [OF started(5)]) (simp_all add: update_attempt_keys)
next
  case (finished i d r x d1 now md)
  show ?case
    by (rule custody_ok_keys [OF finished(5)]) (simp_all add: finished(4) update_attempt_keys)
next
  case (call_reserved d r now d1)
  note f = observed_frame [OF call_reserved(6)]
  have c1: "custody_ok d1" using custody_ok_observed call_reserved by blast
  have "mc_observation r \<notin> set (map mc_observation (bd_mcp d1))"
    using call_reserved(3) by (auto simp: call_of_def find_None_iff f(3))
  moreover have "mc_observation r \<in> set (map fst (bd_observations d1))" unfolding f(5) by simp
  ultimately show ?case using c1
    unfolding custody_ok_def role_count_slots by (simp add: run_caps_def run_max_def)
next
  case (call_admitted d obs r now)
  show ?case by (rule custody_ok_keys [OF call_admitted(5)]) (simp_all add: update_call_keys)
next
  case (call_finished obs d r d1 now x md)
  show ?case by (rule custody_ok_keys [OF call_finished(4)]) (simp_all add: call_finished(3) update_call_keys)
qed

lemma find_attempt_update:
  assumes "\<And>r. at_id (f r) = at_id r"
  shows "find_attempt j (update_attempt i f d) = (if j = i then map_option f (find_attempt i d) else find_attempt j d)"
proof -
  have "find (\<lambda>r. at_id r = j) (map (\<lambda>r. if at_id r = i then f r else r) xs) =
      (if j = i then map_option f (find (\<lambda>r. at_id r = i) xs) else find (\<lambda>r. at_id r = j) xs)" for xs
    by (induction xs) (auto simp: assms)
  then show ?thesis by (simp add: find_attempt_def update_attempt_def)
qed

lemma find_attempt_halt [simp]: "find_attempt i (halt c d) = find_attempt i d"
  by (simp add: find_attempt_def)

lemma call_of_update:
  assumes "\<And>r. mc_observation (f r) = mc_observation r"
  shows "call_of j (update_call i f d) = (if j = i then map_option f (call_of i d) else call_of j d)"
proof -
  have "find (\<lambda>r. mc_observation r = j) (map (\<lambda>r. if mc_observation r = i then f r else r) xs) =
      (if j = i then map_option f (find (\<lambda>r. mc_observation r = i) xs) else find (\<lambda>r. mc_observation r = j) xs)" for xs
    by (induction xs) (auto simp: assms)
  then show ?thesis by (simp add: call_of_def update_call_def)
qed

lemma call_of_halt [simp]: "call_of i (halt c d) = call_of i d"
  by (simp add: call_of_def)

text \<open>After a stop no row is added, nothing is put in flight, and the first reason stays.\<close>

lemma finish_row_state [simp]: "at_state (finish_row now x md r) = ''TERMINAL''"
  "mc_state (finish_call_row now x md c) = ''TERMINAL''"
  by (simp_all add: finish_row_def finish_call_row_def)

lemma stop_reason_halt: "stop_reason d \<noteq> None \<Longrightarrow> stop_reason (halt c d) = stop_reason d"
  by (auto simp: stop_reason_def halt_def split: option.splits)

definition stays_stopped :: "budget_db \<Rightarrow> budget_db \<Rightarrow> bool" where
  "stays_stopped d d' \<longleftrightarrow>
     stopped d' \<and> (stop_reason d \<noteq> None \<longrightarrow> stop_reason d' = stop_reason d)
     \<and> map at_id (bd_attempts d') = map at_id (bd_attempts d)
     \<and> map mc_observation (bd_mcp d') = map mc_observation (bd_mcp d) \<and> bd_fences d' = bd_fences d
     \<and> (\<forall>i r. find_attempt i d' = Some r \<and> at_state r \<noteq> ''TERMINAL'' \<longrightarrow> find_attempt i d = Some r)"

lemma custody_stopped: "custody_step d d' \<Longrightarrow> stopped d \<Longrightarrow> stays_stopped d d'"
proof (induction rule: custody_step.induct)
  case (halted d c)
  then show ?case by (simp add: stays_stopped_def stop_reason_halt)
next
  case (finished i d r x d1 now md)
  then show ?case
    by (auto simp: stays_stopped_def update_attempt_keys find_attempt_update stop_reason_halt split: if_splits)
next
  case (call_finished obs d r d1 now x md)
  then show ?case
    by (auto simp: stays_stopped_def update_call_keys stop_reason_halt find_attempt_def)
qed auto

lemma stays_stopped_trans: "stays_stopped d d1 \<Longrightarrow> stays_stopped d1 d2 \<Longrightarrow> stays_stopped d d2"
  unfolding stays_stopped_def by (metis (no_types, lifting))

lemma stays_stopped_refl: "stopped d \<Longrightarrow> stays_stopped d d"
  by (simp add: stays_stopped_def)

text \<open>A sent attempt or an admitted call is never to be sent again.\<close>

fun spent :: "budget_db \<Rightarrow> admission \<Rightarrow> bool" where
  "spent d (Sends i) = (\<exists>r. find_attempt i d = Some r \<and> at_state r \<noteq> ''RESERVED'')"
| "spent d (Calls obs) = (\<exists>r. call_of obs d = Some r \<and> mc_state r \<noteq> ''RESERVED'')"

lemma find_append: "find P (xs @ ys) = (case find P xs of Some x \<Rightarrow> Some x | None \<Rightarrow> find P ys)"
  by (induction xs) auto

lemma spent_step: "custody_step d d' \<Longrightarrow> spent d h \<Longrightarrow> spent d' h"
proof (induction rule: custody_step.induct)
  case (opened d now obs d1 i)
  then show ?case using observed_frame(2,3) [OF opened(4)] by (cases h) (auto simp: find_attempt_def call_of_def)
next
  case (reserved d v now d1)
  then show ?case using observed_frame(2,3) [OF reserved(7)] by (cases h) (auto simp: find_attempt_def call_of_def find_append)
next
  case (call_reserved d r now d1)
  then show ?case using observed_frame(2,3) [OF call_reserved(6)] by (cases h) (auto simp: find_attempt_def call_of_def find_append)
next
  case (started d i r now)
  then show ?case by (cases h) (auto simp: find_attempt_update call_of_def)
next
  case (finished i d r x d1 now md)
  then show ?case by (cases h) (auto simp: find_attempt_update call_of_def)
next
  case (call_admitted d obs r now)
  then show ?case by (cases h) (auto simp: call_of_update find_attempt_def)
next
  case (call_finished obs d r d1 now x md)
  then show ?case by (cases h) (auto simp: call_of_update find_attempt_def)
qed (cases h; auto simp: find_attempt_def call_of_def)+

definition custody_inv :: "budget_db \<Rightarrow> bool" where
  "custody_inv d \<longleftrightarrow> custody_ok d \<and> stops_ok d \<and> bd_meta d \<noteq> None"

lemma meta_kept: "custody_step d d' \<Longrightarrow> bd_meta d \<noteq> None \<Longrightarrow> bd_meta d' \<noteq> None"
  by (induction rule: custody_step.induct) (auto simp: halt_def dest: observed_frame(1) split: if_splits)

lemma stops_ok_step: "custody_step d d' \<Longrightarrow> bd_meta d \<noteq> None \<Longrightarrow> stops_ok d \<Longrightarrow> stops_ok d'"
proof (induction rule: custody_step.induct)
  case (opened d now obs d1 i)
  then show ?case using observed_frame(1-3) [OF opened(4)] meta_frame(3) [of d1 d] by (simp add: stops_ok_def)
next
  case (reserved d v now d1)
  then show ?case using observed_frame(1-3) [OF reserved(7)] meta_frame(3) [of d1 d]
    by (simp add: stops_ok_def reserved_row_def)
next
  case (call_reserved d r now d1)
  then show ?case using observed_frame(1-3) [OF call_reserved(6)] meta_frame(3) [of d1 d] by (simp add: stops_ok_def)
next
  case (started d i r now)
  then show ?case by (auto simp: stops_ok_def list_all_iff update_attempt_def)
next
  case (finished i d r x d1 now md)
  then show ?case by (auto simp: stops_ok_def list_all_iff update_attempt_def finish_row_def)
next
  case (call_admitted d obs r now)
  then show ?case by (auto simp: stops_ok_def list_all_iff update_call_def)
next
  case (call_finished obs d r d1 now x md)
  then show ?case by (auto simp: stops_ok_def list_all_iff update_call_def finish_call_row_def)
qed (auto simp: stops_ok_def)

lemma custody_inv_step [inv_intros]: "custody_step d d' \<Longrightarrow> custody_inv d \<Longrightarrow> custody_inv d'"
  using custody_ok_step stops_ok_step meta_kept unfolding custody_inv_def by blast

section \<open>Runs over one file\<close>

lemma store_step:
  assumes "bw_file w = Store d"
  obtains d' where "bw_file (fst (budget_step x w)) = Store d'" "d' = d \<or> custody_step d d'"
  using step_custody [of w x] assms that by (auto simp: kept_or_stepped_def)

lemma run_invariant:
  assumes "\<And>d d'. custody_step d d' \<Longrightarrow> P d \<Longrightarrow> P d'" "bw_file w = Store d" "P d"
  obtains d' where "bw_file (fst (run_ops budget_step ops w)) = Store d'" "P d'"
proof -
  have "\<exists>d'. bw_file (fst (run_ops budget_step ops w)) = Store d' \<and> P d'"
  proof (rule run_ops_inv [where P = "\<lambda>w. \<exists>d'. bw_file w = Store d' \<and> P d'"])
    show "\<And>x w. \<exists>d'. bw_file w = Store d' \<and> P d' \<Longrightarrow> \<exists>d'. bw_file (fst (budget_step x w)) = Store d' \<and> P d'"
      by (metis assms(1) store_step)
  qed (use assms in blast)
  then show thesis using that by blast
qed

fun recorded :: "budget_db \<Rightarrow> admission \<Rightarrow> bool" where
  "recorded d (Sends i) = (find_attempt i d \<noteq> None)"
| "recorded d (Calls obs) = (call_of obs d \<noteq> None)"

definition budget_known :: "budget_world \<Rightarrow> admission \<Rightarrow> bool" where
  "budget_known w h = (case bw_file w of Store d \<Rightarrow> recorded d h | _ \<Rightarrow> False)"

definition budget_ready :: "budget_world \<Rightarrow> admission \<Rightarrow> bool" where
  "budget_ready w h = (case bw_file w of Store d \<Rightarrow> recorded d h \<and> \<not> spent d h | _ \<Rightarrow> False)"

lemma spent_recorded: "spent d h \<Longrightarrow> recorded d h"
  by (cases h) auto

lemma known_not_ready: "budget_known w h \<and> \<not> budget_ready w h \<longleftrightarrow> (\<exists>d. bw_file w = Store d \<and> spent d h)"
  using spent_recorded by (auto simp: budget_known_def budget_ready_def split: budget_file.splits)

lemma admitted_once:
  assumes "snd (budget_step x w) = Some h"
  obtains d d' where "bw_file w = Store d" "bw_file (fst (budget_step x w)) = Store d'" "\<not> stopped d"
    "recorded d h" "\<not> spent d h" "spent d' h"
proof -
  obtain i e y b where x: "x = Do i e y" "bw_procs w i = Some b" "is_ok (snd (budget_exec e y b (bw_file w)))"
    "admission_of y = Some h" "bw_file (fst (budget_step x w)) = snd (fst (budget_exec e y b (bw_file w)))"
    using assms by (cases x) (auto split: option.splits prod.splits if_splits)
  from x(4) consider (start) v where "y = StartAttempt v" "h = Sends (rv_attempt_id v)"
    | (admit) obs p where "y = AdmitMcp obs p" "h = Calls obs"
    by (cases y) auto
  then show thesis
  proof cases
    case start
    show thesis
    proof (cases rule: budget_transaction_cases [of e b "bw_file w" "start_body e b v"])
      case (made d s d' r)
      then show thesis using x start own_settingsD(3) [OF made(2)] that [of d d']
        by (auto simp: on_file_def start_attempt_def start_body_def rbind_Inr_iff bound_row_Inr find_attempt_update)
    qed (use x start in \<open>auto simp: on_file_def start_attempt_def\<close>)
  next
    case admit
    then have ok: "is_ok (mcp_checks obs p)" using x(3)
      by (auto simp: on_file_def admit_mcp_def after_checks_def is_ok_iff split: sum.splits)
    show thesis
    proof (cases rule: budget_transaction_cases [of e b "bw_file w" "admit_mcp_body e b obs p"])
      case (made d s d' r)
      then show thesis using x admit ok own_settingsD(3) [OF made(2)] that [of d d']
        by (auto simp: on_file_def admit_mcp_def after_checks_def is_ok_iff admit_mcp_body_def rbind_Inr_iff call_of_update
            split: option.splits)
    qed (use x admit ok in \<open>auto simp: on_file_def admit_mcp_def after_checks_def is_ok_iff\<close>)
  qed
qed

interpretation admissions: single_use "\<lambda>_. True" budget_ready budget_known budget_step
proof unfold_locales
  fix w :: budget_world and x h
  show "budget_ready w h" if "snd (budget_step x w) = Some h"
    using that by (rule admitted_once) (simp add: budget_ready_def)
  show "budget_known (fst (budget_step x w)) h \<and> \<not> budget_ready (fst (budget_step x w)) h" if "snd (budget_step x w) = Some h"
    using that by (rule admitted_once) (simp add: known_not_ready)
  show "budget_known (fst (budget_step x w)) h \<and> \<not> budget_ready (fst (budget_step x w)) h"
    if "budget_known w h" "\<not> budget_ready w h"
    using that known_not_ready [of w h] known_not_ready [of "fst (budget_step x w)" h]
    by (metis spent_step store_step)
qed simp

section \<open>The properties of the ledger\<close>

lemma cap_ok_iff: "cap_ok v \<longleftrightarrow> (\<exists>i. v = Some (JInt i) \<and> 0 \<le> i \<and> i \<le> 12)"
  by (auto simp: cap_ok_def split: option.splits json.splits)

lemma limits_ok:
  assumes "limits_error caps (JInt m) = None"
  shows "1 \<le> m" "m \<le> 6" "role \<in> set ROLES \<Longrightarrow> 0 \<le> role_cap caps role \<and> role_cap caps role \<le> 12"
  using assms by (auto simp: limits_error_def list_all_iff cap_ok_iff role_cap_def jget_or_def split: if_splits)

lemma initial_inv:
  assumes "limits_error caps (JInt m) = None"
  shows "custody_inv (initial_db run_id caps m)" "run_caps (initial_db run_id caps m) = caps"
    "run_max (initial_db run_id caps m) = m" "\<not> stopped (initial_db run_id caps m)"
proof -
  have "0 \<le> role_cap caps role" if "role \<in> set ROLES" for role
    using limits_ok(3) [OF assms that] by simp
  then show "custody_inv (initial_db run_id caps m)"
    using limits_ok(1) [OF assms] by (simp add: custody_inv_def custody_ok_def stops_ok_def initial_db_def run_caps_def
        run_max_def role_count_def list_all_iff)
qed (simp_all add: initial_db_def run_caps_def run_max_def stopped_def)

lemma created:
  assumes "fst (budget_create e p run_id (Some caps) m Missing) = Store d"
  shows "d = initial_db run_id (jsort caps) m" "limits_error (jsort caps) (JInt m) = None"
proof -
  have "d = initial_db run_id (jsort caps) m \<and> limits_error caps (JInt m) = None"
    using assms by (auto simp: budget_create_def after_checks_def rbind_Inr_iff Let_def split: sum.splits if_splits option.splits)
  moreover have "limits_error (jsort caps) (JInt m) = limits_error caps (JInt m)"
  proof -
    have "cap_ok (jget r (jsort caps)) = cap_ok (jget r caps)" for r
      by (cases "jget r caps"; cases "the (jget r caps)") (simp_all add: jget_jsort cap_ok_def)
    moreover have "same_keys (jsort caps) ROLES = same_keys caps ROLES"
      by (cases caps) (auto simp: same_keys_def image_image split_beta)
    ultimately show ?thesis by (simp add: limits_error_def)
  qed
  ultimately show "d = initial_db run_id (jsort caps) m" "limits_error (jsort caps) (JInt m) = None" by simp_all
qed

lemma role_cap_jsort: "limits_error caps (JInt m) = None \<Longrightarrow> role \<in> set ROLES \<Longrightarrow> role_cap (jsort caps) role = role_cap caps role"
  by (auto simp: limits_error_def list_all_iff cap_ok_iff role_cap_def jget_or_def jget_jsort split: if_splits)

lemma create_limits: "fst (budget_create e p run_id (Some caps) m Missing) = Store d \<Longrightarrow> limits_error caps (JInt m) = None"
  by (auto simp: budget_create_def after_checks_def rbind_Inr_iff Let_def split: sum.splits if_splits option.splits)

lemma created_run:
  assumes "fst (budget_create e p run_id (Some caps) m Missing) = Store d0" "bw_file w = Store d0"
  obtains d where "bw_file (fst (run_ops budget_step ops w)) = Store d" "custody_inv d"
    "run_caps d = jsort caps" "run_max d = m"
proof -
  note c = created [OF assms(1)]
  let ?P = "\<lambda>d. custody_inv d \<and> run_caps d = jsort caps \<and> run_max d = m"
  have "?P d0" using initial_inv [OF c(2)] c(1) by simp
  then show thesis
    using that run_invariant [of ?P w d0 ops] custody_inv_step custody_contract assms(2) by metis
qed

lemma count_roles:
  assumes "set (map attempt_slot (bd_attempts d)) \<subseteq> A \<times> set ROLES \<times> {0, 1}"
  shows "int (length (bd_attempts d)) = role_count ''planner'' d + role_count ''judge'' d"
proof -
  have "list_all (\<lambda>r. at_role r = ''planner'' \<or> at_role r = ''judge'') xs \<Longrightarrow>
    length xs = length (filter (\<lambda>r. at_role r = ''planner'') xs) + length (filter (\<lambda>r. at_role r = ''judge'') xs)" for xs
    by (induction xs) auto
  moreover have "list_all (\<lambda>r. at_role r = ''planner'' \<or> at_role r = ''judge'') (bd_attempts d)"
    using assms by (auto simp: list_all_iff attempt_slot_def ROLES_def)
  ultimately have "length (bd_attempts d) = length (filter (\<lambda>r. at_role r = ''planner'') (bd_attempts d))
      + length (filter (\<lambda>r. at_role r = ''judge'') (bd_attempts d))" by blast
  then show ?thesis unfolding role_count_def by linarith
qed

lemma subset_length: "distinct xs \<Longrightarrow> set xs \<subseteq> set ys \<Longrightarrow> length xs \<le> length ys"
  by (metis card_length card_mono distinct_card finite_set le_trans)

text \<open>
  C22. The limits of a run hold whatever its processes do. In the file of a created run, after any
  interleaving of any operations of any processes, with failures, lost commits and colliding identifiers,
  each role has at most as many attempts as its cap, there are at most as many observations and MCP calls
  as the observation cap, no observation has a role twice at one retry index or two calls, and at most one
  fence is open.
\<close>

theorem attempt_budget_never_exceeded:
  assumes "fst (budget_create e p run_id (Some caps) m Missing) = Store d0" "bw_file w = Store d0"
    and "bw_file (fst (run_ops budget_step ops w)) = Store d"
  shows "role_count ''planner'' d \<le> role_cap caps ''planner'' \<and> role_count ''judge'' d \<le> role_cap caps ''judge''
    \<and> int (length (bd_attempts d)) \<le> role_cap caps ''planner'' + role_cap caps ''judge''
    \<and> int (length (bd_observations d)) \<le> m \<and> int (length (bd_mcp d)) \<le> m
    \<and> distinct (map attempt_slot (bd_attempts d)) \<and> distinct (map mc_observation (bd_mcp d))
    \<and> length (filter fr_open (bd_fences d)) \<le> 1"
proof -
  have i: "custody_ok d" "run_caps d = jsort caps" "run_max d = m"
    using created_run [OF assms(1,2), of ops] assms(3) by (auto simp: custody_inv_def)
  note lim = create_limits [OF assms(1)]
  have slots: "set (map attempt_slot (bd_attempts d)) \<subseteq> set (map fst (bd_observations d)) \<times> set ROLES \<times> {0, 1}"
    and calls: "distinct (map mc_observation (bd_mcp d))" "set (map mc_observation (bd_mcp d)) \<subseteq> set (map fst (bd_observations d))"
    using i(1) unfolding custody_ok_def by blast+
  have "role_count role d \<le> role_cap caps role" if "role \<in> set ROLES" for role
    using i that role_cap_jsort [OF lim that] by (auto simp: custody_ok_def list_all_iff)
  then have "role_count ''planner'' d \<le> role_cap caps ''planner''" "role_count ''judge'' d \<le> role_cap caps ''judge''"
    by (simp_all add: ROLES_def)
  moreover have "length (bd_mcp d) \<le> length (bd_observations d)"
    using subset_length [OF calls] by simp
  ultimately show ?thesis
    using i count_roles [OF slots] unfolding custody_ok_def by linarith
qed

definition uncertain_custody :: "budget_db \<Rightarrow> bool" where
  "uncertain_custody d \<longleftrightarrow> list_ex (\<lambda>r. \<exists>x \<in> set OUTCOMES. stop_outcome x \<and> at_outcome r = Some x) (bd_attempts d)
     \<or> list_ex (\<lambda>r. mc_outcome r = Some ''CLIENT_RECEIPT_UNKNOWN'') (bd_mcp d)"

lemma uncertain_stopped: "custody_inv d \<Longrightarrow> uncertain_custody d \<Longrightarrow> stopped d"
  by (auto simp: custody_inv_def stops_ok_def uncertain_custody_def list_all_iff list_ex_iff split: option.splits)

lemma stopped_run:
  assumes "bw_file w = Store d" "stopped d"
  shows "snd (run_ops budget_step ops w) = [] \<and> (\<exists>d'. bw_file (fst (run_ops budget_step ops w)) = Store d' \<and> stays_stopped d d')"
  using assms
proof (induction ops arbitrary: w d)
  case Nil
  then show ?case by (simp add: stays_stopped_refl)
next
  case (Cons x ops)
  obtain d1 where d1: "bw_file (fst (budget_step x w)) = Store d1" "stays_stopped d d1"
    using store_step [OF Cons.prems(1), of x] custody_stopped [OF _ Cons.prems(2)] stays_stopped_refl [OF Cons.prems(2)] by metis
  have "snd (budget_step x w) = None"
    by (cases "snd (budget_step x w)") (use admitted_once [of x w] Cons.prems in auto)
  then show ?case using Cons.IH [OF d1(1)] d1(2) stays_stopped_trans [OF d1(2)] by (auto simp: stays_stopped_def)
qed

text \<open>
  C23. Doubt ends a run. Once the ledger of a created run is stopped, or holds an attempt whose completion,
  model or response was not established, or an MCP call whose receipt is unknown, no operation of any
  process lets another attempt or call go out, none reserves one, and the first stop reason stays.
\<close>

theorem uncertain_custody_is_final:
  assumes "fst (budget_create e p run_id (Some caps) m Missing) = Store d0" "bw_file w = Store d0"
    and "bw_file (fst (run_ops budget_step ops w)) = Store d" "stopped d \<or> uncertain_custody d"
  shows "snd (run_ops budget_step later (fst (run_ops budget_step ops w))) = []
    \<and> (\<exists>d'. bw_file (fst (run_ops budget_step later (fst (run_ops budget_step ops w)))) = Store d'
         \<and> stopped d' \<and> map at_id (bd_attempts d') = map at_id (bd_attempts d)
         \<and> map mc_observation (bd_mcp d') = map mc_observation (bd_mcp d)
         \<and> (stop_reason d \<noteq> None \<longrightarrow> stop_reason d' = stop_reason d))"
proof -
  have "custody_inv d" using created_run [OF assms(1,2), of ops] assms(3) by auto
  then have "stopped d" using assms(4) uncertain_stopped by blast
  from stopped_run [OF assms(3) this, of later] show ?thesis by (auto simp: stays_stopped_def)
qed

text \<open>
  C24. Every attempt is started, and every MCP call admitted, at most once: in any run over any file, the
  acknowledged admissions are pairwise different, however often and in whichever process they are asked for.
\<close>

theorem every_admission_once: "distinct (snd (run_ops budget_step ops w))"
  by (rule admissions.redeemed_once) simp

fun needs_fence :: "budget_op \<Rightarrow> bool" where
  "needs_fence (Join obs i) = False"
| "needs_fence (FinishAttempt v x md) = False"
| "needs_fence (StopRun c) = False"
| "needs_fence (FinishMcp obs x md) = False"
| "needs_fence _ = True"

lemma foreign_fence:
  assumes "r \<in> set (bd_fences d)" "fr_open r" "bu_active b \<noteq> Some (fr_observation r, fr_fence r)"
  shows "assert_fence_access b d obs \<noteq> Inr u"
  using assms by (auto simp: assert_fence_access_def fence_access_ok list_all_iff)

lemma transaction_blocked:
  assumes "\<And>s z. body s d \<noteq> Inr z"
  shows "\<exists>x. budget_transaction e b (Store d) body = (Store d, Inl x)"
  using assms by (cases rule: budget_transaction_cases [of e b "Store d" body]) auto

lemma blocked_op:
  assumes "r \<in> set (bd_fences d)" "fr_open r" "bu_active b \<noteq> Some (fr_observation r, fr_fence r)" "needs_fence x"
  shows "\<not> is_ok (snd (budget_exec e x b (Store d))) \<and> snd (fst (budget_exec e x b (Store d))) = Store d"
proof -
  note no = foreign_fence [OF assms(1-3)]
  show ?thesis
  proof (cases x)
    case (Begin obs)
    have "\<exists>y. budget_transaction e b (Store d) (begin_new e b obs) = (Store d, Inl y)"
      by (rule transaction_blocked) (use no in \<open>auto simp: begin_new_def rbind_Inr_iff\<close>)
    moreover have "\<not> is_ok (assert_active_observation e b (Some obs) (Store d))"
      using no by (auto simp: is_ok_iff assert_active_observation_def connection_Inr rbind_Inr_iff)
    ultimately show ?thesis using Begin
      by (auto simp: begin_observation_def on_self_def is_ok_iff rbind_Inr_iff split: option.split)
  next
    case (CloseSafe obs c)
    have "\<exists>y. budget_transaction e b (Store d) (close_body e b obs c) = (Store d, Inl y)"
      by (rule transaction_blocked) (use no in \<open>auto simp: close_body_def rbind_Inr_iff\<close>)
    then show ?thesis using CloseSafe by (auto simp: close_safe_observation_def after_checks_def on_self_def split: sum.split)
  next
    case (Reserve q)
    have "\<exists>y. budget_transaction e b (Store d) (reserve_body e b q) = (Store d, Inl y)"
      by (rule transaction_blocked) (use no in \<open>auto simp: reserve_body_def rbind_Inr_iff\<close>)
    then show ?thesis using Reserve by (auto simp: reserve_def after_checks_def on_file_def split: sum.split)
  next
    case (StartAttempt v)
    have "\<exists>y. budget_transaction e b (Store d) (start_body e b v) = (Store d, Inl y)"
      by (rule transaction_blocked) (use no in \<open>auto simp: start_body_def rbind_Inr_iff\<close>)
    then show ?thesis using StartAttempt by (auto simp: start_attempt_def on_file_def)
  next
    case (ReserveMcp obs q)
    have "\<exists>y. budget_transaction e b (Store d) (reserve_mcp_body e b obs q) = (Store d, Inl y)"
      by (rule transaction_blocked) (use no in \<open>auto simp: reserve_mcp_body_def rbind_Inr_iff\<close>)
    then show ?thesis using ReserveMcp by (auto simp: reserve_mcp_def after_checks_def on_file_def split: sum.split)
  next
    case (AdmitMcp obs q)
    have "\<exists>y. budget_transaction e b (Store d) (admit_mcp_body e b obs q) = (Store d, Inl y)"
      by (rule transaction_blocked) (use no in \<open>auto simp: admit_mcp_body_def rbind_Inr_iff\<close>)
    then show ?thesis using AdmitMcp by (auto simp: admit_mcp_def after_checks_def on_file_def split: sum.split)
  next
    case EnsureRecoverable
    have "\<exists>y. budget_transaction e b (Store d) (ensure_body b) = (Store d, Inl y)"
      by (rule transaction_blocked) (use no in \<open>auto simp: ensure_body_def rbind_Inr_iff\<close>)
    then show ?thesis using EnsureRecoverable by (auto simp: ensure_recoverable_def on_file_def)
  qed (use assms(4) in auto)
qed

text \<open>
  An open fence belongs to the process that opened it or was handed it. While it is open, every
  other controller, one attached after a crash for instance, is refused whatever would reserve, start,
  admit, begin, close or declare the run recoverable, and the file stays as it is.
\<close>

theorem foreign_fence_blocks:
  assumes "r \<in> set (bd_fences d)" "fr_open r" "bu_active b \<noteq> Some (fr_observation r, fr_fence r)" "needs_fence x"
  shows "\<not> is_ok (snd (budget_exec e x b (Store d))) \<and> snd (fst (budget_exec e x b (Store d))) = Store d"
  using assms by (rule blocked_op)

section \<open>An instance\<close>

definition example_budget_env :: "string \<Rightarrow> string \<Rightarrow> budget_env" where
  "example_budget_env i j = \<lparr>be_file = True, be_opens = True, be_sql = True, be_commit = Committed, be_id = i,
     be_id2 = j, be_now = ''t''\<rparr>"

definition example_path :: budget_path where
  "example_path = \<lparr>bp_unc = False, bp_link = False, bp_absolute = True\<rparr>"

definition example_budget :: budget where
  "example_budget = \<lparr>bu_run_id = ''r1'', bu_caps = jsort default_caps, bu_max = 6, bu_active = None\<rparr>"

definition example_attempt :: attempt_request where
  "example_attempt = \<lparr>rq_observation = ''o1'', rq_role = ''planner'', rq_model = ''m'',
     rq_request = replicate 64 (CHR ''0''), rq_prompt = replicate 64 (CHR ''0''), rq_schema = replicate 64 (CHR ''0''),
     rq_retry = 0, rq_reason = None\<rparr>"

definition example_reservation :: reservation where
  "example_reservation = make_reservation (example_budget_env ''a1'' ''c1'') ''r1'' example_attempt"

definition example_budget_world :: budget_world where
  "example_budget_world = \<lparr>bw_file = Store (initial_db ''r1'' (jsort default_caps) 6),
     bw_procs = (\<lambda>i. if i = 0 then Some example_budget else None)\<rparr>"

definition example_budget_ops :: "world_op list" where
  "example_budget_ops =
    [Do 0 (example_budget_env ''f1'' []) (Begin ''o1''),
     Do 0 (example_budget_env ''a1'' ''c1'') (Reserve example_attempt),
     Do 0 (example_budget_env [] []) (StartAttempt example_reservation),
     Do 0 (example_budget_env [] []) (FinishAttempt example_reservation ''COMPLETION_UNKNOWN'' None)]"

definition example_budget_end :: budget_db where
  "example_budget_end = \<lparr>bd_meta = Some \<lparr>mt_version = 2, mt_run_id = ''r1'', mt_role_caps = Some (jsort default_caps),
       mt_max = JInt 6, mt_stopped = True, mt_reason = Some ''COMPLETION_UNKNOWN''\<rparr>,
     bd_observations = [(''o1'', ''t'')],
     bd_attempts = [(reserved_row example_reservation)\<lparr>at_state := ''TERMINAL'', at_started := Some ''t'',
        at_completed := Some ''t'', at_outcome := Some ''COMPLETION_UNKNOWN''\<rparr>],
     bd_mcp = [], bd_fences = [new_fence ''o1'' ''f1'' ''t'']\<rparr>"

lemma example_budget_created:
  "fst (budget_create (example_budget_env [] []) example_path ''r1'' (Some default_caps) 6 Missing)
     = Store (initial_db ''r1'' (jsort default_caps) 6)"
  by code_simp

lemma example_budget_run:
  "bw_file (fst (run_ops budget_step example_budget_ops example_budget_world)) = Store example_budget_end"
  by code_simp

theorem attempt_budget_never_exceeded_witness:
  "role_count ''planner'' example_budget_end \<le> 12 \<and> int (length (bd_attempts example_budget_end)) \<le> 24
     \<and> length (filter fr_open (bd_fences example_budget_end)) \<le> 1"
  using attempt_budget_never_exceeded [OF example_budget_created _ example_budget_run]
  by (simp add: example_budget_world_def default_caps_def role_cap_def jget_or_def)

theorem uncertain_custody_is_final_witness:
  "snd (run_ops budget_step [Do 0 (example_budget_env [] []) (StartAttempt example_reservation)]
     (fst (run_ops budget_step example_budget_ops example_budget_world))) = []"
proof -
  have "bw_file example_budget_world = Store (initial_db ''r1'' (jsort default_caps) 6)"
    and "stopped example_budget_end"
    by (simp_all add: example_budget_world_def example_budget_end_def stopped_def)
  then show ?thesis using uncertain_custody_is_final [OF example_budget_created _ example_budget_run] by blast
qed

theorem foreign_fence_blocks_witness:
  "\<not> is_ok (snd (budget_exec (example_budget_env [] []) (Begin ''o2'') example_budget (Store example_budget_end)))"
  using foreign_fence_blocks [of "new_fence ''o1'' ''f1'' ''t''" example_budget_end example_budget "Begin ''o2''"]
  by (simp add: example_budget_end_def new_fence_def example_budget_def)

end
