(* ===== verification/StrictJson.thy ===== *)
theory StrictJson
  imports JsonParse
begin

text \<open>
  \<open>json.loads\<close> with the hooks of a strict reader: a repeated key raises, and numbers and constants are read by
  hooks that may refuse them. What the hooks make of a token is the argument \<open>tok\<close>; the structure is read as
  in \<open>JsonParse\<close>. Two interfaces say what a client may expect of hooks: those that only refuse give a
  reader that refines the shared one, and those that refuse no number read back what the encoder writes.
\<close>

section \<open>The reader\<close>

fun s_val :: "(string \<Rightarrow> (json \<times> string) option) \<Rightarrow> nat \<Rightarrow> string \<Rightarrow> (json \<times> string) option"
  and s_elems :: "(string \<Rightarrow> (json \<times> string) option) \<Rightarrow> nat \<Rightarrow> json list \<Rightarrow> string \<Rightarrow> (json \<times> string) option"
  and s_members :: "(string \<Rightarrow> (json \<times> string) option) \<Rightarrow> nat \<Rightarrow> (string \<times> json) list \<Rightarrow> string \<Rightarrow> (json \<times> string) option"
where
  "s_val tok 0 s = None"
| "s_val tok (Suc n) s = (case ws s of
       [] \<Rightarrow> None
     | c # cs \<Rightarrow>
         if c = quote_chr then map_option (\<lambda>(v, r). (JStr v, r)) (p_str cs)
         else if c = CHR ''['' then
           (case ws cs of [] \<Rightarrow> None
            | d # ds \<Rightarrow> if d = CHR '']'' then Some (JList [], ds) else s_elems tok n [] cs)
         else if c = CHR ''{'' then
           (case ws cs of [] \<Rightarrow> None
            | d # ds \<Rightarrow> if d = CHR ''}'' then Some (JObj [], ds) else s_members tok n [] cs)
         else tok (c # cs))"
| "s_elems tok 0 acc s = None"
| "s_elems tok (Suc n) acc s = (case s_val tok n s of
       None \<Rightarrow> None
     | Some (v, r) \<Rightarrow> (case ws r of [] \<Rightarrow> None
         | d # ds \<Rightarrow> if d = CHR '','' then s_elems tok n (acc @ [v]) ds
                    else if d = CHR '']'' then Some (JList (acc @ [v]), ds) else None))"
| "s_members tok 0 acc s = None"
| "s_members tok (Suc n) acc s = (case ws s of
       [] \<Rightarrow> None
     | q # s1 \<Rightarrow> if q \<noteq> quote_chr then None else
        (case p_str s1 of None \<Rightarrow> None
         | Some (k, s2) \<Rightarrow> (case ws s2 of [] \<Rightarrow> None
             | col # s3 \<Rightarrow> if col \<noteq> CHR '':'' then None else
                (case s_val tok n s3 of None \<Rightarrow> None
                 | Some (v, r) \<Rightarrow> if k \<in> set (map fst acc) then None else
                    (case ws r of [] \<Rightarrow> None
                     | d # ds \<Rightarrow> if d = CHR '','' then s_members tok n (acc @ [(k, v)]) ds
                        else if d = CHR ''}'' then Some (JObj (acc @ [(k, v)]), ds) else None)))))"

definition strict_loads :: "(string \<Rightarrow> (json \<times> string) option) \<Rightarrow> string \<Rightarrow> json option" where
  "strict_loads tok s = (case s_val tok (2 * length s + 1) s of
       Some (v, r) \<Rightarrow> if ws r = [] then Some v else None
     | None \<Rightarrow> None)"

definition strict_value :: "json \<Rightarrow> bool" where
  "strict_value v \<longleftrightarrow> keys_distinct v \<and> finite_json v"

lemma strict_list: "list_all strict_value vs \<Longrightarrow> strict_value (JList vs)"
  by (simp add: strict_value_def list_all_iff)

lemma strict_obj: "distinct (map fst ms) \<Longrightarrow> list_all (\<lambda>(k, v). strict_value v) ms \<Longrightarrow> strict_value (JObj ms)"
  by (auto simp: strict_value_def list_all_iff)

text \<open>How the shared reader reads a constant or a number.\<close>

definition p_token :: "(string \<Rightarrow> json) \<Rightarrow> string \<Rightarrow> (json \<times> string) option" where
  "p_token flt s = (case p_const s of Some x \<Rightarrow> Some x | None \<Rightarrow> p_num flt s)"

section \<open>Hooks that only refuse\<close>

definition refuses_only :: "(string \<Rightarrow> (json \<times> string) option) \<Rightarrow> (string \<Rightarrow> json) \<Rightarrow> bool" where
  "refuses_only tok flt \<longleftrightarrow> (\<forall>s v r. tok s = Some (v, r) \<longrightarrow> p_token flt s = Some (v, r) \<and> strict_value v)"

lemma s_val_refines:
  "s_val tok n s = Some (v, r) \<Longrightarrow> refuses_only tok flt \<Longrightarrow> p_val flt n s = Some (v, r) \<and> strict_value v"
  "s_elems tok n acc s = Some (v, r) \<Longrightarrow> refuses_only tok flt \<Longrightarrow> list_all strict_value acc
     \<Longrightarrow> p_elems flt n acc s = Some (v, r) \<and> strict_value v"
  "s_members tok n ms s = Some (v, r) \<Longrightarrow> refuses_only tok flt \<Longrightarrow> distinct (map fst ms) \<Longrightarrow> list_all (\<lambda>(k, v). strict_value v) ms
     \<Longrightarrow> p_members flt n ms s = Some (v, r) \<and> strict_value v"
proof (induction tok n s and tok n acc s and tok n ms s arbitrary: v r and v r and v r rule: s_val_s_elems_s_members.induct)
  case (2 tok n s)
  show ?case
  proof (cases "ws s")
    case (Cons c cs)
    consider "c = quote_chr" | "c = CHR ''[''" "c \<noteq> quote_chr" | "c = CHR ''{''" "c \<noteq> quote_chr" | (other) "c \<noteq> quote_chr" "c \<noteq> CHR ''[''" "c \<noteq> CHR ''{''"
      by blast
    then show ?thesis
    proof cases
      case other
      then have "tok (c # cs) = Some (v, r)" using 2(3) Cons by simp
      then have "p_token flt (c # cs) = Some (v, r)" "strict_value v" using 2(4) unfolding refuses_only_def by blast+
      then show ?thesis using Cons other by (simp add: p_token_def)
    qed (use 2 Cons in \<open>auto simp: strict_value_def simp del: dropWhile_eq_Nil_conv split: list.splits if_splits\<close>)
  qed (use 2(3) in \<open>simp del: dropWhile_eq_Nil_conv\<close>)
next
  case (4 tok n acc s)
  obtain x rest where x: "s_val tok n s = Some (x, rest)" using 4(3) by (auto split: option.splits)
  note y = 4(1) [OF x 4(4)]
  show ?case
  proof (cases "ws rest")
    case (Cons d ds)
    then show ?thesis using 4(2-5) x y by (auto simp: strict_list split: if_splits)
  qed (use 4(3) x in \<open>simp del: dropWhile_eq_Nil_conv\<close>)
next
  case (6 tok n ms s)
  obtain q s1 k s2 col s3 x rest d ds where st: "ws s = q # s1" "q = quote_chr" "p_str s1 = Some (k, s2)" "ws s2 = col # s3"
    "col = CHR '':''" "s_val tok n s3 = Some (x, rest)" "k \<notin> set (map fst ms)" "ws rest = d # ds"
    using 6(3) by (auto split: list.splits option.splits if_splits)
  have x: "p_val flt n s3 = Some (x, rest) \<and> strict_value x" using 6(1) [OF st(1) _ st(3) refl st(4) _ st(6) 6(4)] st by simp
  have f: "alist_set k x ms = ms @ [(k, x)]" using st(7) by (simp add: alist_set_fresh)
  show ?case
  proof (cases "d = CHR '',''")
    case True
    then have "s_members tok n (ms @ [(k, x)]) ds = Some (v, r)" using 6(3) st by simp
    then show ?thesis using 6(2) [OF st(1) _ st(3) refl st(4) _ st(6) refl st(7) st(8) True] 6(4-6) st x f True by simp
  next
    case False
    then show ?thesis using 6(3-6) st x f strict_obj [of "ms @ [(k, x)]"] by (auto split: if_splits)
  qed
qed simp_all

locale strict_tokens =
  fixes tok :: "string \<Rightarrow> (json \<times> string) option"
    and flt :: "string \<Rightarrow> json"
  assumes token_reads: "tok s = Some (v, r) \<Longrightarrow> p_token flt s = Some (v, r) \<and> strict_value v"
begin

lemma loads_refines:
  assumes "strict_loads tok s = Some v"
  shows "json_loads flt s = Some v \<and> strict_value v"
proof -
  have "refuses_only tok flt" using token_reads by (simp add: refuses_only_def)
  moreover obtain r where "s_val tok (2 * length s + 1) s = Some (v, r)" "ws r = []"
    using assms unfolding strict_loads_def by (auto simp del: s_val.simps split: option.splits if_splits)
  ultimately show ?thesis using s_val_refines(1) by (simp add: json_loads_def del: s_val.simps p_val.simps)
qed

end

section \<open>Hooks that refuse no number\<close>

text \<open>What the encoder writes is read back; the structure is followed as for the shared reader.\<close>

locale number_tokens = strict_tokens +
  assumes token_number: "p_token flt s = Some (v, r) \<Longrightarrow> v \<noteq> JNonFinite \<Longrightarrow> tok s = Some (v, r)"
begin

lemma s_val_token:
  assumes "\<not> ws_char c" "c \<noteq> quote_chr" "c \<noteq> CHR ''[''" "c \<noteq> CHR ''{''" "p_token flt (c # cs) = Some (v, r)" "v \<noteq> JNonFinite"
  shows "s_val tok (Suc n) (c # cs) = Some (v, r)"
  using assms token_number [OF assms(5,6)] by simp

lemma s_val_number:
  assumes "num_start s" "p_num flt (s @ r) = Some (v, r)" "v \<noteq> JNonFinite"
  shows "s_val tok (Suc n) (s @ r) = Some (v, r)"
proof -
  obtain c cs where c: "s = c # cs" "\<not> ws_char c" "c \<noteq> quote_chr" "c \<noteq> CHR ''[''" "c \<noteq> CHR ''{''"
    using num_start_head [OF assms(1)] by blast
  have "p_token flt (s @ r) = Some (v, r)" using assms(2) p_const_num [OF assms(1), of r] by (simp add: p_token_def)
  then show ?thesis using s_val_token [OF c(2-5)] assms(3) by (simp add: c(1) del: s_val.simps)
qed

lemma s_val_bracket:
  "s_val tok (Suc n) (CHR ''['' # cs) = (case ws cs of [] \<Rightarrow> None
     | d # ds \<Rightarrow> if d = CHR '']'' then Some (JList [], ds) else s_elems tok n [] cs)"
  "s_val tok (Suc n) (CHR ''{'' # cs) = (case ws cs of [] \<Rightarrow> None
     | d # ds \<Rightarrow> if d = CHR ''}'' then Some (JObj [], ds) else s_members tok n [] cs)"
  by (simp_all add: ws_char_def quote_chr_def)

lemma s_elems_enc:
  assumes "\<And>u q m. u \<in> set (v # vs) \<Longrightarrow> follows q \<Longrightarrow> 2 * length (enc a u) \<le> m \<Longrightarrow> s_val tok m (enc a u @ q) = Some (u, q)"
    and "2 * length (enc a v @ tail_of (enc a) vs []) + 1 \<le> n"
  shows "s_elems tok n acc (enc a v @ tail_of (enc a) vs (CHR '']'' # r)) = Some (JList (acc @ v # vs), r)"
  using assms
proof (induction vs arbitrary: v n acc)
  case Nil
  then obtain n' where "n = Suc n'" by (cases n) auto
  with Nil show ?case by simp
next
  case (Cons x vs)
  then obtain n' where n: "n = Suc n'" by (cases n) auto
  have "s_elems tok n' (acc @ [v]) (enc a x @ tail_of (enc a) vs (CHR '']'' # r)) = Some (JList ((acc @ [v]) @ x # vs), r)"
    using Cons.prems n by (intro Cons.IH) simp_all
  moreover have "s_val tok n' (enc a v @ tail_of (enc a) (x # vs) (CHR '']'' # r)) = Some (v, tail_of (enc a) (x # vs) (CHR '']'' # r))"
    using Cons.prems(2) n by (intro Cons.prems(1)) simp_all
  ultimately show ?case by (simp add: n)
qed

lemma s_members_step:
  assumes "s_val tok n (enc a u @ q) = Some (u, q)"
  shows "s_members tok (Suc n) acc (enc_str a k @ CHR '':'' # enc a u @ q) = (if k \<in> set (map fst acc) then None else case ws q of [] \<Rightarrow> None
     | d # ds \<Rightarrow> if d = CHR '','' then s_members tok n (acc @ [(k, u)]) ds
        else if d = CHR ''}'' then Some (JObj (acc @ [(k, u)]), ds) else None)"
  using p_str_enc [of a k "CHR '':'' # enc a u @ q"] assms
  by (simp add: enc_str_def split: list.split)

lemma s_members_enc:
  assumes "\<And>k u q m. (k, u) \<in> set (x # xs) \<Longrightarrow> follows q \<Longrightarrow> 2 * length (enc a u) \<le> m \<Longrightarrow> s_val tok m (enc a u @ q) = Some (u, q)"
    and "2 * length (enc_member a x @ tail_of (enc_member a) xs []) + 1 \<le> n"
    and "distinct (map fst (acc @ x # xs))"
  shows "s_members tok n acc (enc_member a x @ tail_of (enc_member a) xs (CHR ''}'' # r)) = Some (JObj (acc @ x # xs), r)"
  using assms
proof (induction xs arbitrary: x n acc)
  case Nil
  obtain k u where x: "x = (k, u)" by (cases x)
  obtain n' where n: "n = Suc n'" using Nil.prems(2) by (cases n) auto
  have "s_val tok n' (enc a u @ CHR ''}'' # r) = Some (u, CHR ''}'' # r)"
    using Nil.prems(1) [of k u "CHR ''}'' # r" n'] Nil.prems(2) x n by simp
  with Nil.prems(3) show ?case by (simp add: x n s_members_step del: s_members.simps)
next
  case (Cons y ys)
  obtain k u where x: "x = (k, u)" by (cases x)
  obtain n' where n: "n = Suc n'" using Cons.prems(2) by (cases n) auto
  have v: "s_val tok n' (enc a u @ tail_of (enc_member a) (y # ys) (CHR ''}'' # r)) = Some (u, tail_of (enc_member a) (y # ys) (CHR ''}'' # r))"
    using Cons.prems(1) [of k u] Cons.prems(2) x n by (simp add: follows_tail_of)
  have "s_members tok n' (acc @ [x]) (enc_member a y @ tail_of (enc_member a) ys (CHR ''}'' # r)) = Some (JObj ((acc @ [x]) @ y # ys), r)"
  proof (rule Cons.IH)
    show "s_val tok m (enc a u @ q) = Some (u, q)" if "(k, u) \<in> set (y # ys)" "follows q" "2 * length (enc a u) \<le> m" for k u q m
      using Cons.prems(1) [of k u q m] that by simp
    show "2 * length (enc_member a y @ tail_of (enc_member a) ys []) + 1 \<le> n'" using Cons.prems(2) n by simp
    show "distinct (map fst ((acc @ [x]) @ y # ys))" using Cons.prems(3) by simp
  qed
  then show ?case using s_members_step [OF v, of acc k] Cons.prems(3) by (simp add: x n del: s_members.simps)
qed

lemma s_val_enc:
  "readable flt v \<Longrightarrow> keys_distinct v \<Longrightarrow> follows r \<Longrightarrow> 2 * length (enc a v) \<le> n \<Longrightarrow> s_val tok n (enc a v @ r) = Some (v, r)"
proof (induction v arbitrary: n r)
  case (JNull)
  then obtain n' where "n = Suc n'" by (cases n) auto
  moreover have "p_token flt (''null'' @ r) = Some (JNull, r)" by (simp add: p_token_def p_const_def constants_def)
  ultimately show ?case using s_val_token [of "CHR ''n''" "''ull'' @ r" JNull r n'] by (simp add: ws_char_def quote_chr_def del: s_val.simps)
next
  case (JBool b)
  then obtain n' where "n = Suc n'" by (cases n; cases b) auto
  moreover have "p_token flt (enc a (JBool b) @ r) = Some (JBool b, r)" by (cases b) (simp_all add: p_token_def p_const_def constants_def)
  ultimately show ?case using s_val_token [of _ _ "JBool b" r n'] by (cases b) (simp_all add: ws_char_def quote_chr_def del: s_val.simps)
next
  case (JInt i)
  then obtain n' where "n = Suc n'" using dec_int_start [of i] by (cases n) (auto simp: num_start_def)
  with JInt show ?case using s_val_number [OF dec_int_start p_num_dec_int] by simp
next
  case (JNum q s)
  then have f: "float_text s" "flt s = JNum q s" by simp_all
  then obtain n' where "n = Suc n'" using float_text_start [OF f(1)] JNum.prems(4) by (cases n) (auto simp: num_start_def)
  moreover have "p_num flt (s @ r) = Some (JNum q s, r)" using p_num_float [OF f(1) JNum.prems(3), of flt] f(2) by simp
  ultimately show ?case using s_val_number [OF float_text_start [OF f(1)]] by simp
next
  case (JStr s)
  then obtain n' where "n = Suc n'" by (cases n) (auto simp: enc_str_def)
  then show ?case using p_str_enc [of a s r] by (simp add: enc_str_def ws_char_def quote_chr_def)
next
  case (JList vs)
  obtain n' where n: "n = Suc n'" using JList.prems(4) by (cases n) auto
  show ?case
  proof (cases vs)
    case (Cons v us)
    have "s_elems tok n' [] (enc a v @ tail_of (enc a) us (CHR '']'' # r)) = Some (JList ([] @ v # us), r)"
    proof (rule s_elems_enc)
      show "s_val tok m (enc a u @ q) = Some (u, q)" if "u \<in> set (v # us)" "follows q" "2 * length (enc a u) \<le> m" for u q m
        using JList.IH [of u q m] JList.prems that Cons by (auto simp: list_all_iff)
      show "2 * length (enc a v @ tail_of (enc a) us []) + 1 \<le> n'"
        using JList.prems(4) n join_tail_of [of "enc a" v us "[]"] by (simp add: Cons)
    qed
    moreover obtain c cs where "enc a v = c # cs" "\<not> ws_char c" "c \<noteq> CHR '']''"
    proof -
      have "readable flt v" using JList.prems(1) Cons by simp
      from enc_start [OF this, of a] show thesis using that by metis
    qed
    ultimately show ?thesis using join_tail_of [of "enc a" v us "CHR '']'' # r"] by (simp add: Cons n s_val_bracket del: s_val.simps)
  qed (simp add: n s_val_bracket del: s_val.simps)
next
  case (JObj ms)
  obtain n' where n: "n = Suc n'" using JObj.prems(4) by (cases n) auto
  show ?case
  proof (cases ms)
    case (Cons x xs)
    have "s_members tok n' [] (enc_member a x @ tail_of (enc_member a) xs (CHR ''}'' # r)) = Some (JObj ([] @ x # xs), r)"
    proof (rule s_members_enc)
      show "s_val tok m (enc a u @ q) = Some (u, q)" if "(k, u) \<in> set (x # xs)" "follows q" "2 * length (enc a u) \<le> m" for k u q m
      proof -
        have m: "(k, u) \<in> set ms" using that(1) Cons by simp
        with JObj.prems(1,2) have "readable flt u" "keys_distinct u" by (fastforce simp: list_all_iff)+
        then show ?thesis using JObj.IH [OF m, of u q m] that by simp
      qed
      show "2 * length (enc_member a x @ tail_of (enc_member a) xs []) + 1 \<le> n'"
        using JObj.prems(4) n join_tail_of [of "enc_member a" x xs "[]"] by (simp add: Cons)
      show "distinct (map fst ([] @ x # xs))" using JObj.prems(2) Cons by simp
    qed
    moreover obtain cs where "enc_member a x = quote_chr # cs" by (cases x) (simp add: enc_str_def)
    moreover have "quote_chr \<noteq> CHR ''}''" by (simp add: quote_chr_def)
    ultimately show ?thesis using join_tail_of [of "enc_member a" x xs "CHR ''}'' # r"] by (simp add: Cons n s_val_bracket del: s_val.simps)
  qed (simp add: n s_val_bracket del: s_val.simps)
qed simp_all

lemma strict_loads_enc:
  assumes "readable flt v" "keys_distinct v"
  shows "strict_loads tok (enc a (jsort v)) = Some (jsort v)"
proof -
  have "s_val tok (2 * length (enc a (jsort v)) + 1) (enc a (jsort v) @ []) = Some (jsort v, [])"
    using assms by (intro s_val_enc) (simp_all add: keys_distinct_jsort)
  then show ?thesis by (simp add: strict_loads_def)
qed

end

end
