(* ===== verification/FaaProfile.thy ===== *)
theory FaaProfile
  imports Money Adapter StrictJson
begin

text \<open>
  \<open>channel_b/faa_profile_v1.py\<close>: the immutable query scope of the FAA profile and the validation of one
  page of award records against it. Reading a decoded object into a model is pydantic: a \<open>page_reader\<close>
  gives the fields of the page, or \<open>None\<close> where a field is missing, unknown or of the wrong type. The
  constraints the models declare and their validators are stated here. Every failure of the validator is
  \<open>CandidateValidationError\<close>, here \<open>None\<close>. Text is characters below 256, decoded from UTF-8.
\<close>

section \<open>The scope of a query\<close>

definition FAA :: string where "FAA = ''Federal Aviation Administration''"
definition DOT :: string where "DOT = ''Department of Transportation''"
definition ENDPOINT :: string where "ENDPOINT = ''https://api.usaspending.gov/api/v2/search/spending_by_award/''"
definition FAA_VERSION :: string where "FAA_VERSION = ''B2B-FAA-001-C1-v1''"
definition FAA_FIELDS :: "string list" where
  "FAA_FIELDS = [''Award ID'', ''Recipient Name'', ''Award Amount'', ''Awarding Agency'', ''Awarding Sub Agency'',
     ''Funding Agency'', ''Funding Sub Agency'', ''generated_internal_id'']"

type_synonym civil_date = "int \<times> int \<times> int"    \<comment> \<open>year, month, day\<close>

definition iso_civil :: "civil_date \<Rightarrow> string" where
  "iso_civil d = (case d of (y, m, n) \<Rightarrow> pad 4 y @ ''-'' @ pad 2 m @ ''-'' @ pad 2 n)"

record faa_scope =
  fs_version :: string
  fs_method :: string
  fs_endpoint :: string
  fs_agency :: string
  fs_type :: string
  fs_tier :: string
  fs_toptier :: string
  fs_year :: int
  fs_start :: civil_date
  fs_end :: civil_date
  fs_semantics :: string
  fs_awards :: "string list"
  fs_page :: int
  fs_limit :: int
  fs_subawards :: bool
  fs_fields :: "string list"
  fs_sort :: string
  fs_order :: string

definition scope_consistency :: "faa_scope \<Rightarrow> bool" where
  "scope_consistency q \<longleftrightarrow> fs_start q = (fs_year q - 1, 10, 1) \<and> fs_end q = (fs_year q, 9, 30)
     \<and> distinct (fs_awards q) \<and> fs_fields q = FAA_FIELDS"

definition scope_ok :: "faa_scope \<Rightarrow> bool" where
  "scope_ok q \<longleftrightarrow>
     fs_version q = FAA_VERSION \<and> fs_method q = ''POST'' \<and> fs_endpoint q = ENDPOINT \<and> fs_agency q = FAA
     \<and> fs_type q = ''awarding'' \<and> fs_tier q = ''subtier'' \<and> fs_toptier q = DOT
     \<and> 2008 \<le> fs_year q \<and> fs_year q \<le> 9999 \<and> fs_semantics q = ''AWARD_SEARCH_DEFAULT_OVERLAP''
     \<and> 1 \<le> length (fs_awards q) \<and> length (fs_awards q) \<le> 12 \<and> set (fs_awards q) \<subseteq> set award_type_codes
     \<and> fs_page q = 1 \<and> 1 \<le> fs_limit q \<and> fs_limit q \<le> 100 \<and> \<not> fs_subawards q
     \<and> fs_sort q = ''Award Amount'' \<and> fs_order q = ''desc'' \<and> scope_consistency q"

text \<open>The payload is rendered from a scope validated again.\<close>

definition faa_payload :: "faa_scope \<Rightarrow> json option" where
  "faa_payload q = (if \<not> scope_ok q then None else Some (JObj
     [(''filters'', JObj
        [(''time_period'', JList [JObj [(''start_date'', JStr (iso_civil (fs_start q))),
                                        (''end_date'', JStr (iso_civil (fs_end q)))]]),
         (''award_type_codes'', JList (map JStr (fs_awards q))),
         (''agencies'', JList [JObj [(''type'', JStr (fs_type q)), (''tier'', JStr (fs_tier q)),
            (''name'', JStr (fs_agency q)), (''toptier_name'', JStr (fs_toptier q))]])]),
      (''fields'', JList (map JStr (fs_fields q))), (''page'', JInt (fs_page q)), (''limit'', JInt (fs_limit q)),
      (''sort'', JStr (fs_sort q)), (''order'', JStr (fs_order q)), (''subawards'', JBool (fs_subawards q))]))"

definition wire_bytes :: "faa_scope \<Rightarrow> string option" where
  "wire_bytes q = Option.bind (faa_payload q) (dumps False)"

definition scope_json :: "faa_scope \<Rightarrow> json" where
  "scope_json q = JObj
     [(''contract_version'', JStr (fs_version q)), (''method'', JStr (fs_method q)), (''endpoint'', JStr (fs_endpoint q)),
      (''awarding_agency'', JStr (fs_agency q)), (''agency_type'', JStr (fs_type q)), (''agency_tier'', JStr (fs_tier q)),
      (''agency_toptier_name'', JStr (fs_toptier q)), (''fiscal_year'', JInt (fs_year q)),
      (''start_date'', JStr (iso_civil (fs_start q))), (''end_date'', JStr (iso_civil (fs_end q))),
      (''date_semantics'', JStr (fs_semantics q)), (''award_types'', JList (map JStr (fs_awards q))),
      (''page'', JInt (fs_page q)), (''limit'', JInt (fs_limit q)), (''subawards'', JBool (fs_subawards q)),
      (''response_fields'', JList (map JStr (fs_fields q))), (''sort'', JStr (fs_sort q)), (''order'', JStr (fs_order q))]"

definition effective_scope_json :: "faa_scope \<Rightarrow> string option" where
  "effective_scope_json q = Option.bind (faa_payload q) (\<lambda>_. dumps False (scope_json q))"

definition faa_query_fingerprint :: "libs \<Rightarrow> faa_scope \<Rightarrow> string option" where
  "faa_query_fingerprint w q = map_option (\<lambda>body. fingerprint w
     (JObj [(''method'', JStr (fs_method q)), (''url'', JStr (fs_endpoint q)), (''body'', body)])) (faa_payload q)"

section \<open>Rows and pages\<close>

text \<open>A row as pydantic reads it (\<open>json faa_row\<close>) and validated, with its canonical amount.\<close>

record 'm faa_row =
  fw_internal_id :: int
  fw_generated :: string
  fw_award_id :: string
  fw_recipient :: string
  fw_amount :: 'm
  fw_agency :: string
  fw_sub_agency :: string
  fw_funding :: string
  fw_funding_sub :: string
  fw_slug :: "string option option"         \<comment> \<open>\<open>None\<close>: not set\<close>
  fw_agency_id :: "int option option"
  fw_recipient_id :: "string option option"

type_synonym amount = "bool \<times> nat \<times> int"

record 'm faa_page =
  fp_level :: string
  fp_limit :: int
  fp_results :: "'m faa_row list"
  fp_page :: int
  fp_has_next :: bool
  fp_last_id :: "int option"
  fp_last_sort :: "string option"
  fp_messages :: "string list"

type_synonym page_reader = "json \<Rightarrow> json faa_page option"

definition nonempty_text :: "string \<Rightarrow> bool" where
  "nonempty_text s \<longleftrightarrow> 1 \<le> length s \<and> length s \<le> 300"

definition attribution_text :: "string \<Rightarrow> bool" where
  "attribution_text s \<longleftrightarrow> s = strip_space s \<and> list_all (\<lambda>c. (32::nat) \<le> of_char c) s"

definition set_ok :: "('a \<Rightarrow> bool) \<Rightarrow> 'a option option \<Rightarrow> bool" where
  "set_ok P v \<longleftrightarrow> (case v of Some (Some x) \<Rightarrow> P x | _ \<Rightarrow> True)"

definition attribution_texts :: "'m faa_row \<Rightarrow> string list" where
  "attribution_texts r = [fw_generated r, fw_award_id r, fw_recipient r, fw_agency r, fw_sub_agency r,
     fw_funding r, fw_funding_sub r]"

definition exact_attribution :: "'m faa_row \<Rightarrow> bool" where
  "exact_attribution r \<longleftrightarrow> list_all attribution_text (attribution_texts r)
     \<and> fw_agency r = DOT \<and> fw_sub_agency r = FAA
     \<and> (fw_funding_sub r = FAA \<longrightarrow> fw_funding r = DOT)"

definition with_amount :: "'b \<Rightarrow> 'a faa_row \<Rightarrow> 'b faa_row" where
  "with_amount a r = \<lparr>fw_internal_id = fw_internal_id r, fw_generated = fw_generated r, fw_award_id = fw_award_id r,
     fw_recipient = fw_recipient r, fw_amount = a, fw_agency = fw_agency r, fw_sub_agency = fw_sub_agency r,
     fw_funding = fw_funding r, fw_funding_sub = fw_funding_sub r, fw_slug = fw_slug r,
     fw_agency_id = fw_agency_id r, fw_recipient_id = fw_recipient_id r\<rparr>"

definition award_row :: "json faa_row \<Rightarrow> string + amount faa_row" where
  "award_row r = rbind (exact_amount (money_of (fw_amount r))) (\<lambda>a.
     if 0 \<le> fw_internal_id r \<and> list_all nonempty_text (attribution_texts r)
        \<and> set_ok nonempty_text (fw_slug r) \<and> set_ok (\<lambda>i. 0 \<le> i) (fw_agency_id r) \<and> set_ok nonempty_text (fw_recipient_id r)
        \<and> exact_attribution r
     then Inr (with_amount a r) else Inl ''ValidationError'')"

definition award_page :: "json faa_page \<Rightarrow> string + amount faa_page" where
  "award_page p =
     (if fp_level p = ''awards'' \<and> 1 \<le> fp_limit p \<and> fp_limit p \<le> 100 \<and> length (fp_results p) \<le> 100
        \<and> fp_page p = 1 \<and> (case fp_last_id p of Some i \<Rightarrow> 0 \<le> i | None \<Rightarrow> True)
        \<and> (case fp_last_sort p of Some s \<Rightarrow> length s \<le> 300 | None \<Rightarrow> True) \<and> length (fp_messages p) \<le> 10
      then rbind (each_ok award_row (fp_results p)) (\<lambda>rows.
        Inr \<lparr>fp_level = fp_level p, fp_limit = fp_limit p, fp_results = rows, fp_page = fp_page p,
          fp_has_next = fp_has_next p, fp_last_id = fp_last_id p, fp_last_sort = fp_last_sort p, fp_messages = fp_messages p\<rparr>)
      else Inl ''ValidationError'')"

text \<open>\<open>model_dump(mode="json", exclude_unset=True)\<close> of a row.\<close>

definition set_item :: "string \<Rightarrow> ('a \<Rightarrow> json) \<Rightarrow> 'a option option \<Rightarrow> (string \<times> json) list" where
  "set_item k f v = (case v of None \<Rightarrow> [] | Some None \<Rightarrow> [(k, JNull)] | Some (Some x) \<Rightarrow> [(k, f x)])"

definition dump_row :: "amount faa_row \<Rightarrow> string + json" where
  "dump_row r = (case fw_amount r of (s, c, e) \<Rightarrow> rbind (amount_text (MDec (Fin s c e))) (\<lambda>t. Inr (JObj
     ([(''internal_id'', JInt (fw_internal_id r)), (''generated_internal_id'', JStr (fw_generated r)),
       (''award_id'', JStr (fw_award_id r)), (''recipient_name'', JStr (fw_recipient r)), (''award_amount'', JStr t),
       (''awarding_agency'', JStr (fw_agency r)), (''awarding_sub_agency'', JStr (fw_sub_agency r)),
       (''funding_agency'', JStr (fw_funding r)), (''funding_sub_agency'', JStr (fw_funding_sub r))]
      @ set_item ''agency_slug'' JStr (fw_slug r) @ set_item ''awarding_agency_id'' JInt (fw_agency_id r)
      @ set_item ''recipient_id'' JStr (fw_recipient_id r)))))"

section \<open>Reading the bytes\<close>

text \<open>
  \<open>json.loads\<close> with the hooks of the profile: a repeated field, a non-finite constant, a float that is no
  monetary token and an integer token over 96 characters all raise. The reader is otherwise the shared one.
\<close>

definition exact_float :: "string \<Rightarrow> json" where
  "exact_float t = (case decimal_token t of Inr (Fin s c e) \<Rightarrow> JNum (dec_value (Fin s c e)) t | _ \<Rightarrow> JNonFinite)"

definition exact_number :: "string \<Rightarrow> (json \<times> string) option" where
  "exact_number s = (case p_num exact_float s of None \<Rightarrow> None
     | Some (v, r) \<Rightarrow> (case v of
           JInt i \<Rightarrow> if is_ok (integer_token (take (length s - length r) s)) then Some (JInt i, r) else None
         | JNonFinite \<Rightarrow> None
         | _ \<Rightarrow> Some (v, r)))"

definition exact_const :: "string \<Rightarrow> (json \<times> string) option" where
  "exact_const s = (case p_const s of Some (v, r) \<Rightarrow> if v = JNonFinite then None else Some (v, r) | None \<Rightarrow> None)"

definition exact_token :: "string \<Rightarrow> (json \<times> string) option" where
  "exact_token s = (case p_const s of Some _ \<Rightarrow> exact_const s | None \<Rightarrow> exact_number s)"

definition parse_response_bytes :: "string \<Rightarrow> json option" where
  "parse_response_bytes raw =
     (if raw = [] \<or> MAX_BYTES < utf8_length raw then None
      else strict_loads exact_token raw)"

section \<open>The validation of a page\<close>

definition provenance_ok :: "provenance \<Rightarrow> bool" where
  "provenance_ok p \<longleftrightarrow>
     source_system p \<in> {''USAspending'', ''CIVICGATE_TEST_FIXTURE''}
     \<and> source_type p \<in> {''PUBLIC_GOVERNMENT_API'', ''SYNTHETIC_TEST_FIXTURE''}
     \<and> is_hex 64 (query_fingerprint p) \<and> is_hex 64 (provenance.response_fingerprint p)
     \<and> 1 \<le> length (endpoint p) \<and> length (endpoint p) \<le> 400
     \<and> 0 \<le> records_returned p \<and> records_returned p \<le> 100"

record validated_page =
  vp_scope_json :: string
  vp_records :: "amount faa_row list"
  vp_page :: int
  vp_limit :: int
  vp_truncated :: bool
  vp_attribution :: string
  vp_provenance_json :: string
  vp_raw_sha256 :: string
  vp_verified_scope :: string
  vp_total_established :: bool

definition page_in_scope :: "faa_scope \<Rightarrow> amount faa_page \<Rightarrow> bool" where
  "page_in_scope q p \<longleftrightarrow> fp_limit p = fs_limit q \<and> fp_page p = fs_page q
     \<and> int (length (fp_results p)) \<le> fs_limit q \<and> fp_messages p = []
     \<and> \<not> (fp_results p = [] \<and> fp_has_next p)
     \<and> distinct (map fw_internal_id (fp_results p)) \<and> distinct (map fw_generated (fp_results p))"

definition provenance_binds :: "libs \<Rightarrow> faa_scope \<Rightarrow> json \<Rightarrow> amount faa_page \<Rightarrow> provenance \<Rightarrow> bool" where
  "provenance_binds w q obj p pv \<longleftrightarrow>
     endpoint pv = fs_endpoint q \<and> faa_query_fingerprint w q = Some (query_fingerprint pv)
     \<and> Money.response_fingerprint w obj = Inr (provenance.response_fingerprint pv)
     \<and> records_returned pv = int (length (fp_results p)) \<and> truncated pv = fp_has_next p
     \<and> source_system pv = ''CIVICGATE_TEST_FIXTURE'' \<and> source_type pv = ''SYNTHETIC_TEST_FIXTURE''"

definition read_award_page :: "page_reader \<Rightarrow> json \<Rightarrow> amount faa_page option" where
  "read_award_page rd obj = Option.bind (rd obj) (\<lambda>raw. case award_page raw of Inl _ \<Rightarrow> None | Inr p \<Rightarrow> Some p)"

definition validate_synthetic_page ::
    "page_reader \<Rightarrow> libs \<Rightarrow> faa_scope \<Rightarrow> string \<Rightarrow> provenance \<Rightarrow> int \<Rightarrow> string \<Rightarrow> validated_page option" where
  "validate_synthetic_page rd w q raw pv status content =
     (if \<not> scope_ok q \<or> \<not> provenance_ok pv \<or> raw = [] \<or> MAX_BYTES < utf8_length raw
        \<or> status \<noteq> 200 \<or> content \<noteq> ''application/json'' then None
      else Option.bind (parse_response_bytes raw) (\<lambda>obj. Option.bind (read_award_page rd obj) (\<lambda>p.
        if \<not> page_in_scope q p \<or> \<not> provenance_binds w q obj p pv then None
        else Option.bind (effective_scope_json q) (\<lambda>sj.
          Some \<lparr>vp_scope_json = sj, vp_records = fp_results p, vp_page = fp_page p, vp_limit = fp_limit p,
            vp_truncated = fp_has_next p,
            vp_attribution = (if fp_results p = [] then ''EMPTY_PAGE'' else ''FAA_AWARDED_PAGE''),
            vp_provenance_json = enc False (provenance_json pv), vp_raw_sha256 = sha256 w raw,
            vp_verified_scope = ''SYNTHETIC_PROFILE_ONLY'', vp_total_established = False\<rparr>))))"

section \<open>The strict reader refines the shared one\<close>

lemma exact_const_p: "exact_const s = Some (v, r) \<Longrightarrow> p_const s = Some (v, r) \<and> strict_value v"
  by (auto simp: exact_const_def strict_value_def p_const_def constants_def split: if_splits)

lemma exact_number_p: "exact_number s = Some (v, r) \<Longrightarrow> p_num exact_float s = Some (v, r) \<and> strict_value v"
  by (auto simp: exact_number_def strict_value_def p_num_def exact_float_def Let_def
      split: option.splits json.splits if_splits prod.splits sum.splits pydec.splits)

interpretation exact_tokens: strict_tokens exact_token exact_float
  by unfold_locales (auto simp: exact_token_def p_token_def dest: exact_const_p exact_number_p split: option.splits)

text \<open>
  The profile reads no other value than the shared reader: what its strict parse of a response
  accepts, the shared reader with the exact number hooks reads as the very same value; no object in it repeats a
  key and no number is non-finite.
\<close>

theorem strict_parse_refines:
  assumes "parse_response_bytes raw = Some v"
  shows "json_loads exact_float raw = Some v \<and> keys_distinct v \<and> finite_json v"
  using assms exact_tokens.loads_refines [of raw v]
  by (auto simp: parse_response_bytes_def strict_value_def split: if_splits)

section \<open>Amounts are printed as they were read\<close>

lemma dec_nat_length: "0 < m \<Longrightarrow> n < 10 ^ m \<Longrightarrow> length (dec_nat n) \<le> m"
proof (induction n arbitrary: m rule: dec_nat.induct)
  case (1 n)
  show ?case
  proof (cases "n < 10")
    case False
    then obtain m' where m: "m = Suc m'" "0 < m'" using 1(2,3) by (cases m; cases "m - 1") auto
    then have "n div 10 < 10 ^ m'" using 1(3) by (simp add: div_less_iff_less_mult mult.commute)
    then show ?thesis using 1(1) [OF False m(2)] m False by (simp add: dec_nat.simps [of n])
  qed (use 1(2) in \<open>simp add: dec_nat.simps [of n]\<close>)
qed

lemma ten_pow_mono: "d \<le> e \<Longrightarrow> ten_pow d \<le> ten_pow e"
  by (simp add: ten_pow_powi power_int_increasing)

lemma exact_amount_idem:
  assumes "exact_amount v = Inr (s, c, e)"
  shows "exact_amount (MDec (Fin s c e)) = Inr (s, c, e)"
proof -
  obtain d where r: "read_amount v = Inr d" using assms by (cases "read_amount v") (simp_all add: exact_amount_def)
  obtain t k x where f: "d = Fin t k x" using assms r by (cases d) (simp_all add: exact_amount_def unsupported_def)
  obtain k' x' where k: "strip_zeros k x = (k', x')" by fastforce
  have d: "\<not> ten_pow 24 \<le> dec_value (Fin False k x)"
    "k = 0 \<and> (s, c, e) = (False, 0, 0) \<or> k \<noteq> 0 \<and> strip_zeros k x = (c, e) \<and> - 12 \<le> e \<and> s = t"
    using assms by (auto simp: exact_amount_def r f k unsupported_def simp del: dec_value.simps split: if_splits)
  show ?thesis
  proof (cases "k = 0")
    case True
    then show ?thesis using d(2) by (simp add: exact_amount_def read_amount_def dec_nat.simps ten_pow_def signed_def)
  next
    case False
    then have st: "strip_zeros k x = (c, e)" "- 12 \<le> e" using d(2) by auto
    then have c: "c mod 10 \<noteq> 0" and small: "dec_value (Fin False c e) < ten_pow 24"
      using strip_zeros_canonical [OF st(1), of False] d(1) False by auto
    then have s: "of_nat c * ten_pow e < ten_pow 24" by (simp add: signed_def)
    have "1 \<le> c" using c by (cases c) auto
    then have "ten_pow e \<le> of_nat c * ten_pow e" by simp
    then have e: "e < 24" using s ten_pow_mono [of 24 e] by linarith
    have "of_nat c * ten_pow (- 12) \<le> of_nat c * ten_pow e"
      by (intro mult_left_mono ten_pow_mono st(2)) simp
    then have "of_nat c * ten_pow (- 12) < ten_pow 36 * ten_pow (- 12)"
      using s ten_pow_add [of 36 "- 12", simplified] by linarith
    then have "rat_of_nat c < ten_pow 36" by simp
    then have "rat_of_nat c < of_nat (10 ^ 36)" by (simp add: ten_pow_def)
    then have "c < 10 ^ 36" by (simp only: of_nat_less_iff)
    then have "length (dec_nat c) \<le> 38" using dec_nat_length [of 36 c] by simp
    moreover have "\<bar>e\<bar> \<le> 38" using e st(2) by linarith
    ultimately show ?thesis
      using small c e st(2) \<open>1 \<le> c\<close> strip_zeros_steps(2) [of c e]
      by (simp add: exact_amount_def read_amount_def del: dec_value.simps)
  qed
qed

lemma dump_row_amount:
  assumes "award_row j = Inr r"
  obtains t where "amount_text (money_of (fw_amount j)) = Inr t" "is_ok (dump_row r)"
    "\<And>d. dump_row r = Inr d \<Longrightarrow> jget ''award_amount'' d = Some (JStr t) \<and> jget ''generated_internal_id'' d = Some (JStr (fw_generated j))
       \<and> jget ''recipient_name'' d = Some (JStr (fw_recipient j)) \<and> jget ''awarding_agency'' d = Some (JStr DOT)
       \<and> jget ''awarding_sub_agency'' d = Some (JStr FAA)"
proof -
  obtain s c e where a: "exact_amount (money_of (fw_amount j)) = Inr (s, c, e)" "r = with_amount (s, c, e) j" "exact_attribution j"
    using assms by (auto simp: award_row_def rbind_Inr_iff split: if_splits)
  have "amount_text (money_of (fw_amount j)) = Inr (format_f s c e)" "amount_text (MDec (Fin s c e)) = Inr (format_f s c e)"
    using a(1) exact_amount_idem [OF a(1)] by (simp_all add: amount_text_def)
  then show thesis using that a(2,3) by (simp add: dump_row_def with_amount_def exact_attribution_def)
qed

lemma scope_renders:
  assumes "scope_ok q"
  shows "wire_bytes q \<noteq> None" "effective_scope_json q \<noteq> None" "faa_query_fingerprint w q \<noteq> None"
proof -
  obtain body where "faa_payload q = Some body" "finite_json body"
    using assms by (simp add: faa_payload_def list_all_iff)
  moreover have "finite_json (scope_json q)" by (simp add: scope_json_def list_all_iff)
  ultimately show "wire_bytes q \<noteq> None" "effective_scope_json q \<noteq> None" "faa_query_fingerprint w q \<noteq> None"
    by (simp_all add: wire_bytes_def effective_scope_json_def faa_query_fingerprint_def dumps_def)
qed

end
