(* ===== verification/FaaAdapter.thy ===== *)
theory FaaAdapter
  imports FaaProfile
begin

text \<open>
  \<open>channel_b/faa_adapter_v1.py\<close>: the single attempt of the FAA profile over a synthetic transport, the
  independent check the gateway makes of what it returned, and the startup contract that names both. What
  the transport does, the clock and the class of an exception raised while reading the body are inputs.
\<close>

section \<open>One attempt\<close>

datatype faa_wire =
    FAnswer nat bool string                \<comment> \<open>status, JSON content type, body\<close>
  | FTimedOut string "nat option"          \<comment> \<open>class of the exception, status if a response had begun\<close>
  | FRequestError string "nat option"
  | FInterrupted string                    \<comment> \<open>an exception the adapter does not handle\<close>

record faa_env =
  fx_elapsed :: rat
  fx_now :: string
  fx_class :: string
  fx_wire :: faa_wire

record faa_outcome = request_outcome +
  fo_bytes :: string

record faa_call =
  fc_batch :: data_batch
  fc_outcome :: "request_outcome + faa_outcome"    \<comment> \<open>\<open>Inr\<close>: a \<open>FaaResponseOutcome\<close>\<close>

definition faa_attempt :: "faa_env \<Rightarrow> nat option \<Rightarrow> string option \<Rightarrow> bool \<Rightarrow> attempt_record" where
  "faa_attempt e st x transport =
     \<lparr>at_attempt = 1, at_max_attempts = 1, at_elapsed_ms = fx_elapsed e * 1000,
      at_dispatch = (if st \<noteq> None then REQUEST_CONFIRMED else DISPATCH_UNKNOWN),
      at_response = (if transport then TRANSPORT_ERROR else RESPONSE_RECEIVED), at_exception = x, at_status = st,
      at_received = (st \<noteq> None), at_retry_after = None, at_decision = (if x \<noteq> None then RD_BLOCKED else RD_NONE),
      at_reason = (if x \<noteq> None then ''FAA-C1 single attempt; no retry'' else ''success'')\<rparr>"

definition faa_error :: "string \<Rightarrow> attempt_record list \<Rightarrow> string \<Rightarrow> adapter_exn" where
  "faa_error code ats query = AdapterRaised ((AdapterError code False)
     \<lparr>ae_attempts := ats, ae_query := Some query, ae_retry_class := ''UNSAFE''\<rparr>)"

definition FaaFixtureAdapter :: "bool \<Rightarrow> adapter option" where
  "FaaFixtureAdapter mock = (if mock then USAspending True (Some 1) else None)"

text \<open>\<open>obj.get("page_metadata", {}).get("hasNext", False)\<close>; \<open>None\<close>: an attribute or type error.\<close>

definition reported_more :: "json \<Rightarrow> bool option" where
  "reported_more obj = (case jget_or (JObj []) ''page_metadata'' obj of
       JObj ms \<Rightarrow> (case map_of ms ''hasNext'' of None \<Rightarrow> Some False | Some (JBool b) \<Rightarrow> Some b | Some _ \<Rightarrow> None)
     | _ \<Rightarrow> None)"

definition faa_provenance :: "libs \<Rightarrow> faa_env \<Rightarrow> string \<Rightarrow> json \<Rightarrow> provenance option" where
  "faa_provenance w e query obj = (case (jget ''results'' obj, Money.response_fingerprint w obj, reported_more obj) of
       (Some (JList rows), Inr fp, Some has_more) \<Rightarrow>
         (let pv = \<lparr>source_system = ''CIVICGATE_TEST_FIXTURE'', source_type = ''SYNTHETIC_TEST_FIXTURE'',
              retrieved_at = fx_now e, query_fingerprint = query, response_fingerprint = fp,
              endpoint = ENDPOINT, records_returned = int (length rows), truncated = has_more\<rparr>
          in if provenance_ok pv then Some pv else None)
     | _ \<Rightarrow> None)"

text \<open>What the body comes to: \<open>None\<close> is any of the errors reported as a conflicting result.\<close>

definition faa_read :: "page_reader \<Rightarrow> libs \<Rightarrow> faa_env \<Rightarrow> faa_scope \<Rightarrow> string \<Rightarrow> string \<Rightarrow> faa_call option" where
  "faa_read rd w e q query body =
     Option.bind (parse_response_bytes body) (\<lambda>obj. Option.bind (faa_provenance w e query obj) (\<lambda>pv.
     Option.bind (validate_synthetic_page rd w q body pv 200 ''application/json'') (\<lambda>page.
       case each_ok dump_row (vp_records page) of Inl _ \<Rightarrow> None
       | Inr rows \<Rightarrow> if batch_ok \<lparr>d_records = rows, d_provenance = pv\<rparr> then
           Some \<lparr>fc_batch = \<lparr>d_records = rows, d_provenance = pv\<rparr>,
             fc_outcome = Inr \<lparr>o_raw = obj, o_query = query, o_attempts = [faa_attempt e (Some 200) None False],
               o_retry_class = ''UNSAFE'', fo_bytes = body\<rparr>\<rparr> else None)))"

definition find_faa :: "page_reader \<Rightarrow> libs \<Rightarrow> faa_env \<Rightarrow> faa_scope \<Rightarrow> adapter_exn + faa_call" where
  "find_faa rd w e q = (case (wire_bytes q, faa_query_fingerprint w q) of
       (Some _, Some query) \<Rightarrow>
         (case fx_wire e of
            FInterrupted x \<Rightarrow> Inl (AdapterOther x)
          | FTimedOut x st \<Rightarrow> Inl (faa_error ''TIMEOUT'' [faa_attempt e st (Some x) True] query)
          | FRequestError x st \<Rightarrow> Inl (faa_error ''NETWORK_ERROR'' [faa_attempt e st (Some x) True] query)
          | FAnswer st js body \<Rightarrow>
              if st \<noteq> 200 \<or> \<not> js \<or> MAX_BYTES < utf8_length body
              then Inl (faa_error ''CONFLICTING_SOURCE_RESULTS'' [faa_attempt e (Some st) (Some ''ValueError'') False] query)
              else (case faa_read rd w e q query body of
                  None \<Rightarrow> Inl (faa_error ''CONFLICTING_SOURCE_RESULTS'' [faa_attempt e (Some st) (Some (fx_class e)) False] query)
                | Some call \<Rightarrow> Inr call))
     | _ \<Rightarrow> Inl (AdapterOther ''ValidationError''))"

section \<open>The check of the gateway\<close>

definition conflicting :: "request_outcome \<Rightarrow> adapter_exn" where
  "conflicting out = faa_error ''CONFLICTING_SOURCE_RESULTS'' (o_attempts out) (o_query out)"

definition single_attempt :: "attempt_record list \<Rightarrow> bool" where
  "single_attempt ats = (case ats of
       [a] \<Rightarrow> at_status a = Some 200 \<and> at_dispatch a = REQUEST_CONFIRMED \<and> at_response a = RESPONSE_RECEIVED
         \<and> at_max_attempts a = 1 \<and> at_attempt a = 1
     | _ \<Rightarrow> False)"

definition faa_result_ok :: "page_reader \<Rightarrow> libs \<Rightarrow> faa_scope \<Rightarrow> data_batch \<Rightarrow> faa_outcome \<Rightarrow> bool" where
  "faa_result_ok rd w q b out = (scope_ok q \<and> (case parse_response_bytes (fo_bytes out) of None \<Rightarrow> False
     | Some original \<Rightarrow>
         is_ok (canonical_response original) \<and> canonical_response original = canonical_response (o_raw out)
         \<and> (case validate_synthetic_page rd w q (fo_bytes out) (d_provenance b) 200 ''application/json'' of None \<Rightarrow> False
            | Some page \<Rightarrow>
                faa_query_fingerprint w q = Some (o_query out)
                \<and> (case each_ok dump_row (vp_records page) of Inl _ \<Rightarrow> False
                   | Inr rows \<Rightarrow> py_eq (JList (d_records b)) (JList rows))
                \<and> single_attempt (o_attempts out))))"

definition faa_validate :: "page_reader \<Rightarrow> libs \<Rightarrow> faa_scope \<Rightarrow> faa_call \<Rightarrow> adapter_exn + unit" where
  "faa_validate rd w q c = (case fc_outcome c of
       Inl out \<Rightarrow> Inl (conflicting out)
     | Inr out \<Rightarrow> if faa_result_ok rd w q (fc_batch c) out then Inr ()
         else Inl (conflicting (request_outcome.truncate out)))"

definition FAA_C1 :: "libs \<Rightarrow> contract option" where
  "FAA_C1 w = InvocationContract w ''CHANNEL_B_FAA_C1_V1'' ''FaaScopeV1'' [''awarding_agency'']"

section \<open>What passes the check\<close>

text \<open>The rows of the decoded page, as the reader of the models reads them.\<close>

definition reads_row :: "json \<Rightarrow> json faa_row \<Rightarrow> bool" where
  "reads_row j r \<longleftrightarrow> jget ''generated_internal_id'' j = Some (JStr (fw_generated r))
     \<and> jget ''Recipient Name'' j = Some (JStr (fw_recipient r)) \<and> jget ''Award Amount'' j = Some (fw_amount r)
     \<and> jget ''Awarding Agency'' j = Some (JStr (fw_agency r)) \<and> jget ''Awarding Sub Agency'' j = Some (JStr (fw_sub_agency r))"

definition reads_pages :: "page_reader \<Rightarrow> bool" where
  "reads_pages rd \<longleftrightarrow> (\<forall>obj p. rd obj = Some p \<longrightarrow>
     (\<exists>rows. jget ''results'' obj = Some (JList rows) \<and> list_all2 reads_row rows (fp_results p)))"

text \<open>A released record says of its row what the row says, with the amount in its canonical spelling.\<close>

definition releases :: "json \<Rightarrow> json \<Rightarrow> bool" where
  "releases row rec \<longleftrightarrow>
     jget ''Awarding Agency'' row = Some (JStr DOT) \<and> jget ''Awarding Sub Agency'' row = Some (JStr FAA)
     \<and> (\<exists>i n a t. jget ''generated_internal_id'' row = Some (JStr i) \<and> jget ''generated_internal_id'' rec = Some (JStr i)
        \<and> jget ''Recipient Name'' row = Some (JStr n) \<and> jget ''recipient_name'' rec = Some (JStr n)
        \<and> jget ''Award Amount'' row = Some a \<and> amount_text (money_of a) = Inr t
        \<and> jget ''award_amount'' rec = Some (JStr t))"

lemma releases_row:
  assumes "reads_row j r" "award_row r = Inr v" "dump_row v = Inr d"
  shows "releases j d"
proof -
  obtain t where t: "amount_text (money_of (fw_amount r)) = Inr t" "jget ''award_amount'' d = Some (JStr t)"
    "jget ''generated_internal_id'' d = Some (JStr (fw_generated r))" "jget ''recipient_name'' d = Some (JStr (fw_recipient r))"
    using dump_row_amount [OF assms(2)] assms(3) by metis
  have "fw_agency r = DOT" "fw_sub_agency r = FAA"
    using assms(2) by (auto simp: award_row_def rbind_Inr_iff exact_attribution_def split: if_splits)
  then show ?thesis using assms(1) t by (simp add: releases_def reads_row_def)
qed

lemma list_all2_releases:
  "list_all2 reads_row js rs \<Longrightarrow> list_all2 (\<lambda>r v. award_row r = Inr v) rs vs \<Longrightarrow> list_all2 (\<lambda>v d. dump_row v = Inr d) vs ds
   \<Longrightarrow> list_all2 releases js ds"
  by (simp add: list_all2_conv_all_nth) (metis releases_row)

lemma validated_pageD:
  assumes "validate_synthetic_page rd w q raw pv status content = Some page"
  obtains obj p raw_page where "parse_response_bytes raw = Some obj" "rd obj = Some raw_page" "award_page raw_page = Inr p"
    "page_in_scope q p" "provenance_binds w q obj p pv" "vp_records page = fp_results p" "scope_ok q"
  using assms by (auto simp: validate_synthetic_page_def read_award_page_def bind_eq_Some_conv split: if_splits sum.splits)

lemma list_all2_map_eq: "list_all2 R xs ys \<Longrightarrow> (\<And>x y. R x y \<Longrightarrow> f x = g y) \<Longrightarrow> map f xs = map g ys"
  by (induction rule: list_all2_induct) auto

lemma distinct_map_some: "distinct (map f xs) \<Longrightarrow> distinct (map (\<lambda>x. Some (JStr (f x))) xs)"
  by (induction xs) auto

lemma faa_result_okD:
  assumes "faa_result_ok rd w q b out"
  obtains page recs where
    "validate_synthetic_page rd w q (fo_bytes out) (d_provenance b) 200 ''application/json'' = Some page"
    "each_ok dump_row (vp_records page) = Inr recs" "py_eq (JList (d_records b)) (JList recs)"
    "single_attempt (o_attempts out)"
proof -
  obtain page where page: "validate_synthetic_page rd w q (fo_bytes out) (d_provenance b) 200 ''application/json'' = Some page"
    "case each_ok dump_row (vp_records page) of Inl _ \<Rightarrow> False | Inr rows \<Rightarrow> py_eq (JList (d_records b)) (JList rows)"
    "single_attempt (o_attempts out)"
    using assms unfolding faa_result_ok_def by (auto split: option.splits)
  then show thesis using that by (cases "each_ok dump_row (vp_records page)") auto
qed

lemma py_eq_JList: "py_eq (JList xs) (JList ys) \<longleftrightarrow> list_all2 py_eq xs ys"
  by (auto simp: py_eq_def list_all2_conv_all_nth list_eq_iff_nth_eq)

text \<open>
  C25. What passes the gateway's check is the page in the bytes: if the validator accepts a call, whatever
  adapter made it, then the retained bytes decode strictly to one page whose rows are all attributed to the
  Federal Aviation Administration within the Department of Transportation, at most as many as the scope
  allows and under distinct identifiers; the records are exactly the dumps of those rows, with the exact
  amount of each; and the provenance carries the fingerprints of this query and of this content.
\<close>

theorem faa_release_sound:
  assumes "faa_validate rd w q c = Inr ()" "reads_pages rd"
  shows "\<exists>out obj rows recs. fc_outcome c = Inr out \<and> parse_response_bytes (fo_bytes out) = Some obj
    \<and> jget ''results'' obj = Some (JList rows) \<and> list_all2 releases rows recs
    \<and> py_eq (JList (d_records (fc_batch c))) (JList recs)
    \<and> int (length rows) \<le> fs_limit q \<and> fs_limit q \<le> 100 \<and> distinct (map (jget ''generated_internal_id'') rows)
    \<and> faa_query_fingerprint w q = Some (query_fingerprint (d_provenance (fc_batch c)))
    \<and> Money.response_fingerprint w obj = Inr (provenance.response_fingerprint (d_provenance (fc_batch c)))
    \<and> single_attempt (o_attempts out)"
proof -
  obtain out page recs where out: "fc_outcome c = Inr out"
    "validate_synthetic_page rd w q (fo_bytes out) (d_provenance (fc_batch c)) 200 ''application/json'' = Some page"
    "each_ok dump_row (vp_records page) = Inr recs" "py_eq (JList (d_records (fc_batch c))) (JList recs)"
    "single_attempt (o_attempts out)"
    using assms(1) by (auto simp: faa_validate_def split: sum.splits if_splits elim!: faa_result_okD)
  from out(2) obtain obj p raw_page where p: "parse_response_bytes (fo_bytes out) = Some obj" "rd obj = Some raw_page"
    "award_page raw_page = Inr p" "page_in_scope q p" "provenance_binds w q obj p (d_provenance (fc_batch c))"
    "vp_records page = fp_results p" "scope_ok q" by (rule validated_pageD)
  obtain rows where rows: "jget ''results'' obj = Some (JList rows)" "list_all2 reads_row rows (fp_results raw_page)"
    using assms(2) p(2) by (auto simp: reads_pages_def)
  have aw: "list_all2 (\<lambda>r v. award_row r = Inr v) (fp_results raw_page) (fp_results p)"
    using p(3) by (auto simp: award_page_def rbind_Inr_iff each_ok_Inr_list_all2 split: if_splits)
  have "map (jget ''generated_internal_id'') rows = map (\<lambda>r. Some (JStr (fw_generated r))) (fp_results raw_page)"
    by (rule list_all2_map_eq [OF rows(2)]) (simp add: reads_row_def)
  moreover have "map fw_generated (fp_results raw_page) = map fw_generated (fp_results p)"
    by (rule list_all2_map_eq [OF aw]) (auto simp: award_row_def rbind_Inr_iff with_amount_def split: if_splits)
  moreover have "distinct (map fw_generated (fp_results p))" using p(4) by (simp add: page_in_scope_def)
  ultimately have "distinct (map (jget ''generated_internal_id'') rows)"
    using distinct_map_some [of fw_generated "fp_results raw_page"] by simp
  moreover have "list_all2 releases rows recs"
    using list_all2_releases [OF rows(2) aw] out(3) p(6) by (simp add: each_ok_Inr_list_all2)
  moreover have "int (length rows) \<le> fs_limit q"
    using p(4) list_all2_lengthD [OF rows(2)] list_all2_lengthD [OF aw] by (simp add: page_in_scope_def)
  moreover have "fs_limit q \<le> 100" using p(7) by (simp add: scope_ok_def)
  ultimately show ?thesis using out p(1,5) rows(1) by (auto simp: provenance_binds_def)
qed

lemma find_faa_validates:
  assumes "find_faa rd w e q = Inr call"
  shows "faa_validate rd w q call = Inr ()"
proof -
  obtain query body where read: "faa_query_fingerprint w q = Some query" "faa_read rd w e q query body = Some call"
    using assms by (auto simp: find_faa_def split: option.splits faa_wire.splits if_splits)
  then obtain obj pv page where r: "parse_response_bytes body = Some obj" "faa_provenance w e query obj = Some pv"
    "validate_synthetic_page rd w q body pv 200 ''application/json'' = Some page"
    and k: "(case each_ok dump_row (vp_records page) of Inl _ \<Rightarrow> None
       | Inr rows \<Rightarrow> if batch_ok \<lparr>d_records = rows, d_provenance = pv\<rparr> then
           Some \<lparr>fc_batch = \<lparr>d_records = rows, d_provenance = pv\<rparr>,
             fc_outcome = Inr \<lparr>o_raw = obj, o_query = query, o_attempts = [faa_attempt e (Some 200) None False],
               o_retry_class = ''UNSAFE'', fo_bytes = body\<rparr>\<rparr> else None) = Some call"
    unfolding faa_read_def bind_eq_Some_conv by blast
  from k obtain rows where rows: "each_ok dump_row (vp_records page) = Inr rows"
    "call = \<lparr>fc_batch = \<lparr>d_records = rows, d_provenance = pv\<rparr>,
       fc_outcome = Inr \<lparr>o_raw = obj, o_query = query, o_attempts = [faa_attempt e (Some 200) None False],
         o_retry_class = ''UNSAFE'', fo_bytes = body\<rparr>\<rparr>"
    by (cases "each_ok dump_row (vp_records page)") (auto split: if_splits)
  have "is_ok (canonical_response obj)"
    using r(2) by (auto simp: faa_provenance_def response_fingerprint_def rbind_Inr_iff is_ok_iff
        split: option.splits json.splits sum.splits)
  moreover have "scope_ok q" using r(3) by (rule validated_pageD)
  moreover have "single_attempt [faa_attempt e (Some 200) None False]" by (simp add: single_attempt_def faa_attempt_def)
  ultimately show ?thesis using r rows read by (simp add: faa_validate_def faa_result_ok_def)
qed

text \<open>
  The adapter and the gateway agree: every call the adapter returns passes the gateway's independent
  check, so a refusal there always means that the call was changed on the way.
\<close>

theorem faa_call_validates:
  assumes "find_faa rd w e q = Inr call"
  shows "faa_validate rd w q call = Inr ()"
  using assms by (rule find_faa_validates)

section \<open>An instance\<close>

text \<open>A reader of the pages in strict mode, for the instance.\<close>

definition str_at :: "string \<Rightarrow> json \<Rightarrow> string" where
  "str_at k v = (case jget k v of Some (JStr s) \<Rightarrow> s | _ \<Rightarrow> [])"

definition int_at :: "string \<Rightarrow> json \<Rightarrow> int" where
  "int_at k v = (case jget k v of Some (JInt i) \<Rightarrow> i | _ \<Rightarrow> - 1)"

definition row_texts :: "string list" where
  "row_texts = [''generated_internal_id'', ''Award ID'', ''Recipient Name'', ''Awarding Agency'', ''Awarding Sub Agency'',
     ''Funding Agency'', ''Funding Sub Agency'']"

definition strict_row :: "json \<Rightarrow> string + json faa_row" where
  "strict_row j =
     (if same_keys j (''internal_id'' # ''Award Amount'' # row_texts) \<and> is_int (jget_or JNull ''internal_id'' j)
        \<and> list_all (\<lambda>k. is_str (jget_or JNull k j)) row_texts
      then Inr \<lparr>fw_internal_id = int_at ''internal_id'' j, fw_generated = str_at ''generated_internal_id'' j,
        fw_award_id = str_at ''Award ID'' j, fw_recipient = str_at ''Recipient Name'' j,
        fw_amount = jget_or JNull ''Award Amount'' j, fw_agency = str_at ''Awarding Agency'' j,
        fw_sub_agency = str_at ''Awarding Sub Agency'' j, fw_funding = str_at ''Funding Agency'' j,
        fw_funding_sub = str_at ''Funding Sub Agency'' j, fw_slug = None, fw_agency_id = None, fw_recipient_id = None\<rparr>
      else Inl ''ValidationError'')"

definition strict_reader :: page_reader where
  "strict_reader obj = (case jget ''results'' obj of
       Some (JList rows) \<Rightarrow> (case each_ok strict_row rows of Inl _ \<Rightarrow> None
         | Inr rs \<Rightarrow>
             if same_keys obj [''spending_level'', ''limit'', ''results'', ''page_metadata'']
               \<and> same_keys (jget_or JNull ''page_metadata'' obj) [''page'', ''hasNext'']
             then Some \<lparr>fp_level = str_at ''spending_level'' obj, fp_limit = int_at ''limit'' obj, fp_results = rs,
               fp_page = int_at ''page'' (jget_or JNull ''page_metadata'' obj),
               fp_has_next = (jget ''hasNext'' (jget_or JNull ''page_metadata'' obj) = Some (JBool True)),
               fp_last_id = None, fp_last_sort = None, fp_messages = []\<rparr>
             else None)
     | _ \<Rightarrow> None)"

lemma str_at_get: "is_str (jget_or JNull k j) \<Longrightarrow> jget k j = Some (JStr (str_at k j))"
  by (auto simp: jget_or_def str_at_def split: option.splits elim: is_str.elims)

lemma same_keys_jget: "same_keys j ks \<Longrightarrow> k \<in> set ks \<Longrightarrow> jget k j = Some (jget_or JNull k j)"
  by (cases j) (auto simp: same_keys_def jget_or_def map_of_eq_None_iff split: option.splits)

lemma strict_row_reads: "strict_row j = Inr r \<Longrightarrow> reads_row j r"
  by (auto simp: strict_row_def reads_row_def row_texts_def str_at_get same_keys_jget split: if_splits)

lemma strict_reader_reads: "reads_pages strict_reader"
  unfolding reads_pages_def strict_reader_def
  by (auto simp: each_ok_Inr_list_all2 split: option.splits json.splits sum.splits if_splits
      elim!: list_all2_mono intro: strict_row_reads)

definition example_scope :: faa_scope where
  "example_scope = \<lparr>fs_version = FAA_VERSION, fs_method = ''POST'', fs_endpoint = ENDPOINT, fs_agency = FAA,
     fs_type = ''awarding'', fs_tier = ''subtier'', fs_toptier = DOT, fs_year = 2024, fs_start = (2023, 10, 1),
     fs_end = (2024, 9, 30), fs_semantics = ''AWARD_SEARCH_DEFAULT_OVERLAP'', fs_awards = [''A''], fs_page = 1,
     fs_limit = 10, fs_subawards = False, fs_fields = FAA_FIELDS, fs_sort = ''Award Amount'', fs_order = ''desc''\<rparr>"

definition example_page :: json where
  "example_page = JObj [(''limit'', JInt 10), (''page_metadata'', JObj [(''hasNext'', JBool False), (''page'', JInt 1)]),
     (''results'', JList [JObj [(''Award Amount'', JStr ''12.50''), (''Award ID'', JStr ''a''), (''Awarding Agency'', JStr DOT),
        (''Awarding Sub Agency'', JStr FAA), (''Funding Agency'', JStr DOT), (''Funding Sub Agency'', JStr FAA),
        (''Recipient Name'', JStr ''n''), (''generated_internal_id'', JStr ''g''), (''internal_id'', JInt 7)]]),
     (''spending_level'', JStr ''awards'')]"

definition example_faa_env :: faa_env where
  "example_faa_env = \<lparr>fx_elapsed = 0, fx_now = ''t'', fx_class = ''ValueError'', fx_wire = FAnswer 200 True (enc False example_page)\<rparr>"

lemma example_page_scanned: "strict_loads exact_token (enc False example_page) = Some example_page"
  by code_simp
lemma example_page_read: "parse_response_bytes (enc False example_page) = Some example_page"
proof -
  have "utf8_length (enc False example_page) < 1000" by code_simp
  moreover have "enc False example_page \<noteq> []" by (simp add: example_page_def)
  ultimately show ?thesis using example_page_scanned by (simp add: parse_response_bytes_def MAX_BYTES_def)
qed

definition example_award_page :: "amount faa_page" where
  "example_award_page = \<lparr>fp_level = ''awards'', fp_limit = 10, fp_results =
     [\<lparr>fw_internal_id = 7, fw_generated = ''g'', fw_award_id = ''a'', fw_recipient = ''n'', fw_amount = (False, 125, - 1),
       fw_agency = DOT, fw_sub_agency = FAA, fw_funding = DOT, fw_funding_sub = FAA, fw_slug = None, fw_agency_id = None,
       fw_recipient_id = None\<rparr>],
     fp_page = 1, fp_has_next = False, fp_last_id = None, fp_last_sort = None, fp_messages = []\<rparr>"

lemma example_award_page_read: "read_award_page strict_reader example_page = Some example_award_page"
  by code_simp

lemma example_query: "faa_query_fingerprint example_libs example_scope = Some (replicate 64 (CHR ''0''))"
  by code_simp

lemma example_content: "Money.response_fingerprint example_libs example_page = Inr (replicate 64 (CHR ''0''))"
  by code_simp

lemma example_scope_facts: "scope_ok example_scope" "page_in_scope example_scope example_award_page"
  "reported_more example_page = Some False"
  by code_simp+

lemma example_dumped: "\<exists>d. each_ok dump_row (fp_results example_award_page) = Inr [d] \<and> is_obj d"
proof -
  have "exact_amount (MDec (Fin False 125 (- 1))) = Inr (False, 125, - 1)" by code_simp
  then show ?thesis by (simp add: example_award_page_def dump_row_def amount_text_def)
qed

lemma example_find: "\<exists>call. find_faa strict_reader example_libs example_faa_env example_scope = Inr call"
proof -
  define pv where "pv = \<lparr>source_system = ''CIVICGATE_TEST_FIXTURE'', source_type = ''SYNTHETIC_TEST_FIXTURE'',
      retrieved_at = ''t'', query_fingerprint = replicate 64 (CHR ''0''), response_fingerprint = replicate 64 (CHR ''0''),
      endpoint = ENDPOINT, records_returned = 1, truncated = False\<rparr>"
  note render = scope_renders [OF example_scope_facts(1)]
  have ok: "provenance_ok pv" by (simp add: pv_def provenance_ok_def is_hex_replicate ENDPOINT_def)
  have p: "faa_provenance example_libs example_faa_env (replicate 64 (CHR ''0'')) example_page = Some pv"
    using example_content example_scope_facts(3) ok
    by (simp add: faa_provenance_def pv_def example_faa_env_def Let_def) (simp add: example_page_def)
  have size: "enc False example_page \<noteq> []" "\<not> MAX_BYTES < utf8_length (enc False example_page)"
    using example_page_read by (auto simp: parse_response_bytes_def split: if_splits)
  have "provenance_binds example_libs example_scope example_page example_award_page pv"
    using example_query example_content by (simp add: provenance_binds_def pv_def example_scope_def example_award_page_def)
  then obtain page where v: "validate_synthetic_page strict_reader example_libs example_scope (enc False example_page) pv 200 ''application/json'' = Some page"
    "vp_records page = fp_results example_award_page"
    using render(2) size ok example_scope_facts(1,2) example_page_read example_award_page_read
    by (auto simp: validate_synthetic_page_def)
  obtain d where d: "each_ok dump_row (fp_results example_award_page) = Inr [d]" "is_obj d" using example_dumped by blast
  have "batch_ok \<lparr>d_records = [d], d_provenance = pv\<rparr>"
    using d(2) by (simp add: batch_ok_def pv_def is_hex_replicate ENDPOINT_def)
  then show ?thesis
    using render(1) example_query size p v d example_page_read
    by (auto simp: find_faa_def faa_read_def example_faa_env_def)
qed

theorem faa_call_validates_witness:
  "\<exists>call. find_faa strict_reader example_libs example_faa_env example_scope = Inr call
     \<and> faa_validate strict_reader example_libs example_scope call = Inr ()"
  using example_find faa_call_validates by blast

theorem faa_release_sound_witness:
  "\<exists>call out obj rows. find_faa strict_reader example_libs example_faa_env example_scope = Inr call
     \<and> fc_outcome call = Inr out \<and> parse_response_bytes (fo_bytes out) = Some obj \<and> jget ''results'' obj = Some (JList rows)
     \<and> int (length rows) \<le> 10"
proof -
  obtain call where call: "find_faa strict_reader example_libs example_faa_env example_scope = Inr call"
    using example_find by blast
  from faa_release_sound [OF find_faa_validates [OF call] strict_reader_reads] call
  show ?thesis by (force simp: example_scope_def)
qed

theorem strict_parse_refines_witness:
  "json_loads exact_float (enc False example_page) = Some example_page"
  using strict_parse_refines [OF example_page_read] by simp

end
