(* ===== verification/WriteStore.thy ===== *)
theory WriteStore
  imports Journal
begin

text \<open>
  \<open>evals/write01/store_v1.py\<close>: the review store of the synthetic write channel. Each operation first
  validates the whole store (\<open>_validate\<close>): every intent, receipt, note and state has to explain the
  others. An operation reads and writes within one immediate transaction, so it is one step over the
  store; \<open>commit\<close> is two, between which other processes may act. A \<open>review_env\<close> gives the bytes of the data
  set, SQLite's answers, the fate of the commit and the stages at which the injected fault raises (an exception
  that is no \<open>StoreError\<close>). A failing statement leaves the store as it was. Text is characters below 256; the identifiers of the data
  set are strings.
\<close>

section \<open>The contract of the store\<close>

definition DATASET_SHA256 :: string where
  "DATASET_SHA256 = ''7aa5521b2cd4010d8a4e66d847eb599c5368cb92b36e1a250e54c66d88c3569d''"

definition STORE_VERSION :: string where "STORE_VERSION = ''WRITE01_REVIEW_STORE_V1''"

record store_error =
  serr_code :: string
  serr_uncertain :: bool

definition StoreError :: "string \<Rightarrow> store_error" where
  "StoreError c = \<lparr>serr_code = c, serr_uncertain = False\<rparr>"

definition UncertainError :: "string \<Rightarrow> store_error" where
  "UncertainError c = \<lparr>serr_code = c, serr_uncertain = True\<rparr>"

record intent_row =
  in_operation_id :: string
  in_award :: string
  in_key :: string
  in_operation :: string         \<comment> \<open>JSON text\<close>
  in_operation_sha :: string
  in_binding :: string
  in_open :: bool
  in_started :: bool
  in_receipt :: "string option"  \<comment> \<open>JSON text\<close>
  in_receipt_sha :: "string option"

record state_row =
  sr_award :: string
  sr_status :: string
  sr_version :: int

record note_row =
  nt_operation :: string
  nt_award :: string
  nt_version :: int
  nt_note :: string

record review_db =
  rd_metadata :: "(string \<times> string) list"
  rd_states :: "state_row list"
  rd_intents :: "intent_row list"
  rd_notes :: "note_row list"

datatype review_file = NoStore | Incomplete | Review review_db

record review_env =
  se_dataset :: "string option"      \<comment> \<open>the bytes read\<close>
  se_path :: bool                    \<comment> \<open>no symbolic link on the path\<close>
  se_sql :: bool                     \<comment> \<open>the connection opens\<close>
  se_begin :: bool                   \<comment> \<open>\<open>BEGIN\<close> takes its lock\<close>
  se_read :: bool                    \<comment> \<open>the statements of \<open>_validate\<close> succeed\<close>
  se_quick :: bool                   \<comment> \<open>\<open>PRAGMA quick_check\<close> says ok\<close>
  se_write :: bool                   \<comment> \<open>the statements that write succeed\<close>
  se_commit :: commit_fate
  se_fault :: "string \<Rightarrow> bool"       \<comment> \<open>the stages at which the fault raises\<close>

record review_store =
  rs_id :: string
  rs_ids :: "string list"

definition id_ok :: "string \<Rightarrow> bool" where
  "id_ok s \<longleftrightarrow> 0 < length s \<and> length s \<le> 128
     \<and> list_all (\<lambda>c. ascii_upper c \<or> ascii_lower c \<or> ascii_digit c \<or> c \<in> set ''_.:-'') s"

definition canonical_store :: "json \<Rightarrow> string option" where
  "canonical_store v = dumps False v"

text \<open>\<open>_object\<close>: \<open>None\<close> for a \<open>ValueError\<close>.\<close>

definition object_of :: "libs \<Rightarrow> string \<Rightarrow> (string + json) option" where
  "object_of w raw = (case json_loads (float_of w) raw of None \<Rightarrow> None
     | Some v \<Rightarrow> Some (if is_obj v then Inr v else Inl ''STORE_EVIDENCE_INVALID''))"

definition dataset_ids :: "libs \<Rightarrow> string option \<Rightarrow> string + string list" where
  "dataset_ids w raw = (case raw of None \<Rightarrow> Inl ''DATASET_UNAVAILABLE_OR_INVALID''
     | Some s \<Rightarrow>
         if sha256 w s \<noteq> DATASET_SHA256 then Inl ''DATASET_IDENTITY_MISMATCH''
         else (case json_loads (float_of w) s of None \<Rightarrow> Inl ''DATASET_UNAVAILABLE_OR_INVALID''
           | Some v \<Rightarrow> (case jget ''records'' v of
               Some (JObj []) \<Rightarrow> Inl ''DATASET_CONTRACT_INVALID''
             | Some (JStr []) \<Rightarrow> Inl ''DATASET_CONTRACT_INVALID''
             | Some (JList rs) \<Rightarrow>
                 if \<not> list_all (\<lambda>r. is_str (jget_or JNull ''award_id'' r)) rs then Inl ''DATASET_UNAVAILABLE_OR_INVALID''
                 else (let ids = map (\<lambda>r. the (as_str (jget_or JNull ''award_id'' r))) rs in
                   if length ids \<noteq> 40 \<or> \<not> distinct ids then Inl ''DATASET_CONTRACT_INVALID''
                   else (case jget ''classification'' v of None \<Rightarrow> Inl ''DATASET_UNAVAILABLE_OR_INVALID''
                     | Some c \<Rightarrow>
                         if c \<noteq> JStr ''SYNTHETIC'' then Inl ''DATASET_CONTRACT_INVALID''
                         else (case find (\<lambda>r. jget ''review_status'' r \<noteq> Some (JStr ''UNREVIEWED'')) rs of
                             None \<Rightarrow> Inr ids
                           | Some r \<Rightarrow> Inl (if jget ''review_status'' r = None then ''DATASET_UNAVAILABLE_OR_INVALID''
                               else ''DATASET_CONTRACT_INVALID''))))
             | _ \<Rightarrow> Inl ''DATASET_UNAVAILABLE_OR_INVALID'')))"

section \<open>Operations\<close>

definition QUERY_FIELDS :: "string list" where
  "QUERY_FIELDS = [''award_id'', ''expected_version'', ''proposed_status'', ''reviewer_note'', ''idempotency_key'']"

abbreviation query_of :: "json \<Rightarrow> json" where "query_of v \<equiv> jget_or JNull ''query'' v"
abbreviation qfield :: "json \<Rightarrow> string \<Rightarrow> json" where "qfield v k \<equiv> jget_or JNull k (query_of v)"

definition note_ok :: "json \<Rightarrow> bool" where
  "note_ok v = (case v of
      JStr s \<Rightarrow> 1 \<le> length s \<and> length s \<le> 1000 \<and> utf8_length s \<le> 4000
        \<and> list_all (\<lambda>c. (32::nat) \<le> of_char c \<or> c = CHR 0x0A \<or> c = CHR 0x09) s
    | _ \<Rightarrow> False)"

definition key_ok :: "json \<Rightarrow> bool" where
  "key_ok v = (case v of JStr s \<Rightarrow> id_ok s | _ \<Rightarrow> False)"

definition version_ok :: "json \<Rightarrow> bool" where
  "version_ok v = (case v of JInt i \<Rightarrow> 0 \<le> i | _ \<Rightarrow> False)"

definition provenance_text_ok :: "json \<Rightarrow> bool" where
  "provenance_text_ok v = (case v of JStr s \<Rightarrow> s \<noteq> [] \<and> length s \<le> 4000 | _ \<Rightarrow> False)"

definition listed :: "review_store \<Rightarrow> json \<Rightarrow> bool" where
  "listed b v = (case v of JStr s \<Rightarrow> s \<in> set (rs_ids b) | _ \<Rightarrow> False)"

text \<open>A missing key is a \<open>KeyError\<close>: \<open>OPERATION_INVALID\<close>.\<close>

definition operation_gates :: "review_store \<Rightarrow> json \<Rightarrow> string + json" where
  "operation_gates b v =
     (if jget ''dataset_sha256'' v = None \<or> jget ''dataset_sha256'' v = Some (JStr DATASET_SHA256) \<and> jget ''store_id'' v = None
      then Inl ''OPERATION_INVALID''
      else guarded
        [(jget ''dataset_sha256'' v = Some (JStr DATASET_SHA256) \<and> jget ''store_id'' v = Some (JStr (rs_id b)), ''OPERATION_CONTEXT_MISMATCH''),
         (jget ''query'' v \<noteq> None, ''OPERATION_INVALID''),
         (same_keys (query_of v) QUERY_FIELDS, ''OPERATION_QUERY_INVALID''),
         (listed b (qfield v ''award_id''), ''UNKNOWN_SYNTHETIC_AWARD''),
         (version_ok (qfield v ''expected_version''), ''EXPECTED_VERSION_INVALID''),
         (qfield v ''proposed_status'' = JStr ''PENDING_REVIEW'', ''TRANSITION_NOT_SUPPORTED''),
         (note_ok (qfield v ''reviewer_note''), ''NOTE_INVALID''),
         (key_ok (qfield v ''idempotency_key''), ''IDEMPOTENCY_KEY_INVALID''),
         (jget ''owner_id'' v \<noteq> None, ''OPERATION_INVALID''),
         (provenance_text_ok (jget_or JNull ''owner_id'' v), ''OPERATION_PROVENANCE_INVALID''),
         (jget ''approval_ref'' v \<noteq> None, ''OPERATION_INVALID''),
         (provenance_text_ok (jget_or JNull ''approval_ref'' v), ''OPERATION_PROVENANCE_INVALID''),
         (jget ''original_request'' v \<noteq> None, ''OPERATION_INVALID''),
         (provenance_text_ok (jget_or JNull ''original_request'' v), ''OPERATION_PROVENANCE_INVALID'')]
        (Inr v))"

definition store_operation :: "libs \<Rightarrow> review_store \<Rightarrow> json \<Rightarrow> string + json" where
  "store_operation w b operation =
     (case Option.bind (canonical_store operation) (object_of w) of
        None \<Rightarrow> Inl ''OPERATION_INVALID''
      | Some r \<Rightarrow> rbind r (operation_gates b))"

abbreviation op_award :: "json \<Rightarrow> string" where "op_award v \<equiv> the (as_str (qfield v ''award_id''))"
abbreviation op_key :: "json \<Rightarrow> string" where "op_key v \<equiv> the (as_str (qfield v ''idempotency_key''))"
abbreviation op_note :: "json \<Rightarrow> string" where "op_note v \<equiv> the (as_str (qfield v ''reviewer_note''))"
abbreviation op_version :: "json \<Rightarrow> int" where "op_version v \<equiv> the (as_int (qfield v ''expected_version''))"

definition store_text :: "json \<Rightarrow> string" where
  "store_text v = the (canonical_store v)"

definition before_json :: "json \<Rightarrow> json" where
  "before_json v = JObj [(''award_id'', JStr (op_award v)), (''dataset_sha256'', JStr DATASET_SHA256),
     (''status'', JStr ''UNREVIEWED''), (''version'', JInt 0), (''notes'', JList [])]"

definition after_json :: "json \<Rightarrow> json" where
  "after_json v = JObj [(''award_id'', JStr (op_award v)), (''dataset_sha256'', JStr DATASET_SHA256),
     (''status'', JStr ''PENDING_REVIEW''), (''version'', JInt 1), (''notes'', JList [JStr (op_note v)])]"

definition store_receipt :: "libs \<Rightarrow> review_store \<Rightarrow> string \<Rightarrow> json \<Rightarrow> string \<Rightarrow> json" where
  "store_receipt w b i v binding = JObj
     [(''contract'', JStr STORE_VERSION), (''store_id'', JStr (rs_id b)), (''operation_id'', JStr i), (''operation'', v),
      (''operation_sha256'', JStr (sha256 w (store_text v))), (''binding_sha256'', JStr binding),
      (''before'', before_json v), (''after'', after_json v),
      (''before_sha256'', JStr (sha256 w (store_text (before_json v)))),
      (''after_sha256'', JStr (sha256 w (store_text (after_json v)))),
      (''transaction_outcome'', JStr ''COMMITTED'')]"

section \<open>The validation of the store\<close>

text \<open>
  A committed intent contributes its award, operation and note. The receipt on record equals the one
  rebuilt from the intent, so these are the values the code reads from the receipt.
\<close>

type_synonym committed = "(string \<times> string \<times> string) list"

definition row_operation :: "libs \<Rightarrow> review_store \<Rightarrow> intent_row \<Rightarrow> string + json" where
  "row_operation w b r = (case object_of w (in_operation r) of
      None \<Rightarrow> Inl ''STORE_INVALID_OR_UNAVAILABLE''
    | Some (Inl c) \<Rightarrow> Inl c
    | Some (Inr v) \<Rightarrow> store_operation w b v)"

definition operation_matches :: "libs \<Rightarrow> intent_row \<Rightarrow> json \<Rightarrow> bool" where
  "operation_matches w r v \<longleftrightarrow> canonical_store v = Some (in_operation r)
     \<and> sha256 w (in_operation r) = in_operation_sha r
     \<and> op_award v = in_award r \<and> op_key v = in_key r \<and> is_hex 64 (in_binding r)"

definition receipt_matches :: "libs \<Rightarrow> review_store \<Rightarrow> intent_row \<Rightarrow> json \<Rightarrow> string \<Rightarrow> json \<Rightarrow> committed \<Rightarrow> bool" where
  "receipt_matches w b r v raw receipt acc \<longleftrightarrow> canonical_store receipt = Some raw
     \<and> Some (sha256 w raw) = in_receipt_sha r
     \<and> py_eq receipt (store_receipt w b (in_operation_id r) v (in_binding r))
     \<and> op_version v = 0 \<and> in_started r \<and> in_award r \<notin> fst ` set acc"

definition validate_intent :: "libs \<Rightarrow> review_store \<Rightarrow> committed \<Rightarrow> intent_row \<Rightarrow> string + committed" where
  "validate_intent w b acc r = rbind (row_operation w b r) (\<lambda>v.
     if \<not> operation_matches w r v then Inl ''STORE_OPERATION_INCONSISTENT''
     else (case in_receipt r of
         None \<Rightarrow> if in_receipt_sha r \<noteq> None \<or> \<not> in_open r then Inl ''STORE_CUSTODY_INCONSISTENT'' else Inr acc
       | Some raw \<Rightarrow> (case object_of w raw of
             None \<Rightarrow> Inl ''STORE_INVALID_OR_UNAVAILABLE''
           | Some (Inl c) \<Rightarrow> Inl c
           | Some (Inr receipt) \<Rightarrow>
               if receipt_matches w b r v raw receipt acc
               then Inr ((in_award r, in_operation_id r, op_note v) # acc)
               else Inl ''STORE_RECEIPT_INCONSISTENT'')))"

fun validate_intents :: "libs \<Rightarrow> review_store \<Rightarrow> committed \<Rightarrow> intent_row list \<Rightarrow> string + committed" where
  "validate_intents w b acc [] = Inr acc"
| "validate_intents w b acc (r # rs) = rbind (validate_intent w b acc r) (\<lambda>acc'. validate_intents w b acc' rs)"

definition references_ok :: "review_db \<Rightarrow> bool" where
  "references_ok d \<longleftrightarrow>
     list_all (\<lambda>r. in_award r \<in> set (map sr_award (rd_states d))) (rd_intents d)
     \<and> list_all (\<lambda>n. nt_operation n \<in> set (map in_operation_id (rd_intents d)) \<and> nt_award n \<in> set (map sr_award (rd_states d))) (rd_notes d)"

definition note_of :: "string \<Rightarrow> review_db \<Rightarrow> note_row option" where
  "note_of a d = find (\<lambda>n. nt_award n = a) (rd_notes d)"

definition state_error :: "committed \<Rightarrow> review_db \<Rightarrow> state_row \<Rightarrow> string option" where
  "state_error acc d s = (case map_of acc (sr_award s) of
      None \<Rightarrow> if sr_status s \<noteq> ''UNREVIEWED'' \<or> sr_version s \<noteq> 0 then Some ''STORE_STATE_WITHOUT_EVIDENCE'' else None
    | Some (i, n) \<Rightarrow>
        if sr_status s \<noteq> ''PENDING_REVIEW'' \<or> sr_version s \<noteq> 1
          \<or> note_of (sr_award s) d \<noteq> Some \<lparr>nt_operation = i, nt_award = sr_award s, nt_version = 1, nt_note = n\<rparr>
        then Some ''STORE_STATE_EVIDENCE_MISMATCH'' else None)"

fun states_error :: "committed \<Rightarrow> review_db \<Rightarrow> state_row list \<Rightarrow> string option" where
  "states_error acc d [] = None"
| "states_error acc d (s # ss) = (case state_error acc d s of Some c \<Rightarrow> Some c | None \<Rightarrow> states_error acc d ss)"

definition store_metadata :: "review_store \<Rightarrow> (string \<times> string) list" where
  "store_metadata b = [(''version'', STORE_VERSION), (''dataset_sha256'', DATASET_SHA256), (''store_id'', rs_id b)]"

definition validate_store :: "libs \<Rightarrow> review_store \<Rightarrow> review_db \<Rightarrow> string + unit" where
  "validate_store w b d = guarded
     [(set (rd_metadata d) = set (store_metadata b), ''STORE_IDENTITY_MISMATCH''),
      (set (map sr_award (rd_states d)) = set (rs_ids b) \<and> length (rd_states d) = 40, ''STORE_TARGET_SET_INVALID''),
      (references_ok d, ''STORE_REFERENCES_INVALID'')]
     (rbind (validate_intents w b [] (rd_intents d)) (\<lambda>acc. guarded
        [(distinct (map nt_award (rd_notes d)) \<and> set (map nt_award (rd_notes d)) = fst ` set acc, ''STORE_NOTES_INCONSISTENT''),
         (\<not> list_ex (\<lambda>r. in_receipt r = None \<and> in_award r \<in> set (map nt_award (rd_notes d))) (rd_intents d),
          ''STORE_UNCOMMITTED_INTENT_AFTER_MUTATION'')]
        (case states_error acc d (rd_states d) of None \<Rightarrow> Inr () | Some c \<Rightarrow> Inl c)))"

section \<open>Opening the store\<close>

text \<open>\<open>_connect\<close>: nothing of the tables is read.\<close>

definition opened_store :: "review_env \<Rightarrow> libs \<Rightarrow> review_store \<Rightarrow> review_file \<Rightarrow> store_error + unit" where
  "opened_store e w b f = (case dataset_ids w (se_dataset e) of
      Inl c \<Rightarrow> Inl (StoreError c)
    | Inr ids \<Rightarrow> guarded
        [(ids = rs_ids b \<and> f \<noteq> NoStore, StoreError ''STORE_OR_DATASET_MISSING''),
         (se_path e, StoreError ''STORE_PATH_INVALID''),
         (se_sql e, StoreError ''STORE_UNAVAILABLE'')] (Inr ()))"

definition lift_code :: "string + 'a \<Rightarrow> store_error + 'a" where
  "lift_code r = (case r of Inl c \<Rightarrow> Inl (StoreError c) | Inr a \<Rightarrow> Inr a)"

text \<open>The tables, once \<open>_validate\<close> has passed; an incomplete file has none.\<close>

definition validated :: "review_env \<Rightarrow> libs \<Rightarrow> review_store \<Rightarrow> review_file \<Rightarrow> store_error + review_db" where
  "validated e w b f = guarded
     [(se_read e, StoreError ''STORE_INVALID_OR_UNAVAILABLE''), (se_quick e, StoreError ''STORE_CORRUPT'')]
     (case f of Review d \<Rightarrow> rbind (lift_code (validate_store w b d)) (\<lambda>_. Inr d)
      | _ \<Rightarrow> Inl (StoreError ''STORE_INVALID_OR_UNAVAILABLE''))"

section \<open>Construction\<close>

definition ReviewStore :: "review_env \<Rightarrow> libs \<Rightarrow> string \<Rightarrow> rat \<Rightarrow> review_file \<Rightarrow> store_error + review_store" where
  "ReviewStore e w store_id timeout f = guarded
     [(id_ok store_id, StoreError ''STORE_ID_INVALID''),
      (0 \<le> timeout \<and> timeout \<le> 10, StoreError ''STORE_TIMEOUT_INVALID''),
      (se_path e, StoreError ''STORE_PATH_INVALID'')]
     (rbind (lift_code (dataset_ids w (se_dataset e))) (\<lambda>ids.
        let b = \<lparr>rs_id = store_id, rs_ids = ids\<rparr> in
        rbind (opened_store e w b f) (\<lambda>_. rbind (validated e w b f) (\<lambda>_. Inr b))))"

definition initial_review :: "review_store \<Rightarrow> review_db" where
  "initial_review b = \<lparr>rd_metadata = store_metadata b,
     rd_states = map (\<lambda>i. \<lparr>sr_award = i, sr_status = ''UNREVIEWED'', sr_version = 0\<rparr>) (rs_ids b),
     rd_intents = [], rd_notes = []\<rparr>"

definition initialize_store :: "review_env \<Rightarrow> libs \<Rightarrow> string \<Rightarrow> review_file \<Rightarrow> review_file \<times> (store_error + review_store)" where
  "initialize_store e w store_id f = (case dataset_ids w (se_dataset e) of
      Inl c \<Rightarrow> (f, Inl (StoreError c))
    | Inr ids \<Rightarrow>
        if \<not> id_ok store_id then (f, Inl (StoreError ''STORE_ID_INVALID''))
        else if \<not> se_path e then (f, Inl (StoreError ''STORE_PATH_INVALID''))
        else if f \<noteq> NoStore then (f, Inl (StoreError ''STORE_INITIALIZATION_FAILED''))
        else (let g = (if se_sql e \<and> se_write e \<and> se_commit e \<noteq> CommitFailed
                then Review (initial_review \<lparr>rs_id = store_id, rs_ids = ids\<rparr>) else Incomplete) in
          (g, if se_sql e \<and> se_write e \<and> se_commit e = Committed then ReviewStore e w store_id 1 g
              else Inl (StoreError ''STORE_INITIALIZATION_FAILED''))))"

section \<open>Reservation\<close>

definition open_intent :: "string \<Rightarrow> review_db \<Rightarrow> bool" where
  "open_intent a d \<longleftrightarrow> list_ex (\<lambda>r. in_award r = a \<and> in_open r) (rd_intents d)"

definition state_of :: "string \<Rightarrow> review_db \<Rightarrow> state_row option" where
  "state_of a d = find (\<lambda>s. sr_award s = a) (rd_states d)"

definition available_op :: "libs \<Rightarrow> json \<Rightarrow> review_db \<Rightarrow> store_error + unit" where
  "available_op w v d =
     (case find (\<lambda>r. in_key r = op_key v) (rd_intents d) of
        Some r \<Rightarrow> Inl (StoreError (if in_operation_sha r = sha256 w (store_text v) then ''IDEMPOTENCY_DUPLICATE'' else ''IDEMPOTENCY_CONFLICT''))
      | None \<Rightarrow>
          if open_intent (op_award v) d then Inl (UncertainError ''TARGET_CUSTODY_OPEN'')
          else (case state_of (op_award v) d of
              None \<Rightarrow> Inl (StoreError ''UNKNOWN_SYNTHETIC_AWARD'')
            | Some s \<Rightarrow>
                if sr_version s \<noteq> op_version v then Inl (StoreError ''EXPECTED_VERSION_CONFLICT'')
                else if sr_status s \<noteq> ''UNREVIEWED'' then Inl (StoreError ''TRANSITION_NOT_SUPPORTED'')
                else Inr ()))"

text \<open>How every reading operation opens the store.\<close>

definition read_review :: "review_env \<Rightarrow> libs \<Rightarrow> review_store \<Rightarrow> review_file \<Rightarrow> store_error + review_db" where
  "read_review e w b f = rbind (opened_store e w b f) (\<lambda>_.
     if \<not> se_begin e then Inl (StoreError ''STORE_UNAVAILABLE'') else validated e w b f)"

definition check_available :: "review_env \<Rightarrow> libs \<Rightarrow> review_store \<Rightarrow> json \<Rightarrow> review_file \<Rightarrow> store_error + unit" where
  "check_available e w b operation f =
     rbind (lift_code (store_operation w b operation)) (\<lambda>v. rbind (read_review e w b f) (available_op w v))"

definition new_intent :: "libs \<Rightarrow> string \<Rightarrow> json \<Rightarrow> string \<Rightarrow> intent_row" where
  "new_intent w i v binding = \<lparr>in_operation_id = i, in_award = op_award v, in_key = op_key v, in_operation = store_text v,
     in_operation_sha = sha256 w (store_text v), in_binding = binding, in_open = True, in_started = False,
     in_receipt = None, in_receipt_sha = None\<rparr>"

text \<open>
  How a transaction ends: the store after it, and whether the commit returned. A duplicate key of the
  table is a failing statement.
\<close>

definition ended :: "review_env \<Rightarrow> review_file \<Rightarrow> review_db \<Rightarrow> review_file \<times> bool" where
  "ended e f d = (case se_commit e of Committed \<Rightarrow> (Review d, True) | CommitLost \<Rightarrow> (Review d, False) | CommitFailed \<Rightarrow> (f, False))"

definition reserve_review :: "review_env \<Rightarrow> libs \<Rightarrow> review_store \<Rightarrow> string \<Rightarrow> json \<Rightarrow> string \<Rightarrow> review_file \<Rightarrow> review_file \<times> (store_error + string)" where
  "reserve_review e w b i operation binding f =
     (case guarded [(id_ok i \<and> is_hex 64 binding, StoreError ''INTENT_IDENTITY_INVALID'')]
         (rbind (lift_code (store_operation w b operation)) (\<lambda>v. rbind (opened_store e w b f) (\<lambda>_.
            if se_fault e ''before_open'' \<or> \<not> se_begin e then Inl (StoreError ''OPEN_NOT_CONFIRMED'')
            else rbind (validated e w b f) (\<lambda>d. rbind (available_op w v d) (\<lambda>_.
              if i \<in> set (map in_operation_id (rd_intents d)) \<or> \<not> se_write e
              then Inl (StoreError ''OPEN_NOT_CONFIRMED'') else Inr (v, d)))))) of
        Inl x \<Rightarrow> (f, Inl x)
      | Inr (v, d) \<Rightarrow> (case ended e f (d\<lparr>rd_intents := rd_intents d @ [new_intent w i v binding]\<rparr>) of
          (g, returned) \<Rightarrow> (g, if returned \<and> \<not> se_fault e ''after_open''
              then Inr (sha256 w (store_text v)) else Inl (UncertainError ''OPEN_ACK_UNKNOWN''))))"

section \<open>Commit and acknowledgement\<close>

definition intent_of :: "string \<Rightarrow> review_db \<Rightarrow> intent_row option" where
  "intent_of i d = find (\<lambda>r. in_operation_id r = i) (rd_intents d)"

definition update_intent :: "string \<Rightarrow> (intent_row \<Rightarrow> intent_row) \<Rightarrow> review_db \<Rightarrow> review_db" where
  "update_intent i f d = d\<lparr>rd_intents := map (\<lambda>r. if in_operation_id r = i then f r else r) (rd_intents d)\<rparr>"

definition not_confirmed :: store_error where
  "not_confirmed = UncertainError ''TRANSACTION_NOT_CONFIRMED''"

definition start_checks :: "string \<Rightarrow> string \<Rightarrow> review_db \<Rightarrow> store_error + intent_row" where
  "start_checks i binding d = (case intent_of i d of
      None \<Rightarrow> Inl (StoreError ''DISPATCH_INTENT_MISMATCH'')
    | Some r \<Rightarrow>
        if \<not> in_open r \<or> in_binding r \<noteq> binding then Inl (StoreError ''DISPATCH_INTENT_MISMATCH'')
        else if in_receipt r \<noteq> None then Inl (UncertainError ''COMMITTED_OPERATION_NOT_REDISPATCHABLE'')
        else if in_started r then Inl (UncertainError ''ADAPTER_ATTEMPT_NOT_REDISPATCHABLE'')
        else Inr r)"

text \<open>The first transaction of \<open>commit\<close>: the one adapter entry is on record; \<open>Inr\<close> is the row it read.\<close>

definition commit_start :: "review_env \<Rightarrow> libs \<Rightarrow> review_store \<Rightarrow> string \<Rightarrow> string \<Rightarrow> review_file \<Rightarrow> review_file \<times> (store_error + intent_row)" where
  "commit_start e w b i binding f =
     (case rbind (opened_store e w b f) (\<lambda>_. if \<not> se_begin e then Inl not_confirmed
         else rbind (validated e w b f) (\<lambda>d. rbind (start_checks i binding d) (\<lambda>r.
           if \<not> se_write e then Inl not_confirmed else Inr (r, d)))) of
        Inl x \<Rightarrow> (f, Inl x)
      | Inr (r, d) \<Rightarrow> (case ended e f (update_intent i (\<lambda>r. r\<lparr>in_started := True\<rparr>) d) of
          (g, returned) \<Rightarrow> (g, if returned \<and> \<not> se_fault e ''after_attempt_start'' then Inr r else Inl not_confirmed)))"

definition apply_receipt :: "libs \<Rightarrow> string \<Rightarrow> json \<Rightarrow> string \<Rightarrow> review_db \<Rightarrow> review_db" where
  "apply_receipt w i v raw d = update_intent i (\<lambda>r. r\<lparr>in_receipt := Some raw, in_receipt_sha := Some (sha256 w raw)\<rparr>)
     (d\<lparr>rd_states := map (\<lambda>s. if sr_award s = op_award v
          then s\<lparr>sr_status := ''PENDING_REVIEW'', sr_version := sr_version s + 1\<rparr> else s) (rd_states d),
        rd_notes := rd_notes d @ [\<lparr>nt_operation = i, nt_award = op_award v, nt_version = 1, nt_note = op_note v\<rparr>]\<rparr>)"

text \<open>
  The second: the mutation and its evidence, from the row read by the first. The guards in the order of
  the code; a version outside the table's check is a failing statement.
\<close>

definition apply_checks :: "libs \<Rightarrow> review_store \<Rightarrow> intent_row \<Rightarrow> string \<Rightarrow> review_db \<Rightarrow> store_error + json \<times> json \<times> string" where
  "apply_checks w b row binding d =
     rbind (case object_of w (in_operation row) of None \<Rightarrow> Inl not_confirmed | Some r \<Rightarrow> lift_code (rbind r (store_operation w b))) (\<lambda>v.
     (case state_of (op_award v) d of
        None \<Rightarrow> Inl not_confirmed
      | Some s \<Rightarrow>
          if sr_version s \<noteq> op_version v \<or> sr_status s \<noteq> ''UNREVIEWED'' then Inl (StoreError ''TRANSACTION_STATE_CONFLICT'')
          else (case canonical_store (store_receipt w b (in_operation_id row) v binding) of
              None \<Rightarrow> Inl not_confirmed
            | Some raw \<Rightarrow>
                if sr_version s + 1 > 1 \<or> in_operation_id row \<in> set (map nt_operation (rd_notes d)) then Inl not_confirmed
                else Inr (v, store_receipt w b (in_operation_id row) v binding, raw))))"

definition commit_apply :: "review_env \<Rightarrow> libs \<Rightarrow> review_store \<Rightarrow> intent_row \<Rightarrow> string \<Rightarrow> review_file \<Rightarrow> review_file \<times> (store_error + json \<times> string)" where
  "commit_apply e w b row binding f =
     (case if \<not> se_begin e then Inl not_confirmed
         else rbind (validated e w b f) (\<lambda>d. rbind (apply_checks w b row binding d) (\<lambda>x.
           if \<not> se_write e \<or> se_fault e ''before_commit'' then Inl not_confirmed else Inr (x, d))) of
        Inl x \<Rightarrow> (f, Inl x)
      | Inr ((v, receipt, raw), d) \<Rightarrow> (case ended e f (apply_receipt w (in_operation_id row) v raw d) of
          (g, returned) \<Rightarrow> (g, if \<not> returned then Inl not_confirmed
             else if se_fault e ''after_commit'' then Inl (UncertainError ''COMMIT_ACK_UNKNOWN'')
             else Inr (receipt, sha256 w raw))))"

definition store_commit :: "review_env \<Rightarrow> review_env \<Rightarrow> libs \<Rightarrow> review_store \<Rightarrow> string \<Rightarrow> string \<Rightarrow> review_file \<Rightarrow> review_file \<times> (store_error + json \<times> string)" where
  "store_commit e e2 w b i binding f =
     obind (commit_start e w b i binding f) (\<lambda>row g. commit_apply e2 w b row binding g)"

definition closable :: "string \<Rightarrow> string \<Rightarrow> review_db \<Rightarrow> bool" where
  "closable i sha d = (case intent_of i d of None \<Rightarrow> False
     | Some r \<Rightarrow> in_open r \<and> in_receipt r \<noteq> None \<and> in_receipt_sha r = Some sha)"

definition acknowledge_review :: "review_env \<Rightarrow> libs \<Rightarrow> review_store \<Rightarrow> string \<Rightarrow> string \<Rightarrow> review_file \<Rightarrow> review_file \<times> (store_error + unit)" where
  "acknowledge_review e w b i sha f =
     (case rbind (opened_store e w b f) (\<lambda>_. if \<not> se_begin e then Inl (UncertainError ''CUSTODY_ACK_UNKNOWN'')
         else rbind (validated e w b f) (\<lambda>d. guarded
           [(closable i sha d, UncertainError ''CUSTODY_ACK_MISMATCH''),
            (\<not> se_fault e ''before_ack'' \<and> se_write e, UncertainError ''CUSTODY_ACK_UNKNOWN'')] (Inr d))) of
        Inl x \<Rightarrow> (f, Inl x)
      | Inr d \<Rightarrow> (case ended e f (update_intent i (\<lambda>r. r\<lparr>in_open := False\<rparr>) d) of
          (g, returned) \<Rightarrow> (g, if returned \<and> \<not> se_fault e ''after_ack'' then Inr () else Inl (UncertainError ''CUSTODY_ACK_UNKNOWN''))))"

section \<open>Reading\<close>

definition review_snapshot :: "review_env \<Rightarrow> libs \<Rightarrow> review_store \<Rightarrow> string \<Rightarrow> review_file \<Rightarrow> store_error + (state_row \<times> string list)" where
  "review_snapshot e w b a f =
     (if a \<notin> set (rs_ids b) then Inl (StoreError ''UNKNOWN_SYNTHETIC_AWARD'')
      else rbind (read_review e w b f) (\<lambda>d. case state_of a d of
          None \<Rightarrow> Inl (StoreError ''STORE_UNAVAILABLE'')
        | Some s \<Rightarrow> Inr (s, map nt_note (filter (\<lambda>n. nt_award n = a) (rd_notes d)))))"

definition review_inspect :: "review_env \<Rightarrow> libs \<Rightarrow> review_store \<Rightarrow> string \<Rightarrow> review_file \<Rightarrow> store_error + intent_row option" where
  "review_inspect e w b i f = rbind (read_review e w b f) (\<lambda>d. Inr (intent_of i d))"

definition review_checkpoint :: "review_env \<Rightarrow> libs \<Rightarrow> review_store \<Rightarrow> review_file \<Rightarrow> store_error + review_db" where
  "review_checkpoint e w b f = rbind (read_review e w b f) (\<lambda>d. Inr (d\<lparr>
     rd_metadata := store_metadata b, rd_states := sort_key sr_award (rd_states d),
     rd_notes := sort_key nt_operation (rd_notes d), rd_intents := sort_key in_operation_id (rd_intents d)\<rparr>))"

section \<open>Runs of several processes\<close>

text \<open>
  A process that has started a commit holds the row it read until it applies it; \<open>None\<close> if it ends before.
\<close>

record review_world =
  ww_file :: review_file
  ww_held :: "nat \<Rightarrow> (intent_row \<times> string) option"

datatype review_op =
    RReserve review_env string json string
  | RStart nat review_env string string
  | RApply nat review_env
  | RAcknowledge review_env string string

fun review_step :: "libs \<Rightarrow> review_store \<Rightarrow> review_op \<Rightarrow> review_world \<Rightarrow> review_world \<times> string option" where
  "review_step w b (RReserve e i operation binding) s = (s\<lparr>ww_file := fst (reserve_review e w b i operation binding (ww_file s))\<rparr>, None)"
| "review_step w b (RStart n e i binding) s = (case commit_start e w b i binding (ww_file s) of
      (g, r) \<Rightarrow> (\<lparr>ww_file = g, ww_held = (ww_held s)(n := (case r of Inl _ \<Rightarrow> None | Inr row \<Rightarrow> Some (row, binding)))\<rparr>,
        if is_ok r then Some i else None))"
| "review_step w b (RApply n e) s = (case ww_held s n of None \<Rightarrow> (s, None)
     | Some (row, binding) \<Rightarrow> (\<lparr>ww_file = fst (commit_apply e w b row binding (ww_file s)), ww_held = (ww_held s)(n := None)\<rparr>, None))"
| "review_step w b (RAcknowledge e i sha) s = (s\<lparr>ww_file := fst (acknowledge_review e w b i sha (ww_file s))\<rparr>, None)"

end
