(* ===== verification/WriteStoreSafety.thy ===== *)
theory WriteStoreSafety
  imports WriteStore
begin

text \<open>
  The review store stays valid in every run of several processes: the validation each operation starts
  with never fails on what the operations themselves wrote. Validation is first characterised row by
  row; then each operation is followed through it.
\<close>

section \<open>Text that is read back\<close>

definition good :: "libs \<Rightarrow> json \<Rightarrow> bool" where
  "good w v \<longleftrightarrow> readable (float_of w) v \<and> keys_distinct v"

lemma good_parses: "good w v \<Longrightarrow> canonical_store v = Some s \<Longrightarrow> json_loads (float_of w) s = Some (jsort v)"
  unfolding good_def canonical_store_def by (metis loads_dumps)

lemma good_canonical: "good w v \<Longrightarrow> canonical_store v = Some (store_text v)"
  by (simp add: good_def canonical_store_def store_text_def dumps_def readable_finite [of "float_of w"])

lemma good_jsort [simp]: "good w v \<Longrightarrow> good w (jsort v)"
  by (simp add: good_def keys_distinct_jsort)

lemma canonical_jsort [simp]: "canonical_store (jsort v) = canonical_store v"
  by (simp add: canonical_store_def dumps_def jsort_idem)

lemma is_obj_jsort [simp]: "is_obj (jsort v) = is_obj v"
  by (cases v) simp_all

lemma object_of_good: "good w v \<Longrightarrow> is_obj v \<Longrightarrow> object_of w (store_text v) = Some (Inr (jsort v))"
  using good_parses [OF _ good_canonical] by (simp add: object_of_def)

lemma operation_gates_id: "operation_gates b v = Inr u \<Longrightarrow> u = v"
  by (simp add: operation_gates_def guard_simps split: if_splits)

lemma operation_returns:
  assumes "good w u" "store_operation w b u = Inr v"
  shows "v = jsort u \<and> operation_gates b v = Inr v \<and> is_obj v \<and> good w v \<and> canonical_store v = canonical_store u"
proof -
  obtain x where x: "object_of w (store_text u) = Some x"
    using assms good_canonical [OF assms(1)] by (cases "object_of w (store_text u)") (auto simp: store_operation_def)
  then have j: "x = (if is_obj u then Inr (jsort u) else Inl ''STORE_EVIDENCE_INVALID'')"
    using good_parses [OF assms(1) good_canonical [OF assms(1)]] by (auto simp: object_of_def)
  then show ?thesis
    using assms good_canonical [OF assms(1)] x operation_gates_id [of b "jsort u" v]
    by (auto simp: store_operation_def split: if_splits)
qed

lemma operation_again: "good w v \<Longrightarrow> is_obj v \<Longrightarrow> jsort v = v \<Longrightarrow> store_operation w b v = operation_gates b v"
  using object_of_good [of w v] good_canonical [of w v] by (simp add: store_operation_def)

section \<open>What validation establishes\<close>

text \<open>The operation of an intent; a committed intent; what it contributes.\<close>

definition opv :: "libs \<Rightarrow> review_store \<Rightarrow> intent_row \<Rightarrow> json" where
  "opv w b r = (case row_operation w b r of Inr v \<Rightarrow> v | Inl _ \<Rightarrow> JNull)"

definition committed_row :: "intent_row \<Rightarrow> bool" where "committed_row r \<longleftrightarrow> in_receipt r \<noteq> None"

lemma not_committed_row: "in_receipt r = None \<longleftrightarrow> \<not> committed_row r"
  by (simp add: committed_row_def)

definition entry :: "libs \<Rightarrow> review_store \<Rightarrow> intent_row \<Rightarrow> string \<times> string \<times> string" where
  "entry w b r = (in_award r, in_operation_id r, op_note (opv w b r))"

definition evidence_ok :: "libs \<Rightarrow> review_store \<Rightarrow> intent_row \<Rightarrow> bool" where
  "evidence_ok w b r = (case in_receipt r of
      None \<Rightarrow> in_receipt_sha r = None \<and> in_open r
    | Some raw \<Rightarrow> (\<exists>receipt. object_of w raw = Some (Inr receipt) \<and> canonical_store receipt = Some raw
        \<and> Some (sha256 w raw) = in_receipt_sha r
        \<and> py_eq receipt (store_receipt w b (in_operation_id r) (opv w b r) (in_binding r))
        \<and> op_version (opv w b r) = 0 \<and> in_started r))"

definition intent_ok :: "libs \<Rightarrow> review_store \<Rightarrow> intent_row \<Rightarrow> bool" where
  "intent_ok w b r \<longleftrightarrow> row_operation w b r = Inr (opv w b r) \<and> operation_matches w r (opv w b r) \<and> evidence_ok w b r"

lemma intent_ok_pending: "intent_ok w b r \<Longrightarrow> in_receipt r = None \<Longrightarrow> in_open r \<and> in_receipt_sha r = None"
  by (simp add: intent_ok_def evidence_ok_def)

lemma validate_intent_Inr:
  "validate_intent w b acc r = Inr acc' \<longleftrightarrow> intent_ok w b r
     \<and> (if committed_row r then in_award r \<notin> fst ` set acc \<and> acc' = entry w b r # acc else acc' = acc)"
  by (cases "row_operation w b r")
     (auto simp: validate_intent_def intent_ok_def evidence_ok_def opv_def entry_def receipt_matches_def committed_row_def
       split: option.splits sum.splits if_splits)

lemma fst_entry [simp]: "fst (entry w b r) = in_award r" "(fst \<circ> entry w b) = in_award"
  by (auto simp: entry_def)

lemma validate_intents_Inr:
  "validate_intents w b acc rs = Inr acc' \<longleftrightarrow> list_all (intent_ok w b) rs
     \<and> distinct (map in_award (filter committed_row rs))
     \<and> in_award ` set (filter committed_row rs) \<inter> fst ` set acc = {}
     \<and> acc' = rev (map (entry w b) (filter committed_row rs)) @ acc"
proof (induction rs arbitrary: acc)
  case (Cons r rs)
  show ?case
    unfolding validate_intents.simps rbind_Inr_iff validate_intent_Inr Cons.IH
    by (cases "committed_row r") auto
qed auto

text \<open>What a state shows, over the committed intents.\<close>

definition state_shows :: "libs \<Rightarrow> review_store \<Rightarrow> review_db \<Rightarrow> state_row \<Rightarrow> bool" where
  "state_shows w b d s \<longleftrightarrow>
     (\<forall>r \<in> set (rd_intents d). committed_row r \<longrightarrow> in_award r = sr_award s \<longrightarrow>
        sr_status s = ''PENDING_REVIEW'' \<and> sr_version s = 1
        \<and> note_of (sr_award s) d = Some \<lparr>nt_operation = in_operation_id r, nt_award = sr_award s, nt_version = 1, nt_note = op_note (opv w b r)\<rparr>)
     \<and> ((\<forall>r \<in> set (rd_intents d). committed_row r \<longrightarrow> in_award r \<noteq> sr_award s) \<longrightarrow>
        sr_status s = ''UNREVIEWED'' \<and> sr_version s = 0)"

lemma state_error_None:
  assumes "distinct (map in_award (filter committed_row (rd_intents d)))"
  shows "state_error (rev (map (entry w b) (filter committed_row (rd_intents d)))) d s = None \<longleftrightarrow> state_shows w b d s"
proof -
  let ?rs = "filter committed_row (rd_intents d)" and ?l = "rev (map (entry w b) (filter committed_row (rd_intents d)))"
  have m: "map_of ?l = map_of (map (entry w b) ?rs)"
    by (subst map_of_inject_set) (simp_all add: assms rev_map [symmetric])
  show ?thesis
  proof (cases "\<exists>r \<in> set ?rs. in_award r = sr_award s")
    case True
    then obtain r where r: "r \<in> set ?rs" "in_award r = sr_award s" by blast
    have "map_of (map (entry w b) ?rs) (sr_award s) = Some (in_operation_id r, op_note (opv w b r))"
      using r assms by (intro map_of_is_SomeI) (simp, force simp: entry_def)
    moreover have u: "r' = r" if "r' \<in> set ?rs" "in_award r' = sr_award s" for r'
      using that r assms by (metis distinct_map inj_onD)
    have "(\<forall>r' \<in> set (rd_intents d). committed_row r' \<longrightarrow> in_award r' = sr_award s \<longrightarrow> P r') \<longleftrightarrow> P r" for P
    proof
      assume "P r"
      with u show "\<forall>r' \<in> set (rd_intents d). committed_row r' \<longrightarrow> in_award r' = sr_award s \<longrightarrow> P r'"
        unfolding set_filter by blast
    qed (use r in simp)
    moreover have "\<not> (\<forall>r \<in> set (rd_intents d). committed_row r \<longrightarrow> in_award r \<noteq> sr_award s)"
      using r by auto
    ultimately show ?thesis unfolding state_error_def state_shows_def m by (simp (no_asm_simp))
  next
    case False
    then have "map_of (map (entry w b) ?rs) (sr_award s) = None"
      by (auto simp: map_of_eq_None_iff entry_def)
    then show ?thesis using m False by (auto simp: state_error_def state_shows_def)
  qed
qed

lemma states_error_None: "states_error acc d ss = None \<longleftrightarrow> list_all (\<lambda>s. state_error acc d s = None) ss"
  by (induction ss) (auto split: option.splits)

definition valid_store :: "libs \<Rightarrow> review_store \<Rightarrow> review_db \<Rightarrow> bool" where
  "valid_store w b d \<longleftrightarrow> set (rd_metadata d) = set (store_metadata b)
     \<and> sr_award ` set (rd_states d) = set (rs_ids b) \<and> length (rd_states d) = 40
     \<and> references_ok d \<and> list_all (intent_ok w b) (rd_intents d)
     \<and> distinct (map in_award (filter committed_row (rd_intents d)))
     \<and> distinct (map nt_award (rd_notes d))
     \<and> nt_award ` set (rd_notes d) = in_award ` set (filter committed_row (rd_intents d))
     \<and> (\<forall>r \<in> set (rd_intents d). \<not> committed_row r \<longrightarrow> (\<forall>n \<in> set (rd_notes d). nt_award n \<noteq> in_award r))
     \<and> list_all (state_shows w b d) (rd_states d)"

lemma validate_store_iff: "validate_store w b d = Inr () \<longleftrightarrow> valid_store w b d"
proof -
  have e: "(case states_error a d s of None \<Rightarrow> Inr () | Some c \<Rightarrow> Inl c) = Inr () \<longleftrightarrow> states_error a d s = None" for a s
    by (simp split: option.split)
  have p: "\<not> list_ex (\<lambda>r. in_receipt r = None \<and> in_award r \<in> set (map nt_award ns)) rs
      \<longleftrightarrow> (\<forall>r \<in> set rs. \<not> committed_row r \<longrightarrow> (\<forall>n \<in> set ns. nt_award n \<noteq> in_award r))" for ns rs
    by (auto simp: list_ex_iff not_committed_row image_iff) metis+
  have g: "(\<forall>(c, e) \<in> set [(A, x), (B, y)]. c) \<longleftrightarrow> A \<and> B" "(\<forall>(c, e) \<in> set [(A, x), (B, y), (C, z)]. c) \<longleftrightarrow> A \<and> B \<and> C"
    for A B C and x y z :: string by auto
  show ?thesis
    unfolding validate_store_def valid_store_def guarded_Inr g p rbind_Inr_iff validate_intents_Inr e states_error_None
    by (cases "distinct (map in_award (filter committed_row (rd_intents d)))")
      (auto simp: state_error_None image_image list_all_iff)
qed

section \<open>The invariant of the tables\<close>

definition review_inv :: "libs \<Rightarrow> review_store \<Rightarrow> review_db \<Rightarrow> bool" where
  "review_inv w b d \<longleftrightarrow> valid_store w b d \<and> distinct (map in_operation_id (rd_intents d))
     \<and> distinct (map in_award (filter in_open (rd_intents d)))
     \<and> (\<forall>r \<in> set (rd_intents d). good w (opv w b r))"

definition store_ok :: "review_store \<Rightarrow> bool" where
  "store_ok b \<longleftrightarrow> distinct (rs_ids b) \<and> length (rs_ids b) = 40"

lemma dataset_ids_ok: "dataset_ids w raw = Inr ids \<Longrightarrow> distinct ids \<and> length ids = 40"
  by (auto simp: dataset_ids_def Let_def split: option.splits if_splits json.splits list.splits)

lemma states_distinct:
  assumes "valid_store w b d" "store_ok b"
  shows "distinct (map sr_award (rd_states d))"
  using assms by (auto simp: valid_store_def store_ok_def intro!: card_distinct) (metis distinct_card)

lemma state_of_in: "state_of a d = Some s \<Longrightarrow> s \<in> set (rd_states d) \<and> sr_award s = a"
  by (auto simp: state_of_def find_Some_iff)

lemma intent_of_in: "intent_of i d = Some r \<Longrightarrow> r \<in> set (rd_intents d) \<and> in_operation_id r = i"
  by (auto simp: intent_of_def find_Some_iff)

lemma unreviewed:
  assumes "valid_store w b d" "state_of a d = Some s" "sr_status s = ''UNREVIEWED''"
  shows "sr_version s = 0" and "\<And>r. r \<in> set (rd_intents d) \<Longrightarrow> committed_row r \<Longrightarrow> in_award r \<noteq> a"
    and "\<forall>n \<in> set (rd_notes d). nt_award n \<noteq> a"
proof -
  have s: "state_shows w b d s" "sr_award s = a"
    using assms state_of_in by (auto simp: valid_store_def list_all_iff)
  then show no: "\<And>r. r \<in> set (rd_intents d) \<Longrightarrow> committed_row r \<Longrightarrow> in_award r \<noteq> a"
    using assms(3) by (auto simp: state_shows_def)
  then show "sr_version s = 0" using s by (auto simp: state_shows_def)
  have "nt_award ` set (rd_notes d) = in_award ` set (filter committed_row (rd_intents d))"
    using assms(1) by (simp add: valid_store_def)
  then have "a \<notin> nt_award ` set (rd_notes d)" using no by auto
  then show "\<forall>n \<in> set (rd_notes d). nt_award n \<noteq> a" by auto
qed

text \<open>Rows that change neither what they are nor what they have committed.\<close>

lemma valid_rows:
  assumes "valid_store w b d"
    and "\<And>r. r \<in> set (rd_intents d) \<Longrightarrow> intent_ok w b (f r) \<and> in_award (f r) = in_award r
      \<and> in_operation_id (f r) = in_operation_id r \<and> in_receipt (f r) = in_receipt r \<and> opv w b (f r) = opv w b r"
  shows "valid_store w b (d\<lparr>rd_intents := map f (rd_intents d)\<rparr>)"
proof -
  let ?d = "d\<lparr>rd_intents := map f (rd_intents d)\<rparr>"
  have c: "r \<in> set (rd_intents d) \<Longrightarrow> committed_row (f r) = committed_row r" for r
    using assms(2) by (simp add: committed_row_def)
  have "map in_award (filter committed_row (map f (rd_intents d))) = map in_award (filter committed_row (rd_intents d))"
    using c assms(2) by (auto simp: filter_map comp_def intro!: map_cong filter_cong)
  then have m: "map in_award (filter committed_row (rd_intents ?d)) = map in_award (filter committed_row (rd_intents d))"
    by simp
  then have mi: "in_award ` set (filter committed_row (rd_intents ?d)) = in_award ` set (filter committed_row (rd_intents d))"
    by (metis list.set_map)
  have s: "state_shows w b ?d s = state_shows w b d s" for s
    unfolding state_shows_def note_of_def using c assms(2) by (simp cong: ball_cong)
  have ids: "in_operation_id ` f ` set (rd_intents d) = in_operation_id ` set (rd_intents d)"
    using assms(2) by (simp add: image_image)
  have ref: "references_ok ?d = references_ok d"
    unfolding references_ok_def using assms(2) ids by (simp add: list_all_iff)
  show ?thesis
    using assms(1) unfolding valid_store_def m mi ref s
    by (simp add: list_all_iff assms(2) c)
qed

section \<open>Each operation\<close>

lemma lift_code_Inr [simp]: "lift_code r = Inr a \<longleftrightarrow> r = Inr a"
  by (cases r) (simp_all add: lift_code_def)

lemma validated_Inr: "validated e w b f = Inr d \<Longrightarrow> f = Review d \<and> valid_store w b d"
  by (cases f) (auto simp: validated_def guard_simps validate_store_iff split: if_splits)

lemma operation_gates_award: "operation_gates b v = Inr v \<Longrightarrow> is_obj v"
  by (cases v) (simp_all add: operation_gates_def)

lemma new_intent_ok:
  assumes "good w u" "store_operation w b u = Inr v" "is_hex 64 binding"
  shows "intent_ok w b (new_intent w i v binding)" and "opv w b (new_intent w i v binding) = v" and "good w v"
proof -
  have v: "v = jsort u" "operation_gates b v = Inr v" "is_obj v" "good w v"
    using operation_returns [OF assms(1,2)] by auto
  then have row: "row_operation w b (new_intent w i v binding) = Inr v"
    using object_of_good [OF v(4,3)] operation_again [OF v(4,3)]
    by (simp add: row_operation_def new_intent_def jsort_idem)
  then show opv: "opv w b (new_intent w i v binding) = v" by (simp add: opv_def)
  show "good w v" by (rule v(4))
  show "intent_ok w b (new_intent w i v binding)"
    using row assms(3) good_canonical [OF v(4)] unfolding intent_ok_def opv
    by (simp add: operation_matches_def evidence_ok_def new_intent_def)
qed

lemma available_op_Inr:
  assumes "available_op w v d = Inr ()"
  obtains s where "state_of (op_award v) d = Some s" "sr_status s = ''UNREVIEWED''" "sr_version s = op_version v"
    "\<not> open_intent (op_award v) d" "\<forall>r \<in> set (rd_intents d). in_key r \<noteq> op_key v"
  using assms by (auto simp: available_op_def find_None_iff split: option.splits if_splits)

lemma reserve_keeps:
  assumes inv: "review_inv w b d" and good: "good w u" and op: "store_operation w b u = Inr v" "is_hex 64 binding"
    and av: "available_op w v d = Inr ()" and new: "i \<notin> set (map in_operation_id (rd_intents d))"
  shows "review_inv w b (d\<lparr>rd_intents := rd_intents d @ [new_intent w i v binding]\<rparr>)"
proof -
  let ?r = "new_intent w i v binding" and ?d = "d\<lparr>rd_intents := rd_intents d @ [new_intent w i v binding]\<rparr>"
  obtain s where s: "state_of (op_award v) d = Some s" "sr_status s = ''UNREVIEWED''" "\<not> open_intent (op_award v) d"
    using available_op_Inr [OF av] by metis
  have d: "valid_store w b d" using inv by (simp add: review_inv_def)
  have r: "\<not> committed_row ?r" "in_award ?r = op_award v" "in_operation_id ?r = i" "in_open ?r"
    by (simp_all add: new_intent_def committed_row_def)
  have award: "op_award v \<in> sr_award ` set (rd_states d)" using state_of_in [OF s(1)] by (metis imageI)
  have sh: "state_shows w b ?d x = state_shows w b d x" for x
    using r(1) by (simp add: state_shows_def note_of_def)
  have "references_ok ?d"
    using d award r by (auto simp: valid_store_def references_ok_def list_all_iff)
  then have "valid_store w b ?d"
    using d unreviewed(3) [OF d s(1,2)] new_intent_ok(1) [OF good op] r
    unfolding valid_store_def sh by simp
  moreover have "op_award v \<notin> in_award ` set (filter in_open (rd_intents d))"
    using s(3) by (auto simp: open_intent_def list_ex_iff)
  ultimately show ?thesis
    using inv new new_intent_ok [OF good op] r by (auto simp: review_inv_def)
qed

lemma same_operation:
  "in_operation r' = in_operation r \<Longrightarrow> row_operation w b r' = row_operation w b r"
  "in_operation r' = in_operation r \<Longrightarrow> opv w b r' = opv w b r"
  by (simp_all add: row_operation_def opv_def)

lemma same_operation_simps [simp]:
  "row_operation w b (r\<lparr>in_started := x\<rparr>) = row_operation w b r" "opv w b (r\<lparr>in_started := x\<rparr>) = opv w b r"
  "row_operation w b (r\<lparr>in_open := x\<rparr>) = row_operation w b r" "opv w b (r\<lparr>in_open := x\<rparr>) = opv w b r"
  "row_operation w b (r\<lparr>in_receipt := y, in_receipt_sha := z\<rparr>) = row_operation w b r"
  "opv w b (r\<lparr>in_receipt := y, in_receipt_sha := z\<rparr>) = opv w b r"
  by (simp_all add: row_operation_def opv_def)

text \<open>Setting flags of one row.\<close>

lemma open_distinct:
  assumes "\<And>r. in_award (g r) = in_award r \<and> (in_open (g r) \<longrightarrow> in_open r)"
  shows "in_award ` set (filter in_open (map g rs)) \<subseteq> in_award ` set (filter in_open rs)"
    and "distinct (map in_award (filter in_open rs)) \<Longrightarrow> distinct (map in_award (filter in_open (map g rs)))"
proof -
  show sub: "in_award ` set (filter in_open (map g rs)) \<subseteq> in_award ` set (filter in_open rs)" for rs
    using assms by (auto simp: image_iff)
  show "distinct (map in_award (filter in_open rs)) \<Longrightarrow> distinct (map in_award (filter in_open (map g rs)))"
  proof (induction rs)
    case (Cons r rs)
    have "in_award (g r) \<notin> in_award ` set (filter in_open (map g rs))" if "in_open (g r)"
      using that Cons.prems sub [of rs] assms [of r] by auto
    with Cons show ?case by (auto split: if_splits)
  qed simp
qed

lemma update_keeps:
  assumes inv: "review_inv w b d"
    and same: "\<And>r. in_award (f r) = in_award r \<and> in_operation_id (f r) = in_operation_id r \<and> in_receipt (f r) = in_receipt r
      \<and> in_operation (f r) = in_operation r \<and> (in_open (f r) \<longrightarrow> in_open r)"
    and ok: "\<And>r. r \<in> set (rd_intents d) \<Longrightarrow> in_operation_id r = i \<Longrightarrow> intent_ok w b (f r)"
  shows "review_inv w b (update_intent i f d)"
proof -
  let ?f = "\<lambda>r. if in_operation_id r = i then f r else r"
  have d: "valid_store w b d" "distinct (map in_operation_id (rd_intents d))" "distinct (map in_award (filter in_open (rd_intents d)))"
      "\<And>r. r \<in> set (rd_intents d) \<Longrightarrow> good w (opv w b r)"
    using inv by (auto simp: review_inv_def)
  have opv: "opv w b (?f r) = opv w b r" for r using same by (auto intro: same_operation(2))
  have "valid_store w b (update_intent i f d)"
    unfolding update_intent_def using d(1) ok same opv
    by (intro valid_rows) (auto simp: valid_store_def list_all_iff)
  moreover have "map in_operation_id (map ?f (rd_intents d)) = map in_operation_id (rd_intents d)" using same by simp
  then have "distinct (map in_operation_id (map ?f (rd_intents d)))" using d(2) by (simp only:)
  moreover have "distinct (map in_award (filter in_open (map ?f (rd_intents d))))"
    using same by (intro open_distinct(2) [OF _ d(3)]) simp
  moreover have "\<forall>r \<in> set (map ?f (rd_intents d)). good w (opv w b r)"
  proof
    fix r assume "r \<in> set (map ?f (rd_intents d))"
    then obtain r' where "r = ?f r'" "r' \<in> set (rd_intents d)" unfolding set_map by (rule imageE)
    then show "good w (opv w b r)" using opv [of r'] d(4) by (simp only:)
  qed
  moreover have "rd_intents (update_intent i f d) = map ?f (rd_intents d)" by (simp add: update_intent_def)
  ultimately show ?thesis unfolding review_inv_def by (simp only:)
qed

lemma start_keeps:
  assumes "review_inv w b d" "start_checks i binding d = Inr r"
  shows "review_inv w b (update_intent i (\<lambda>r. r\<lparr>in_started := True\<rparr>) d)"
  using assms(1)
proof (rule update_keeps)
  fix r assume "r \<in> set (rd_intents d)"
  then have "intent_ok w b r" using assms(1) by (auto simp: review_inv_def valid_store_def list_all_iff)
  then show "intent_ok w b (r\<lparr>in_started := True\<rparr>)"
    by (simp add: intent_ok_def evidence_ok_def operation_matches_def split: option.splits) blast
qed simp

lemma distinct_ids_eq:
  "distinct (map in_operation_id rs) \<Longrightarrow> r \<in> set rs \<Longrightarrow> r' \<in> set rs \<Longrightarrow> in_operation_id r = in_operation_id r' \<Longrightarrow> r = r'"
  by (metis distinct_map inj_onD)

lemma acknowledge_keeps:
  assumes inv: "review_inv w b d" and c: "closable i sha d"
  shows "review_inv w b (update_intent i (\<lambda>r. r\<lparr>in_open := False\<rparr>) d)"
  using inv
proof (rule update_keeps)
  fix r assume r: "r \<in> set (rd_intents d)" "in_operation_id r = i"
  then have "intent_ok w b r" using inv by (auto simp: review_inv_def valid_store_def list_all_iff)
  moreover have "in_receipt r \<noteq> None"
    using c r inv intent_of_in distinct_ids_eq [of "rd_intents d" r]
    by (fastforce simp: closable_def review_inv_def split: option.splits)
  ultimately show "intent_ok w b (r\<lparr>in_open := False\<rparr>)"
    by (auto simp: intent_ok_def evidence_ok_def operation_matches_def split: option.splits)
qed simp

section \<open>The mutation\<close>

lemma apply_checks_Inr:
  assumes "apply_checks w b row binding d = Inr (v, receipt, raw)"
  obtains s where "row_operation w b row = Inr v" "state_of (op_award v) d = Some s" "sr_status s = ''UNREVIEWED''"
    "sr_version s = op_version v" "receipt = store_receipt w b (in_operation_id row) v binding"
    "canonical_store receipt = Some raw" "in_operation_id row \<notin> set (map nt_operation (rd_notes d))"
proof -
  obtain v' where op: "(case object_of w (in_operation row) of None \<Rightarrow> Inl not_confirmed
        | Some r \<Rightarrow> lift_code (rbind r (store_operation w b))) = Inr v'"
    and rest: "(case state_of (op_award v') d of None \<Rightarrow> Inl not_confirmed
      | Some s \<Rightarrow>
          if sr_version s \<noteq> op_version v' \<or> sr_status s \<noteq> ''UNREVIEWED'' then Inl (StoreError ''TRANSACTION_STATE_CONFLICT'')
          else (case canonical_store (store_receipt w b (in_operation_id row) v' binding) of
              None \<Rightarrow> Inl not_confirmed
            | Some raw \<Rightarrow>
                if sr_version s + 1 > 1 \<or> in_operation_id row \<in> set (map nt_operation (rd_notes d)) then Inl not_confirmed
                else Inr (v', store_receipt w b (in_operation_id row) v' binding, raw))) = Inr (v, receipt, raw)"
    using assms unfolding apply_checks_def rbind_Inr_iff by blast
  have "row_operation w b row = Inr v'"
    using op by (auto simp: row_operation_def guard_simps split: option.splits sum.splits)
  moreover obtain s where "state_of (op_award v') d = Some s" "sr_status s = ''UNREVIEWED''"
    "sr_version s = op_version v'" "receipt = store_receipt w b (in_operation_id row) v' binding"
    "canonical_store receipt = Some raw" "in_operation_id row \<notin> set (map nt_operation (rd_notes d))" "v' = v"
    using rest by (cases "state_of (op_award v') d"; cases "canonical_store (store_receipt w b (in_operation_id row) v' binding)")
      (auto split: if_splits)
  ultimately show ?thesis using that by blast
qed

lemma receipt_good: "good w v \<Longrightarrow> good w (store_receipt w b i v binding)"
  by (simp add: good_def store_receipt_def before_json_def after_json_def)

lemma committed_ok:
  assumes ok: "intent_ok w b r" "\<not> committed_row r" "good w (opv w b r)" "in_started r" "op_version (opv w b r) = 0"
    and raw: "canonical_store (store_receipt w b (in_operation_id r) (opv w b r) (in_binding r)) = Some raw"
  shows "intent_ok w b (r\<lparr>in_receipt := Some raw, in_receipt_sha := Some (sha256 w raw)\<rparr>)"
proof -
  let ?x = "store_receipt w b (in_operation_id r) (opv w b r) (in_binding r)"
  have g: "good w ?x" "is_obj ?x" using receipt_good [OF ok(3)] by (simp_all add: store_receipt_def)
  have "object_of w raw = Some (Inr (jsort ?x))" "canonical_store (jsort ?x) = Some raw"
    using object_of_good [OF g] good_canonical [OF g(1)] raw by simp_all
  then show ?thesis
    using ok unfolding intent_ok_def by (simp add: evidence_ok_def operation_matches_def)
qed

lemma find_snoc: "find P (xs @ [x]) = (case find P xs of None \<Rightarrow> if P x then Some x else None | Some y \<Rightarrow> Some y)"
  by (induction xs) simp_all

lemma references_ok_iff:
  "references_ok d \<longleftrightarrow> in_award ` set (rd_intents d) \<subseteq> sr_award ` set (rd_states d)
     \<and> nt_operation ` set (rd_notes d) \<subseteq> in_operation_id ` set (rd_intents d) \<and> nt_award ` set (rd_notes d) \<subseteq> sr_award ` set (rd_states d)"
  by (auto simp: references_ok_def list_all_iff)

lemma notin_image: "(\<And>x. x \<in> X \<Longrightarrow> f x \<noteq> a) \<Longrightarrow> a \<notin> f ` X"
  by auto

lemma apply_keeps:
  assumes inv: "review_inv w b d" and b: "store_ok b"
    and row: "r \<in> set (rd_intents d)" "\<not> committed_row r" "in_started r" "in_binding r = binding"
      "in_operation r = in_operation row" "in_operation_id r = in_operation_id row"
    and checks: "apply_checks w b row binding d = Inr (v, receipt, raw)"
  shows "review_inv w b (apply_receipt w (in_operation_id row) v raw d)"
proof -
  let ?i = "in_operation_id row" and ?a = "op_award v"
  let ?g = "\<lambda>r. r\<lparr>in_receipt := Some raw, in_receipt_sha := Some (sha256 w raw)\<rparr>"
  let ?f = "\<lambda>r. if in_operation_id r = ?i then ?g r else r"
  let ?d = "apply_receipt w ?i v raw d"
  obtain s where s: "row_operation w b row = Inr v" "state_of ?a d = Some s" "sr_status s = ''UNREVIEWED''"
      "sr_version s = op_version v" "receipt = store_receipt w b ?i v binding" "canonical_store receipt = Some raw"
    using apply_checks_Inr [OF checks] by metis
  have d: "valid_store w b d" "distinct (map in_operation_id (rd_intents d))" "distinct (map in_award (filter in_open (rd_intents d)))"
      "\<And>r. r \<in> set (rd_intents d) \<Longrightarrow> good w (opv w b r)"
      "\<And>r. r \<in> set (rd_intents d) \<Longrightarrow> intent_ok w b r"
    using inv by (auto simp: review_inv_def valid_store_def list_all_iff)
  note un = unreviewed [OF d(1) s(2,3)]
  have v: "opv w b r = v" "row_operation w b r = Inr v"
    using s(1) same_operation [OF row(5)] by (simp_all add: opv_def)
  have ra: "in_award r = ?a" using d(5) [OF row(1)] v by (simp add: intent_ok_def operation_matches_def)
  have rok: "intent_ok w b (?g r)"
    using committed_ok [OF d(5) [OF row(1)] row(2) d(4) [OF row(1)] row(3)] s un(1) row v by simp
  obtain xs ys where split: "rd_intents d = xs @ r # ys" using split_list [OF row(1)] by blast
  then have away: "r' \<in> set xs \<union> set ys \<Longrightarrow> in_operation_id r' \<noteq> ?i" for r'
    using d(2) row(6) by (auto simp: image_iff)
  then have same: "map ?f xs = xs" "map ?f ys = ys" by (auto intro!: map_idI)
  have intents: "rd_intents ?d = xs @ ?g r # ys"
    using same row(6) by (simp add: apply_receipt_def update_intent_def split)
  let ?n = "\<lparr>nt_operation = ?i, nt_award = ?a, nt_version = 1, nt_note = op_note v\<rparr>"
  have nts: "rd_notes ?d = rd_notes d @ [?n]" by (simp add: apply_receipt_def update_intent_def)
  let ?h = "\<lambda>s. if sr_award s = ?a then s\<lparr>sr_status := ''PENDING_REVIEW'', sr_version := sr_version s + 1\<rparr> else s"
  have states: "rd_states ?d = map ?h (rd_states d)" by (simp add: apply_receipt_def update_intent_def)
  have g: "committed_row (?g r)" "in_award (?g r) = ?a" "in_operation_id (?g r) = ?i" "opv w b (?g r) = v" "in_open (?g r) = in_open r"
    using ra row(6) v by (simp_all add: committed_row_def)
  have rows: "set (rd_intents d) = insert r (set xs \<union> set ys)" by (auto simp: split)
  have free: "r' \<in> set xs \<union> set ys \<Longrightarrow> committed_row r' \<Longrightarrow> in_award r' \<noteq> ?a" for r' using un(2) rows by blast
  then have free2: "?a \<notin> in_award ` {x \<in> set xs. committed_row x}" "?a \<notin> in_award ` {x \<in> set ys. committed_row x}"
    by (auto intro!: notin_image)
  have parts: "references_ok d" "distinct (map in_award (filter committed_row (rd_intents d)))" "distinct (map nt_award (rd_notes d))"
      "nt_award ` set (rd_notes d) = in_award ` set (filter committed_row (rd_intents d))"
      "\<And>r n. r \<in> set (rd_intents d) \<Longrightarrow> \<not> committed_row r \<Longrightarrow> n \<in> set (rd_notes d) \<Longrightarrow> nt_award n \<noteq> in_award r"
      "\<And>s. s \<in> set (rd_states d) \<Longrightarrow> state_shows w b d s"
    using d(1) by (auto simp: valid_store_def list_all_iff)
  have opened: "r' \<in> set xs \<union> set ys \<Longrightarrow> \<not> committed_row r' \<Longrightarrow> in_award r' \<noteq> ?a" for r'
  proof -
    assume r': "r' \<in> set xs \<union> set ys" "\<not> committed_row r'"
    have pend: "x \<in> set (rd_intents d) \<Longrightarrow> \<not> committed_row x \<Longrightarrow> in_open x" for x
      using intent_ok_pending [OF d(5)] by (simp add: committed_row_def)
    have "in_award r \<notin> in_award ` set (filter in_open (xs @ ys))"
      using d(3) pend [OF row(1,2)] by (auto simp: split)
    moreover have "r' \<in> set (filter in_open (xs @ ys))" using pend [of r'] r' rows by simp
    ultimately show "in_award r' \<noteq> ?a" unfolding ra by (metis imageI)
  qed
  have "sr_award ` ?h ` X = sr_award ` X" for X unfolding image_image by (rule image_cong) simp_all
  then have im: "sr_award ` set (rd_states ?d) = sr_award ` set (rd_states d)"
      "in_award ` set (rd_intents ?d) = in_award ` set (rd_intents d)"
      "in_operation_id ` set (rd_intents ?d) = in_operation_id ` set (rd_intents d)"
    using g ra row(6) unfolding intents states set_map by (simp_all add: split)
  moreover have "?a \<in> in_award ` set (rd_intents d)" "?i \<in> in_operation_id ` set (rd_intents d)"
    using row(1,6) ra by (metis imageI)+
  ultimately have "references_ok ?d"
    using parts(1) unfolding references_ok_iff im nts by auto
  moreover have "list_all (intent_ok w b) (rd_intents ?d)"
    using rok d(5) unfolding intents list_all_iff by (simp add: rows)
  moreover have "distinct (map in_award (filter committed_row (rd_intents ?d)))"
    using parts(2) free2 g row(2) unfolding intents by (simp add: split)
  moreover have "distinct (map nt_award (rd_notes ?d))"
    using parts(3) un(3) unfolding nts by auto
  moreover have "nt_award ` set (rd_notes ?d) = in_award ` set (filter committed_row (rd_intents ?d))"
    using parts(4) g row(2) unfolding nts intents by (auto simp: split)
  moreover have "\<forall>r \<in> set (rd_intents ?d). \<not> committed_row r \<longrightarrow> (\<forall>n \<in> set (rd_notes ?d). nt_award n \<noteq> in_award r)"
    using parts(5) opened [THEN not_sym] g unfolding nts intents by (simp add: rows ball_Un)
  moreover have "state_shows w b ?d (?h s')" if "s' \<in> set (rd_states d)" for s'
  proof (cases "sr_award s' = ?a")
    case True
    have "s' = s"
      using True that state_of_in [OF s(2)] states_distinct [OF d(1) b] by (metis distinct_map inj_onD)
    moreover have "find (\<lambda>n. nt_award n = ?a) (rd_notes d) = None"
      using un(3) by (simp add: find_None_iff)
    then have "note_of ?a ?d = Some ?n" unfolding note_of_def nts find_snoc by simp
    ultimately show ?thesis
      using True un(1) g free opened unfolding state_shows_def intents by auto
  next
    case False
    have "note_of (sr_award s') ?d = note_of (sr_award s') d"
      using False unfolding note_of_def nts find_snoc by (simp split: option.split)
    then show ?thesis
      using False parts(6) [OF that] g ra unfolding state_shows_def intents by (auto simp: rows)
  qed
  then have "list_all (state_shows w b ?d) (rd_states ?d)" unfolding states list_all_iff set_map by blast
  moreover have "set (rd_metadata ?d) = set (store_metadata b)" "length (rd_states ?d) = 40"
      "sr_award ` set (rd_states ?d) = set (rs_ids b)"
    using d(1) unfolding valid_store_def im(1) by (simp_all add: apply_receipt_def update_intent_def)
  ultimately have "valid_store w b ?d" unfolding valid_store_def by (intro conjI)
  moreover have "distinct (map in_operation_id (rd_intents ?d))" "distinct (map in_award (filter in_open (rd_intents ?d)))"
    using d(2,3) g row(6) ra unfolding intents by (simp_all add: split split: if_splits)
  moreover have "\<forall>r \<in> set (rd_intents ?d). good w (opv w b r)"
    using d(4) d(4) [OF row(1)] g v unfolding intents by (simp add: rows)
  ultimately show ?thesis by (simp add: review_inv_def)
qed

section \<open>Runs of several processes\<close>

definition file_inv :: "libs \<Rightarrow> review_store \<Rightarrow> review_file \<Rightarrow> bool" where
  "file_inv w b f = (case f of Review d \<Rightarrow> review_inv w b d | _ \<Rightarrow> True)"

lemma ended_cases: "fst (ended e f d) = f \<or> fst (ended e f d) = Review d"
  by (simp add: ended_def split: commit_fate.split)

lemma ended_returned: "snd (ended e f d) \<Longrightarrow> fst (ended e f d) = Review d"
  by (simp add: ended_def split: commit_fate.splits)

lemma reserve_cases:
  obtains (same) "fst (reserve_review e w b i u binding f) = f"
  | (reserved) v d where "f = Review d" "store_operation w b u = Inr v" "is_hex 64 binding" "available_op w v d = Inr ()"
      "i \<notin> set (map in_operation_id (rd_intents d))"
      "fst (reserve_review e w b i u binding f) = Review (d\<lparr>rd_intents := rd_intents d @ [new_intent w i v binding]\<rparr>)"
proof -
  let ?c = "guarded [(id_ok i \<and> is_hex 64 binding, StoreError ''INTENT_IDENTITY_INVALID'')]
         (rbind (lift_code (store_operation w b u)) (\<lambda>v. rbind (opened_store e w b f) (\<lambda>_.
            if se_fault e ''before_open'' \<or> \<not> se_begin e then Inl (StoreError ''OPEN_NOT_CONFIRMED'')
            else rbind (validated e w b f) (\<lambda>d. rbind (available_op w v d) (\<lambda>_.
              if i \<in> set (map in_operation_id (rd_intents d)) \<or> \<not> se_write e
              then Inl (StoreError ''OPEN_NOT_CONFIRMED'') else Inr (v, d))))))"
  show thesis
  proof (cases ?c)
    case (Inl x)
    then have "fst (reserve_review e w b i u binding f) = f" unfolding reserve_review_def by simp
    then show ?thesis by (rule same)
  next
    case (Inr p)
    obtain v d where p: "p = (v, d)" by (cases p)
    have facts: "store_operation w b u = Inr v" "is_hex 64 binding" "validated e w b f = Inr d" "available_op w v d = Inr ()"
        "i \<notin> set (map in_operation_id (rd_intents d))"
      using Inr unfolding p by (auto simp: rbind_Inr_iff split: if_splits)
    have "fst (reserve_review e w b i u binding f) = fst (ended e f (d\<lparr>rd_intents := rd_intents d @ [new_intent w i v binding]\<rparr>))"
      using Inr p unfolding reserve_review_def by (simp add: split_beta)
    then show ?thesis
      using ended_cases [of e f] facts validated_Inr [OF facts(3)] same reserved by metis
  qed
qed

lemma start_cases:
  obtains (same) "fst (commit_start e w b i binding f) = f" "\<not> is_ok (snd (commit_start e w b i binding f))"
  | (started) r d where "f = Review d" "start_checks i binding d = Inr r"
      "fst (commit_start e w b i binding f) = Review (update_intent i (\<lambda>r. r\<lparr>in_started := True\<rparr>) d)"
      "snd (commit_start e w b i binding f) = Inr r \<or> \<not> is_ok (snd (commit_start e w b i binding f))"
proof -
  let ?c = "rbind (opened_store e w b f) (\<lambda>_. if \<not> se_begin e then Inl not_confirmed
         else rbind (validated e w b f) (\<lambda>d. rbind (start_checks i binding d) (\<lambda>r.
           if \<not> se_write e then Inl not_confirmed else Inr (r, d))))"
  show thesis
  proof (cases ?c)
    case (Inl x)
    then have "commit_start e w b i binding f = (f, Inl x)" unfolding commit_start_def by simp
    then show ?thesis using same by simp
  next
    case (Inr p)
    obtain r d where p: "p = (r, d)" by (cases p)
    have facts: "validated e w b f = Inr d" "start_checks i binding d = Inr r"
      using Inr unfolding p by (auto simp: rbind_Inr_iff split: if_splits)
    let ?g = "ended e f (update_intent i (\<lambda>r. r\<lparr>in_started := True\<rparr>) d)"
    have e: "commit_start e w b i binding f
        = (fst ?g, if snd ?g \<and> \<not> se_fault e ''after_attempt_start'' then Inr r else Inl not_confirmed)"
      using Inr p unfolding commit_start_def by (simp add: split_beta)
    show ?thesis
    proof (cases "fst ?g = f \<and> \<not> snd ?g")
      case True
      then show ?thesis using e same by simp
    next
      case False
      then have "fst ?g = Review (update_intent i (\<lambda>r. r\<lparr>in_started := True\<rparr>) d)"
        using ended_cases [of e f] ended_returned by metis
      then show ?thesis using e started facts validated_Inr [OF facts(1)] by auto
    qed
  qed
qed

lemma apply_cases:
  obtains (same) "fst (commit_apply e w b row binding f) = f"
  | (applied) v receipt raw d where "f = Review d" "apply_checks w b row binding d = Inr (v, receipt, raw)"
      "fst (commit_apply e w b row binding f) = Review (apply_receipt w (in_operation_id row) v raw d)"
proof -
  let ?c = "if \<not> se_begin e then Inl not_confirmed
         else rbind (validated e w b f) (\<lambda>d. rbind (apply_checks w b row binding d) (\<lambda>x.
           if \<not> se_write e \<or> se_fault e ''before_commit'' then Inl not_confirmed else Inr (x, d)))"
  show thesis
  proof (cases ?c)
    case (Inl x)
    then have "fst (commit_apply e w b row binding f) = f" unfolding commit_apply_def by simp
    then show ?thesis by (rule same)
  next
    case (Inr p)
    obtain v receipt raw d where p: "p = ((v, receipt, raw), d)" by (metis prod_cases3 prod.exhaust_sel)
    have facts: "validated e w b f = Inr d" "apply_checks w b row binding d = Inr (v, receipt, raw)"
      using Inr unfolding p by (auto simp: rbind_Inr_iff split: if_splits)
    have "fst (commit_apply e w b row binding f) = fst (ended e f (apply_receipt w (in_operation_id row) v raw d))"
      using Inr p unfolding commit_apply_def by (simp add: split_beta)
    then show ?thesis
      using ended_cases [of e f] facts validated_Inr [OF facts(1)] same applied by metis
  qed
qed

lemma acknowledge_cases:
  obtains (same) "fst (acknowledge_review e w b i sha f) = f"
  | (closed) d where "f = Review d" "closable i sha d"
      "fst (acknowledge_review e w b i sha f) = Review (update_intent i (\<lambda>r. r\<lparr>in_open := False\<rparr>) d)"
proof -
  let ?c = "rbind (opened_store e w b f) (\<lambda>_. if \<not> se_begin e then Inl (UncertainError ''CUSTODY_ACK_UNKNOWN'')
         else rbind (validated e w b f) (\<lambda>d. guarded
           [(closable i sha d, UncertainError ''CUSTODY_ACK_MISMATCH''),
            (\<not> se_fault e ''before_ack'' \<and> se_write e, UncertainError ''CUSTODY_ACK_UNKNOWN'')] (Inr d)))"
  show thesis
  proof (cases ?c)
    case (Inl x)
    then have "fst (acknowledge_review e w b i sha f) = f" unfolding acknowledge_review_def by simp
    then show ?thesis by (rule same)
  next
    case (Inr d)
    have facts: "validated e w b f = Inr d" "closable i sha d"
      using Inr by (auto simp: rbind_Inr_iff split: if_splits)
    have "fst (acknowledge_review e w b i sha f) = fst (ended e f (update_intent i (\<lambda>r. r\<lparr>in_open := False\<rparr>) d))"
      using Inr unfolding acknowledge_review_def by (simp add: split_beta)
    then show ?thesis
      using ended_cases [of e f] facts validated_Inr [OF facts(1)] same closed by metis
  qed
qed

text \<open>A row a process holds is on record as started, with nothing committed.\<close>

definition holds :: "review_db \<Rightarrow> intent_row \<Rightarrow> string \<Rightarrow> bool" where
  "holds d row binding \<longleftrightarrow> (\<exists>r \<in> set (rd_intents d). \<not> committed_row r \<and> in_started r \<and> in_binding r = binding
     \<and> in_operation r = in_operation row \<and> in_operation_id r = in_operation_id row)"

definition world_ok :: "libs \<Rightarrow> review_store \<Rightarrow> review_world \<Rightarrow> bool" where
  "world_ok w b s \<longleftrightarrow> file_inv w b (ww_file s)
     \<and> (\<forall>n row binding. ww_held s n = Some (row, binding) \<longrightarrow> (\<exists>d. ww_file s = Review d \<and> holds d row binding))
     \<and> (\<forall>m n row row' binding binding'. ww_held s m = Some (row, binding) \<longrightarrow> ww_held s n = Some (row', binding') \<longrightarrow>
          in_operation_id row = in_operation_id row' \<longrightarrow> m = n)"

fun op_good :: "libs \<Rightarrow> review_op \<Rightarrow> bool" where
  "op_good w (RReserve e i operation binding) = good w operation"
| "op_good w _ = True"

lemma holds_more: "holds d row binding \<Longrightarrow> set (rd_intents d) \<subseteq> set (rd_intents d') \<Longrightarrow> holds d' row binding"
  by (auto simp: holds_def)

lemma holds_update:
  assumes "holds d row binding"
    and "\<And>r. in_binding (f r) = in_binding r \<and> in_operation (f r) = in_operation r \<and> in_operation_id (f r) = in_operation_id r
      \<and> in_receipt (f r) = in_receipt r \<and> (in_started r \<longrightarrow> in_started (f r))"
  shows "holds (update_intent i f d) row binding"
proof -
  obtain r where r: "r \<in> set (rd_intents d)" "\<not> committed_row r" "in_started r" "in_binding r = binding"
      "in_operation r = in_operation row" "in_operation_id r = in_operation_id row"
    using assms(1) by (auto simp: holds_def)
  then show ?thesis
    using assms(2) [of r] unfolding holds_def update_intent_def
    by (intro bexI [of _ "if in_operation_id r = i then f r else r"]) (auto simp: committed_row_def)
qed

lemma holds_apply:
  assumes "holds d row' binding'" "in_operation_id row' \<noteq> in_operation_id row"
  shows "holds (apply_receipt w (in_operation_id row) v raw d) row' binding'"
  using assms unfolding holds_def apply_receipt_def update_intent_def by force

lemma start_checks_Inr:
  "start_checks i binding d = Inr r \<Longrightarrow> intent_of i d = Some r \<and> in_open r \<and> in_binding r = binding \<and> \<not> committed_row r \<and> \<not> in_started r"
  by (auto simp: start_checks_def committed_row_def split: option.splits if_splits)

lemma holds_started:
  assumes "start_checks i binding d = Inr r"
  shows "holds (update_intent i (\<lambda>r. r\<lparr>in_started := True\<rparr>) d) r binding" and "in_operation_id r = i"
proof -
  note c = start_checks_Inr [OF assms]
  then show i: "in_operation_id r = i" using intent_of_in by metis
  show "holds (update_intent i (\<lambda>r. r\<lparr>in_started := True\<rparr>) d) r binding"
    using c i intent_of_in [of i d r] unfolding holds_def update_intent_def
    by (intro bexI [of _ "r\<lparr>in_started := True\<rparr>"]) (auto simp: committed_row_def image_iff)
qed

lemma world_ok_hold:
  assumes "world_ok w b s" "ww_file s = Review d" "review_inv w b d'" "holds d' row k"
    and "\<And>row' k'. holds d row' k' \<Longrightarrow> holds d' row' k' \<and> in_operation_id row' \<noteq> in_operation_id row"
  shows "world_ok w b \<lparr>ww_file = Review d', ww_held = (ww_held s)(n := Some (row, k))\<rparr>"
proof -
  have held: "ww_held s m = Some (row', k') \<Longrightarrow> holds d row' k'" for m row' k'
    using assms(1,2) by (auto simp: world_ok_def)
  then have other: "ww_held s m = Some (row', k') \<Longrightarrow> holds d' row' k' \<and> in_operation_id row' \<noteq> in_operation_id row" for m row' k'
    using assms(5) by blast
  have inj: "ww_held s m = Some (row1, k1) \<Longrightarrow> ww_held s m' = Some (row2, k2) \<Longrightarrow> in_operation_id row1 = in_operation_id row2 \<Longrightarrow> m = m'"
    for m m' row1 row2 k1 k2
    using assms(1) unfolding world_ok_def by blast
  show ?thesis
    unfolding world_ok_def using assms(3,4) other
    by (auto simp: file_inv_def dest: inj) metis
qed

lemma world_ok_drop:
  assumes "world_ok w b s" "review_inv w b d'"
    and "\<And>m row k. ww_held s m = Some (row, k) \<Longrightarrow> m \<noteq> n \<Longrightarrow> holds d' row k"
  shows "world_ok w b \<lparr>ww_file = Review d', ww_held = (ww_held s)(n := None)\<rparr>"
  using assms unfolding world_ok_def by (auto simp: file_inv_def split: if_splits)

lemma step_keeps:
  assumes b: "store_ok b" and x: "op_good w x" and s: "world_ok w b s"
  shows "world_ok w b (fst (review_step w b x s))"
proof (cases x)
  case (RReserve e i u binding)
  show ?thesis
  proof (cases rule: reserve_cases [of e w b i u binding "ww_file s"])
    case same
    with s RReserve show ?thesis by (simp add: world_ok_def)
  next
    case (reserved v d)
    then have "review_inv w b (d\<lparr>rd_intents := rd_intents d @ [new_intent w i v binding]\<rparr>)"
      using s x RReserve by (intro reserve_keeps) (auto simp: world_ok_def file_inv_def)
    moreover have "holds d row k \<Longrightarrow> holds (d\<lparr>rd_intents := rd_intents d @ [new_intent w i v binding]\<rparr>) row k" for row k
      by (erule holds_more) auto
    ultimately show ?thesis
      using s reserved(1,6) RReserve by (auto simp: world_ok_def file_inv_def)
  qed
next
  case (RStart n e i binding)
  show ?thesis
  proof (cases rule: start_cases [of e w b i binding "ww_file s"])
    case same
    then show ?thesis
      using s RStart by (cases "commit_start e w b i binding (ww_file s)"; cases "snd (commit_start e w b i binding (ww_file s))")
        (simp_all add: world_ok_def split: if_splits)
  next
    case (started r d)
    let ?d = "update_intent i (\<lambda>r. r\<lparr>in_started := True\<rparr>) d"
    have d: "review_inv w b d" using s started(1) by (simp add: world_ok_def file_inv_def)
    have inv: "review_inv w b ?d" using start_keeps [OF d started(2)] .
    have old: "holds ?d row k" if "holds d row k" for row k
      using that by (rule holds_update) simp
    have fresh: "in_operation_id row \<noteq> i" if hr: "holds d row k" for row k
    proof
      assume "in_operation_id row = i"
      then obtain r' where "r' \<in> set (rd_intents d)" "in_started r'" "in_operation_id r' = i"
        using hr by (auto simp: holds_def)
      moreover have "r \<in> set (rd_intents d)" "in_operation_id r = i" "\<not> in_started r"
        using start_checks_Inr [OF started(2)] intent_of_in by metis+
      ultimately show False using d distinct_ids_eq by (metis review_inv_def)
    qed
    obtain g q where gq: "commit_start e w b i binding (ww_file s) = (g, q)" by fastforce
    then have g: "g = Review ?d" "q = Inr r \<or> (\<exists>x. q = Inl x)"
      using started by (auto simp: not_is_ok_iff)
    show ?thesis
      using g(2)
    proof
      assume q: "q = Inr r"
      show ?thesis
        using world_ok_hold [OF s started(1) inv holds_started(1) [OF started(2)]] old fresh holds_started(2) [OF started(2)]
        unfolding RStart by (simp add: gq g(1) q)
    next
      assume "\<exists>x. q = Inl x"
      then have "fst (review_step w b x s) = \<lparr>ww_file = Review ?d, ww_held = (ww_held s)(n := None)\<rparr>"
        using gq g(1) RStart by auto
      moreover have "ww_held s m = Some (row, k) \<Longrightarrow> holds ?d row k" for m row k
        using s started(1) old by (auto simp: world_ok_def)
      ultimately show ?thesis using world_ok_drop [OF s inv] by simp
    qed
  qed
next
  case (RApply n e)
  show ?thesis
  proof (cases "ww_held s n")
    case None
    then show ?thesis using s RApply by simp
  next
    case (Some h)
    obtain row binding where h: "ww_held s n = Some (row, binding)" using Some by (cases h) simp
    obtain d where f: "ww_file s = Review d" and held: "holds d row binding"
      using s h unfolding world_ok_def by blast
    show ?thesis
    proof (cases rule: apply_cases [of e w b row binding "ww_file s"])
      case same
      then show ?thesis using s h RApply by (simp add: world_ok_def)
    next
      case (applied v receipt raw d')
      let ?d = "apply_receipt w (in_operation_id row) v raw d"
      have d: "d' = d" using applied(1) f by simp
      have "review_inv w b ?d"
        using held applied(2) s f unfolding holds_def d
        by (auto simp: world_ok_def file_inv_def intro: apply_keeps [OF _ b])
      moreover have "holds ?d row' k" if "ww_held s m = Some (row', k)" "m \<noteq> n" for m row' k
        using that s h f unfolding world_ok_def by (metis holds_apply review_file.inject)
      ultimately show ?thesis
        using world_ok_drop [OF s, of ?d n] h applied(3) unfolding RApply d by simp
    qed
  qed
next
  case (RAcknowledge e i sha)
  show ?thesis
  proof (cases rule: acknowledge_cases [of e w b i sha "ww_file s"])
    case same
    with s RAcknowledge show ?thesis by (simp add: world_ok_def)
  next
    case (closed d)
    then have "review_inv w b (update_intent i (\<lambda>r. r\<lparr>in_open := False\<rparr>) d)"
      using s by (intro acknowledge_keeps) (auto simp: world_ok_def file_inv_def)
    moreover have "holds d row k \<Longrightarrow> holds (update_intent i (\<lambda>r. r\<lparr>in_open := False\<rparr>) d) row k" for row k
      by (erule holds_update) simp
    ultimately show ?thesis
      using s closed RAcknowledge by (auto simp: world_ok_def file_inv_def)
  qed
qed

lemma step_review:
  assumes "ww_file s = Review d"
  shows "\<exists>d'. ww_file (fst (review_step w b x s)) = Review d'"
proof (cases x)
  case (RReserve e i u binding)
  then show ?thesis using assms by (cases rule: reserve_cases [of e w b i u binding "ww_file s"]) auto
next
  case (RStart n e i binding)
  then show ?thesis using assms by (cases rule: start_cases [of e w b i binding "ww_file s"]) (auto split: prod.split)
next
  case (RApply n e)
  show ?thesis
  proof (cases "ww_held s n")
    case (Some h)
    then show ?thesis
      using assms RApply by (cases h; cases rule: apply_cases [of e w b "fst h" "snd h" "ww_file s"]) auto
  qed (use assms RApply in simp)
next
  case (RAcknowledge e i sha)
  then show ?thesis using assms by (cases rule: acknowledge_cases [of e w b i sha "ww_file s"]) auto
qed

lemma run_keeps:
  assumes "store_ok b" "list_all (op_good w) xs" "world_ok w b s" "ww_file s = Review d"
  shows "\<exists>d'. ww_file (fst (run_ops (review_step w b) xs s)) = Review d' \<and> review_inv w b d'"
  using assms(2-4)
proof (induction xs arbitrary: s d)
  case Nil
  then show ?case by (simp add: world_ok_def file_inv_def)
next
  case (Cons x xs)
  obtain d' where d': "ww_file (fst (review_step w b x s)) = Review d'" using step_review [OF Cons.prems(3)] by blast
  have "world_ok w b (fst (review_step w b x s))"
    using Cons.prems assms(1) by (intro step_keeps) simp_all
  then show ?case using Cons.IH [OF _ _ d'] Cons.prems(1) by simp
qed

definition initial_world :: "review_store \<Rightarrow> review_world" where
  "initial_world b = \<lparr>ww_file = Review (initial_review b), ww_held = (\<lambda>_. None)\<rparr>"

lemma initial_review_inv: "store_ok b \<Longrightarrow> review_inv w b (initial_review b)"
  by (auto simp: review_inv_def valid_store_def initial_review_def references_ok_def state_shows_def store_ok_def list_all_iff image_image)

lemma initial_world_ok: "store_ok b \<Longrightarrow> world_ok w b (initial_world b)"
  by (simp add: world_ok_def initial_world_def file_inv_def initial_review_inv)

section \<open>Single entry into the adapter\<close>

definition ids_inv :: "review_world \<Rightarrow> bool" where
  "ids_inv s = (case ww_file s of Review d \<Rightarrow> distinct (map in_operation_id (rd_intents d)) | _ \<Rightarrow> True)"

definition on_record :: "review_world \<Rightarrow> string \<Rightarrow> bool" where
  "on_record s i = (case ww_file s of Review d \<Rightarrow> i \<in> set (map in_operation_id (rd_intents d)) | _ \<Rightarrow> False)"

definition not_started :: "review_world \<Rightarrow> string \<Rightarrow> bool" where
  "not_started s i = (case ww_file s of Review d \<Rightarrow> \<exists>r \<in> set (rd_intents d). in_operation_id r = i \<and> \<not> in_started r | _ \<Rightarrow> False)"

text \<open>Every step maps the rows in place, keeps started rows started, or adds one row with a new identity.\<close>

definition row_step :: "intent_row list \<Rightarrow> intent_row list \<Rightarrow> bool" where
  "row_step rs rs' \<longleftrightarrow> (\<exists>f. rs' = map f rs \<and> (\<forall>r. in_operation_id (f r) = in_operation_id r \<and> (in_started r \<longrightarrow> in_started (f r))))
     \<or> (\<exists>r. rs' = rs @ [r] \<and> in_operation_id r \<notin> set (map in_operation_id rs))"

lemma row_step_same: "row_step rs rs"
  unfolding row_step_def by (rule disjI1, rule exI [of _ "\<lambda>r. r"]) simp

lemma row_step_update:
  assumes "\<And>r. in_operation_id (f r) = in_operation_id r \<and> (in_started r \<longrightarrow> in_started (f r))"
  shows "row_step (rd_intents d) (rd_intents (update_intent i f d))"
  unfolding row_step_def using assms
  by (intro disjI1 exI [of _ "\<lambda>r. if in_operation_id r = i then f r else r"]) (simp add: update_intent_def)

lemma row_step_distinct:
  "row_step rs rs' \<Longrightarrow> distinct (map in_operation_id rs) \<Longrightarrow> distinct (map in_operation_id rs')"
  unfolding row_step_def by (elim disjE exE conjE) (simp_all add: comp_def)

lemma row_step_started:
  assumes "row_step rs rs'" "i \<in> set (map in_operation_id rs)" "\<forall>r \<in> set rs. in_operation_id r = i \<longrightarrow> in_started r"
  shows "i \<in> set (map in_operation_id rs') \<and> (\<forall>r \<in> set rs'. in_operation_id r = i \<longrightarrow> in_started r)"
  using assms unfolding row_step_def by (elim disjE exE conjE) (auto simp: image_image)

lemma start_step:
  "ww_file (fst (review_step w b (RStart n e i k) s)) = fst (commit_start e w b i k (ww_file s))"
  "snd (review_step w b (RStart n e i k) s) = (if is_ok (snd (commit_start e w b i k (ww_file s))) then Some i else None)"
  by (simp_all split: prod.split)

declare review_step.simps(2) [simp del]
declare start_step [simp]

lemma step_rows:
  assumes "ww_file s = Review d"
  obtains d' where "ww_file (fst (review_step w b x s)) = Review d'" "row_step (rd_intents d) (rd_intents d')"
proof (cases x)
  case (RReserve e i u binding)
  show ?thesis
    by (cases rule: reserve_cases [of e w b i u binding "ww_file s"])
      (use that assms RReserve row_step_same in \<open>auto simp: row_step_def new_intent_def\<close>)
next
  case (RStart n e i binding)
  show ?thesis
  proof (cases rule: start_cases [of e w b i binding "ww_file s"])
    case same
    then show ?thesis using that [of d] assms RStart row_step_same by simp
  next
    case (started r d2)
    then show ?thesis
      using that [of "update_intent i (\<lambda>r. r\<lparr>in_started := True\<rparr>) d2"] assms RStart
        row_step_update [of "\<lambda>r. r\<lparr>in_started := True\<rparr>" d2 i] by simp
  qed
next
  case (RApply n e)
  show ?thesis
  proof (cases "ww_held s n")
    case (Some h)
    obtain row k where h: "h = (row, k)" by (cases h)
    show ?thesis
    proof (cases rule: apply_cases [of e w b row k "ww_file s"])
      case same
      then show ?thesis using that [of d] assms RApply Some h row_step_same by simp
    next
      case (applied v receipt raw d2)
      have "row_step (rd_intents d2) (rd_intents (apply_receipt w (in_operation_id row) v raw d2))"
        using row_step_update [of "\<lambda>r. r\<lparr>in_receipt := Some raw, in_receipt_sha := Some (sha256 w raw)\<rparr>" d2 "in_operation_id row"]
        by (simp add: apply_receipt_def update_intent_def)
      then show ?thesis using that applied assms RApply Some h by simp
    qed
  qed (use that assms RApply row_step_same in simp)
next
  case (RAcknowledge e i sha)
  show ?thesis
  proof (cases rule: acknowledge_cases [of e w b i sha "ww_file s"])
    case same
    then show ?thesis using that [of d] assms RAcknowledge row_step_same by simp
  next
    case (closed d2)
    then show ?thesis
      using that [of "update_intent i (\<lambda>r. r\<lparr>in_open := False\<rparr>) d2"] assms RAcknowledge
        row_step_update [of "\<lambda>r. r\<lparr>in_open := False\<rparr>" d2 i] by simp
  qed
qed

lemma entered:
  assumes "snd (review_step w b x s) = Some i"
  obtains n e binding d r where "x = RStart n e i binding" "ww_file s = Review d" "start_checks i binding d = Inr r"
    "ww_file (fst (review_step w b x s)) = Review (update_intent i (\<lambda>r. r\<lparr>in_started := True\<rparr>) d)"
proof (cases x)
  case (RStart n e i' binding)
  then have ok: "is_ok (snd (commit_start e w b i binding (ww_file s)))" "i' = i"
    using assms by (auto split: if_splits)
  show ?thesis
  proof (cases rule: start_cases [of e w b i binding "ww_file s"])
    case same
    then show ?thesis using ok by simp
  next
    case (started r d)
    then show ?thesis using that RStart ok by simp
  qed
qed (use assms in \<open>auto split: option.splits prod.splits\<close>)

lemma step_no_review:
  assumes "\<nexists>d. ww_file s = Review d"
  shows "ww_file (fst (review_step w b x s)) = ww_file s"
proof (cases x)
  case (RReserve e i u k)
  then show ?thesis using assms by (cases rule: reserve_cases [of e w b i u k "ww_file s"]) auto
next
  case (RStart n e i k)
  then show ?thesis using assms by (cases rule: start_cases [of e w b i k "ww_file s"]) auto
next
  case (RApply n e)
  show ?thesis
  proof (cases "ww_held s n")
    case (Some h)
    then show ?thesis
      using assms RApply by (cases h; cases rule: apply_cases [of e w b "fst h" "snd h" "ww_file s"]) auto
  qed (use assms RApply in simp)
next
  case (RAcknowledge e i sha)
  then show ?thesis using assms by (cases rule: acknowledge_cases [of e w b i sha "ww_file s"]) auto
qed

lemma stays_started:
  assumes "ids_inv s" "on_record s i" "\<not> not_started s i"
  shows "on_record (fst (review_step w b x s)) i \<and> \<not> not_started (fst (review_step w b x s)) i"
proof -
  obtain d where d: "ww_file s = Review d" using assms(2) by (auto simp: on_record_def split: review_file.splits)
  obtain d' where d': "ww_file (fst (review_step w b x s)) = Review d'" "row_step (rd_intents d) (rd_intents d')"
    using step_rows [OF d] .
  show ?thesis
    using row_step_started [OF d'(2), of i] assms(2,3) d d'(1) by (auto simp: on_record_def not_started_def)
qed

interpretation adapter_entries: single_use ids_inv not_started on_record "review_step w b" for w b
proof
  fix x s
  assume inv: "ids_inv s"
  show "ids_inv (fst (review_step w b x s))"
  proof (cases "\<exists>d. ww_file s = Review d")
    case True
    then obtain d where d: "ww_file s = Review d" by blast
    then show ?thesis
      using inv row_step_distinct by (cases rule: step_rows [OF d, of w b x]) (auto simp: ids_inv_def)
  next
    case False
    then show ?thesis using step_no_review [of s w b x] inv by (simp add: ids_inv_def)
  qed
next
  fix s x i
  assume inv: "ids_inv s" and e: "snd (review_step w b x s) = Some i"
  obtain n ev k d r where d: "ww_file s = Review d" "start_checks i k d = Inr r"
    using entered [OF e] by metis
  then show "not_started s i"
    using start_checks_Inr [OF d(2)] intent_of_in [of i d r] by (auto simp: not_started_def)
next
  fix s x i
  assume inv: "ids_inv s" and e: "snd (review_step w b x s) = Some i"
  obtain n ev k d r where d: "ww_file s = Review d" "start_checks i k d = Inr r"
      "ww_file (fst (review_step w b x s)) = Review (update_intent i (\<lambda>r. r\<lparr>in_started := True\<rparr>) d)"
    using entered [OF e] by metis
  have "r \<in> set (rd_intents d)" "in_operation_id r = i"
    using start_checks_Inr [OF d(2)] intent_of_in by metis+
  then show "on_record (fst (review_step w b x s)) i \<and> \<not> not_started (fst (review_step w b x s)) i"
    using d(3) by (auto simp: on_record_def not_started_def update_intent_def image_image split: if_splits)
qed (rule stays_started)

section \<open>What the store promises\<close>

definition example_review :: review_store where
  "example_review = \<lparr>rs_id = ''store'', rs_ids = map (\<lambda>n. replicate n (CHR ''A'')) [1..<41]\<rparr>"

lemma example_review_ok: "store_ok example_review"
  by (auto simp: store_ok_def example_review_def distinct_map inj_on_def dest: arg_cong [of _ _ length])

definition example_store_env :: review_env where
  "example_store_env = \<lparr>se_dataset = None, se_path = True, se_sql = True, se_begin = True, se_read = True,
     se_quick = True, se_write = True, se_commit = Committed, se_fault = (\<lambda>_. False)\<rparr>"

lemma filter_unique: "distinct (map f xs) \<Longrightarrow> r \<in> set xs \<Longrightarrow> f r = a \<Longrightarrow> filter (\<lambda>x. f x = a) xs = [r]"
  by (induction xs) (auto simp: filter_empty_conv image_iff)

text \<open>
  C26. Whatever several processes do to a new review store - reservations of operations that their text
  reads back, commits interrupted between their two transactions, lost acknowledgements, failed commits,
  injected faults - the validation every operation starts with passes on what is left: no operation can
  bring the store into a state in which it refuses to work.
\<close>

theorem review_store_stays_valid:
  assumes "store_ok b" "list_all (op_good w) xs"
  shows "\<exists>d. ww_file (fst (run_ops (review_step w b) xs (initial_world b))) = Review d \<and> validate_store w b d = Inr ()"
  using run_keeps [OF assms initial_world_ok [OF assms(1)], of "initial_review b"]
  by (auto simp: initial_world_def validate_store_iff review_inv_def)

theorem review_store_stays_valid_witness:
  "\<exists>d. ww_file (fst (run_ops (review_step example_libs example_review)
      [RReserve example_store_env ''op'' (JObj [(''store_id'', JStr ''store'')]) ''00'', RStart 0 example_store_env ''op'' ''00'',
       RApply 0 example_store_env] (initial_world example_review))) = Review d
     \<and> validate_store example_libs example_review d = Inr ()"
  using review_store_stays_valid [OF example_review_ok, of example_libs
      "[RReserve example_store_env ''op'' (JObj [(''store_id'', JStr ''store'')]) ''00'', RStart 0 example_store_env ''op'' ''00'',
        RApply 0 example_store_env]"]
  by (simp add: good_def)

text \<open>
  The adapter is entered at most once for an operation: in any run of any processes over a store
  without repeated identities, the entries that were acknowledged are pairwise different, whatever commits
  are lost and however often an operation is presented again.
\<close>

theorem adapter_entered_once:
  assumes "distinct (map in_operation_id (rd_intents d))"
  shows "distinct (snd (run_ops (review_step w b) xs \<lparr>ww_file = Review d, ww_held = h\<rparr>))"
  using assms by (intro adapter_entries.redeemed_once) (simp add: ids_inv_def)

theorem adapter_entered_once_witness:
  "distinct (snd (run_ops (review_step example_libs example_review) [RStart 0 example_store_env ''op'' ''00'']
     \<lparr>ww_file = Review (initial_review example_review), ww_held = (\<lambda>_. None)\<rparr>))"
  by (rule adapter_entered_once) (simp add: initial_review_def)

text \<open>
  C27. Validation accepts no mutation without its evidence and no evidence without its mutation: in a store
  that passes, an award is either unreviewed at version 0 with no note and no committed intent, or pending
  at version 1 with exactly one committed intent, whose operation read version 0 and was started, and
  exactly one note, which is the note of that operation.
\<close>

theorem mutation_has_its_evidence:
  assumes "validate_store w b d = Inr ()" "s \<in> set (rd_states d)"
  shows "sr_status s = ''UNREVIEWED'' \<and> sr_version s = 0 \<and> (\<forall>n \<in> set (rd_notes d). nt_award n \<noteq> sr_award s)
       \<and> (\<forall>r \<in> set (rd_intents d). in_award r = sr_award s \<longrightarrow> in_receipt r = None \<and> in_open r)
    \<or> sr_status s = ''PENDING_REVIEW'' \<and> sr_version s = 1
       \<and> (\<exists>r v. filter (\<lambda>r. in_award r = sr_award s) (rd_intents d) = [r] \<and> in_receipt r \<noteq> None \<and> in_started r
            \<and> row_operation w b r = Inr v \<and> op_version v = 0
            \<and> filter (\<lambda>n. nt_award n = sr_award s) (rd_notes d)
                = [\<lparr>nt_operation = in_operation_id r, nt_award = sr_award s, nt_version = 1, nt_note = op_note v\<rparr>])"
proof -
  let ?a = "sr_award s"
  have v: "distinct (map in_award (filter committed_row (rd_intents d)))" "distinct (map nt_award (rd_notes d))"
      "nt_award ` set (rd_notes d) = in_award ` set (filter committed_row (rd_intents d))"
      "\<And>r n. r \<in> set (rd_intents d) \<Longrightarrow> \<not> committed_row r \<Longrightarrow> n \<in> set (rd_notes d) \<Longrightarrow> nt_award n \<noteq> in_award r"
      "\<And>r. r \<in> set (rd_intents d) \<Longrightarrow> intent_ok w b r" "state_shows w b d s"
    using assms unfolding validate_store_iff valid_store_def list_all_iff by blast+
  show ?thesis
  proof (cases "\<exists>r \<in> set (rd_intents d). committed_row r \<and> in_award r = ?a")
    case True
    then obtain r where r: "r \<in> set (rd_intents d)" "committed_row r" "in_award r = ?a" by blast
    let ?n = "\<lparr>nt_operation = in_operation_id r, nt_award = ?a, nt_version = 1, nt_note = op_note (opv w b r)\<rparr>"
    have st: "sr_status s = ''PENDING_REVIEW''" "sr_version s = 1" "note_of ?a d = Some ?n"
      using v(6) r unfolding state_shows_def by blast+
    have n: "?n \<in> set (rd_notes d)" using st(3) unfolding note_of_def by (metis find_Some_iff nth_mem)
    have "filter (\<lambda>r. in_award r = ?a) (rd_intents d) = filter (\<lambda>r. in_award r = ?a) (filter committed_row (rd_intents d))"
      unfolding filter_filter using v(4) [OF _ _ n] by (intro filter_cong refl) force
    also have "\<dots> = [r]" using r by (intro filter_unique v(1)) simp_all
    finally have one: "filter (\<lambda>r. in_award r = ?a) (rd_intents d) = [r]" .
    have "filter (\<lambda>n. nt_award n = ?a) (rd_notes d) = [?n]" using n by (intro filter_unique v(2)) simp_all
    moreover have "in_receipt r \<noteq> None \<and> in_started r \<and> row_operation w b r = Inr (opv w b r) \<and> op_version (opv w b r) = 0"
      using v(5) [OF r(1)] r(2) by (auto simp: intent_ok_def evidence_ok_def committed_row_def)
    ultimately show ?thesis using st one by blast
  next
    case False
    then have "sr_status s = ''UNREVIEWED'' \<and> sr_version s = 0" using v(6) unfolding state_shows_def by blast
    moreover have "?a \<notin> nt_award ` set (rd_notes d)" unfolding v(3) using False by auto
    moreover have "in_receipt r = None \<and> in_open r" if "r \<in> set (rd_intents d)" "in_award r = ?a" for r
      using that False intent_ok_pending [OF v(5)] by (auto simp: committed_row_def)
    ultimately show ?thesis by (metis imageI)
  qed
qed

theorem mutation_has_its_evidence_witness:
  "sr_status (hd (rd_states (initial_review example_review))) = ''UNREVIEWED'' \<and> sr_version (hd (rd_states (initial_review example_review))) = 0"
proof -
  let ?s = "hd (rd_states (initial_review example_review))"
  have valid: "validate_store example_libs example_review (initial_review example_review) = Inr ()"
    using initial_review_inv [OF example_review_ok] by (simp add: validate_store_iff review_inv_def)
  have s: "?s \<in> set (rd_states (initial_review example_review))"
    by (rule hd_in_set) (simp add: initial_review_def example_review_def)
  from mutation_has_its_evidence [OF valid s]
  show "sr_status ?s = ''UNREVIEWED'' \<and> sr_version ?s = 0" using s by (auto simp: initial_review_def)
qed

end
