(* ===== verification/WriteAuthority.thy ===== *)
theory WriteAuthority
  imports Gateway WriteStore
begin

text \<open>
  The contract and the authority of the synthetic write channel (\<open>evals/write01/contract_v1.py\<close>,
  \<open>authority_v1.py\<close>). A write needs an approval the host gave at construction for that very request, tool
  and canonical arguments; an approval is spent when an envelope is issued for it and never refunded. The
  fields of the queries are read as they are declared; their JSON schemas are a parameter, and pydantic's
  \<open>$\<close> is the end of the text. Objects are identified by their position or by a handle, times are
  rationals, text is characters below 256.
\<close>

section \<open>The contract\<close>

definition WRITE_TOOL :: string where "WRITE_TOOL = ''update_synthetic_award_review''"
definition READ_TOOL :: string where "READ_TOOL = ''get_synthetic_award_review_v1''"
definition CONTRACT_VERSION :: string where "CONTRACT_VERSION = ''WRITE01_SYNTHETIC_REVIEW_V1''"

definition WRITE_REGISTRY :: "(string \<times> string) list" where
  "WRITE_REGISTRY = [(WRITE_TOOL, ''WriteQueryV1''), (READ_TOOL, ''ReadQueryV1'')]"

definition SCOPES :: "(string \<times> string) list" where
  "SCOPES = [(WRITE_TOOL, ''SYNTHETIC_REVIEW_STATE_WRITE_V1''), (READ_TOOL, ''SYNTHETIC_REVIEW_STATE_READ_V1'')]"

definition award_id_ok :: "string \<Rightarrow> bool" where
  "award_id_ok s \<longleftrightarrow> length s \<le> 80 \<and> take 4 s = ''SYN-'' \<and> drop 4 s \<noteq> []
     \<and> list_all (\<lambda>c. ascii_upper c \<or> ascii_digit c \<or> c = CHR ''-'') (drop 4 s)"

definition ascii_alnum :: "char \<Rightarrow> bool" where
  "ascii_alnum c \<longleftrightarrow> ascii_upper c \<or> ascii_lower c \<or> ascii_digit c"

definition idempotency_key_ok :: "string \<Rightarrow> bool" where
  "idempotency_key_ok s \<longleftrightarrow> length s \<le> 100 \<and> s \<noteq> [] \<and> ascii_alnum (hd s)
     \<and> list_all (\<lambda>c. ascii_alnum c \<or> c \<in> set ''_.:-'') (tl s)"

text \<open>Below 256 the categories \<open>Cc\<close> and \<open>Cs\<close> are the control characters.\<close>

definition control_char :: "char \<Rightarrow> bool" where
  "control_char c \<longleftrightarrow> (let n = of_char c :: nat in n < 32 \<or> (127 \<le> n \<and> n < 160))"

definition bounded_inert_note :: "string \<Rightarrow> bool" where
  "bounded_inert_note s \<longleftrightarrow> utf8_length s \<le> 4000 \<and> \<not> list_ex control_char s"

definition str_with :: "(string \<Rightarrow> bool) \<Rightarrow> json \<Rightarrow> bool" where
  "str_with P v = (case v of JStr s \<Rightarrow> P s | _ \<Rightarrow> False)"

definition int_within :: "int \<Rightarrow> int \<Rightarrow> json \<Rightarrow> bool" where
  "int_within a b v = (case v of JInt i \<Rightarrow> a \<le> i \<and> i \<le> b | _ \<Rightarrow> False)"

abbreviation field :: "json \<Rightarrow> string \<Rightarrow> json" where "field v k \<equiv> jget_or JNull k v"

definition ReadQueryV1 :: "json \<Rightarrow> json option" where
  "ReadQueryV1 v = (if same_keys v [''award_id''] \<and> str_with award_id_ok (field v ''award_id'')
     then Some (JObj [(''award_id'', field v ''award_id'')]) else None)"

definition WriteQueryV1 :: "json \<Rightarrow> json option" where
  "WriteQueryV1 v = (if same_keys v QUERY_FIELDS \<and> str_with award_id_ok (field v ''award_id'')
       \<and> int_within 0 (2 ^ 31 - 1) (field v ''expected_version'')
       \<and> str_with (\<lambda>s. 1 \<le> length s \<and> length s \<le> 40) (field v ''proposed_status'')
       \<and> str_with (\<lambda>s. 1 \<le> length s \<and> length s \<le> 1000 \<and> bounded_inert_note s) (field v ''reviewer_note'')
       \<and> str_with idempotency_key_ok (field v ''idempotency_key'')
     then Some (JObj (map (\<lambda>k. (k, field v k)) QUERY_FIELDS)) else None)"

text \<open>\<open>Inl\<close>: a \<open>ValueError\<close>, pydantic's among them.\<close>

definition normalize_query :: "string \<Rightarrow> json \<Rightarrow> string + json" where
  "normalize_query tool raw = guarded
     [(is_obj raw, ''WRITE01_QUERY_MAPPING_REQUIRED''), (tool \<in> set (map fst WRITE_REGISTRY), ''WRITE01_TOOL_NOT_REGISTERED''),
      (canonical raw \<noteq> None, ''ValueError'')]
     (case if tool = WRITE_TOOL then WriteQueryV1 raw else ReadQueryV1 raw of
        None \<Rightarrow> Inl ''ValidationError'' | Some v \<Rightarrow> Inr v)"

definition contract_digest :: "libs \<Rightarrow> json \<Rightarrow> string" where
  "contract_digest w v = sha256 w (canonical_text v)"

section \<open>Approvals and facts\<close>

definition MAX_APPROVALS :: nat where "MAX_APPROVALS = 128"
definition WRITE_POLICY_VERSION :: string where "WRITE_POLICY_VERSION = ''civicgate-write01-synthetic-v1''"

definition inert_text :: "nat \<Rightarrow> string \<Rightarrow> bool" where
  "inert_text maximum s \<longleftrightarrow> 0 < length s \<and> length s \<le> maximum \<and> list_all (\<lambda>c. 32 \<le> (of_char c :: nat)) s"

record host_approval =
  ha_request :: string
  ha_tool :: string
  ha_arguments :: string
  ha_owner :: string
  ha_store :: string
  ha_reference :: string
  ha_approved :: bool
  ha_dataset :: string

definition approval_json :: "host_approval \<Rightarrow> json" where
  "approval_json p = JObj [(''original_request'', JStr (ha_request p)), (''tool'', JStr (ha_tool p)),
     (''arguments_json'', JStr (ha_arguments p)), (''owner_id'', JStr (ha_owner p)), (''store_id'', JStr (ha_store p)),
     (''reference'', JStr (ha_reference p)), (''approved'', JBool (ha_approved p)), (''dataset_sha256'', JStr (ha_dataset p))]"

text \<open>\<open>__post_init__\<close>.\<close>

definition approval_check :: "libs \<Rightarrow> host_approval \<Rightarrow> string + unit" where
  "approval_check w p = guarded
     [(inert_text 4000 (ha_request p) \<and> inert_text 200 (ha_owner p) \<and> inert_text 4000 (ha_store p) \<and> inert_text 200 (ha_reference p)
        \<and> ha_dataset p = DATASET_SHA256 \<and> utf8_length (ha_arguments p) \<le> 16000, ''WRITE01_HOST_APPROVAL_INVALID'')]
     (case json_loads (float_of w) (ha_arguments p) of None \<Rightarrow> Inl ''JSONDecodeError''
      | Some v \<Rightarrow> rbind (normalize_query (ha_tool p) v) (\<lambda>q.
          if canonical_text q \<noteq> ha_arguments p then Inl ''WRITE01_APPROVAL_NOT_CANONICAL'' else Inr ()))"

definition for_operation ::
    "libs \<Rightarrow> string \<Rightarrow> string \<Rightarrow> json \<Rightarrow> string \<Rightarrow> string \<Rightarrow> string \<Rightarrow> bool \<Rightarrow> string + host_approval" where
  "for_operation w orq tool query owner store reference approved =
     rbind (normalize_query tool query) (\<lambda>q.
       let p = \<lparr>ha_request = orq, ha_tool = tool, ha_arguments = canonical_text q, ha_owner = owner,
                ha_store = store, ha_reference = reference, ha_approved = approved, ha_dataset = DATASET_SHA256\<rparr>
       in rbind (approval_check w p) (\<lambda>_. Inr p))"

record state_facts =
  sf_exists :: bool
  sf_status :: string
  sf_version :: int

definition facts_ok :: "state_facts \<Rightarrow> bool" where
  "facts_ok s \<longleftrightarrow> 0 \<le> sf_version s \<and> sf_version s \<le> 2 ^ 31 - 1"

definition state_facts_json :: "state_facts \<Rightarrow> json" where
  "state_facts_json s = JObj [(''award_exists'', JBool (sf_exists s)), (''status'', JStr (sf_status s)), (''version'', JInt (sf_version s))]"

section \<open>The authority\<close>

record write_issued =
  wi_envelope :: authority_envelope
  wi_serialized :: string
  wi_request :: string
  wi_context :: string
  wi_reference :: string
  wi_issued_at :: rat
  wi_expires_at :: rat

record write_authority =
  wa_owner :: string
  wa_store :: string
  wa_approvals :: "host_approval list"
  wa_snapshots :: "string list"
  wa_spent :: "nat list"                    \<comment> \<open>positions in \<open>wa_approvals\<close>\<close>
  wa_requests :: "string list"
  wa_schemas :: tool_map
  wa_max_age :: rat
  wa_issued :: "(nat \<times> write_issued) list"  \<comment> \<open>by the identity of the envelope\<close>
  wa_next :: nat

definition approvals_check :: "libs \<Rightarrow> string \<Rightarrow> string \<Rightarrow> host_approval list \<Rightarrow> (string, unit list) result" where
  "approvals_check w owner store ps = each_ok (\<lambda>p. rbind (approval_check w p) (\<lambda>_.
     if ha_owner p \<noteq> owner \<or> ha_store p \<noteq> store then Inl ''WRITE01_APPROVAL_OWNER_MISMATCH'' else Inr ())) ps"

definition WriteAuthority :: "libs \<Rightarrow> string \<Rightarrow> string \<Rightarrow> host_approval list \<Rightarrow> rat \<Rightarrow> string + write_authority" where
  "WriteAuthority w owner store ps max_age = guarded
     [(inert_text 200 owner \<and> inert_text 4000 store \<and> length ps \<le> MAX_APPROVALS \<and> 0 < max_age, ''WRITE01_AUTHORITY_CONFIGURATION_INVALID'')]
     (rbind (approvals_check w owner store ps) (\<lambda>_.
        if \<not> distinct (map ha_reference ps) then Inl ''WRITE01_APPROVAL_REFERENCE_REUSED''
        else (case canonical_schemas w WRITE_REGISTRY of None \<Rightarrow> Inl ''ValueError''
          | Some schs \<Rightarrow> Inr \<lparr>wa_owner = owner, wa_store = store, wa_approvals = ps,
              wa_snapshots = map (\<lambda>p. canonical_text (approval_json p)) ps, wa_spent = [], wa_requests = [],
              wa_schemas = schs, wa_max_age = max_age, wa_issued = [], wa_next = 0\<rparr>)))"

definition authority_context :: "write_authority \<Rightarrow> json" where
  "authority_context a = JObj [(''owner'', JStr (wa_owner a)), (''store'', JStr (wa_store a)),
     (''dataset'', JStr DATASET_SHA256), (''contract'', JStr CONTRACT_VERSION)]"

text \<open>
  \<open>_query\<close>: the canonical arguments and the schema digest. Both callers catch its exceptions, the
  boundary's \<open>WRITE01_SCHEMA_DRIFT\<close> too, which is a \<open>ValueError\<close>.
\<close>

definition authority_query :: "libs \<Rightarrow> write_authority \<Rightarrow> string \<Rightarrow> json \<Rightarrow> string + string \<times> string" where
  "authority_query w a tool query = rbind (normalize_query tool query) (\<lambda>q.
     case Option.bind (map_of WRITE_REGISTRY tool) (canonical_schema w) of None \<Rightarrow> Inl ''ValueError''
     | Some sch \<Rightarrow> if map_of (wa_schemas a) tool \<noteq> Some sch then Inl ''WRITE01_SCHEMA_DRIFT'' else Inr (canonical_text q, sch))"

text \<open>\<open>_approval\<close>: the first approval that fits and is not spent, from position \<open>i\<close> on.\<close>

fun fitting_approval :: "nat list \<Rightarrow> string \<Rightarrow> string \<Rightarrow> string \<Rightarrow> nat \<Rightarrow> (host_approval \<times> string) list \<Rightarrow> string + nat option" where
  "fitting_approval spent orq tool arguments i [] = Inr None"
| "fitting_approval spent orq tool arguments i ((p, snap) # ps) =
     (if canonical_text (approval_json p) \<noteq> snap then Inl ''WRITE01_APPROVAL_DRIFT''
      else if ha_approved p \<and> i \<notin> set spent \<and> ha_request p = orq \<and> ha_tool p = tool \<and> ha_arguments p = arguments
      then Inr (Some i)
      else fitting_approval spent orq tool arguments (Suc i) ps)"

definition find_approval :: "write_authority \<Rightarrow> string \<Rightarrow> string \<Rightarrow> string \<Rightarrow> string + nat option" where
  "find_approval a orq tool arguments =
     fitting_approval (wa_spent a) orq tool arguments 0 (zip (wa_approvals a) (wa_snapshots a))"

definition transition_denials :: "libs \<Rightarrow> string \<Rightarrow> string \<Rightarrow> state_facts \<Rightarrow> string list" where
  "transition_denials w tool arguments st =
     (if tool = WRITE_TOOL \<and> arguments \<noteq> [] then
        (let q = the (json_loads (float_of w) arguments) in
           (if field q ''proposed_status'' \<noteq> JStr ''PENDING_REVIEW'' \<or> sf_status st \<noteq> ''UNREVIEWED''
            then [''WRITE01_TRANSITION_NOT_ALLOWED''] else [])
           @ (if field q ''expected_version'' \<noteq> JInt (sf_version st) then [''WRITE01_EXPECTED_VERSION_MISMATCH''] else []))
      else [])"

text \<open>The denials in the order the code finds them, the arguments and the schema (empty when refused).\<close>

definition write_denials :: "libs \<Rightarrow> write_authority \<Rightarrow> string \<Rightarrow> string \<Rightarrow> json \<Rightarrow> state_facts \<Rightarrow> string list \<times> string \<times> string" where
  "write_denials w a orq tool query st =
     (let (bad, arguments, schema) =
        (if tool \<notin> set (map fst WRITE_REGISTRY) then ([''WRITE01_UNKNOWN_TOOL''], [], [])
         else (case authority_query w a tool query of
             Inl e \<Rightarrow> ([''WRITE01_INVALID_ARGUMENTS''], [], []) | Inr (arguments, sch) \<Rightarrow> ([], arguments, sch)))
      in (denied_reasons (nfkc_casefold w) orq @ bad
          @ (if sf_exists st then [] else [''WRITE01_UNKNOWN_SYNTHETIC_AWARD''])
          @ (if sf_status st \<in> {''UNREVIEWED'', ''PENDING_REVIEW''} then [] else [''WRITE01_STATE_INVALID''])
          @ transition_denials w tool arguments st, arguments, schema))"

definition advisory_review :: "judge_signal option \<Rightarrow> string list" where
  "advisory_review judge = (case judge of None \<Rightarrow> []
     | Some j \<Rightarrow> if \<not> available j \<or> classified j \<noteq> IN_SCOPE \<or> list_ex (\<lambda>f. f \<noteq> NONE) (flags j)
         then [''WRITE01_ADVISORY_REVIEW_REQUIRED''] else [])"

definition write_binding ::
    "libs \<Rightarrow> write_authority \<Rightarrow> string \<Rightarrow> string \<Rightarrow> string \<Rightarrow> string \<Rightarrow> string \<Rightarrow> state_facts \<Rightarrow> host_approval
       \<Rightarrow> judge_signal option \<Rightarrow> policy_result \<Rightarrow> execution_binding" where
  "write_binding w a rid orq tool arguments schema st p judge policy =
     \<lparr>x_request_id = rid, x_tool = tool, x_arguments_json = arguments,
      x_arguments_sha256 = contract_digest w (the (json_loads (float_of w) arguments)), x_schema_sha256 = schema,
      x_operation_scope = the (map_of SCOPES tool), x_policy_decision = PERMIT,
      x_policy_sha256 = contract_digest w (policy_json policy),
      x_policy_facts_sha256 = contract_digest w (JObj
        [(''original_request'', JStr orq), (''tool'', JStr tool), (''arguments_json'', JStr arguments),
         (''state'', state_facts_json st), (''approval'', approval_json p),
         (''advisory_judge'', case judge of None \<Rightarrow> JNull | Some j \<Rightarrow> judge_json w j)]),
      x_policy_context_sha256 = contract_digest w (authority_context a)\<rparr>"

definition WRITE_PERMIT :: policy_result where
  "WRITE_PERMIT = \<lparr>decided = PERMIT, reasons = [''WRITE01_EXACT_HOST_APPROVED_SCOPE'']\<rparr>"

text \<open>The last part of \<open>_evaluate\<close>: the approval at position \<open>n\<close> is spent and the envelope kept.\<close>

definition issue_write ::
    "libs \<Rightarrow> rat \<Rightarrow> string \<Rightarrow> string \<Rightarrow> nat \<Rightarrow> execution_binding \<Rightarrow> write_authority \<Rightarrow> write_authority \<times> nat" where
  "issue_write w now rid orq n binding a =
     (let expires = now + wa_max_age a;
          e = \<lparr>a_binding = binding, a_decision = PERMIT, a_reasons = reasons WRITE_PERMIT,
               a_policy_version = WRITE_POLICY_VERSION, a_issued_at = now, a_expires_at = expires\<rparr>;
          i = \<lparr>wi_envelope = e, wi_serialized = canonical_text (envelope_json w e), wi_request = orq,
               wi_context = canonical_text (authority_context a), wi_reference = ha_reference (wa_approvals a ! n),
               wi_issued_at = now, wi_expires_at = expires\<rparr>
      in (a\<lparr>wa_spent := wa_spent a @ [n], wa_requests := wa_requests a @ [rid],
            wa_issued := wa_issued a @ [(wa_next a, i)], wa_next := Suc (wa_next a)\<rparr>, wa_next a))"

text \<open>The checks of \<open>_evaluate\<close> up to the time: a refusal of policy, or the approval to spend and the binding.\<close>

datatype write_decision = Refused policy_result | Granted nat execution_binding

definition decide_write ::
    "libs \<Rightarrow> string \<Rightarrow> string \<Rightarrow> string \<Rightarrow> json \<Rightarrow> state_facts \<Rightarrow> judge_signal option \<Rightarrow> write_authority \<Rightarrow> exn + write_decision" where
  "decide_write w rid orq tool query st judge a =
     guarded [(inert_text 200 rid \<and> inert_text 4000 orq, BoundaryError ''WRITE01_REQUEST_INVALID''),
              (rid \<notin> set (wa_requests a), BoundaryError ''WRITE01_REQUEST_REUSED''),
              (facts_ok st, OtherError ''ValueError'')]
     (case write_denials w a orq tool query st of (denial, arguments, schema) \<Rightarrow>
        if denial \<noteq> [] then Inr (Refused \<lparr>decided = DENY, reasons = denial\<rparr>)
        else (case find_approval a orq tool arguments of
            Inl c \<Rightarrow> Inl (BoundaryError c)
          | Inr found \<Rightarrow>
              (let review = (if found = None then [''WRITE01_EXACT_HOST_APPROVAL_REQUIRED''] else []) @ advisory_review judge in
               if review \<noteq> [] then Inr (Refused \<lparr>decided = REVIEW_REQUIRED, reasons = review\<rparr>)
               else if MAX_APPROVALS \<le> length (wa_requests a) then Inl (BoundaryError ''WRITE01_ISSUANCE_CAPACITY_EXCEEDED'')
               else Inr (Granted (the found) (write_binding w a rid orq tool arguments schema st
                      (wa_approvals a ! the found) judge WRITE_PERMIT)))))"

definition evaluate_write ::
    "libs \<Rightarrow> rat option \<Rightarrow> string \<Rightarrow> string \<Rightarrow> string \<Rightarrow> json \<Rightarrow> state_facts \<Rightarrow> judge_signal option \<Rightarrow> write_authority
       \<Rightarrow> (write_authority, exn, policy_result \<times> nat option) outcome" where
  "evaluate_write w clock rid orq tool query st judge a =
     (case decide_write w rid orq tool query st judge a of
        Inl x \<Rightarrow> (a, Inl x)
      | Inr (Refused p) \<Rightarrow> (a, Inr (p, None))
      | Inr (Granted n binding) \<Rightarrow> (case clock of
            None \<Rightarrow> (a, Inl (BoundaryError ''WRITE01_TIME_INVALID''))
          | Some now \<Rightarrow>
              if \<not> \<bar>now + wa_max_age a\<bar> \<le> DBL_MAX then (a, Inl (BoundaryError ''WRITE01_TIME_INVALID''))
              else (case issue_write w now rid orq n binding a of (a', h) \<Rightarrow> (a', Inr (WRITE_PERMIT, Some h)))))"

definition approval_reference :: "nat \<Rightarrow> write_authority \<Rightarrow> exn + string" where
  "approval_reference h a = (case map_of (wa_issued a) h of
      None \<Rightarrow> Inl (BoundaryError ''WRITE01_ENVELOPE_NOT_OWNED'') | Some i \<Rightarrow> Inr (wi_reference i))"

section \<open>Consumption\<close>

definition binding_agrees :: "libs \<Rightarrow> write_authority \<Rightarrow> write_issued \<Rightarrow> string \<Rightarrow> string \<Rightarrow> string \<Rightarrow> string \<Rightarrow> string \<Rightarrow> bool" where
  "binding_agrees w a i rid orq tool arguments schema \<longleftrightarrow>
     (let e = wi_envelope i; b = a_binding e in
      canonical_text (envelope_json w e) = wi_serialized i \<and> wi_request i = orq
      \<and> canonical_text (authority_context a) = wi_context i \<and> x_request_id b = rid \<and> x_tool b = tool
      \<and> x_arguments_json b = arguments \<and> x_arguments_sha256 b = contract_digest w (the (json_loads (float_of w) arguments))
      \<and> x_schema_sha256 b = schema \<and> Some (x_operation_scope b) = map_of SCOPES tool \<and> x_policy_decision b = PERMIT
      \<and> a_decision e = PERMIT \<and> a_policy_version e = WRITE_POLICY_VERSION
      \<and> x_policy_context_sha256 b = contract_digest w (authority_context a))"

definition check_write ::
    "libs \<Rightarrow> rat option \<Rightarrow> write_issued \<Rightarrow> string \<Rightarrow> string \<Rightarrow> string \<Rightarrow> json \<Rightarrow> write_authority \<Rightarrow> string + execution_binding" where
  "check_write w clock i rid orq tool query a = (case authority_query w a tool query of
      Inl e \<Rightarrow> Inl ''WRITE01_BINDING_MISMATCH''
    | Inr (arguments, schema) \<Rightarrow> (case clock of
          None \<Rightarrow> Inl ''WRITE01_TIME_INVALID''
        | Some now \<Rightarrow> guarded
            [(wi_issued_at i \<le> now \<and> now < wi_expires_at i, ''WRITE01_ENVELOPE_EXPIRED_OR_CLOCK_INVALID''),
             (binding_agrees w a i rid orq tool arguments schema, ''WRITE01_BINDING_MISMATCH'')]
            (Inr (a_binding (wi_envelope i)))))"

text \<open>The record is gone before anything is checked; \<open>None\<close> is an object of another class.\<close>

definition consume_write ::
    "libs \<Rightarrow> rat option \<Rightarrow> nat option \<Rightarrow> string \<Rightarrow> string \<Rightarrow> string \<Rightarrow> json \<Rightarrow> write_authority
       \<Rightarrow> (write_authority, exn, execution_binding) outcome" where
  "consume_write w clock env rid orq tool query a = (case env of
      None \<Rightarrow> (a, Inl (BoundaryError ''WRITE01_ENVELOPE_NOT_ISSUED''))
    | Some h \<Rightarrow> (case map_of (wa_issued a) h of
          None \<Rightarrow> (a, Inl (BoundaryError ''WRITE01_ENVELOPE_CONSUMED_OR_FOREIGN''))
        | Some i \<Rightarrow> (a\<lparr>wa_issued := alist_del h (wa_issued a)\<rparr>,
            case check_write w clock i rid orq tool query a of Inl c \<Rightarrow> Inl (BoundaryError c) | Inr b \<Rightarrow> Inr b)))"

text \<open>A caller that holds an envelope can have altered its fields.\<close>

definition tamper_write :: "nat \<Rightarrow> authority_envelope \<Rightarrow> write_authority \<Rightarrow> write_authority" where
  "tamper_write h e a = a\<lparr>wa_issued := map (\<lambda>(j, i). (j, if j = h then i\<lparr>wi_envelope := e\<rparr> else i)) (wa_issued a)\<rparr>"

datatype write_op =
    WEvaluate "rat option" string string string json state_facts "judge_signal option"
  | WConsume "rat option" "nat option" string string string json
  | WTamper nat authority_envelope

text \<open>One operation, and the reference of the approval under which a binding was redeemed.\<close>

fun write_step :: "libs \<Rightarrow> write_op \<Rightarrow> write_authority \<Rightarrow> write_authority \<times> string option" where
  "write_step w (WEvaluate clock rid orq tool query st judge) a =
     (fst (evaluate_write w clock rid orq tool query st judge a), None)"
| "write_step w (WConsume clock env rid orq tool query) a =
     (fst (consume_write w clock env rid orq tool query a),
      if is_ok (snd (consume_write w clock env rid orq tool query a))
      then map_option wi_reference (Option.bind env (map_of (wa_issued a))) else None)"
| "write_step w (WTamper h e) a = (tamper_write h e a, None)"

end
