(* ===== verification/WriteAuthoritySafety.thy ===== *)
theory WriteAuthoritySafety
  imports WriteAuthority
begin

text \<open>
  What the write authority promises: a redeemed binding rests on one exact approval of the host, and on no
  approval rest two. The approvals are the single-use handles of the interface of that name.
\<close>

section \<open>The approval that is found\<close>

definition fits :: "write_authority \<Rightarrow> string \<Rightarrow> string \<Rightarrow> string \<Rightarrow> nat \<Rightarrow> bool" where
  "fits a orq tool arguments n \<longleftrightarrow> n < length (wa_approvals a) \<and> n \<notin> set (wa_spent a) \<and> ha_approved (wa_approvals a ! n)
     \<and> ha_request (wa_approvals a ! n) = orq \<and> ha_tool (wa_approvals a ! n) = tool \<and> ha_arguments (wa_approvals a ! n) = arguments"

lemma fitting_approval_Some:
  "fitting_approval spent orq tool args i ps = Inr (Some n) \<Longrightarrow>
     i \<le> n \<and> n - i < length ps \<and> n \<notin> set spent \<and> ha_approved (fst (ps ! (n - i))) \<and> ha_request (fst (ps ! (n - i))) = orq
     \<and> ha_tool (fst (ps ! (n - i))) = tool \<and> ha_arguments (fst (ps ! (n - i))) = args"
proof (induction spent orq tool args i ps rule: fitting_approval.induct)
  case (2 spent orq tool args i p snap ps)
  show ?case
  proof (cases "n = i")
    case True
    then show ?thesis using 2 by (auto split: if_splits)
  next
    case False
    then have "fitting_approval spent orq tool args (Suc i) ps = Inr (Some n)"
      using "2.prems" by (auto split: if_splits)
    with 2 False show ?thesis by (auto simp: nth_Cons' split: if_splits)
  qed
qed simp

lemma find_approval_fits: "find_approval a orq tool args = Inr (Some n) \<Longrightarrow> fits a orq tool args n"
  using fitting_approval_Some [of "wa_spent a" orq tool args 0 "zip (wa_approvals a) (wa_snapshots a)" n]
  by (auto simp: find_approval_def fits_def)

lemma authority_query_tool:
  "authority_query w a tool q = Inr (args, sch) \<Longrightarrow> \<exists>v. normalize_query tool q = Inr v \<and> args = canonical_text v"
  by (auto simp: authority_query_def rbind_Inr_iff split: option.splits if_splits)

lemma write_denials_Nil:
  assumes "write_denials w a orq tool q st = ([], args, sch)"
  shows "denied_reasons (nfkc_casefold w) orq = []" "authority_query w a tool q = Inr (args, sch)" "sf_exists st"
    "transition_denials w tool args st = []"
  using assms by (auto simp: write_denials_def split: if_splits sum.splits prod.splits)

lemma decide_write_Granted:
  assumes "decide_write w rid orq tool q st judge a = Inr (Granted n b)"
  obtains args sch where "rid \<notin> set (wa_requests a)" "write_denials w a orq tool q st = ([], args, sch)"
    "fits a orq tool args n" "advisory_review judge = []" "length (wa_requests a) < MAX_APPROVALS"
    "b = write_binding w a rid orq tool args sch st (wa_approvals a ! n) judge WRITE_PERMIT"
proof -
  obtain den args sch where d: "write_denials w a orq tool q st = (den, args, sch)" by (metis prod_cases3)
  have rid: "rid \<notin> set (wa_requests a)"
    and rest: "(if den \<noteq> [] then Inr (Refused \<lparr>decided = DENY, reasons = den\<rparr>)
        else (case find_approval a orq tool args of
            Inl c \<Rightarrow> Inl (BoundaryError c)
          | Inr found \<Rightarrow>
              (let review = (if found = None then [''WRITE01_EXACT_HOST_APPROVAL_REQUIRED''] else []) @ advisory_review judge in
               if review \<noteq> [] then Inr (Refused \<lparr>decided = REVIEW_REQUIRED, reasons = review\<rparr>)
               else if MAX_APPROVALS \<le> length (wa_requests a) then Inl (BoundaryError ''WRITE01_ISSUANCE_CAPACITY_EXCEEDED'')
               else Inr (Granted (the found) (write_binding w a rid orq tool args sch st (wa_approvals a ! the found) judge WRITE_PERMIT)))))
      = Inr (Granted n b)"
    using assms unfolding decide_write_def guarded_Inr d by auto
  then obtain found where f: "den = []" "find_approval a orq tool args = Inr found" "found \<noteq> None" "advisory_review judge = []"
      "length (wa_requests a) < MAX_APPROVALS" "the found = n"
      "b = write_binding w a rid orq tool args sch st (wa_approvals a ! n) judge WRITE_PERMIT"
    by (cases "den = []"; cases "find_approval a orq tool args") (simp_all add: Let_def split: if_splits)
  then have "fits a orq tool args n" by (intro find_approval_fits) auto
  then show thesis using that rid d f by blast
qed

lemma evaluate_write_cases:
  obtains (same) "fst (evaluate_write w clock rid orq tool q st judge a) = a"
      "\<And>p h. snd (evaluate_write w clock rid orq tool q st judge a) \<noteq> Inr (p, Some h)"
  | (issued) now n b where "clock = Some now" "decide_write w rid orq tool q st judge a = Inr (Granted n b)"
      "evaluate_write w clock rid orq tool q st judge a
         = (fst (issue_write w now rid orq n b a), Inr (WRITE_PERMIT, Some (snd (issue_write w now rid orq n b a))))"
proof (cases "decide_write w rid orq tool q st judge a")
  case (Inr d)
  show thesis
  proof (cases d)
    case (Granted n b)
    show thesis
    proof (cases "\<exists>now. clock = Some now \<and> \<bar>now + wa_max_age a\<bar> \<le> DBL_MAX")
      case True
      then show thesis using Inr Granted issued by (auto simp: evaluate_write_def split_beta)
    next
      case False
      then have "\<exists>x. evaluate_write w clock rid orq tool q st judge a = (a, Inl x)"
        using Inr Granted by (cases clock) (auto simp: evaluate_write_def)
      then show thesis using same by auto
    qed
  qed (use Inr same in \<open>simp add: evaluate_write_def\<close>)
qed (use same in \<open>simp add: evaluate_write_def\<close>)

lemma consume_write_cases:
  obtains (same) "fst (consume_write w clock env rid orq tool q a) = a" "\<not> is_ok (snd (consume_write w clock env rid orq tool q a))"
  | (popped) h i where "env = Some h" "map_of (wa_issued a) h = Some i"
      "fst (consume_write w clock env rid orq tool q a) = a\<lparr>wa_issued := alist_del h (wa_issued a)\<rparr>"
      "\<And>b. snd (consume_write w clock env rid orq tool q a) = Inr b \<Longrightarrow> check_write w clock i rid orq tool q a = Inr b"
proof (cases "\<exists>h i. env = Some h \<and> map_of (wa_issued a) h = Some i")
  case True
  then obtain h i where hi: "env = Some h" "map_of (wa_issued a) h = Some i" by blast
  then have "consume_write w clock env rid orq tool q a = (a\<lparr>wa_issued := alist_del h (wa_issued a)\<rparr>,
      case check_write w clock i rid orq tool q a of Inl c \<Rightarrow> Inl (BoundaryError c) | Inr b \<Rightarrow> Inr b)"
    by (simp add: consume_write_def)
  then show thesis by (intro popped [OF hi]) (auto split: sum.splits)
next
  case False
  then have "\<exists>x. consume_write w clock env rid orq tool q a = (a, Inl x)"
    by (cases env; cases "map_of (wa_issued a) (the env)") (simp_all add: consume_write_def)
  then show thesis using same by auto
qed
section \<open>The invariant\<close>

definition authority_inv :: "write_authority \<Rightarrow> bool" where
  "authority_inv a \<longleftrightarrow> distinct (map ha_reference (wa_approvals a)) \<and> distinct (map fst (wa_issued a))
     \<and> (\<forall>h \<in> fst ` set (wa_issued a). h < wa_next a) \<and> distinct (map (wi_reference \<circ> snd) (wa_issued a))
     \<and> (\<forall>x \<in> set (wa_issued a). \<exists>n \<in> set (wa_spent a). n < length (wa_approvals a) \<and> wi_reference (snd x) = ha_reference (wa_approvals a ! n))"

lemma authority_inv_iff:
  "authority_inv a \<longleftrightarrow> distinct (map ha_reference (wa_approvals a)) \<and> distinct (map fst (wa_issued a))
     \<and> (\<forall>h \<in> fst ` set (wa_issued a). h < wa_next a) \<and> distinct (map (wi_reference \<circ> snd) (wa_issued a))
     \<and> (\<forall>r \<in> (wi_reference \<circ> snd) ` set (wa_issued a). \<exists>n \<in> set (wa_spent a). n < length (wa_approvals a) \<and> r = ha_reference (wa_approvals a ! n))"
  by (simp add: authority_inv_def)

definition approval_live :: "write_authority \<Rightarrow> string \<Rightarrow> bool" where
  "approval_live a r \<longleftrightarrow> (\<exists>n < length (wa_approvals a). n \<notin> set (wa_spent a) \<and> ha_reference (wa_approvals a ! n) = r)
     \<or> r \<in> (wi_reference \<circ> snd) ` set (wa_issued a)"

definition approval_known :: "write_authority \<Rightarrow> string \<Rightarrow> bool" where
  "approval_known a r \<longleftrightarrow> r \<in> set (map ha_reference (wa_approvals a))"

lemma reference_position:
  "authority_inv a \<Longrightarrow> m < length (wa_approvals a) \<Longrightarrow> n < length (wa_approvals a) \<Longrightarrow>
     ha_reference (wa_approvals a ! m) = ha_reference (wa_approvals a ! n) \<Longrightarrow> m = n"
  using nth_eq_iff_index_eq [of "map ha_reference (wa_approvals a)" m n] by (simp add: authority_inv_def)

lemma issue_write_simps [simp]:
  "wa_approvals (fst (issue_write w now rid orq n b a)) = wa_approvals a"
  "wa_spent (fst (issue_write w now rid orq n b a)) = wa_spent a @ [n]"
  "snd (issue_write w now rid orq n b a) = wa_next a"
  "wa_next (fst (issue_write w now rid orq n b a)) = Suc (wa_next a)"
  by (simp_all add: issue_write_def Let_def)

lemma issue_write_issued:
  obtains i where "wa_issued (fst (issue_write w now rid orq n b a)) = wa_issued a @ [(wa_next a, i)]"
    "wi_reference i = ha_reference (wa_approvals a ! n)" "a_binding (wi_envelope i) = b" "wi_request i = orq"
    "wi_issued_at i = now" "wi_expires_at i = now + wa_max_age a"
  by (simp add: issue_write_def Let_def)

lemma unspent_not_issued:
  assumes "authority_inv a" "n < length (wa_approvals a)" "n \<notin> set (wa_spent a)"
  shows "ha_reference (wa_approvals a ! n) \<notin> (wi_reference \<circ> snd) ` set (wa_issued a)"
proof
  assume "ha_reference (wa_approvals a ! n) \<in> (wi_reference \<circ> snd) ` set (wa_issued a)"
  then obtain m where "m \<in> set (wa_spent a)" "m < length (wa_approvals a)"
      "ha_reference (wa_approvals a ! n) = ha_reference (wa_approvals a ! m)"
    using assms(1) unfolding authority_inv_def by auto
  then show False using reference_position [OF assms(1)] assms(2,3) by metis
qed

lemma issue_inv:
  assumes "authority_inv a" "n < length (wa_approvals a)" "n \<notin> set (wa_spent a)"
  shows "authority_inv (fst (issue_write w now rid orq n b a))"
proof -
  obtain i where i: "wa_issued (fst (issue_write w now rid orq n b a)) = wa_issued a @ [(wa_next a, i)]"
    "wi_reference i = ha_reference (wa_approvals a ! n)"
    by (rule issue_write_issued)
  show ?thesis
    using assms(1,2) unspent_not_issued [OF assms] i(2) unfolding authority_inv_def i(1)
    by (simp add: less_Suc_eq) auto
qed

lemma del_inv: "authority_inv a \<Longrightarrow> authority_inv (a\<lparr>wa_issued := alist_del h (wa_issued a)\<rparr>)"
  by (auto simp: authority_inv_def distinct_alist_del alist_del_def distinct_map_filter)

lemma tamper_issued:
  "map fst (wa_issued (tamper_write h e a)) = map fst (wa_issued a)"
  "map (wi_reference \<circ> snd) (wa_issued (tamper_write h e a)) = map (wi_reference \<circ> snd) (wa_issued a)"
  "wa_approvals (tamper_write h e a) = wa_approvals a" "wa_spent (tamper_write h e a) = wa_spent a"
  "wa_next (tamper_write h e a) = wa_next a"
  by (auto simp: tamper_write_def case_prod_unfold)

lemma step_inv: "authority_inv a \<Longrightarrow> authority_inv (fst (write_step w x a))"
proof (cases x)
  case (WEvaluate clock rid orq tool q st judge)
  assume inv: "authority_inv a"
  show ?thesis
  proof (cases rule: evaluate_write_cases [of w clock rid orq tool q st judge a])
    case (issued now n b)
    then obtain args where "fits a orq tool args n" using decide_write_Granted by metis
    then show ?thesis using issue_inv [OF inv] issued WEvaluate by (simp add: fits_def)
  qed (use inv WEvaluate in simp)
next
  case (WConsume clock env rid orq tool q)
  assume inv: "authority_inv a"
  then show ?thesis
    using del_inv WConsume by (cases rule: consume_write_cases [of w clock env rid orq tool q a]) simp_all
next
  case (WTamper h e)
  assume inv: "authority_inv a"
  have "(wi_reference \<circ> snd) ` set (wa_issued (tamper_write h e a)) = (wi_reference \<circ> snd) ` set (wa_issued a)"
    using tamper_issued(2) by (metis set_map)
  moreover have "fst ` set (wa_issued (tamper_write h e a)) = fst ` set (wa_issued a)"
    using tamper_issued(1) by (metis set_map)
  ultimately show ?thesis
    using inv unfolding WTamper write_step.simps fst_conv authority_inv_iff tamper_issued by simp
qed

section \<open>Each approval once\<close>

lemma redeemed:
  assumes "snd (write_step w x a) = Some r"
  obtains clock h i rid orq tool q b where "x = WConsume clock (Some h) rid orq tool q" "map_of (wa_issued a) h = Some i"
    "wi_reference i = r" "fst (write_step w x a) = a\<lparr>wa_issued := alist_del h (wa_issued a)\<rparr>"
    "check_write w clock i rid orq tool q a = Inr b"
proof (cases x)
  case (WConsume clock env rid orq tool q)
  then have ok: "is_ok (snd (consume_write w clock env rid orq tool q a))"
    using assms by (auto split: if_splits)
  show thesis
  proof (cases rule: consume_write_cases [of w clock env rid orq tool q a])
    case same
    then show thesis using ok by simp
  next
    case (popped h i)
    obtain b where "snd (consume_write w clock env rid orq tool q a) = Inr b" using ok by (auto simp: is_ok_iff)
    then show thesis using popped assms ok WConsume that by simp
  qed
qed (use assms in simp_all)

lemma approvals_kept: "wa_approvals (fst (write_step w x a)) = wa_approvals a"
proof (cases x)
  case (WEvaluate clock rid orq tool q st judge)
  then show ?thesis by (cases rule: evaluate_write_cases [of w clock rid orq tool q st judge a]) simp_all
next
  case (WConsume clock env rid orq tool q)
  then show ?thesis by (cases rule: consume_write_cases [of w clock env rid orq tool q a]) simp_all
qed (simp add: tamper_issued)

lemma live_step:
  assumes inv: "authority_inv a" and live: "approval_live (fst (write_step w x a)) r"
  shows "approval_live a r"
proof (cases x)
  case (WEvaluate clock rid orq tool q st judge)
  show ?thesis
  proof (cases rule: evaluate_write_cases [of w clock rid orq tool q st judge a])
    case (issued now n b)
    obtain args where "fits a orq tool args n" using issued(2) decide_write_Granted by metis
    then have n: "n < length (wa_approvals a)" "n \<notin> set (wa_spent a)" by (simp_all add: fits_def)
    obtain i where "wa_issued (fst (issue_write w now rid orq n b a)) = wa_issued a @ [(wa_next a, i)]"
        "wi_reference i = ha_reference (wa_approvals a ! n)" by (rule issue_write_issued)
    then show ?thesis
      using live n issued(3) WEvaluate unfolding approval_live_def by auto
  qed (use live WEvaluate in simp)
next
  case (WConsume clock env rid orq tool q)
  show ?thesis
  proof (cases rule: consume_write_cases [of w clock env rid orq tool q a])
    case (popped h i)
    then show ?thesis using live WConsume by (auto simp: approval_live_def alist_del_def)
  qed (use live WConsume in simp)
next
  case (WTamper h e)
  have "(wi_reference \<circ> snd) ` set (wa_issued (tamper_write h e a)) = (wi_reference \<circ> snd) ` set (wa_issued a)"
    using tamper_issued(2) by (metis set_map)
  then show ?thesis using live WTamper by (simp add: approval_live_def tamper_issued)
qed

lemma redeemed_approval:
  assumes inv: "authority_inv a" and r: "snd (write_step w x a) = Some r"
  shows "approval_live a r" "approval_known (fst (write_step w x a)) r" "\<not> approval_live (fst (write_step w x a)) r"
proof -
  obtain clock h i rid orq tool q b where x: "x = WConsume clock (Some h) rid orq tool q" "map_of (wa_issued a) h = Some i"
    "wi_reference i = r" "fst (write_step w x a) = a\<lparr>wa_issued := alist_del h (wa_issued a)\<rparr>"
    using redeemed [OF r] by metis
  have mem: "(h, i) \<in> set (wa_issued a)" using x(2) by (rule map_of_SomeD)
  then show "approval_live a r" using x(3) unfolding approval_live_def by force
  obtain n where n: "n \<in> set (wa_spent a)" "n < length (wa_approvals a)" "r = ha_reference (wa_approvals a ! n)"
    using inv mem x(3) unfolding authority_inv_def by force
  then show "approval_known (fst (write_step w x a)) r" by (simp add: approval_known_def x(4))
  have "j = h" if "(j, k) \<in> set (wa_issued a)" "wi_reference k = r" for j k
  proof -
    have "inj_on (wi_reference \<circ> snd) (set (wa_issued a))" using inv by (simp add: authority_inv_def distinct_map)
    then have "(j, k) = (h, i)" by (rule inj_onD) (use that mem x(3) in simp_all)
    then show ?thesis by simp
  qed
  then have "r \<notin> (wi_reference \<circ> snd) ` set (alist_del h (wa_issued a))" by (auto simp: alist_del_def)
  moreover have "m \<in> set (wa_spent a)" if "m < length (wa_approvals a)" "ha_reference (wa_approvals a ! m) = r" for m
    using that n reference_position [OF inv] by metis
  ultimately show "\<not> approval_live (fst (write_step w x a)) r" by (auto simp: approval_live_def x(4))
qed

interpretation approvals: single_use authority_inv approval_live approval_known "write_step w" for w
  by unfold_locales (use step_inv redeemed_approval live_step approvals_kept in \<open>auto simp: approval_known_def\<close>)

lemma each_ok_all: "each_ok f xs = Inr ys \<Longrightarrow> x \<in> set xs \<Longrightarrow> \<exists>y. f x = Inr y"
  by (induction xs arbitrary: ys) (auto simp: rbind_Inr_iff)

lemma WriteAuthority_Inr:
  assumes "WriteAuthority w owner store ps max_age = Inr a"
  shows "wa_approvals a = ps" "wa_issued a = []" "wa_spent a = []" "wa_owner a = owner" "wa_store a = store"
    "distinct (map ha_reference ps)" "\<And>p. p \<in> set ps \<Longrightarrow> ha_owner p = owner \<and> ha_store p = store"
    "wa_max_age a = max_age" "authority_inv a"
proof -
  obtain us where us: "approvals_check w owner store ps = Inr us"
    and rest: "(if \<not> distinct (map ha_reference ps) then Inl ''WRITE01_APPROVAL_REFERENCE_REUSED''
        else (case canonical_schemas w WRITE_REGISTRY of None \<Rightarrow> Inl ''ValueError''
          | Some schs \<Rightarrow> Inr \<lparr>wa_owner = owner, wa_store = store, wa_approvals = ps,
              wa_snapshots = map (\<lambda>p. canonical_text (approval_json p)) ps, wa_spent = [], wa_requests = [],
              wa_schemas = schs, wa_max_age = max_age, wa_issued = [], wa_next = 0\<rparr>)) = Inr a"
    using assms unfolding WriteAuthority_def guarded_Inr rbind_Inr_iff by blast
  show a: "wa_approvals a = ps" "wa_issued a = []" "wa_spent a = []" "wa_owner a = owner" "wa_store a = store"
      "distinct (map ha_reference ps)" "wa_max_age a = max_age"
    using rest by (auto split: if_splits option.splits)
  then show "authority_inv a" by (simp add: authority_inv_def)
  show "\<And>p. p \<in> set ps \<Longrightarrow> ha_owner p = owner \<and> ha_store p = store"
  proof -
    fix p assume "p \<in> set ps"
    then obtain u where "rbind (approval_check w p) (\<lambda>_.
        if ha_owner p \<noteq> owner \<or> ha_store p \<noteq> store then Inl ''WRITE01_APPROVAL_OWNER_MISMATCH'' else Inr ()) = Inr u"
      using each_ok_all [OF us [unfolded approvals_check_def]] by blast
    then show "ha_owner p = owner \<and> ha_store p = store" by (auto simp: rbind_Inr_iff split: if_splits)
  qed
qed

section \<open>What a redeemed binding rests on\<close>

fun write_untampered :: "write_op \<Rightarrow> bool" where
  "write_untampered (WTamper h e) = False"
| "write_untampered _ = True"

definition rests_on :: "libs \<Rightarrow> write_authority \<Rightarrow> write_issued \<Rightarrow> bool" where
  "rests_on w a i \<longleftrightarrow> (\<exists>p \<in> set (wa_approvals a). ha_approved p \<and> ha_reference p = wi_reference i \<and> ha_request p = wi_request i
     \<and> ha_tool p = x_tool (a_binding (wi_envelope i)) \<and> ha_arguments p = x_arguments_json (a_binding (wi_envelope i)))
     \<and> denied_reasons (nfkc_casefold w) (wi_request i) = []
     \<and> wi_expires_at i = wi_issued_at i + wa_max_age a"

definition all_rest :: "libs \<Rightarrow> write_authority \<Rightarrow> bool" where
  "all_rest w a \<longleftrightarrow> (\<forall>x \<in> set (wa_issued a). rests_on w a (snd x))"

lemma rests_on_cong: "wa_approvals a' = wa_approvals a \<Longrightarrow> wa_max_age a' = wa_max_age a \<Longrightarrow> rests_on w a' i = rests_on w a i"
  by (simp add: rests_on_def)

lemma max_age_kept: "wa_max_age (fst (write_step w x a)) = wa_max_age a"
proof (cases x)
  case (WEvaluate clock rid orq tool q st judge)
  then show ?thesis
    by (cases rule: evaluate_write_cases [of w clock rid orq tool q st judge a]) (simp_all add: issue_write_def Let_def)
next
  case (WConsume clock env rid orq tool q)
  then show ?thesis by (cases rule: consume_write_cases [of w clock env rid orq tool q a]) simp_all
qed (simp add: tamper_write_def)

lemma rest_step:
  assumes "write_untampered x" "all_rest w a"
  shows "all_rest w (fst (write_step w x a))"
proof -
  have keep: "rests_on w (fst (write_step w x a)) i = rests_on w a i" for i
    by (rule rests_on_cong [OF approvals_kept max_age_kept])
  show ?thesis
  proof (cases x)
    case (WEvaluate clock rid orq tool q st judge)
    show ?thesis
    proof (cases rule: evaluate_write_cases [of w clock rid orq tool q st judge a])
      case same
      then show ?thesis using assms(2) WEvaluate by simp
    next
      case (issued now n b)
      obtain args sch where g: "write_denials w a orq tool q st = ([], args, sch)" "fits a orq tool args n"
          "b = write_binding w a rid orq tool args sch st (wa_approvals a ! n) judge WRITE_PERMIT"
        using decide_write_Granted [OF issued(2)] by metis
      obtain i where i: "wa_issued (fst (issue_write w now rid orq n b a)) = wa_issued a @ [(wa_next a, i)]"
          "wi_reference i = ha_reference (wa_approvals a ! n)" "a_binding (wi_envelope i) = b" "wi_request i = orq"
          "wi_issued_at i = now" "wi_expires_at i = now + wa_max_age a"
        by (rule issue_write_issued)
      have "wa_approvals a ! n \<in> set (wa_approvals a)" using g(2) by (simp add: fits_def)
      then have "rests_on w a i"
        using g(2,3) i write_denials_Nil(1) [OF g(1)] unfolding rests_on_def fits_def write_binding_def by auto
      then show ?thesis
        using assms(2) i(1) issued(3) WEvaluate unfolding all_rest_def keep by auto
    qed
  next
    case (WConsume clock env rid orq tool q)
    show ?thesis
    proof (cases rule: consume_write_cases [of w clock env rid orq tool q a])
      case same
      then show ?thesis using assms(2) WConsume by simp
    next
      case (popped h i)
      then show ?thesis
        using assms(2) WConsume unfolding all_rest_def keep by (auto simp: alist_del_def)
    qed
  qed (use assms(1) in simp)
qed

lemma rest_run:
  "list_all write_untampered ops \<Longrightarrow> all_rest w a \<Longrightarrow> all_rest w (fst (run_ops (write_step w) ops a))"
  by (induction ops arbitrary: a) (simp_all add: rest_step)

lemma run_kept:
  "wa_approvals (fst (run_ops (write_step w) ops a)) = wa_approvals a"
  "wa_max_age (fst (run_ops (write_step w) ops a)) = wa_max_age a"
  by (induction ops arbitrary: a) (simp_all add: approvals_kept max_age_kept)

text \<open>An issued envelope and the evaluation of the run that granted it: same clock, request, tool and handle.\<close>

definition granted_by :: "libs \<Rightarrow> write_authority \<Rightarrow> write_op list \<Rightarrow> nat \<Rightarrow> rat \<Rightarrow> string \<Rightarrow> string \<Rightarrow> string \<Rightarrow> bool" where
  "granted_by w a0 ops h issued rid orq tool \<longleftrightarrow> (\<exists>before after q st judge.
     ops = before @ WEvaluate (Some issued) rid orq tool q st judge # after
     \<and> snd (evaluate_write w (Some issued) rid orq tool q st judge (fst (run_ops (write_step w) before a0))) = Inr (WRITE_PERMIT, Some h))"

definition all_granted :: "libs \<Rightarrow> write_authority \<Rightarrow> write_op list \<Rightarrow> write_authority \<Rightarrow> bool" where
  "all_granted w a0 ops a \<longleftrightarrow> (\<forall>x \<in> set (wa_issued a). granted_by w a0 ops (fst x) (wi_issued_at (snd x))
     (x_request_id (a_binding (wi_envelope (snd x)))) (wi_request (snd x)) (x_tool (a_binding (wi_envelope (snd x)))))"

lemma granted_more: "granted_by w a0 ops h issued rid orq tool \<Longrightarrow> granted_by w a0 (ops @ [x]) h issued rid orq tool"
  unfolding granted_by_def by fastforce

lemma all_granted_more: "all_granted w a0 ops a \<Longrightarrow> set (wa_issued a') \<subseteq> set (wa_issued a) \<Longrightarrow> all_granted w a0 (ops @ [x]) a'"
  unfolding all_granted_def using granted_more by blast

lemma run_ops_snoc: "fst (run_ops step (xs @ [x]) s) = fst (step x (fst (run_ops step xs s)))"
  by (induction xs arbitrary: s) simp_all

lemma granted_run:
  assumes "wa_issued a0 = []" "list_all write_untampered ops"
  shows "all_granted w a0 ops (fst (run_ops (write_step w) ops a0))"
  using assms(2)
proof (induction ops rule: rev_induct)
  case (snoc x ops)
  let ?a = "fst (run_ops (write_step w) ops a0)"
  have IH: "all_granted w a0 ops ?a" using snoc by simp
  have "all_granted w a0 (ops @ [x]) (fst (write_step w x ?a))"
  proof (cases x)
    case (WEvaluate clock rid orq tool q st judge)
    show ?thesis
    proof (cases rule: evaluate_write_cases [of w clock rid orq tool q st judge ?a])
      case same
      then show ?thesis using all_granted_more [OF IH] WEvaluate by simp
    next
      case (issued now n b)
      obtain args sch where b: "b = write_binding w ?a rid orq tool args sch st (wa_approvals ?a ! n) judge WRITE_PERMIT"
        using decide_write_Granted [OF issued(2)] by metis
      obtain i where i: "wa_issued (fst (issue_write w now rid orq n b ?a)) = wa_issued ?a @ [(wa_next ?a, i)]"
          "a_binding (wi_envelope i) = b" "wi_request i = orq" "wi_issued_at i = now"
        by (rule issue_write_issued)
      have "snd (issue_write w now rid orq n b ?a) = wa_next ?a" by (simp add: issue_write_def Let_def)
      then have "granted_by w a0 (ops @ [x]) (wa_next ?a) now rid orq tool"
        using issued(1,3) WEvaluate unfolding granted_by_def by force
      moreover have "all_granted w a0 (ops @ [x]) ?a" using all_granted_more [OF IH] by simp
      ultimately show ?thesis
        using i b issued(3) WEvaluate unfolding all_granted_def by (auto simp: write_binding_def)
    qed
  next
    case (WConsume clock env rid orq tool q)
    have "set (wa_issued (fst (consume_write w clock env rid orq tool q ?a))) \<subseteq> set (wa_issued ?a)"
      by (cases rule: consume_write_cases [of w clock env rid orq tool q ?a]) (auto simp: alist_del_def)
    then show ?thesis using all_granted_more [OF IH] WConsume by simp
  qed (use snoc.prems in simp)
  then show ?case by (simp add: run_ops_snoc)
qed (simp add: all_granted_def assms(1))

lemma check_write_Inr:
  assumes "check_write w clock i rid orq tool q a = Inr b"
  shows "b = a_binding (wi_envelope i)" "wi_request i = orq" "x_tool b = tool" "x_request_id b = rid"
    "\<exists>now. clock = Some now \<and> wi_issued_at i \<le> now \<and> now < wi_expires_at i"
    "\<exists>v. normalize_query tool q = Inr v \<and> canonical_text v = x_arguments_json b"
  using assms authority_query_tool [of w a tool q]
  by (auto simp: check_write_def binding_agrees_def Let_def split: sum.splits option.splits prod.splits if_splits)

text \<open>
  C28. An approval of the host is worth one write: in any run of evaluations, consumptions and alterations
  of issued envelopes, by any caller and at any clock, the references of the approvals under which
  bindings are redeemed are pairwise different.
\<close>

theorem approval_redeemed_once:
  assumes "WriteAuthority w owner store ps max_age = Inr a"
  shows "distinct (snd (run_ops (write_step w) ops a))"
  by (rule approvals.redeemed_once [OF WriteAuthority_Inr(9) [OF assms]])

text \<open>
  C29. No write without the host: when an envelope is redeemed after any run of the authority in which no
  envelope was altered, the host approved at construction, for this owner and store, the very request, the
  tool and the arguments that are presented now; the request trips no hard denial; and the envelope is the one
  which an evaluation of that run granted for this request under the same identifier, at a time that is not
  after the present one and less than the configured age before it.
\<close>

theorem write_needs_host_approval:
  assumes new: "WriteAuthority w owner store ps max_age = Inr a0"
    and ops: "list_all write_untampered ops"
    and redeem: "consume_write w clock env rid orq tool q (fst (run_ops (write_step w) ops a0)) = (a', Inr b)"
  shows "(\<exists>p \<in> set ps. ha_approved p \<and> ha_owner p = owner \<and> ha_store p = store \<and> ha_request p = orq \<and> ha_tool p = tool
        \<and> (\<exists>v. normalize_query tool q = Inr v \<and> ha_arguments p = canonical_text v \<and> x_arguments_json b = canonical_text v))
    \<and> denied_reasons (nfkc_casefold w) orq = [] \<and> x_tool b = tool \<and> x_request_id b = rid
    \<and> (\<exists>now issued h. clock = Some now \<and> env = Some h \<and> granted_by w a0 ops h issued rid orq tool
          \<and> issued \<le> now \<and> now < issued + max_age)"
proof -
  let ?a = "fst (run_ops (write_step w) ops a0)"
  note n = WriteAuthority_Inr [OF new]
  have rest: "all_rest w ?a" using rest_run [OF ops] n(2) by (simp add: all_rest_def)
  obtain h i where i: "map_of (wa_issued ?a) h = Some i" "check_write w clock i rid orq tool q ?a = Inr b" "env = Some h"
    using redeem by (cases rule: consume_write_cases [of w clock env rid orq tool q ?a]) auto
  note c = check_write_Inr [OF i(2)]
  have "rests_on w ?a i" using rest map_of_SomeD [OF i(1)] unfolding all_rest_def by force
  then obtain p where p: "p \<in> set ps" "ha_approved p" "ha_request p = orq" "ha_tool p = tool" "ha_arguments p = x_arguments_json b"
      "denied_reasons (nfkc_casefold w) orq = []" "wi_expires_at i = wi_issued_at i + max_age"
    using c(1-4) n(1,8) unfolding rests_on_def run_kept by auto
  have "granted_by w a0 ops h (wi_issued_at i) rid orq tool"
    using granted_run [OF n(2) ops, of w] map_of_SomeD [OF i(1)] c(1-4) unfolding all_granted_def by force
  then show ?thesis using n(7) [OF p(1)] p c(3-6) i(3) by metis
qed

section \<open>An instance\<close>

definition example_query :: json where
  "example_query = JObj [(''award_id'', JStr ''SYN-1''), (''expected_version'', JInt 0), (''proposed_status'', JStr ''PENDING_REVIEW''),
     (''reviewer_note'', JStr ''seen''), (''idempotency_key'', JStr ''k1'')]"

definition example_approval :: host_approval where
  "example_approval = \<lparr>ha_request = ''mark it'', ha_tool = WRITE_TOOL, ha_arguments = canonical_text example_query,
     ha_owner = ''o'', ha_store = ''s'', ha_reference = ''a1'', ha_approved = True, ha_dataset = DATASET_SHA256\<rparr>"

definition example_write_state :: state_facts where
  "example_write_state = \<lparr>sf_exists = True, sf_status = ''UNREVIEWED'', sf_version = 0\<rparr>"

lemma example_query_loads: "json_loads (float_of example_libs) (canonical_text example_query) = Some (jsort example_query)"
  by (rule loads_dumps [where a = False]) (simp_all add: example_query_def dumps_def canonical_text_def)

lemma example_query_sorted: "jsort example_query = JObj [(''award_id'', JStr ''SYN-1''), (''expected_version'', JInt 0),
     (''idempotency_key'', JStr ''k1''), (''proposed_status'', JStr ''PENDING_REVIEW''), (''reviewer_note'', JStr ''seen'')]"
  by code_simp

lemma example_normal:
  "normalize_query WRITE_TOOL example_query = Inr example_query"
  "normalize_query WRITE_TOOL (jsort example_query) = Inr example_query"
  by code_simp+

lemma example_length: "utf8_length (canonical_text example_query) \<le> 16000"
proof -
  have u: "utf8_length s \<le> 2 * length s" for s by (induction s) (auto simp: utf8_length_def)
  have z: "dec_nat 0 = ''0''" by code_simp
  have l: "length (canonical_text example_query) \<le> 200"
    by (simp add: canonical_text_def example_query_sorted enc_str_def esc_def short_escape_def needs_u_def quote_chr_def bslash_def
        dec_int_def z)
  show ?thesis using u [of "canonical_text example_query"] l by linarith
qed

lemma example_text: "inert_text 200 ''o''" "inert_text 4000 ''s''" "inert_text 200 ''a1''" "inert_text 4000 ''mark it''" "inert_text 200 ''r1''"
  by (simp_all add: inert_text_def)

lemma example_checked: "approval_check example_libs example_approval = Inr ()"
  by (simp add: approval_check_def example_approval_def example_text example_length example_query_loads example_normal)

definition example_schemas :: tool_map where
  "example_schemas = [(WRITE_TOOL, replicate 64 (CHR ''0'')), (READ_TOOL, replicate 64 (CHR ''0''))]"

lemma example_schema: "canonical_schema example_libs m = Some (replicate 64 (CHR ''0''))"
  by (simp add: canonical_schema_def canonical_def dumps_def example_libs_def)

definition example_authority :: write_authority where
  "example_authority = \<lparr>wa_owner = ''o'', wa_store = ''s'', wa_approvals = [example_approval],
     wa_snapshots = [canonical_text (approval_json example_approval)], wa_spent = [], wa_requests = [],
     wa_schemas = example_schemas, wa_max_age = 30, wa_issued = [], wa_next = 0\<rparr>"

lemma example_owner: "ha_owner example_approval = ''o''" "ha_store example_approval = ''s''"
  by (simp_all add: example_approval_def)

lemma example_new: "WriteAuthority example_libs ''o'' ''s'' [example_approval] 30 = Inr example_authority"
  by (simp add: WriteAuthority_def approvals_check_def example_text example_checked example_owner MAX_APPROVALS_def
      WRITE_REGISTRY_def example_schema example_authority_def example_schemas_def)

lemma example_fields:
  "wa_owner example_authority = ''o''" "wa_store example_authority = ''s''" "wa_approvals example_authority = [example_approval]"
  "wa_spent example_authority = []" "wa_requests example_authority = []" "wa_schemas example_authority = example_schemas"
  "wa_max_age example_authority = 30" "wa_issued example_authority = []" "wa_next example_authority = 0"
  by (simp_all add: example_authority_def)

lemma example_query_ok:
  "authority_query example_libs a WRITE_TOOL example_query = Inr (canonical_text example_query, replicate 64 (CHR ''0''))"
  if "wa_schemas a = example_schemas" for a
  using that by (simp add: authority_query_def example_normal example_schema WRITE_REGISTRY_def example_schemas_def)

lemma example_no_denial: "denied_reasons (nfkc_casefold example_libs) ''mark it'' = []"
  by code_simp

definition example_write_binding :: execution_binding where
  "example_write_binding = write_binding example_libs example_authority ''r1'' ''mark it'' WRITE_TOOL (canonical_text example_query)
     (replicate 64 (CHR ''0'')) example_write_state example_approval None WRITE_PERMIT"

lemma example_nonempty: "canonical_text example_query \<noteq> []"
  by (simp add: canonical_text_def example_query_sorted)

lemma example_granted:
  "decide_write example_libs ''r1'' ''mark it'' WRITE_TOOL example_query example_write_state None example_authority
     = Inr (Granted 0 example_write_binding)"
proof -
  have d: "write_denials example_libs example_authority ''mark it'' WRITE_TOOL example_query example_write_state
      = ([], canonical_text example_query, replicate 64 (CHR ''0''))"
    by (simp add: write_denials_def example_no_denial example_query_ok example_fields WRITE_REGISTRY_def
        example_write_state_def transition_denials_def example_query_loads example_query_sorted jget_or_def)
  have f: "find_approval example_authority ''mark it'' WRITE_TOOL (canonical_text example_query) = Inr (Some 0)"
    by (simp add: find_approval_def example_authority_def example_approval_def)
  have s: "facts_ok example_write_state" by (simp add: facts_ok_def example_write_state_def)
  show ?thesis
    by (simp add: decide_write_def example_text d f s example_fields advisory_review_def MAX_APPROVALS_def example_write_binding_def)
qed

definition example_evaluation_op :: write_op where
  "example_evaluation_op = WEvaluate (Some 5) ''r1'' ''mark it'' WRITE_TOOL example_query example_write_state None"

lemma example_issued:
  "fst (write_step example_libs example_evaluation_op example_authority)
     = fst (issue_write example_libs 5 ''r1'' ''mark it'' 0 example_write_binding example_authority)"
  by (simp add: example_evaluation_op_def evaluate_write_def example_granted example_fields DBL_MAX_def split_beta)

lemma example_consumed:
  "snd (consume_write example_libs (Some 8) (Some 0) ''r1'' ''mark it'' WRITE_TOOL example_query
     (fst (issue_write example_libs 5 ''r1'' ''mark it'' 0 example_write_binding example_authority))) = Inr example_write_binding"
proof -
  have q: "authority_query example_libs (example_authority\<lparr>wa_spent := x, wa_requests := y, wa_issued := z, wa_next := n\<rparr>) WRITE_TOOL example_query
      = Inr (canonical_text example_query, replicate 64 (CHR ''0''))" for x y z n
    by (rule example_query_ok) (simp add: example_fields)
  have c: "authority_context (example_authority\<lparr>wa_spent := x, wa_requests := y, wa_issued := z, wa_next := n\<rparr>)
      = authority_context example_authority" for x y z n
    by (simp add: authority_context_def)
  show ?thesis
    by (simp add: issue_write_def Let_def consume_write_def check_write_def q c binding_agrees_def example_fields
        example_write_binding_def write_binding_def SCOPES_def)
qed

theorem write_needs_host_approval_witness:
  "ha_approved example_approval \<and> x_arguments_json example_write_binding = canonical_text example_query
   \<and> (\<exists>issued. granted_by example_libs example_authority [example_evaluation_op] 0 issued ''r1'' ''mark it'' WRITE_TOOL
         \<and> issued \<le> 8 \<and> 8 < issued + 30)"
proof -
  let ?a = "fst (run_ops (write_step example_libs) [example_evaluation_op] example_authority)"
  have run: "consume_write example_libs (Some 8) (Some 0) ''r1'' ''mark it'' WRITE_TOOL example_query ?a
      = (fst (consume_write example_libs (Some 8) (Some 0) ''r1'' ''mark it'' WRITE_TOOL example_query ?a), Inr example_write_binding)"
    using example_consumed by (simp add: prod_eq_iff example_issued)
  from write_needs_host_approval [OF example_new _ run] show ?thesis
    by (auto simp: example_evaluation_op_def example_normal)
qed

theorem approval_redeemed_once_witness:
  "distinct (snd (run_ops (write_step example_libs)
     [example_evaluation_op, WConsume (Some 8) (Some 0) ''r1'' ''mark it'' WRITE_TOOL example_query] example_authority))"
  by (rule approval_redeemed_once [OF example_new])

end
