(* ===== verification/WriteGateway.thy ===== *)
theory WriteGateway
  imports WriteAuthority
begin

text \<open>
  \<open>evals/write01/gateway_v1.py\<close>: one call of the write channel, from the proposal to the closed custody.
  The steps share a call record: the gateway, the response built so far and the two flags of the code; a
  step that raises leaves what it did and the code of its exception, and the handler at the end turns that
  into a stopped owner. A \<open>write_env\<close> gives the identity of the call, the clocks, SQLite's answers to each
  store call and whether each audit record is written (\<open>OSError\<close> otherwise). During a call no other process
  changes the store; the interleavings of the store's own steps are in \<open>WriteStore\<close>. The text of an
  \<open>award_id\<close> that is no string is no identifier of the data set.
\<close>

section \<open>State and response\<close>

record write_gateway =
  wg_store :: review_store
  wg_file :: review_file
  wg_authority :: write_authority
  wg_owner :: string
  wg_store_id :: string
  wg_run :: string
  wg_blocked :: bool
  wg_claimed :: bool
  wg_audit :: "json list"

record write_response =
  wr_tool :: string
  wr_request :: string
  wr_decision :: decision
  wr_reasons :: "string list"
  wr_issued :: bool
  wr_consumed :: bool
  wr_binding :: "json option"
  wr_entries :: nat
  wr_outcome :: string
  wr_verification :: string
  wr_custody :: string
  wr_result :: "json option"
  wr_evidence :: "string option"

record write_env =
  we_obs :: string
  we_emit :: "string \<Rightarrow> bool"            \<comment> \<open>by stage\<close>
  we_clock :: "string \<Rightarrow> rat option"     \<comment> \<open>\<open>evaluate\<close>, \<open>consume\<close>\<close>
  we_store :: "string \<Rightarrow> review_env"     \<comment> \<open>by the call of the store\<close>

record write_call =
  wc_gate :: write_gateway
  wc_resp :: write_response
  wc_open :: bool       \<comment> \<open>\<open>intent_open\<close>\<close>
  wc_closing :: bool    \<comment> \<open>\<open>close_attempted\<close>\<close>

type_synonym 'a call_step = "write_call \<Rightarrow> (write_call, string, 'a) outcome"

text \<open>The constructor; \<open>Inl\<close>: a \<open>ValueError\<close>.\<close>

definition WriteGatewayV1 ::
    "libs \<Rightarrow> review_store \<Rightarrow> review_file \<Rightarrow> string \<Rightarrow> string \<Rightarrow> host_approval list \<Rightarrow> string \<Rightarrow> string + write_gateway" where
  "WriteGatewayV1 w store f owner store_id ps run =
     (if rs_id store \<noteq> store_id then Inl ''WRITE01_STORE_OWNER_CONTEXT_MISMATCH''
      else rbind (WriteAuthority w owner store_id ps 30) (\<lambda>a. Inr \<lparr>wg_store = store, wg_file = f, wg_authority = a,
        wg_owner = owner, wg_store_id = store_id, wg_run = run, wg_blocked = False, wg_claimed = False, wg_audit = []\<rparr>))"

definition claim_server :: "write_gateway \<Rightarrow> (write_gateway, string, unit) outcome" where
  "claim_server g = (if wg_claimed g then (g, Inl ''WRITE01_OWNER_ALREADY_CLAIMED'') else (g\<lparr>wg_claimed := True\<rparr>, Inr ()))"

definition fixture_judge :: judge_signal where
  "fixture_judge = \<lparr>classified = IN_SCOPE, confidence = 99 / 100, rationale = ''Synthetic permissive fixture'',
     flags = [NONE], available = True, provider = ''write01-synthetic-judge''\<rparr>"

definition fresh_response :: "string \<Rightarrow> string \<Rightarrow> write_response" where
  "fresh_response orq tool = \<lparr>wr_tool = tool, wr_request = orq, wr_decision = REVIEW_REQUIRED,
     wr_reasons = [''CUSTODY_UNAVAILABLE''], wr_issued = False, wr_consumed = False, wr_binding = None, wr_entries = 0,
     wr_outcome = ''NOT_DISPATCHED'', wr_verification = ''NOT_EXECUTED'', wr_custody = ''NOT_OPENED'', wr_result = None,
     wr_evidence = None\<rparr>"

definition opt_json :: "json option \<Rightarrow> json" where
  "opt_json v = (case v of None \<Rightarrow> JNull | Some x \<Rightarrow> x)"

definition write_response_json :: "libs \<Rightarrow> write_gateway \<Rightarrow> write_env \<Rightarrow> write_response \<Rightarrow> json" where
  "write_response_json w g e r = JObj [(''contract'', JStr CONTRACT_VERSION), (''run_id'', JStr (wg_run g)),
     (''observation_id'', JStr (we_obs e)), (''tool'', JStr (wr_tool r)), (''original_request'', JStr (wr_request r)),
     (''decision'', JStr (decision_text (wr_decision r))), (''reasons'', JList (map JStr (wr_reasons r))),
     (''binding_issued'', JBool (wr_issued r)), (''binding_consumed'', JBool (wr_consumed r)),
     (''binding'', opt_json (wr_binding r)), (''adapter_entries'', JInt (int (wr_entries r))),
     (''transaction_outcome'', JStr (wr_outcome r)), (''result_verification'', JStr (wr_verification r)),
     (''custody'', JStr (wr_custody r)), (''result'', opt_json (wr_result r)),
     (''evidence_sha256'', opt_str (wr_evidence r)), (''human_acceptance'', JStr ''NOT_GRANTED''),
     (''judge'', judge_json w fixture_judge)]"

section \<open>The steps of a call\<close>

definition set_gate :: "(write_gateway \<Rightarrow> write_gateway) \<Rightarrow> unit call_step" where
  "set_gate f s = (s\<lparr>wc_gate := f (wc_gate s)\<rparr>, Inr ())"

definition set_resp :: "(write_response \<Rightarrow> write_response) \<Rightarrow> unit call_step" where
  "set_resp f s = (s\<lparr>wc_resp := f (wc_resp s)\<rparr>, Inr ())"

definition raise_code :: "string \<Rightarrow> 'a call_step" where
  "raise_code c s = (s, Inl c)"

definition require_or :: "bool \<Rightarrow> string \<Rightarrow> unit call_step" where
  "require_or c code s = (s, if c then Inr () else Inl code)"

text \<open>\<open>_emit\<close>: an audit record that is not written blocks the owner.\<close>

definition emit_audit :: "write_env \<Rightarrow> string \<Rightarrow> (string \<times> json) list \<Rightarrow> unit call_step" where
  "emit_audit e stage vs s =
     (if we_emit e stage then (s\<lparr>wc_gate := (wc_gate s)\<lparr>wg_audit := wg_audit (wc_gate s) @
          [JObj ([(''stage'', JStr stage), (''run_id'', JStr (wg_run (wc_gate s))), (''observation_id'', JStr (we_obs e))] @ vs)]\<rparr>\<rparr>, Inr ())
      else (s\<lparr>wc_gate := (wc_gate s)\<lparr>wg_blocked := True\<rparr>\<rparr>, Inl ''OSError''))"

text \<open>A store call that reads, and one that writes.\<close>

definition ask_store :: "(review_store \<Rightarrow> review_file \<Rightarrow> store_error + 'a) \<Rightarrow> 'a call_step" where
  "ask_store f s = (s, case f (wg_store (wc_gate s)) (wg_file (wc_gate s)) of Inl x \<Rightarrow> Inl (serr_code x) | Inr v \<Rightarrow> Inr v)"

definition tell_store :: "(review_store \<Rightarrow> review_file \<Rightarrow> review_file \<times> (store_error + 'a)) \<Rightarrow> 'a call_step" where
  "tell_store f s = (case f (wg_store (wc_gate s)) (wg_file (wc_gate s)) of
      (g, r) \<Rightarrow> (s\<lparr>wc_gate := (wc_gate s)\<lparr>wg_file := g\<rparr>\<rparr>, case r of Inl x \<Rightarrow> Inl (serr_code x) | Inr v \<Rightarrow> Inr v))"

fun exn_text :: "exn \<Rightarrow> string" where
  "exn_text (BoundaryError c) = c" | "exn_text (LocalHold c) = c" | "exn_text (OtherError c) = c"

definition ask_authority :: "(write_authority \<Rightarrow> (write_authority, exn, 'a) outcome) \<Rightarrow> 'a call_step" where
  "ask_authority f s = (case f (wg_authority (wc_gate s)) of
      (a, r) \<Rightarrow> (s\<lparr>wc_gate := (wc_gate s)\<lparr>wg_authority := a\<rparr>\<rparr>, case r of Inl x \<Rightarrow> Inl (exn_text x) | Inr v \<Rightarrow> Inr v))"

definition snapshot_json :: "state_row \<times> string list \<Rightarrow> json" where
  "snapshot_json v = (case v of (s, notes) \<Rightarrow> JObj [(''award_id'', JStr (sr_award s)), (''dataset_sha256'', JStr DATASET_SHA256),
     (''status'', JStr (sr_status s)), (''version'', JInt (sr_version s)), (''notes'', JList (map JStr notes))])"

definition award_text :: "json \<Rightarrow> string" where
  "award_text query = (case jget_or (JStr []) ''award_id'' query of JStr s \<Rightarrow> s | _ \<Rightarrow> [])"

definition operation_json :: "libs \<Rightarrow> write_gateway \<Rightarrow> write_env \<Rightarrow> string \<Rightarrow> string \<Rightarrow> json \<Rightarrow> string \<Rightarrow> execution_binding \<Rightarrow> json" where
  "operation_json w g e orq tool effective ref b = JObj [(''original_request'', JStr orq), (''query'', effective),
     (''approval_ref'', JStr ref), (''owner_id'', JStr (wg_owner g)), (''dataset_sha256'', JStr DATASET_SHA256),
     (''store_id'', JStr (wg_store_id g)), (''run_id'', JStr (wg_run g)), (''observation_id'', JStr (we_obs e)),
     (''tool'', JStr tool), (''binding'', binding_audit_record w b)]"

definition open_confirmed :: "libs \<Rightarrow> json \<Rightarrow> execution_binding \<Rightarrow> string \<Rightarrow> intent_row option \<Rightarrow> bool" where
  "open_confirmed w operation b sha durable \<longleftrightarrow> sha = contract_digest w operation
     \<and> (case durable of None \<Rightarrow> False | Some r \<Rightarrow> in_open r \<and> in_operation r = canonical_text operation
          \<and> in_binding r = binding_sha256 w b \<and> in_receipt r = None)"

text \<open>The intent is durable and read back before the binding is consumed.\<close>

definition open_intent_step :: "libs \<Rightarrow> write_env \<Rightarrow> json \<Rightarrow> execution_binding \<Rightarrow> unit call_step" where
  "open_intent_step w e operation b s =
     obind (tell_store (\<lambda>st f. reserve_review (we_store e ''reserve'') w st (we_obs e) operation (binding_sha256 w b) f) s) (\<lambda>sha s.
     obind (ask_store (\<lambda>st f. review_inspect (we_store e ''inspect_open'') w st (we_obs e) f) s) (\<lambda>durable s.
     obind (require_or (open_confirmed w operation b sha durable) ''OPEN_EVIDENCE_NOT_CONFIRMED'' s) (\<lambda>_ s.
     obind (set_resp (\<lambda>r. r\<lparr>wr_custody := ''OPEN''\<rparr>) (s\<lparr>wc_open := True\<rparr>)) (\<lambda>_ s.
     emit_audit e ''intent_open_ack'' [(''operation_sha256'', JStr (contract_digest w operation))] s))))"

definition commit_confirmed :: "libs \<Rightarrow> json \<Rightarrow> execution_binding \<Rightarrow> json \<times> string \<Rightarrow> intent_row option \<Rightarrow> bool" where
  "commit_confirmed w operation b receipt durable \<longleftrightarrow>
     (case durable of None \<Rightarrow> False | Some r \<Rightarrow> contract_digest w (fst receipt) = snd receipt
        \<and> in_receipt_sha r = Some (snd receipt)
        \<and> (case Option.bind (in_receipt r) (json_loads (float_of w)) of None \<Rightarrow> False | Some v \<Rightarrow> py_eq v (fst receipt))
        \<and> py_eq (field (fst receipt) ''operation'') operation
        \<and> py_eq (field (fst receipt) ''binding_sha256'') (JStr (binding_sha256 w b)))"

definition close_confirmed :: "libs \<Rightarrow> json \<Rightarrow> execution_binding \<Rightarrow> json \<times> string \<Rightarrow> intent_row option \<Rightarrow> bool" where
  "close_confirmed w operation b receipt shut \<longleftrightarrow>
     (case shut of None \<Rightarrow> False | Some r \<Rightarrow> \<not> in_open r \<and> in_receipt_sha r = Some (snd receipt)
        \<and> in_receipt r = Some (canonical_text (fst receipt)) \<and> in_operation r = canonical_text operation
        \<and> in_binding r = binding_sha256 w b)"

definition write_result :: "write_env \<Rightarrow> json \<times> string \<Rightarrow> json" where
  "write_result e receipt = JObj [(''receipt'', fst receipt), (''receipt_sha256'', JStr (snd receipt)), (''custody_at_commit'', JStr ''OPEN''),
     (''close_ack'', JObj [(''operation_id'', JStr (we_obs e)), (''receipt_sha256'', JStr (snd receipt)), (''custody'', JStr ''CLOSED''),
        (''human_acceptance'', JStr ''NOT_ESTABLISHED'')])]"

text \<open>The commit, its evidence read back, the acknowledgement and its evidence.\<close>

definition commit_step :: "libs \<Rightarrow> write_env \<Rightarrow> json \<Rightarrow> json \<Rightarrow> execution_binding \<Rightarrow> unit call_step" where
  "commit_step w e effective operation b s =
     obind (tell_store (\<lambda>st f. store_commit (we_store e ''commit'') (we_store e ''apply'') w st (we_obs e) (binding_sha256 w b) f) s) (\<lambda>receipt s.
     obind (set_resp (\<lambda>r. r\<lparr>wr_outcome := ''COMMIT_RESPONSE_OBSERVED''\<rparr>) s) (\<lambda>_ s.
     obind (emit_audit e ''commit_observed'' [(''receipt'', JObj [(''receipt'', fst receipt), (''receipt_sha256'', JStr (snd receipt)), (''custody'', JStr ''OPEN'')])] s) (\<lambda>_ s.
     obind (ask_store (\<lambda>st f. review_inspect (we_store e ''inspect_commit'') w st (we_obs e) f) s) (\<lambda>durable s.
     obind (require_or (commit_confirmed w operation b receipt durable) ''POST_COMMIT_EVIDENCE_MISMATCH'' s) (\<lambda>_ s.
     obind (ask_store (\<lambda>st f. review_snapshot (we_store e ''snapshot_after'') w st (award_text effective) f) s) (\<lambda>after s.
     obind (require_or (py_eq (snapshot_json after) (field (fst receipt) ''after'')) ''POST_COMMIT_EVIDENCE_MISMATCH'' s) (\<lambda>_ s.
     obind (set_resp (\<lambda>r. r\<lparr>wr_outcome := ''COMMITTED''\<rparr>) (s\<lparr>wc_closing := True\<rparr>)) (\<lambda>_ s.
     obind (tell_store (\<lambda>st f. acknowledge_review (we_store e ''acknowledge'') w st (we_obs e) (snd receipt) f) s) (\<lambda>_ s.
     obind (ask_store (\<lambda>st f. review_inspect (we_store e ''inspect_close'') w st (we_obs e) f) s) (\<lambda>shut s.
     obind (require_or (close_confirmed w operation b receipt shut) ''CLOSE_ACK_NOT_CONFIRMED'' s) (\<lambda>_ s.
     set_resp (\<lambda>r. r\<lparr>wr_custody := ''CLOSED'', wr_result := Some (write_result e receipt)\<rparr>) s)))))))))))"

definition read_step :: "libs \<Rightarrow> write_env \<Rightarrow> json \<Rightarrow> unit call_step" where
  "read_step w e effective s =
     obind (ask_store (\<lambda>st f. review_snapshot (we_store e ''snapshot_read'') w st (award_text effective) f) s) (\<lambda>v s.
     set_resp (\<lambda>r. r\<lparr>wr_result := Some (snapshot_json v), wr_outcome := ''READ_ONLY'', wr_custody := ''READ_ONLY_NO_FENCE''\<rparr>) s)"

text \<open>The envelope and its binding, by the handle the authority gave.\<close>

definition issued_binding :: "nat \<Rightarrow> write_authority \<Rightarrow> execution_binding" where
  "issued_binding h a = a_binding (wi_envelope (the (map_of (wa_issued a) h)))"

text \<open>The part of a call under an envelope: reservation, consumption, the one adapter entry, the evidence.\<close>

definition dispatch_step :: "libs \<Rightarrow> write_env \<Rightarrow> string \<Rightarrow> string \<Rightarrow> nat \<Rightarrow> unit call_step" where
  "dispatch_step w e orq tool h s =
     (let b = issued_binding h (wg_authority (wc_gate s)); effective = the (json_loads (float_of w) (x_arguments_json b)) in
     obind (emit_audit e ''binding_issued'' [(''binding'', opt_json (wr_binding (wc_resp s)))] s) (\<lambda>_ s.
     obind (ask_authority (\<lambda>a. (a, approval_reference h a)) s) (\<lambda>ref s.
     let operation = operation_json w (wc_gate s) e orq tool effective ref b in
     obind (if tool = WRITE_TOOL then open_intent_step w e operation b s else (s, Inr ())) (\<lambda>_ s.
     obind (ask_authority (consume_write w (we_clock e ''consume'') (Some h) (we_obs e) orq tool effective) s) (\<lambda>b s.
     obind (set_resp (\<lambda>r. r\<lparr>wr_consumed := True\<rparr>) s) (\<lambda>_ s.
     obind (emit_audit e ''binding_consumed'' [(''binding'', binding_audit_record w b)] s) (\<lambda>_ s.
     obind (emit_audit e ''adapter_entry'' [(''operation_id'', JStr (we_obs e)), (''tool'', JStr tool)] s) (\<lambda>_ s.
     obind (set_resp (\<lambda>r. r\<lparr>wr_entries := 1\<rparr>) s) (\<lambda>_ s.
     obind (if tool = WRITE_TOOL then commit_step w e effective operation b s
            else if tool = READ_TOOL then read_step w e effective s
            else raise_code ''WRITE01_DISPATCH_TOOL_MISMATCH'' s) (\<lambda>_ s.
     obind (set_resp (\<lambda>r. r\<lparr>wr_verification := ''VERIFIED'', wr_evidence := map_option (contract_digest w) (wr_result r)\<rparr>) s) (\<lambda>_ s.
     emit_audit e ''completed'' [(''response'', write_response_json w (wc_gate s) e (wc_resp s))] s)))))))))))"

definition write_steps :: "libs \<Rightarrow> write_env \<Rightarrow> string \<Rightarrow> string \<Rightarrow> json \<Rightarrow> state_facts \<Rightarrow> unit call_step" where
  "write_steps w e orq tool query st s =
     obind (ask_authority (evaluate_write w (we_clock e ''evaluate'') (we_obs e) orq tool query st (Some fixture_judge)) s) (\<lambda>(p, env) s.
     obind (set_resp (\<lambda>r. r\<lparr>wr_decision := decided p, wr_reasons := reasons p, wr_issued := env \<noteq> None,
         wr_binding := map_option (\<lambda>h. binding_audit_record w (issued_binding h (wg_authority (wc_gate s)))) env\<rparr>) s) (\<lambda>_ s.
     obind (emit_audit e ''policy'' [(''policy'', policy_json p), (''judge'', judge_json w fixture_judge)] s) (\<lambda>_ s.
     case env of
       None \<Rightarrow> emit_audit e ''completed'' [(''response'', write_response_json w (wc_gate s) e (wc_resp s))] s
     | Some h \<Rightarrow> dispatch_step w e orq tool h s)))"

text \<open>The handler: the owner stops; an initial permission stays visible.\<close>

definition stopped_response :: "string \<Rightarrow> write_call \<Rightarrow> write_response" where
  "stopped_response code s = (let r = wc_resp s in
     r\<lparr>wr_reasons := wr_reasons r @ [code], wr_verification := ''UNKNOWN'', wr_result := None, wr_evidence := None,
       wr_outcome := (if wr_outcome r = ''COMMITTED'' then ''COMMITTED'' else if wr_entries r > 0 then ''UNKNOWN'' else ''NOT_DISPATCHED''),
       wr_custody := (if wc_open s \<and> \<not> wc_closing s \<and> wr_custody r \<noteq> ''CLOSED'' \<and> code \<noteq> ''CUSTODY_ACK_UNKNOWN'' then ''OPEN'' else ''UNKNOWN'')\<rparr>)"

definition stop_call :: "libs \<Rightarrow> write_env \<Rightarrow> string \<Rightarrow> write_call \<Rightarrow> write_gateway \<times> write_response" where
  "stop_call w e code s =
     (let r = stopped_response code s; g = (wc_gate s)\<lparr>wg_blocked := True\<rparr> in
      case emit_audit e ''stopped'' [(''response'', write_response_json w g e r)] (s\<lparr>wc_gate := g, wc_resp := r\<rparr>) of
        (s', Inr _) \<Rightarrow> (wc_gate s', r)
      | (s', Inl _) \<Rightarrow> (wc_gate s', r\<lparr>wr_custody := ''UNKNOWN''\<rparr>))"

definition decide_and_act :: "libs \<Rightarrow> write_env \<Rightarrow> string \<Rightarrow> string \<Rightarrow> json \<Rightarrow> state_facts \<Rightarrow> write_gateway \<Rightarrow> write_gateway \<times> write_response" where
  "decide_and_act w e orq tool query st g =
     (case write_steps w e orq tool query st \<lparr>wc_gate = g, wc_resp = fresh_response orq tool, wc_open = False, wc_closing = False\<rparr> of
        (s, Inr _) \<Rightarrow> (wc_gate s, wc_resp s)
      | (s, Inl code) \<Rightarrow> stop_call w e code s)"

text \<open>\<open>call\<close>; \<open>Inl\<close>: an exception of the proposal that no handler catches.\<close>

definition call_write :: "libs \<Rightarrow> write_env \<Rightarrow> string \<Rightarrow> string \<Rightarrow> json \<Rightarrow> write_gateway \<Rightarrow> write_gateway \<times> (string + write_response)" where
  "call_write w e orq tool query g =
     (let r = fresh_response orq tool in
      if wg_blocked g then (g, Inr (r\<lparr>wr_reasons := [''OWNER_STOPPED_NO_AUTOMATIC_RECOVERY''], wr_custody := ''UNKNOWN''\<rparr>))
      else if canonical query = None then (g, Inl ''ValueError'')
      else (case emit_audit e ''proposal'' [(''original_request'', JStr orq), (''tool'', JStr tool), (''query'', query)]
              \<lparr>wc_gate = g, wc_resp = r, wc_open = False, wc_closing = False\<rparr> of
          (s, Inl _) \<Rightarrow> (wc_gate s, Inr (r\<lparr>wr_custody := ''UNKNOWN''\<rparr>))
        | (s, Inr _) \<Rightarrow>
            (let g1 = wc_gate s in
             if \<not> is_obj query then (g1, Inl ''AttributeError'')
             else (case review_snapshot (we_store e ''snapshot'') w (wg_store g1) (award_text query) (wg_file g1) of
                 Inr (row, notes) \<Rightarrow> apsnd Inr (decide_and_act w e orq tool query
                     \<lparr>sf_exists = True, sf_status = sr_status row, sf_version = sr_version row\<rparr> g1)
               | Inl x \<Rightarrow>
                   if serr_code x = ''UNKNOWN_SYNTHETIC_AWARD'' then apsnd Inr (decide_and_act w e orq tool query
                     \<lparr>sf_exists = False, sf_status = ''UNKNOWN'', sf_version = 0\<rparr> g1)
                   else (g1\<lparr>wg_blocked := True\<rparr>, Inr (r\<lparr>wr_reasons := [serr_code x], wr_custody := ''UNKNOWN''\<rparr>))))))"

end
