(* ===== verification/WriteGatewaySafety.thy ===== *)
theory WriteGatewaySafety
  imports WriteGateway WriteAuthoritySafety WriteStoreSafety
begin

text \<open>
  What a call of the write channel promises: nothing is mutated without an approval the host gave for it,
  which is spent, and a verified write is committed and closed on record. The steps of a call are followed
  with one chaining rule.
\<close>

section \<open>Following a call\<close>

definition award_states :: "review_file \<Rightarrow> state_row list" where
  "award_states f = (case f of Review d \<Rightarrow> rd_states d | _ \<Rightarrow> [])"

abbreviation call_states :: "write_call \<Rightarrow> state_row list" where
  "call_states s \<equiv> award_states (wg_file (wc_gate s))"

abbreviation call_spent :: "write_call \<Rightarrow> nat list" where
  "call_spent s \<equiv> wa_spent (wg_authority (wc_gate s))"

lemma obind_via:
  "P (fst x) \<Longrightarrow> (\<And>a s. P s \<Longrightarrow> Q (fst (f a s))) \<Longrightarrow> (\<And>s. P s \<Longrightarrow> Q s) \<Longrightarrow> Q (fst (obind x f))"
  by (cases rule: obind_cases [of x f]) auto

text \<open>What the single steps leave alone.\<close>

lemma emit_frame [simp]:
  "wg_file (wc_gate (fst (emit_audit e st vs s))) = wg_file (wc_gate s)"
  "wg_authority (wc_gate (fst (emit_audit e st vs s))) = wg_authority (wc_gate s)"
  "wg_store (wc_gate (fst (emit_audit e st vs s))) = wg_store (wc_gate s)"
  "wc_resp (fst (emit_audit e st vs s)) = wc_resp s"
  by (simp_all add: emit_audit_def)

lemma set_resp_frame [simp]:
  "wc_gate (fst (set_resp f s)) = wc_gate s" "wc_resp (fst (set_resp f s)) = f (wc_resp s)"
  by (simp_all add: set_resp_def)

lemma require_or_frame [simp]: "fst (require_or c code s) = s"
  by (simp add: require_or_def)

lemma ask_store_frame [simp]: "fst (ask_store f s) = s"
  by (simp add: ask_store_def)

lemma raise_code_frame [simp]: "fst (raise_code c s) = s"
  by (simp add: raise_code_def)

lemma tell_store_frame [simp]:
  "wg_authority (wc_gate (fst (tell_store f s))) = wg_authority (wc_gate s)"
  "wg_store (wc_gate (fst (tell_store f s))) = wg_store (wc_gate s)"
  "wc_resp (fst (tell_store f s)) = wc_resp s"
  "wg_file (wc_gate (fst (tell_store f s))) = fst (f (wg_store (wc_gate s)) (wg_file (wc_gate s)))"
  by (simp_all add: tell_store_def split: prod.split)

lemma ask_authority_frame [simp]:
  "wg_file (wc_gate (fst (ask_authority f s))) = wg_file (wc_gate s)"
  "wg_store (wc_gate (fst (ask_authority f s))) = wg_store (wc_gate s)"
  "wc_resp (fst (ask_authority f s)) = wc_resp s"
  "wg_authority (wc_gate (fst (ask_authority f s))) = fst (f (wg_authority (wc_gate s)))"
  by (simp_all add: ask_authority_def split: prod.split)

lemma reserve_states [simp]: "award_states (fst (reserve_review e w b i u k f)) = award_states f"
  by (cases rule: reserve_cases [of e w b i u k f]) (auto simp: award_states_def)

lemma acknowledge_states [simp]: "award_states (fst (acknowledge_review e w b i sha f)) = award_states f"
  by (cases rule: acknowledge_cases [of e w b i sha f]) (auto simp: award_states_def update_intent_def)

lemma consume_spent [simp]: "wa_spent (fst (consume_write w clock env rid orq tool q a)) = wa_spent a"
  by (cases rule: consume_write_cases [of w clock env rid orq tool q a]) simp_all

section \<open>No mutation without an approval\<close>

definition untouched :: "state_row list \<Rightarrow> nat list \<Rightarrow> write_call \<Rightarrow> bool" where
  "untouched S X s \<longleftrightarrow> call_states s = S \<and> call_spent s = X"

definition entered :: "nat list \<Rightarrow> write_call \<Rightarrow> bool" where
  "entered X s \<longleftrightarrow> wr_consumed (wc_resp s) \<and> wr_entries (wc_resp s) = 1 \<and> call_spent s = X"

lemma open_intent_untouched: "untouched S X s \<Longrightarrow> untouched S X (fst (open_intent_step w e op b s))"
  unfolding open_intent_step_def
  by (rule obind_keep [where P = "untouched S X"], simp add: untouched_def)+ (simp_all add: untouched_def)

lemma commit_entered: "entered X s \<Longrightarrow> entered X (fst (commit_step w e eff op b s))"
  unfolding commit_step_def
  by (rule obind_keep [where P = "entered X"], simp add: entered_def)+ (simp_all add: entered_def)

lemma read_untouched: "untouched S X s \<Longrightarrow> untouched S X (fst (read_step w e eff s))"
  unfolding read_step_def
  by (rule obind_keep [where P = "untouched S X"], simp add: untouched_def)+ (simp_all add: untouched_def)

definition dispatched_ok :: "string \<Rightarrow> state_row list \<Rightarrow> nat list \<Rightarrow> write_call \<Rightarrow> bool" where
  "dispatched_ok tool S X s \<longleftrightarrow> untouched S X s \<or> tool = WRITE_TOOL \<and> entered X s"

lemma untouched_frame:
  "untouched S X s \<Longrightarrow> untouched S X (fst (emit_audit e st vs s))"
  "untouched S X s \<Longrightarrow> untouched S X (fst (set_resp f s))"
  "untouched S X s \<Longrightarrow> untouched S X (fst (ask_authority (\<lambda>a. (a, approval_reference h a)) s))"
  "untouched S X s \<Longrightarrow> untouched S X (fst (ask_authority (consume_write w clock env rid orq tool q) s))"
  by (simp_all add: untouched_def)

lemma entered_frame:
  "entered X s \<Longrightarrow> entered X (fst (emit_audit e st vs s))"
  "(\<And>r. wr_consumed r \<Longrightarrow> wr_entries r = 1 \<Longrightarrow> wr_consumed (f r) \<and> wr_entries (f r) = 1) \<Longrightarrow> entered X s \<Longrightarrow> entered X (fst (set_resp f s))"
  by (simp_all add: entered_def)

lemma dispatch_outcome:
  assumes "untouched S X s"
  shows "dispatched_ok tool S X (fst (dispatch_step w e orq tool h s))"
proof -
  let ?U = "untouched S X" and ?Q = "dispatched_ok tool S X"
  let ?C = "\<lambda>s. untouched S X s \<and> wr_consumed (wc_resp s)"
  let ?D = "\<lambda>s. ?C s \<and> wr_entries (wc_resp s) = 1"
  let ?E = "\<lambda>s. if tool = WRITE_TOOL then entered X s else untouched S X s"
  have u: "?U s \<Longrightarrow> ?Q s" and c: "?C s \<Longrightarrow> ?Q s" and d: "?D s \<Longrightarrow> ?Q s" and e: "?E s \<Longrightarrow> ?Q s" for s
    by (auto simp: dispatched_ok_def split: if_splits)
  have de: "?D s \<Longrightarrow> ?E s" for s by (simp add: untouched_def entered_def)
  show ?thesis
    unfolding dispatch_step_def Let_def
    apply (rule obind_via [where P = ?U and Q = ?Q, OF _ _ u], rule untouched_frame(1), rule assms)
    apply (rule obind_via [where P = ?U and Q = ?Q, OF _ _ u], erule untouched_frame(3))
    apply (rule obind_via [where P = ?U and Q = ?Q, OF _ _ u], simp add: open_intent_untouched)
    apply (rule obind_via [where P = ?U and Q = ?Q, OF _ _ u], erule untouched_frame(4))
    apply (rule obind_via [where P = ?C and Q = ?Q, OF _ _ c], simp add: untouched_frame(2))
    apply (rule obind_via [where P = ?C and Q = ?Q, OF _ _ c], simp add: untouched_frame(1))
    apply (rule obind_via [where P = ?C and Q = ?Q, OF _ _ c], simp add: untouched_frame(1))
    apply (rule obind_via [where P = ?D and Q = ?Q, OF _ _ d], simp add: untouched_frame(2))
    apply (rule obind_via [where P = ?E and Q = ?Q, OF _ _ e], drule de, simp add: commit_entered read_untouched)
    apply (rule obind_via [where P = ?E and Q = ?Q, OF _ _ e], simp add: entered_frame untouched_frame(2))
    apply (rule e, simp add: entered_frame untouched_frame(1))
    by assumption+
qed


text \<open>The whole call. Evaluation either spends nothing and leads to no envelope, or spends one approval.\<close>

lemma steps_outcome:
  assumes "evaluate_write w (we_clock e ''evaluate'') (we_obs e) orq tool query st (Some fixture_judge) (wg_authority (wc_gate s)) = (a, x)"
  shows "if \<exists>p h. x = Inr (p, Some h) then dispatched_ok tool (call_states s) (wa_spent a) (fst (write_steps w e orq tool query st s))
    else untouched (call_states s) (wa_spent a) (fst (write_steps w e orq tool query st s))"
proof -
  let ?U = "untouched (call_states s) (wa_spent a)"
  let ?s = "s\<lparr>wc_gate := (wc_gate s)\<lparr>wg_authority := a\<rparr>\<rparr>"
  have start: "ask_authority (evaluate_write w (we_clock e ''evaluate'') (we_obs e) orq tool query st (Some fixture_judge)) s
      = (?s, case x of Inl y \<Rightarrow> Inl (exn_text y) | Inr v \<Rightarrow> Inr v)"
    by (simp add: ask_authority_def assms)
  have u: "?U ?s" by (simp add: untouched_def)
  show ?thesis
  proof (cases x)
    case (Inl y)
    then show ?thesis using u unfolding write_steps_def start by simp
  next
    case (Inr v)
    obtain p env where v: "v = (p, env)" by (cases v)
    show ?thesis
    proof (cases env)
      case None
      have "?U (fst (write_steps w e orq tool query st s))"
        unfolding write_steps_def start Inr v None
        by (simp add: obind_keep [where P = ?U] untouched_frame u)
      then show ?thesis using Inr v None by simp
    next
      case (Some h)
      have keep: "?U s' \<Longrightarrow> dispatched_ok tool (call_states s) (wa_spent a) s'" for s' by (simp add: dispatched_ok_def)
      have "dispatched_ok tool (call_states s) (wa_spent a) (fst (write_steps w e orq tool query st s))"
        unfolding write_steps_def start Inr v Some sum.case obind_simps prod.case option.case
        apply (rule obind_via [where P = ?U, OF _ _ keep], rule untouched_frame(2), rule u)
        apply (rule obind_via [where P = ?U, OF _ _ keep], erule untouched_frame(1))
        apply (erule dispatch_outcome)
        by assumption+
      then show ?thesis using Inr v Some by simp
    qed
  qed
qed

lemma stop_call_frame:
  "wg_file (fst (stop_call w e code s)) = wg_file (wc_gate s)"
  "wg_authority (fst (stop_call w e code s)) = wg_authority (wc_gate s)"
  "wr_consumed (snd (stop_call w e code s)) = wr_consumed (wc_resp s)"
  "wr_entries (snd (stop_call w e code s)) = wr_entries (wc_resp s)"
  "wg_blocked (fst (stop_call w e code s))"
  "wr_verification (snd (stop_call w e code s)) = ''UNKNOWN''"
  by (simp_all add: stop_call_def stopped_response_def emit_audit_def Let_def)

lemma act_outcome:
  assumes "decide_and_act w e orq tool query st g = (g', r)" "award_states (wg_file g') \<noteq> award_states (wg_file g)"
  obtains n b where "decide_write w (we_obs e) orq tool query st (Some fixture_judge) (wg_authority g) = Inr (Granted n b)"
    "wa_spent (wg_authority g') = wa_spent (wg_authority g) @ [n]" "tool = WRITE_TOOL" "wr_consumed r" "wr_entries r = 1"
proof -
  let ?s = "\<lparr>wc_gate = g, wc_resp = fresh_response orq tool, wc_open = False, wc_closing = False\<rparr>"
  let ?t = "fst (write_steps w e orq tool query st ?s)"
  obtain a x where ev: "evaluate_write w (we_clock e ''evaluate'') (we_obs e) orq tool query st (Some fixture_judge) (wg_authority g) = (a, x)"
    by fastforce
  have fin: "wg_file g' = wg_file (wc_gate ?t)" "wg_authority g' = wg_authority (wc_gate ?t)"
      "wr_consumed r = wr_consumed (wc_resp ?t)" "wr_entries r = wr_entries (wc_resp ?t)"
    using assms(1) stop_call_frame by (auto simp: decide_and_act_def split: prod.splits sum.splits) (metis fst_conv snd_conv)+
  note out = steps_outcome [of w e orq tool query st ?s a x]
  have "\<exists>p h. x = Inr (p, Some h)" and d: "dispatched_ok tool (award_states (wg_file g)) (wa_spent a) ?t"
    using out ev assms(2) fin(1) by (auto simp: untouched_def split: if_splits)
  then have entered: "tool = WRITE_TOOL" "entered (wa_spent a) ?t"
    using assms(2) fin(1) by (auto simp: dispatched_ok_def untouched_def)
  show thesis
  proof (cases rule: evaluate_write_cases [of w "we_clock e ''evaluate''" "we_obs e" orq tool query st "Some fixture_judge" "wg_authority g"])
    case same
    then show thesis using ev \<open>\<exists>p h. x = Inr (p, Some h)\<close> by auto
  next
    case (issued now n b)
    then have "wa_spent a = wa_spent (wg_authority g) @ [n]" using ev by auto
    then show thesis using that [OF issued(2)] entered fin unfolding entered_def by simp
  qed
qed


text \<open>A call ends before the authority is asked, or goes on with the facts the store gave.\<close>

lemma call_write_cases:
  "wg_file (fst (call_write w e orq tool query g)) = wg_file g
     \<and> (case snd (call_write w e orq tool query g) of Inl _ \<Rightarrow> True | Inr r \<Rightarrow> wr_verification r = ''NOT_EXECUTED'')
   \<or> (\<exists>st. call_write w e orq tool query g = apsnd Inr (decide_and_act w e orq tool query st
        (wc_gate (fst (emit_audit e ''proposal'' [(''original_request'', JStr orq), (''tool'', JStr tool), (''query'', query)]
              \<lparr>wc_gate = g, wc_resp = fresh_response orq tool, wc_open = False, wc_closing = False\<rparr>)))))"
proof -
  let ?e = "emit_audit e ''proposal'' [(''original_request'', JStr orq), (''tool'', JStr tool), (''query'', query)]
              \<lparr>wc_gate = g, wc_resp = fresh_response orq tool, wc_open = False, wc_closing = False\<rparr>"
  have f: "wg_file (wc_gate (fst ?e)) = wg_file g" by simp
  obtain s x where s: "?e = (s, x)" by fastforce
  then have fs: "fst ?e = s" "wg_file (wc_gate s) = wg_file g" using f by simp_all
  let ?snap = "review_snapshot (we_store e ''snapshot'') w (wg_store (wc_gate s)) (award_text query) (wg_file (wc_gate s))"
  consider (early) "wg_blocked g \<or> canonical query = None \<or> \<not> is_ok x \<or> \<not> is_obj query"
    | (refused) y where "\<not> wg_blocked g" "canonical query \<noteq> None" "x = Inr ()" "is_obj query" "?snap = Inl y"
    | (seen) row ns where "\<not> wg_blocked g" "canonical query \<noteq> None" "x = Inr ()" "is_obj query" "?snap = Inr (row, ns)"
    by (cases "wg_blocked g \<or> canonical query = None \<or> \<not> is_ok x \<or> \<not> is_obj query"; cases x; cases ?snap) auto
  then show ?thesis
  proof cases
    case early
    then have "wg_file (fst (call_write w e orq tool query g)) = wg_file g
        \<and> (case snd (call_write w e orq tool query g) of Inl _ \<Rightarrow> True | Inr r \<Rightarrow> wr_verification r = ''NOT_EXECUTED'')"
      using fs(2) unfolding call_write_def Let_def s by (elim disjE; cases x) (simp_all add: fresh_response_def)
    then show ?thesis ..
  next
    case (refused y)
    show ?thesis
    proof (cases "serr_code y = ''UNKNOWN_SYNTHETIC_AWARD''")
      case True
      then have "call_write w e orq tool query g = apsnd Inr (decide_and_act w e orq tool query
          \<lparr>sf_exists = False, sf_status = ''UNKNOWN'', sf_version = 0\<rparr> (wc_gate s))"
        using refused unfolding call_write_def Let_def s by auto
      then show ?thesis unfolding fs(1) by blast
    next
      case False
      then show ?thesis using refused fs(2) unfolding call_write_def Let_def s by (auto simp: fresh_response_def)
    qed
  next
    case (seen row ns)
    then have "call_write w e orq tool query g = apsnd Inr (decide_and_act w e orq tool query
        \<lparr>sf_exists = True, sf_status = sr_status row, sf_version = sr_version row\<rparr> (wc_gate s))"
      unfolding call_write_def Let_def s by auto
    then show ?thesis unfolding fs(1) by blast
  qed
qed

text \<open>
  C30. Nothing is mutated without the host. A call of the gateway either leaves the state of every award as
  it was, or it is a call of the write tool for which the host had approved, at construction and unspent,
  the very request and the canonical arguments of the query; the request trips no hard denial, that one
  approval is spent, and the answer says that the binding was consumed and the adapter entered once.
\<close>

theorem mutation_needs_approval:
  "award_states (wg_file (fst (call_write w e orq tool query g))) = award_states (wg_file g)
   \<or> tool = WRITE_TOOL \<and> denied_reasons (nfkc_casefold w) orq = []
     \<and> (\<exists>n v. normalize_query WRITE_TOOL query = Inr v \<and> fits (wg_authority g) orq WRITE_TOOL (canonical_text v) n
          \<and> wa_spent (wg_authority (fst (call_write w e orq tool query g))) = wa_spent (wg_authority g) @ [n])
     \<and> (\<exists>r. snd (call_write w e orq tool query g) = Inr r \<and> wr_consumed r \<and> wr_entries r = 1)"
proof (rule disjCI)
  let ?r = "fresh_response orq tool"
  let ?e = "emit_audit e ''proposal'' [(''original_request'', JStr orq), (''tool'', JStr tool), (''query'', query)]
              \<lparr>wc_gate = g, wc_resp = ?r, wc_open = False, wc_closing = False\<rparr>"
  let ?g = "wc_gate (fst ?e)"
  assume not: "\<not> (tool = WRITE_TOOL \<and> denied_reasons (nfkc_casefold w) orq = []
     \<and> (\<exists>n v. normalize_query WRITE_TOOL query = Inr v \<and> fits (wg_authority g) orq WRITE_TOOL (canonical_text v) n
          \<and> wa_spent (wg_authority (fst (call_write w e orq tool query g))) = wa_spent (wg_authority g) @ [n])
     \<and> (\<exists>r. snd (call_write w e orq tool query g) = Inr r \<and> wr_consumed r \<and> wr_entries r = 1))"
  show "award_states (wg_file (fst (call_write w e orq tool query g))) = award_states (wg_file g)"
    using call_write_cases [of w e orq tool query g]
  proof (rule disjE)
    assume "wg_file (fst (call_write w e orq tool query g)) = wg_file g
      \<and> (case snd (call_write w e orq tool query g) of Inl _ \<Rightarrow> True | Inr r \<Rightarrow> wr_verification r = ''NOT_EXECUTED'')"
    then show ?thesis by simp
  next
    assume "\<exists>st. call_write w e orq tool query g = apsnd Inr (decide_and_act w e orq tool query st ?g)"
    then obtain st where st: "call_write w e orq tool query g = apsnd Inr (decide_and_act w e orq tool query st ?g)" ..
    obtain g' r where d: "decide_and_act w e orq tool query st ?g = (g', r)" by fastforce
    then have c: "decide_and_act w e orq tool query st ?g = (g', r)" "call_write w e orq tool query g = (g', Inr r)"
      using st by simp_all
    show ?thesis
    proof (rule ccontr)
      assume ne: "award_states (wg_file (fst (call_write w e orq tool query g))) \<noteq> award_states (wg_file g)"
      obtain n b where out: "decide_write w (we_obs e) orq tool query st (Some fixture_judge) (wg_authority g) = Inr (Granted n b)"
          "wa_spent (wg_authority g') = wa_spent (wg_authority g) @ [n]" "tool = WRITE_TOOL" "wr_consumed r" "wr_entries r = 1"
        using act_outcome [OF c(1)] ne c(2) by auto
      obtain args sch where g: "write_denials w (wg_authority g) orq tool query st = ([], args, sch)" "fits (wg_authority g) orq tool args n"
        using decide_write_Granted [OF out(1)] by metis
      note den = write_denials_Nil [OF g(1)]
      then show False using not out c(2) g(2) authority_query_tool [OF den(2)] by auto
    qed
  qed
qed


section \<open>What an answer says\<close>

lemma review_inspect_Inr: "review_inspect e w b i f = Inr v \<Longrightarrow> \<exists>d. f = Review d \<and> valid_store w b d \<and> v = intent_of i d"
  by (auto simp: review_inspect_def read_review_def rbind_Inr_iff split: if_splits dest!: validated_Inr)

lemma steps_Inr:
  "ask_store f s = (s', Inr v) \<longleftrightarrow> s' = s \<and> f (wg_store (wc_gate s)) (wg_file (wc_gate s)) = Inr v"
  "require_or c code s = (s', Inr u) \<longleftrightarrow> s' = s \<and> c"
  "set_resp h s = (s', Inr u) \<longleftrightarrow> s' = s\<lparr>wc_resp := h (wc_resp s)\<rparr>"
  by (auto simp: ask_store_def require_or_def set_resp_def split: sum.splits)

lemma emit_Inr: "emit_audit e st vs s = (s', Inr u) \<Longrightarrow> wg_file (wc_gate s') = wg_file (wc_gate s) \<and> wg_store (wc_gate s') = wg_store (wc_gate s) \<and> wc_resp s' = wc_resp s"
  by (metis emit_frame fst_conv)

lemma tell_Inr: "tell_store f s = (s', Inr v) \<Longrightarrow> wg_store (wc_gate s') = wg_store (wc_gate s) \<and> wc_resp s' = wc_resp s"
  by (metis tell_store_frame(2,3) fst_conv)

text \<open>A committed and closed write on record: the intent, its receipt and the state of its award.\<close>

definition write_on_record :: "libs \<Rightarrow> review_store \<Rightarrow> string \<Rightarrow> review_file \<Rightarrow> bool" where
  "write_on_record w b i f \<longleftrightarrow> (\<exists>d row s. f = Review d \<and> validate_store w b d = Inr () \<and> intent_of i d = Some row
     \<and> \<not> in_open row \<and> in_receipt row \<noteq> None \<and> in_started row
     \<and> s \<in> set (rd_states d) \<and> sr_award s = in_award row \<and> sr_status s = ''PENDING_REVIEW'' \<and> sr_version s = 1)"

lemma closed_on_record:
  assumes "valid_store w b d" "intent_of i d = Some row" "\<not> in_open row"
  shows "write_on_record w b i (Review d)"
proof -
  have row: "row \<in> set (rd_intents d)" using intent_of_in [OF assms(2)] by simp
  have ok: "intent_ok w b row" and ref: "references_ok d" and st: "\<And>s. s \<in> set (rd_states d) \<Longrightarrow> state_shows w b d s"
    using assms(1) row by (auto simp: valid_store_def list_all_iff)
  have c: "committed_row row" using intent_ok_pending [OF ok] assms(3) by (auto simp: committed_row_def)
  obtain s where s: "s \<in> set (rd_states d)" "sr_award s = in_award row"
    using ref row unfolding references_ok_iff by (metis image_iff subsetD)
  have "sr_status s = ''PENDING_REVIEW'' \<and> sr_version s = 1"
    using st [OF s(1)] row c s(2) unfolding state_shows_def by metis
  moreover have "in_started row" using ok c by (auto simp: intent_ok_def evidence_ok_def committed_row_def)
  ultimately show ?thesis
    using assms s c unfolding write_on_record_def validate_store_iff committed_row_def by blast
qed

lemma commit_returns:
  assumes "commit_step w e eff op b s = (s', Inr u)"
  shows "write_on_record w (wg_store (wc_gate s')) (we_obs e) (wg_file (wc_gate s'))
    \<and> wr_outcome (wc_resp s') = ''COMMITTED'' \<and> wr_custody (wc_resp s') = ''CLOSED''"
proof -
  obtain s8 receipt s9 shut where
      out: "wr_outcome (wc_resp s8) = ''COMMITTED''"
    and ack: "tell_store (\<lambda>st f. acknowledge_review (we_store e ''acknowledge'') w st (we_obs e) (snd receipt) f) s8 = (s9, Inr ())"
    and ins: "review_inspect (we_store e ''inspect_close'') w (wg_store (wc_gate s9)) (we_obs e) (wg_file (wc_gate s9)) = Inr shut"
    and ok: "close_confirmed w op b receipt shut"
    and fin: "s' = s9\<lparr>wc_resp := (wc_resp s9)\<lparr>wr_custody := ''CLOSED'', wr_result := Some (write_result e receipt)\<rparr>\<rparr>"
    using assms unfolding commit_step_def obind_Inr steps_Inr
    by (elim exE conjE) (hypsubst, force)
  obtain row where row: "shut = Some row" "\<not> in_open row"
    using ok by (auto simp: close_confirmed_def split: option.splits)
  obtain d where d: "wg_file (wc_gate s9) = Review d" "valid_store w (wg_store (wc_gate s9)) d" "shut = intent_of (we_obs e) d"
    using review_inspect_Inr [OF ins] by blast
  have "write_on_record w (wg_store (wc_gate s9)) (we_obs e) (Review d)"
    using closed_on_record [OF d(2)] row d(3) by simp
  then show ?thesis using fin d(1) out tell_Inr [OF ack] by simp
qed


lemma dispatch_returns:
  assumes "dispatch_step w e orq tool h s = (s', Inr u)"
  shows "wr_verification (wc_resp s') = ''VERIFIED''
    \<and> (if tool = WRITE_TOOL then write_on_record w (wg_store (wc_gate s')) (we_obs e) (wg_file (wc_gate s'))
          \<and> wr_outcome (wc_resp s') = ''COMMITTED'' \<and> wr_custody (wc_resp s') = ''CLOSED''
        else tool = READ_TOOL)"
proof -
  let ?b = "issued_binding h (wg_authority (wc_gate s))"
  let ?eff = "the (json_loads (float_of w) (x_arguments_json ?b))"
  obtain op b s6 s7 where
      act: "(if tool = WRITE_TOOL then commit_step w e ?eff op b s6
            else if tool = READ_TOOL then read_step w e ?eff s6
            else raise_code ''WRITE01_DISPATCH_TOOL_MISMATCH'' s6) = (s7, Inr ())"
    and fin: "emit_audit e ''completed'' [(''response'', write_response_json w (wc_gate s7) e
          ((wc_resp s7)\<lparr>wr_verification := ''VERIFIED'', wr_evidence := map_option (contract_digest w) (wr_result (wc_resp s7))\<rparr>))]
        (s7\<lparr>wc_resp := (wc_resp s7)\<lparr>wr_verification := ''VERIFIED'', wr_evidence := map_option (contract_digest w) (wr_result (wc_resp s7))\<rparr>\<rparr>) = (s', Inr u)"
    using assms unfolding dispatch_step_def Let_def obind_Inr steps_Inr
    by (elim exE conjE) (hypsubst, simp)
  note f = emit_Inr [OF fin]
  show ?thesis
  proof (cases "tool = WRITE_TOOL")
    case True
    then show ?thesis using act f commit_returns [of w e ?eff op b s6 s7] by simp
  next
    case False
    then show ?thesis using act f by (simp add: raise_code_def split: if_splits)
  qed
qed

lemma steps_return:
  assumes "write_steps w e orq tool query st s = (s', Inr u)" "wr_verification (wc_resp s) = ''NOT_EXECUTED''"
  shows "(if wr_verification (wc_resp s') = ''VERIFIED''
      then (if tool = WRITE_TOOL then write_on_record w (wg_store (wc_gate s')) (we_obs e) (wg_file (wc_gate s'))
              \<and> wr_outcome (wc_resp s') = ''COMMITTED'' \<and> wr_custody (wc_resp s') = ''CLOSED''
            else tool = READ_TOOL \<and> call_states s' = call_states s)
      else wr_verification (wc_resp s') = ''NOT_EXECUTED'' \<and> wg_file (wc_gate s') = wg_file (wc_gate s))"
proof -
  obtain a x where ev: "evaluate_write w (we_clock e ''evaluate'') (we_obs e) orq tool query st (Some fixture_judge) (wg_authority (wc_gate s)) = (a, x)"
    by fastforce
  let ?s = "s\<lparr>wc_gate := (wc_gate s)\<lparr>wg_authority := a\<rparr>\<rparr>"
  have start: "ask_authority (evaluate_write w (we_clock e ''evaluate'') (we_obs e) orq tool query st (Some fixture_judge)) s
      = (?s, case x of Inl y \<Rightarrow> Inl (exn_text y) | Inr v \<Rightarrow> Inr v)"
    by (simp add: ask_authority_def ev)
  obtain p env where x: "x = Inr (p, env)"
    using assms(1) unfolding write_steps_def start by (cases x) auto
  let ?r = "(wc_resp s)\<lparr>wr_decision := decided p, wr_reasons := reasons p, wr_issued := env \<noteq> None,
         wr_binding := map_option (\<lambda>h. binding_audit_record w (issued_binding h a)) env\<rparr>"
  obtain s1 where s1: "emit_audit e ''policy'' [(''policy'', policy_json p), (''judge'', judge_json w fixture_judge)] (?s\<lparr>wc_resp := ?r\<rparr>) = (s1, Inr ())"
    and last: "(case env of None \<Rightarrow> emit_audit e ''completed'' [(''response'', write_response_json w (wc_gate s1) e (wc_resp s1))] s1
       | Some h \<Rightarrow> dispatch_step w e orq tool h s1) = (s', Inr u)"
    using assms(1) unfolding write_steps_def start x sum.case obind_simps prod.case obind_Inr steps_Inr by auto
  note f1 = emit_Inr [OF s1]
  show ?thesis
  proof (cases env)
    case None
    then have "wg_file (wc_gate s') = wg_file (wc_gate s1) \<and> wc_resp s' = wc_resp s1" using last emit_Inr by simp
    then show ?thesis using f1 assms(2) by simp
  next
    case (Some h)
    then have d: "dispatch_step w e orq tool h s1 = (s', Inr u)" using last by simp
    have "dispatched_ok tool (call_states s1) (call_spent s1) s'"
      using dispatch_outcome [of "call_states s1" "call_spent s1" s1 tool w e orq h] d by (simp add: untouched_def)
    then have "tool \<noteq> WRITE_TOOL \<Longrightarrow> call_states s' = call_states s"
      using f1 by (simp add: dispatched_ok_def untouched_def)
    then show ?thesis using dispatch_returns [OF d] by simp
  qed
qed


text \<open>
  C31. The answer tells what happened. A write answered as verified is on record: the store validates, the
  intent of this call is closed with its receipt, its award is pending at version 1, and the answer says
  committed and closed; a verified read left every award as it was. An answer of unknown outcome leaves
  the owner stopped. Any other answer, and an exception, left the store as it was.
\<close>

theorem answer_tells_what_happened:
  "case snd (call_write w e orq tool query g) of
     Inl c \<Rightarrow> wg_file (fst (call_write w e orq tool query g)) = wg_file g
   | Inr r \<Rightarrow>
       if wr_verification r = ''VERIFIED''
       then (if tool = WRITE_TOOL
             then write_on_record w (wg_store (fst (call_write w e orq tool query g))) (we_obs e) (wg_file (fst (call_write w e orq tool query g)))
               \<and> wr_outcome r = ''COMMITTED'' \<and> wr_custody r = ''CLOSED''
             else tool = READ_TOOL \<and> award_states (wg_file (fst (call_write w e orq tool query g))) = award_states (wg_file g))
       else if wr_verification r = ''UNKNOWN'' then wg_blocked (fst (call_write w e orq tool query g))
       else wr_verification r = ''NOT_EXECUTED'' \<and> wg_file (fst (call_write w e orq tool query g)) = wg_file g"
  using call_write_cases [of w e orq tool query g]
proof (rule disjE)
  assume "wg_file (fst (call_write w e orq tool query g)) = wg_file g
    \<and> (case snd (call_write w e orq tool query g) of Inl _ \<Rightarrow> True | Inr r \<Rightarrow> wr_verification r = ''NOT_EXECUTED'')"
  then show ?thesis by (cases "snd (call_write w e orq tool query g)") auto
next
  let ?g = "wc_gate (fst (emit_audit e ''proposal'' [(''original_request'', JStr orq), (''tool'', JStr tool), (''query'', query)]
              \<lparr>wc_gate = g, wc_resp = fresh_response orq tool, wc_open = False, wc_closing = False\<rparr>))"
  let ?s = "\<lparr>wc_gate = ?g, wc_resp = fresh_response orq tool, wc_open = False, wc_closing = False\<rparr>"
  assume "\<exists>st. call_write w e orq tool query g = apsnd Inr (decide_and_act w e orq tool query st ?g)"
  then obtain st where st: "call_write w e orq tool query g = apsnd Inr (decide_and_act w e orq tool query st ?g)" ..
  obtain s x where s: "write_steps w e orq tool query st ?s = (s, x)" by fastforce
  show ?thesis
  proof (cases x)
    case (Inl code)
    then have "call_write w e orq tool query g = apsnd Inr (stop_call w e code s)"
      unfolding st decide_and_act_def s by simp
    then show ?thesis using stop_call_frame(5,6) [of w e code s] by simp
  next
    case (Inr u)
    then have c: "call_write w e orq tool query g = (wc_gate s, Inr (wc_resp s))"
      unfolding st decide_and_act_def s by simp
    have "wr_verification (wc_resp ?s) = ''NOT_EXECUTED''" by (simp add: fresh_response_def)
    from steps_return [OF s [unfolded Inr] this] show ?thesis unfolding c by (auto split: if_splits)
  qed
qed

text \<open>A stopped owner stays stopped and does nothing.\<close>

lemma stopped_owner_inert: "wg_blocked g \<Longrightarrow> fst (call_write w e orq tool query g) = g"
  by (simp add: call_write_def)

end
