(* ===== verification/Rq6Core.thy ===== *)
theory Rq6Core
  imports StrictJson PyDecimal RequestRisk
begin

text \<open>
  \<open>rq6/core.py\<close>: the stop gates of the research artifacts, their exact JSON and the immutable snapshot of
  one artifact. Bytes are the text they encode, characters below 256. An exception is its code; the
  exceptions of the JSON reader and of a missing key, which are no \<open>RQ6Error\<close>, have a code of their own.
\<close>

section \<open>Stop gates\<close>

type_synonym check = "string + unit"

definition require :: "bool \<Rightarrow> string \<Rightarrow> check" where
  "require c code = (if c then Inr () else Inl code)"

text \<open>One check after the other, up to the first that fails.\<close>

fun all_of :: "check list \<Rightarrow> check" where
  "all_of [] = Inr ()"
| "all_of (c # cs) = (case c of Inl e \<Rightarrow> Inl e | Inr _ \<Rightarrow> all_of cs)"

lemma require_Inr [simp]: "require c code = Inr u \<longleftrightarrow> c"
  by (simp add: require_def)

lemma all_of_Inr [simp]: "all_of cs = Inr u \<longleftrightarrow> (\<forall>c \<in> set cs. c = Inr ())"
  by (induction cs) (auto split: sum.splits)

lemma check_Inr: "(c :: check) = Inr u \<longleftrightarrow> c = Inr ()"
  by (cases u) simp

text \<open>\<open>value[key]\<close>, and \<open>value.get(key)\<close>.\<close>

definition item :: "string \<Rightarrow> json \<Rightarrow> string + json" where
  "item k v = (case jget k v of None \<Rightarrow> Inl ''KeyError'' | Some x \<Rightarrow> Inr x)"

abbreviation got :: "json \<Rightarrow> string \<Rightarrow> json" where
  "got v k \<equiv> jget_or JNull k v"

lemma item_got: "item k v = Inr x \<Longrightarrow> got v k = x"
  by (auto simp: item_def jget_or_def split: option.splits)

section \<open>Exact JSON\<close>

text \<open>A JSON number that is no integer keeps its literal; its value is that of the decimal.\<close>

definition ExactNumber :: "string \<Rightarrow> json" where
  "ExactNumber t = (case Decimal t of Some (Fin s c e) \<Rightarrow> JNum (dec_value (Fin s c e)) t | _ \<Rightarrow> JNonFinite)"

definition exact_json :: "json \<Rightarrow> string option" where
  "exact_json v = (if finite_json v then Some (enc False (jsort v)) else None)"

definition decoded_token :: "string \<Rightarrow> (json \<times> string) option" where
  "decoded_token s = (case p_token ExactNumber s of
       Some (v, r) \<Rightarrow> if v = JNonFinite then None else Some (v, r)
     | None \<Rightarrow> None)"

definition decode_exact :: "string \<Rightarrow> json option" where
  "decode_exact raw = strict_loads decoded_token raw"

lemma p_const_scalar: "p_const s = Some (v, r) \<Longrightarrow> v \<noteq> JNonFinite \<Longrightarrow> strict_value v"
  by (auto simp: strict_value_def p_const_def constants_def split: if_splits)

lemma p_num_scalar: "p_num flt s = Some (v, r) \<Longrightarrow> (\<exists>i. v = JInt i) \<or> (\<exists>t. v = flt t)"
  by (auto simp: p_num_def Let_def split: option.splits prod.splits if_splits)

lemma ExactNumber_scalar: "ExactNumber t = JNonFinite \<or> strict_value (ExactNumber t)"
  by (simp add: ExactNumber_def strict_value_def split: option.split pydec.split)

lemma exact_token_strict: "p_token ExactNumber s = Some (v, r) \<Longrightarrow> v \<noteq> JNonFinite \<Longrightarrow> strict_value v"
  using p_const_scalar [of s v r] p_num_scalar [of ExactNumber s v r] ExactNumber_scalar
  by (auto simp: p_token_def strict_value_def split: option.splits)

interpretation decoded: number_tokens decoded_token ExactNumber
  by unfold_locales (auto simp: decoded_token_def exact_token_strict split: option.splits if_splits)

section \<open>Snapshots\<close>

record artifact_snapshot =
  snap_kind :: string
  snap_bytes :: string
  snap_sha :: string

definition build_snapshot :: "libs \<Rightarrow> string \<Rightarrow> json \<Rightarrow> artifact_snapshot option" where
  "build_snapshot w what v = map_option (\<lambda>t. \<lparr>snap_kind = what, snap_bytes = t, snap_sha = sha256 w t\<rparr>) (exact_json v)"

definition snapshot_data :: "libs \<Rightarrow> artifact_snapshot \<Rightarrow> string + json" where
  "snapshot_data w s =
     (if sha256 w (snap_bytes s) \<noteq> snap_sha s then Inl ''ARTIFACT_HASH_MISMATCH''
      else case decode_exact (snap_bytes s) of
          None \<Rightarrow> Inl ''JSONDecodeError''
        | Some v \<Rightarrow> if is_obj v then Inr v else Inl ''ARTIFACT_NOT_OBJECT'')"

lemma snapshot_data_Inr: "snapshot_data w s = Inr v \<Longrightarrow>
    sha256 w (snap_bytes s) = snap_sha s \<and> decode_exact (snap_bytes s) = Some v \<and> is_obj v \<and> strict_value v"
  using decoded.loads_refines [of "snap_bytes s" v]
  by (auto simp: snapshot_data_def decode_exact_def split: if_splits option.splits)

text \<open>
  A snapshot gives back what it was built from, every number with its literal and every key once; the order
  of the keys is the sorted one.
\<close>

theorem snapshot_gives_back:
  assumes "readable ExactNumber (JObj ms)" "keys_distinct (JObj ms)"
  shows "map_option (snapshot_data w) (build_snapshot w what (JObj ms)) = Some (Inr (jsort (JObj ms)))"
  using decoded.strict_loads_enc [OF assms, of False] readable_finite [OF assms(1)]
  by (simp add: build_snapshot_def exact_json_def snapshot_data_def decode_exact_def)

end
