(* ===== verification/Rq6Schemas.thy ===== *)
theory Rq6Schemas
  imports Rq6Core Gateway
begin

text \<open>
  \<open>rq6/schemas.py\<close>: the validation of one research artifact. Every check is a stop gate over the decoded object;
  the gates stand in the order of the code, so the code a failure reports is the one of the first gate that
  fails. Text is characters below 256, which have an encoding.
\<close>

section \<open>The declared contract\<close>

definition PROTOCOL_ID :: string where "PROTOCOL_ID = ''CIVICGATE-JUDGE-COMPARISON-V1''"
definition AMENDMENT_ID :: string where "AMENDMENT_ID = ''CIVICGATE-RQ6-AMENDMENT-001''"
definition RQ6_CLASSIFICATIONS :: "string list" where
  "RQ6_CLASSIFICATIONS = map classification_text
     [IN_SCOPE, AMBIGUOUS, OUT_OF_SCOPE, CONSEQUENTIAL_INTERPRETATION, POSSIBLE_AUTHORITY_OVERREACH, INSUFFICIENT_INFORMATION]"
definition RQ6_FLAGS :: "string list" where
  "RQ6_FLAGS = map signal_text [NONE, AUTHORITY_OVERREACH, OUT_OF_SCOPE_DATA, REPEATED_DENIAL, TOOL_SCOPE_VIOLATION,
     PROVENANCE_RISK, AMBIGUOUS_TARGET, CONTAINMENT_RECOMMENDED]"
definition SEMANTIC_DISPOSITIONS :: "string list" where
  "SEMANTIC_DISPOSITIONS = [''ALIGNED'', ''DEFENSIBLE_ALTERNATIVE'', ''UNDERCALL'', ''OVERCALL'']"
definition STABILITY_DISPOSITIONS :: "string list" where
  "STABILITY_DISPOSITIONS = [''STABLE'', ''STABLE_WITH_RATIONALE_VARIATION'', ''STRUCTURED_SIGNAL_VARIABLE'',
     ''CLASSIFICATION_VARIABLE'', ''MULTI_AXIS_VARIABLE'', ''INSUFFICIENT_REPEAT_EVIDENCE'']"
definition PROPOSITIONS :: "string list" where
  "PROPOSITIONS = [''TARGET_AMBIGUITY'', ''REQUEST_PROPOSAL_SCOPE_MISMATCH'', ''TOOL_SCOPE_BOUNDARY'', ''AUTHORITY_BOUNDARY'',
     ''OUT_OF_SCOPE_DATA'', ''PROVENANCE_RISK'', ''CONSEQUENTIAL_ACTION'', ''DETERMINISTIC_CONSTRAINT'']"

definition SCHEMA_VERSIONS :: "(string \<times> string) list" where
  "SCHEMA_VERSIONS = [(''reviewer_card'', ''judge-repeat-reviewer-card-amendment-001-v1''),
     (''human_receipt'', ''judge-repeat-human-adjudication-amendment-001-v1''),
     (''unit_release_receipt'', ''judge-repeat-unit-release-amendment-001-v1''),
     (''unit_closure'', ''judge-repeat-unit-closure-amendment-001-v1''),
     (''bundle_closure'', ''judge-repeat-bundle-closure-amendment-001-v1''),
     (''bundle_unblind_receipt'', ''judge-repeat-bundle-unblind-amendment-001-v1''),
     (''bundle_event_ledger'', ''judge-repeat-bundle-event-amendment-001-v1''),
     (''rationale_variation_assessment_artifact'', ''judge-repeat-rationale-assessment-input-amendment-001-v1''),
     (''rationale_variation_assessment_receipt'', ''judge-repeat-rationale-assessment-amendment-001-v1''),
     (''reviewer_access_provenance'', ''judge-repeat-review-access-amendment-001-v1'')]"

definition HEADER_FIELDS :: "string list" where
  "HEADER_FIELDS = [''schema_version'', ''protocol_id'', ''amendment_id'', ''package_id'', ''bundle_review_id'']"

definition RQ6_FIELDS :: "(string \<times> string list) list" where
  "RQ6_FIELDS = [
     (''reviewer_card'', HEADER_FIELDS @ [
       ''reviewer_unit_id'', ''observation_sequence_within_bundle'', ''blind_alias'', ''user_request'',
       ''proposed_tool'', ''proposed_arguments'', ''frozen_neutral_reference'', ''stored_output'',
       ''mapping_commitment_sha256'', ''source_link_commitment_sha256'']),
     (''empty_human_form'', [
       ''primary_disposition'', ''rationale_propositions'', ''reviewer_reason'']),
     (''human_receipt'', HEADER_FIELDS @ [
       ''reviewer_unit_id'', ''blind_alias'', ''reviewer_card_sha256'', ''release_receipt_sha256'',
       ''mapping_commitment_sha256'', ''source_link_commitment_sha256'', ''reviewer_access_provenance_sha256'',
       ''reviewer'', ''primary_disposition'', ''rationale_propositions'', ''reviewer_reason'',
       ''adjudication_timestamp'', ''adjudication_status'', ''operationally_mapping_blind_at_coding'',
       ''mechanical_stability_seen'', ''immutability'']),
     (''unit_release_receipt'', HEADER_FIELDS @ [
       ''reviewer_unit_id'', ''reviewer_card_sha256'', ''human_form_sha256'', ''mapping_commitment_sha256'',
       ''source_link_commitment_sha256'', ''reviewer_access_provenance_sha256'', ''previous_unit_closure_sha256'',
       ''release_timestamp'', ''validation_results'']),
     (''unit_closure'', HEADER_FIELDS @ [
       ''reviewer_unit_id'', ''reviewer_card_sha256'', ''release_receipt_sha256'', ''human_receipt_sha256'',
       ''mapping_commitment_sha256'', ''source_link_commitment_sha256'', ''closure_timestamp'',
       ''validation_results'', ''semantic_coding_frozen'', ''unblinded'', ''state'']),
     (''bundle_closure'', HEADER_FIELDS @ [
       ''frozen_manifest_position'', ''applicable_primary_case_id'', ''source_artifact_hashes'',
       ''reviewer_unit_ids'', ''reviewer_artifact_hashes'', ''alias_commitment_sha256'', ''human_receipt_hashes'',
       ''unit_closure_hashes'', ''unblind_receipt_sha256'', ''revealed_source_mapping'', ''primary_anchor_hashes'',
       ''stored_classifications'', ''stored_structured_flag_lists'', ''stored_confidences'',
       ''normalized_flag_sets'', ''per_model_primary_repeat_comparison'',
       ''confidence_descriptive_values_and_range'', ''frozen_rationale_variation_record'', ''review_status'',
       ''stability_disposition'', ''timestamps'', ''validation_results'', ''provenance_hashes'', ''state'',
       ''rationale_variation_assessment_receipt_sha256'', ''reviewer_access_policy_sha256'',
       ''authorized_identity_audience'', ''expected_evidence'', ''available_evidence'', ''missing_evidence'',
       ''unusable_evidence'', ''evidence_limitation_reasons'', ''relevant_hashes_or_validation_failures'',
       ''stability_not_established_reason'']),
     (''bundle_unblind_receipt'', HEADER_FIELDS @ [
       ''alias_commitment_sha256'', ''required_human_receipt_hashes'', ''required_unit_closure_hashes'',
       ''human_authorization_receipt_sha256'', ''reviewer_access_policy_sha256'', ''authorized_recipients'',
       ''revealed_current_bundle_mapping'', ''current_bundle_commitment_openings'',
       ''current_bundle_source_link_openings'', ''unblind_timestamp'', ''validation_results'', ''scope'']),
     (''bundle_event_ledger'', HEADER_FIELDS @ [
       ''event_sequence'', ''event_type'', ''artifact_sha256'', ''previous_event_sha256'',
       ''audience_policy_sha256'', ''timestamp'']),
     (''rationale_variation_assessment_artifact'', HEADER_FIELDS @ [
       ''unblind_receipt_sha256'', ''primary_anchor_receipt_sha256'', ''completed_unit_receipt_hashes'',
       ''primary_stored_rationale'', ''repeat_rationales'', ''frozen_primary_semantic_coding'',
       ''frozen_repeat_semantic_coding'']),
     (''rationale_variation_assessment_receipt'', HEADER_FIELDS @ [
       ''rationale_artifact_sha256'', ''unblind_receipt_sha256'', ''primary_anchor_receipt_sha256'',
       ''completed_unit_receipt_hashes'', ''reviewer'', ''frozen_proposition_sets'',
       ''proposition_set_difference_candidate'', ''rationale_variation'', ''material_rationale_variation_confirmed'',
       ''material_boundary_changed'', ''human_variation_note'', ''reviewer_reason'', ''assessment_timestamp'',
       ''source_identity_seen_at_assessment'', ''independent_unit_coding_reopened'', ''immutability'']),
     (''reviewer_access_provenance'', HEADER_FIELDS @ [
       ''reviewer'', ''access_contract'', ''approved_access_policy_sha256'', ''access_mode'',
       ''reviewer_attestation'', ''enforcement_evidence_hashes'', ''effective_timestamp'',
       ''valid_through_bundle_semantic_freeze'', ''immutability''])
]"

definition VALIDATION_IDS :: "string list" where
  "VALIDATION_IDS = map (\<lambda>n. ''RQ6-V'' @ (if n < 10 then ''0'' else []) @ dec_nat n) [1..<13]"
definition VALIDATION_STATUSES :: "string list" where
  "VALIDATION_STATUSES = [''PASS'', ''FAIL'', ''NOT_TESTABLE'', ''UNVERIFIED'']"
definition EVENT_TYPES :: "string list" where
  "EVENT_TYPES = [''ALIAS_COMMITMENT_FIXED'', ''UNIT_RELEASED'', ''HUMAN_RECEIPT_FIXED'', ''UNIT_CLOSURE_VERIFIED'',
     ''BUNDLE_MAPPING_REVEALED'', ''MECHANICAL_COMPARISON_RECORDED'', ''RATIONALE_ASSESSMENT_FIXED'',
     ''BUNDLE_CHARACTERIZATION_FIXED'', ''BUNDLE_CLOSURE_VERIFIED'', ''EVIDENCE_LIMITATION_RECORDED'']"
definition DEFERRED :: string where "DEFERRED = ''RQ6_REVIEW_DEFERRED_PENDING_HUMAN_RESOLUTION''"
definition INSUFFICIENT :: string where "INSUFFICIENT = ''INSUFFICIENT_REPEAT_EVIDENCE''"

section \<open>Checks of single values\<close>

fun str_of :: "json \<Rightarrow> string" where "str_of (JStr s) = s" | "str_of _ = []"
fun elems_of :: "json \<Rightarrow> json list" where "elems_of (JList vs) = vs" | "elems_of _ = []"
fun members_of :: "json \<Rightarrow> (string \<times> json) list" where "members_of (JObj ms) = ms" | "members_of _ = []"
fun int_of_json :: "json \<Rightarrow> int" where "int_of_json (JInt i) = i" | "int_of_json _ = 0"

definition one_of :: "string list \<Rightarrow> json \<Rightarrow> bool" where
  "one_of ss v \<longleftrightarrow> is_str v \<and> str_of v \<in> set ss"

definition object_check :: "json \<Rightarrow> check" where
  "object_check v = require (is_obj v) ''ARTIFACT_OBJECT_REQUIRED''"

definition fields_check :: "string list \<Rightarrow> json \<Rightarrow> check" where
  "fields_check fs v = all_of [object_check v, require (same_keys v fs) ''ARTIFACT_FIELDS_MISMATCH'']"

definition text_check :: "bool \<Rightarrow> json \<Rightarrow> check" where
  "text_check ne v = all_of [require (is_str v) ''TEXT_REQUIRED'',
     require (\<not> ne \<or> strip_space (str_of v) \<noteq> []) ''EMPTY_TEXT'']"

definition is_hash :: "json \<Rightarrow> bool" where
  "is_hash v \<longleftrightarrow> is_str v \<and> is_hex 64 (str_of v)"

definition hash_check6 :: "json \<Rightarrow> check" where
  "hash_check6 v = require (is_hash v) ''HASH_FORMAT''"

definition positive_check :: "json \<Rightarrow> check" where
  "positive_check v = require (is_int v \<and> 0 < int_of_json v) ''POSITIVE_INTEGER_REQUIRED''"

definition boolean_check :: "bool option \<Rightarrow> json \<Rightarrow> check" where
  "boolean_check expected v = all_of [require (is_bool v) ''BOOLEAN_REQUIRED'',
     require (expected = None \<or> v = JBool (the expected)) ''BOOLEAN_COHERENCE'']"

text \<open>
  \<open>datetime.fromisoformat\<close> on the shapes the expression admits: the date exists and the time is before
  midnight; the offset is zero. Below 256 \<open>\d\<close> is an ASCII digit.
\<close>

definition digits_at :: "nat \<Rightarrow> nat \<Rightarrow> string \<Rightarrow> bool" where
  "digits_at i n s \<longleftrightarrow> length (take n (drop i s)) = n \<and> list_all ascii_digit (take n (drop i s))"

definition number_at :: "nat \<Rightarrow> nat \<Rightarrow> string \<Rightarrow> nat" where
  "number_at i n s = undec (take n (drop i s))"

definition zulu :: "string \<Rightarrow> bool" where
  "zulu r \<longleftrightarrow> r = ''Z'' \<or> r = ''+00:00''"

definition timestamp_shape :: "string \<Rightarrow> bool" where
  "timestamp_shape s \<longleftrightarrow> digits_at 0 4 s \<and> take 1 (drop 4 s) = ''-'' \<and> digits_at 5 2 s \<and> take 1 (drop 7 s) = ''-''
     \<and> digits_at 8 2 s \<and> take 1 (drop 10 s) = ''T'' \<and> digits_at 11 2 s \<and> take 1 (drop 13 s) = '':'' \<and> digits_at 14 2 s
     \<and> take 1 (drop 16 s) = '':'' \<and> digits_at 17 2 s
     \<and> (zulu (drop 19 s) \<or> take 1 (drop 19 s) = ''.'' \<and> digits_at 20 1 s \<and> zulu (dropWhile ascii_digit (drop 20 s)))"

definition month_days :: "nat \<Rightarrow> nat \<Rightarrow> nat" where
  "month_days y m = (if m = 2 then (if 4 dvd y \<and> (\<not> 100 dvd y \<or> 400 dvd y) then 29 else 28)
     else if m \<in> {4, 6, 9, 11} then 30 else 31)"

definition calendar_time :: "string \<Rightarrow> bool" where
  "calendar_time s \<longleftrightarrow> 1 \<le> number_at 0 4 s \<and> 1 \<le> number_at 5 2 s \<and> number_at 5 2 s \<le> 12
     \<and> 1 \<le> number_at 8 2 s \<and> number_at 8 2 s \<le> month_days (number_at 0 4 s) (number_at 5 2 s)
     \<and> number_at 11 2 s < 24 \<and> number_at 14 2 s < 60 \<and> number_at 17 2 s < 60"

definition timestamp_check :: "json \<Rightarrow> check" where
  "timestamp_check v = require (is_str v \<and> timestamp_shape (str_of v) \<and> calendar_time (str_of v)) ''TIMESTAMP_FORMAT''"

fun confidence_check :: "json \<Rightarrow> check" where
  "confidence_check (JInt i) = require (0 \<le> i \<and> i \<le> 1) ''CONFIDENCE_RANGE''"
| "confidence_check (JNum r t) = require (0 \<le> r \<and> r \<le> 1) ''CONFIDENCE_RANGE''"
| "confidence_check JNonFinite = Inl ''CONFIDENCE_NONFINITE''"
| "confidence_check _ = Inl ''CONFIDENCE_TYPE''"

definition json_check :: "json \<Rightarrow> check" where
  "json_check v = require (finite_json v) ''NONFINITE_NUMBER''"

definition array_check :: "bool \<Rightarrow> json \<Rightarrow> check" where
  "array_check ne v = all_of [require (is_list v) ''ARRAY_REQUIRED'', require (\<not> ne \<or> elems_of v \<noteq> []) ''EMPTY_ARRAY'']"

definition hashes_check :: "bool \<Rightarrow> json \<Rightarrow> check" where
  "hashes_check ne v = all_of ([array_check ne v] @ map hash_check6 (elems_of v)
     @ [require (distinct (elems_of v)) ''DUPLICATE_HASH_LINK''])"

definition flags_check :: "bool \<Rightarrow> json \<Rightarrow> check" where
  "flags_check normalized v = all_of [array_check False v, require (list_all (one_of RQ6_FLAGS) (elems_of v)) ''FLAG_ENUM'',
     (if normalized
      then require (map str_of (elems_of v) = sort (remdups (map str_of (elems_of v))) \<and> JStr ''NONE'' \<notin> set (elems_of v)) ''NORMALIZED_FLAG_SET''
      else require (length (elems_of v) \<le> 8) ''FLAG_ARRAY_LENGTH'')]"

definition propositions_check :: "json \<Rightarrow> check" where
  "propositions_check v = all_of [array_check False v, require (list_all (one_of PROPOSITIONS) (elems_of v)) ''PROPOSITION_ENUM'',
     require (distinct (elems_of v)) ''DUPLICATE_PROPOSITION'']"

definition output_check :: "json \<Rightarrow> check" where
  "output_check v = all_of [fields_check [''classification'', ''confidence'', ''flags'', ''rationale''] v,
     require (one_of RQ6_CLASSIFICATIONS (got v ''classification'')) ''CLASSIFICATION_ENUM'', confidence_check (got v ''confidence''),
     flags_check False (got v ''flags''), text_check False (got v ''rationale''),
     require (length (str_of (got v ''rationale'')) \<le> 500) ''RATIONALE_LENGTH'']"

definition immutability_check :: "json \<Rightarrow> check" where
  "immutability_check v = (if is_bool v then require (v = JBool True) ''IMMUTABILITY_REQUIRED'' else text_check True v)"

definition results_check :: "bool \<Rightarrow> json \<Rightarrow> check" where
  "results_check pass v = all_of [object_check v, require (members_of v \<noteq> []) ''VALIDATION_RESULTS_REQUIRED'',
     require (list_all (\<lambda>k. k \<in> set VALIDATION_IDS) (jkeys v)) ''VALIDATOR_ID'',
     require (list_all (one_of VALIDATION_STATUSES) (map snd (members_of v))) ''VALIDATION_STATUS'',
     require (\<not> pass \<or> list_all (\<lambda>x. x = JStr ''PASS'') (map snd (members_of v))) ''VALIDATION_NOT_PASS'']"

definition recipient_check :: "json \<Rightarrow> check" where
  "recipient_check v = (if is_str v then text_check True v
     else all_of [object_check v, require (members_of v \<noteq> []) ''EMPTY_RECIPIENT'', json_check v])"

definition recipients_check :: "json \<Rightarrow> check" where
  "recipients_check v = all_of ([array_check True v] @ map recipient_check (elems_of v))"

section \<open>The common fields\<close>

text \<open>\<open>_FAILURE_ID\<close>: the identifier of a custody failure; its digest and its position.\<close>

definition failure_prefix :: string where "failure_prefix = ''RQ6_CUSTODY_FAILURE:''"

definition failure_position :: "string \<Rightarrow> string" where
  "failure_position s = drop (length failure_prefix + 65) s"

definition failure_id :: "string \<Rightarrow> bool" where
  "failure_id s \<longleftrightarrow> take (length failure_prefix) s = failure_prefix \<and> is_hex 64 (take 64 (drop (length failure_prefix) s))
     \<and> take 1 (drop (length failure_prefix + 64) s) = '':'' \<and> failure_position s \<noteq> []
     \<and> list_all ascii_digit (failure_position s) \<and> hd (failure_position s) \<noteq> CHR ''0''"

definition ends_with :: "string \<Rightarrow> string \<Rightarrow> bool" where
  "ends_with t s \<longleftrightarrow> length t \<le> length s \<and> drop (length s - length t) s = t"

definition nullable_hash :: "string \<Rightarrow> json \<Rightarrow> string \<Rightarrow> bool" where
  "nullable_hash what v field \<longleftrightarrow>
     what = ''unit_release_receipt'' \<and> field = ''previous_unit_closure_sha256''
     \<or> what = ''bundle_event_ledger'' \<and> field = ''previous_event_sha256''
     \<or> what = ''bundle_closure'' \<and> got v ''stability_disposition'' = JStr INSUFFICIENT
       \<and> field \<in> {''alias_commitment_sha256'', ''unblind_receipt_sha256'', ''rationale_variation_assessment_receipt_sha256''}"

definition header_check :: "string \<Rightarrow> json \<Rightarrow> check" where
  "header_check what v = (case map_of SCHEMA_VERSIONS what of None \<Rightarrow> Inr ()
     | Some version \<Rightarrow> all_of [require (got v ''schema_version'' = JStr version) ''SCHEMA_VERSION'',
         require (got v ''protocol_id'' = JStr PROTOCOL_ID) ''PROTOCOL_ID'', require (got v ''amendment_id'' = JStr AMENDMENT_ID) ''AMENDMENT_ID'',
         text_check True (got v ''package_id''),
         (if is_str (got v ''bundle_review_id'') \<and> failure_id (str_of (got v ''bundle_review_id''))
          then require (what = ''bundle_closure'' \<or> what = ''bundle_event_ledger'') ''FAILURE_ID_VISIBILITY''
          else hash_check6 (got v ''bundle_review_id''))])"

definition field_check :: "string \<Rightarrow> json \<Rightarrow> string \<times> json \<Rightarrow> check" where
  "field_check what v m = (case m of (field, x) \<Rightarrow>
     if ends_with ''_sha256'' field then (if x = JNull then require (nullable_hash what v field) ''REQUIRED_HASH_MISSING'' else hash_check6 x)
     else if ends_with ''_timestamp'' field \<or> field = ''timestamp'' then timestamp_check x
     else Inr ())"

definition if_present :: "string \<Rightarrow> (json \<Rightarrow> check) \<Rightarrow> json \<Rightarrow> check" where
  "if_present k f v = (case jget k v of None \<Rightarrow> Inr () | Some x \<Rightarrow> f x)"

definition common_check :: "string \<Rightarrow> json \<Rightarrow> check" where
  "common_check what v = all_of ([header_check what v] @ map (field_check what v) (members_of v)
     @ [if_present ''reviewer_unit_id'' hash_check6 v,
        if_present ''blind_alias'' (\<lambda>x. require (x = JStr ''SIDE_1'') ''BLIND_ALIAS'') v,
        if_present ''reviewer'' (text_check True) v, if_present ''immutability'' immutability_check v])"

section \<open>The kinds\<close>

definition form_check :: "json \<Rightarrow> check" where
  "form_check v = require (got v ''primary_disposition'' \<in> {JNull, JStr []} \<and> got v ''reviewer_reason'' \<in> {JNull, JStr []}
     \<and> got v ''rationale_propositions'' \<in> {JNull, JList []}) ''HUMAN_FORM_NOT_EMPTY''"

definition card_check :: "json \<Rightarrow> check" where
  "card_check v = all_of [positive_check (got v ''observation_sequence_within_bundle''),
     require (int_of_json (got v ''observation_sequence_within_bundle'') \<le> 3) ''OBSERVATION_SCHEDULE'',
     text_check True (got v ''user_request''), text_check True (got v ''proposed_tool''),
     object_check (got v ''proposed_arguments''), json_check (got v ''proposed_arguments''),
     fields_check [''classification'', ''flags''] (got v ''frozen_neutral_reference''),
     require (one_of RQ6_CLASSIFICATIONS (got (got v ''frozen_neutral_reference'') ''classification'')) ''CLASSIFICATION_ENUM'',
     flags_check False (got (got v ''frozen_neutral_reference'') ''flags''), output_check (got v ''stored_output'')]"

definition human_receipt_check :: "json \<Rightarrow> check" where
  "human_receipt_check v = all_of [require (one_of SEMANTIC_DISPOSITIONS (got v ''primary_disposition'')) ''SEMANTIC_DISPOSITION'',
     propositions_check (got v ''rationale_propositions''), text_check True (got v ''reviewer_reason''),
     text_check True (got v ''adjudication_status''), boolean_check (Some True) (got v ''operationally_mapping_blind_at_coding''),
     boolean_check (Some False) (got v ''mechanical_stability_seen'')]"

definition release_check :: "json \<Rightarrow> check" where
  "release_check v = all_of [(if got v ''previous_unit_closure_sha256'' = JNull then Inr ()
       else hash_check6 (got v ''previous_unit_closure_sha256'')), results_check True (got v ''validation_results'')]"

definition unit_closure_check :: "json \<Rightarrow> check" where
  "unit_closure_check v = all_of [require (got v ''state'' = JStr ''SEMANTICALLY_CLOSED_BLINDED'') ''UNIT_CLOSURE_STATE'',
     boolean_check (Some True) (got v ''semantic_coding_frozen''), boolean_check (Some False) (got v ''unblinded''),
     results_check True (got v ''validation_results'')]"

definition event_check :: "json \<Rightarrow> check" where
  "event_check v = all_of [positive_check (got v ''event_sequence''), require (one_of EVENT_TYPES (got v ''event_type'')) ''EVENT_TYPE'',
     require ((got v ''previous_event_sha256'' = JNull) = (got v ''event_sequence'' = JInt 1)) ''LEDGER_GENESIS'',
     (if got v ''previous_event_sha256'' = JNull then Inr () else hash_check6 (got v ''previous_event_sha256'')),
     require (\<not> failure_id (str_of (got v ''bundle_review_id''))
       \<or> one_of [''EVIDENCE_LIMITATION_RECORDED'', ''BUNDLE_CLOSURE_VERIFIED''] (got v ''event_type'')) ''FAILURE_LEDGER_EVENT'']"

definition access_check :: "json \<Rightarrow> check" where
  "access_check v = (let mode = got v ''access_mode'' in
     all_of ([require (got v ''access_contract'' = JStr ''OPERATIONALLY_MAPPING_BLIND'') ''ACCESS_CONTRACT'',
     boolean_check (Some True) (got v ''valid_through_bundle_semantic_freeze''),
     require (one_of [''REVIEWER_ATTESTATION'', ''ENFORCED_REVIEWER_RELEASE_ONLY''] mode) ''ACCESS_MODE'',
     hashes_check (mode = JStr ''ENFORCED_REVIEWER_RELEASE_ONLY'') (got v ''enforcement_evidence_hashes'')]
     @ (if mode = JStr ''REVIEWER_ATTESTATION''
        then [text_check True (got v ''reviewer_attestation''), require (elems_of (got v ''enforcement_evidence_hashes'') = []) ''INVENTED_ENFORCEMENT'']
        else if got v ''reviewer_attestation'' = JNull then [] else [text_check True (got v ''reviewer_attestation'')])))"

definition unblind_check :: "json \<Rightarrow> check" where
  "unblind_check v = all_of (concat (map (\<lambda>f. [hashes_check True (got v f), require (length (elems_of (got v f)) = 3) ''UNBLIND_UNIT_COVERAGE''])
        [''required_human_receipt_hashes'', ''required_unit_closure_hashes''])
     @ [recipients_check (got v ''authorized_recipients'')]
     @ concat (map (\<lambda>f. [object_check (got v f), require (members_of (got v f) \<noteq> []) ''UNBLIND_OPENING_REQUIRED''])
        [''revealed_current_bundle_mapping'', ''current_bundle_commitment_openings''])
     @ [require ((is_obj (got v ''current_bundle_source_link_openings'') \<or> is_list (got v ''current_bundle_source_link_openings''))
          \<and> truthy (got v ''current_bundle_source_link_openings'')) ''SOURCE_LINK_OPENINGS_REQUIRED'',
        text_check True (got v ''scope''), results_check True (got v ''validation_results'')])"

definition frozen_coding_check :: "json \<Rightarrow> check" where
  "frozen_coding_check v = all_of [object_check v, require (members_of v \<noteq> []) ''FROZEN_CODING_REQUIRED'', json_check v,
     if_present ''primary_disposition'' (\<lambda>x. require (one_of SEMANTIC_DISPOSITIONS x) ''SEMANTIC_DISPOSITION'') v,
     if_present ''rationale_propositions'' propositions_check v, if_present ''reviewer_reason'' (text_check True) v]"

definition assessment_input_check :: "json \<Rightarrow> check" where
  "assessment_input_check v = all_of ([hashes_check True (got v ''completed_unit_receipt_hashes''),
     text_check False (got v ''primary_stored_rationale''), array_check True (got v ''repeat_rationales'')]
     @ map (text_check False) (elems_of (got v ''repeat_rationales''))
     @ [frozen_coding_check (got v ''frozen_primary_semantic_coding''), array_check True (got v ''frozen_repeat_semantic_coding'')]
     @ map frozen_coding_check (elems_of (got v ''frozen_repeat_semantic_coding'')))"

text \<open>The sets a receipt compares, in a list or keyed by source; equal sets have the same sorted list.\<close>

definition groups_of :: "json \<Rightarrow> json list" where
  "groups_of v = (if is_obj v then map snd (members_of v) else elems_of v)"

definition proposition_sets_check :: "json \<Rightarrow> check" where
  "proposition_sets_check v = all_of ([if is_obj v then Inr () else array_check False v] @ map propositions_check (groups_of v)
     @ [require (2 \<le> length (groups_of v)) ''PROPOSITION_SET_COVERAGE''])"

definition set_variety :: "json \<Rightarrow> nat" where
  "set_variety v = length (remdups (map (\<lambda>g. sort (remdups (map str_of (elems_of g)))) (groups_of v)))"

definition VARIATIONS :: "(string \<times> json \<times> json) list" where
  "VARIATIONS = [(''NONE'', JBool False, JBool False), (''MATERIAL_VARIATION_WITHOUT_BOUNDARY_CHANGE'', JBool True, JBool False),
     (''MATERIAL_BOUNDARY_CHANGE'', JBool True, JBool True), (''UNRESOLVED'', JNull, JNull)]"

definition assessment_check :: "json \<Rightarrow> check" where
  "assessment_check v = (let sets = got v ''frozen_proposition_sets''; variation = got v ''rationale_variation''; note = got v ''human_variation_note'' in
     all_of [hashes_check True (got v ''completed_unit_receipt_hashes''), proposition_sets_check sets,
     boolean_check None (got v ''proposition_set_difference_candidate''),
     require (got v ''proposition_set_difference_candidate'' = JBool (1 < set_variety sets)) ''PROPOSITION_DIFFERENCE_COHERENCE'',
     require (one_of (map fst VARIATIONS) variation) ''RATIONALE_VARIATION_ENUM'',
     require (map_of VARIATIONS (str_of variation) = Some (got v ''material_rationale_variation_confirmed'', got v ''material_boundary_changed'')) ''RATIONALE_COHERENCE'',
     boolean_check (Some True) (got v ''source_identity_seen_at_assessment''),
     boolean_check (Some False) (got v ''independent_unit_coding_reopened''), text_check True (got v ''reviewer_reason''),
     (if note = JNull then Inr () else text_check False note),
     (if variation = JStr ''MATERIAL_BOUNDARY_CHANGE'' \<and> set_variety sets = 1 then text_check True note else Inr ())])"

section \<open>The closure of a bundle\<close>

definition evidence_item_check :: "json \<Rightarrow> check" where
  "evidence_item_check v = all_of [require (is_str v \<or> is_obj v) ''EVIDENCE_RECORD_TYPE'',
     (if is_str v then text_check True v else all_of [require (members_of v \<noteq> []) ''EMPTY_EVIDENCE_RECORD'', json_check v])]"

definition evidence_check :: "bool \<Rightarrow> json \<Rightarrow> check" where
  "evidence_check ne v = all_of ([array_check ne v] @ map evidence_item_check (elems_of v))"

definition each_check :: "bool \<Rightarrow> (json \<Rightarrow> check) \<Rightarrow> json \<Rightarrow> check" where
  "each_check ne f v = all_of ([array_check ne v] @ map f (elems_of v))"

definition closure_record_check :: "bool \<Rightarrow> json \<Rightarrow> string \<Rightarrow> check" where
  "closure_record_check insufficient v field = (let x = got v field in
     all_of [require (insufficient \<or> x \<noteq> JNull) ''CLOSURE_REQUIRED_LINK'',
       (if x = JNull \<or> ends_with ''_sha256'' field then Inr ()
        else all_of [require (is_obj x \<and> members_of x \<noteq> []) ''CLOSURE_RECORD_REQUIRED'', json_check x])])"

definition closure_fields_checks :: "bool \<Rightarrow> json \<Rightarrow> check list" where
  "closure_fields_checks insufficient v =
     [text_check True (got v ''review_status''), require (got v ''review_status'' \<noteq> JStr DEFERRED) ''DEFERRED_BUNDLE_NOT_TERMINAL'',
      positive_check (got v ''frozen_manifest_position''), text_check True (got v ''applicable_primary_case_id'')]
     @ map (\<lambda>f. hashes_check (\<not> insufficient) (got v f)) [''source_artifact_hashes'', ''reviewer_artifact_hashes'', ''human_receipt_hashes'',
          ''unit_closure_hashes'', ''primary_anchor_hashes'', ''provenance_hashes'']
     @ [each_check (\<not> insufficient) hash_check6 (got v ''reviewer_unit_ids''),
        require (distinct (elems_of (got v ''reviewer_unit_ids''))) ''DUPLICATE_UNIT_ID'',
        each_check (\<not> insufficient) (\<lambda>x. require (one_of RQ6_CLASSIFICATIONS x) ''CLASSIFICATION_ENUM'') (got v ''stored_classifications''),
        each_check (\<not> insufficient) (flags_check False) (got v ''stored_structured_flag_lists''),
        each_check (\<not> insufficient) confidence_check (got v ''stored_confidences''),
        each_check (\<not> insufficient) (flags_check True) (got v ''normalized_flag_sets''),
        object_check (got v ''timestamps''), require (members_of (got v ''timestamps'') \<noteq> []) ''CLOSURE_TIMESTAMPS_REQUIRED'']
     @ map timestamp_check (map snd (members_of (got v ''timestamps'')))
     @ [results_check (\<not> insufficient) (got v ''validation_results''), recipients_check (got v ''authorized_identity_audience'')]
     @ map (\<lambda>f. evidence_check (f = ''expected_evidence'') (got v f)) [''expected_evidence'', ''available_evidence'', ''missing_evidence'',
          ''unusable_evidence'', ''evidence_limitation_reasons'', ''relevant_hashes_or_validation_failures'']
     @ map (closure_record_check insufficient v) [''unblind_receipt_sha256'', ''revealed_source_mapping'', ''frozen_rationale_variation_record'',
          ''rationale_variation_assessment_receipt_sha256'', ''per_model_primary_repeat_comparison'', ''confidence_descriptive_values_and_range'']"

definition closure_failure_checks :: "bool \<Rightarrow> json \<Rightarrow> check list" where
  "closure_failure_checks insufficient v = (let i = str_of (got v ''bundle_review_id'') in
     if failure_id i
     then [require (insufficient \<and> got v ''alias_commitment_sha256'' = JNull) ''FAILURE_ID_WITH_MAPPING'',
           require (int (undec (failure_position i)) = int_of_json (got v ''frozen_manifest_position'')) ''FAILURE_ID_POSITION'']
     else [require (got v ''alias_commitment_sha256'' \<noteq> JNull) ''MAPPING_COMMITMENT_REQUIRED''])"

definition insufficient_checks :: "json \<Rightarrow> check list" where
  "insufficient_checks v =
     [require (truthy (got v ''missing_evidence'') \<or> truthy (got v ''unusable_evidence'')) ''INSUFFICIENT_EVIDENCE_REASON'',
      require (truthy (got v ''evidence_limitation_reasons'') \<and> truthy (got v ''relevant_hashes_or_validation_failures'')) ''INSUFFICIENT_PROVENANCE'',
      text_check True (got v ''stability_not_established_reason''),
      require (3 \<le> length (elems_of (got v ''unit_closure_hashes''))
        \<or> got v ''unblind_receipt_sha256'' = JNull \<and> got v ''revealed_source_mapping'' = JNull) ''INSUFFICIENT_PREMATURE_UNBLIND'']"

text \<open>The disposition the stored observations call for: which axes vary.\<close>

definition varies :: "'a list \<Rightarrow> bool" where
  "varies xs \<longleftrightarrow> 1 < length (remdups xs)"

definition axis_coherent :: "json \<Rightarrow> bool" where
  "axis_coherent v = (let cs = varies (elems_of (got v ''stored_classifications'')); fs = varies (map elems_of (elems_of (got v ''normalized_flag_sets'')));
        d = str_of (got v ''stability_disposition'') in
     if cs \<or> fs then d = (if cs \<and> fs then ''MULTI_AXIS_VARIABLE'' else if cs then ''CLASSIFICATION_VARIABLE'' else ''STRUCTURED_SIGNAL_VARIABLE'')
     else d \<in> {''STABLE'', ''STABLE_WITH_RATIONALE_VARIATION''})"

definition complete_checks :: "json \<Rightarrow> check list" where
  "complete_checks v = (let r = got v ''frozen_rationale_variation_record''; d = str_of (got v ''stability_disposition'') in
     [require (\<not> truthy (got v ''missing_evidence'') \<and> \<not> truthy (got v ''unusable_evidence'')) ''COMPLETE_BUNDLE_HAS_MISSING_EVIDENCE'',
      require (got v ''stability_not_established_reason'' \<in> {JNull, JStr []}) ''STABILITY_FAILURE_REASON_ON_COMPLETE'',
      require (list_all (\<lambda>f. length (elems_of (got v f)) = 3) [''reviewer_unit_ids'', ''human_receipt_hashes'', ''unit_closure_hashes'']) ''BUNDLE_UNIT_COVERAGE'',
      require (list_all (\<lambda>f. length (elems_of (got v f)) = 4) [''stored_classifications'', ''stored_structured_flag_lists'',
         ''stored_confidences'', ''normalized_flag_sets'']) ''BUNDLE_OBSERVATION_COVERAGE'',
      require (axis_coherent v) ''STABILITY_AXIS_COHERENCE'', boolean_check None (got r ''material_boundary_changed''),
      require (d \<noteq> ''STABLE_WITH_RATIONALE_VARIATION''
        \<or> got r ''material_rationale_variation_confirmed'' = JBool True \<and> got r ''material_boundary_changed'' = JBool False) ''STABLE_WITH_RATIONALE_GUARD'',
      require (d \<noteq> ''STABLE''
        \<or> got r ''material_rationale_variation_confirmed'' = JBool False \<and> got r ''material_boundary_changed'' = JBool False) ''STABLE_RATIONALE_GUARD''])"

definition closure_check :: "json \<Rightarrow> check" where
  "closure_check v = (let insufficient = (got v ''stability_disposition'' = JStr INSUFFICIENT) in
     all_of ([require (one_of STABILITY_DISPOSITIONS (got v ''stability_disposition'')) ''STABILITY_DISPOSITION'',
       require (got v ''state'' = JStr (if insufficient then ''RQ6_BUNDLE_CLOSED_INSUFFICIENT_REPEAT_EVIDENCE'' else ''RQ6_BUNDLE_CLOSED'')) ''BUNDLE_STATE_COHERENCE'']
     @ closure_fields_checks insufficient v @ closure_failure_checks insufficient v
     @ (if insufficient then insufficient_checks v else complete_checks v)))"

definition kind_check :: "string \<Rightarrow> json \<Rightarrow> check" where
  "kind_check what v = (
     if what = ''empty_human_form'' then form_check v else if what = ''reviewer_card'' then card_check v
     else if what = ''human_receipt'' then human_receipt_check v else if what = ''unit_release_receipt'' then release_check v
     else if what = ''unit_closure'' then unit_closure_check v else if what = ''bundle_event_ledger'' then event_check v
     else if what = ''reviewer_access_provenance'' then access_check v else if what = ''bundle_unblind_receipt'' then unblind_check v
     else if what = ''rationale_variation_assessment_artifact'' then assessment_input_check v
     else if what = ''rationale_variation_assessment_receipt'' then assessment_check v
     else if what = ''bundle_closure'' then closure_check v else Inr ())"

definition validate_artifact :: "string \<Rightarrow> json \<Rightarrow> check" where
  "validate_artifact what v = (case map_of RQ6_FIELDS what of
       None \<Rightarrow> Inl ''UNKNOWN_ARTIFACT_KIND''
     | Some fs \<Rightarrow> all_of [fields_check fs v, json_check v, common_check what v, kind_check what v])"

definition build_artifact :: "libs \<Rightarrow> string \<Rightarrow> json \<Rightarrow> string + artifact_snapshot" where
  "build_artifact w what v = rbind (validate_artifact what v) (\<lambda>_. case build_snapshot w what v of
       None \<Rightarrow> Inl ''NONFINITE_NUMBER'' | Some s \<Rightarrow> Inr s)"

end
