(* ===== verification/Rq6Workflow.thy ===== *)
theory Rq6Workflow
  imports Rq6Schemas
begin

text \<open>
  \<open>rq6/workflow.py\<close>: the sequencing of one frozen bundle (\<open>BundleWorkflow\<close>) and of the cohort of six
  (\<open>CohortWorkflow\<close>). An operation checks, then fixes its artifacts and moves the state; an exception leaves
  what was done before it. The verifier the caller supplies is an argument of each operation: it raises, or
  says whether it returned \<open>None\<close>; the operations that check again at their end take a second one, since
  its answers may differ by then. Indexing out of range and a failed \<open>assert\<close> raise with a code of their own.
\<close>

section \<open>State\<close>

datatype bundle_state = Frozen | AliasFixed | UnitReleased | ReceiptFixed | UnitClosed | MappingRevealed
  | MechanicalRecorded | AssessmentFixed | ReviewDeferred | CharacterizationFixed | BundleClosed | BundleInsufficient

definition TERMINAL_STATES :: "bundle_state list" where
  "TERMINAL_STATES = [BundleClosed, BundleInsufficient]"

record bundle_binding =
  bb_protocol :: string
  bb_amendment :: string
  bb_package :: string
  bb_review :: string

record bundle_workflow =
  bw_binding :: bundle_binding
  bw_failure :: bool
  bw_units :: "string list"
  bw_anchor :: string
  bw_state :: bundle_state
  bw_fixed :: "(string \<times> artifact_snapshot \<times> string) list"   \<comment> \<open>\<open>_fixed\<close> and \<open>_fixed_hashes\<close>\<close>
  bw_cards :: "artifact_snapshot list"
  bw_releases :: "artifact_snapshot list"
  bw_receipts :: "artifact_snapshot list"
  bw_closures :: "artifact_snapshot list"
  bw_assessments :: "artifact_snapshot list"
  bw_alias :: "artifact_snapshot option"
  bw_access :: "artifact_snapshot option"
  bw_unblind :: "artifact_snapshot option"
  bw_mechanical :: "artifact_snapshot option"
  bw_input :: "artifact_snapshot option"
  bw_assessment :: "artifact_snapshot option"
  bw_characterization :: "artifact_snapshot option"
  bw_closure :: "artifact_snapshot option"

type_synonym verifier = "artifact_snapshot \<Rightarrow> string + bool"
type_synonym bundle_act = "bundle_workflow \<Rightarrow> (bundle_workflow, string, unit) outcome"

definition BundleWorkflow :: "bundle_binding \<Rightarrow> string list \<Rightarrow> string \<Rightarrow> string + bundle_workflow" where
  "BundleWorkflow bind units anchor = (let failed = failure_id (bb_review bind) in
     rbind (all_of (if failed then [require (units = []) ''PRE_MAPPING_FAILURE_HAS_REVIEWER_UNITS'']
        else [require (length units = 3) ''UNEXPECTED_SCHEDULED_COVERAGE'', require (distinct units) ''DUPLICATE_UNIT_ID'',
              require ([] \<notin> set units) ''INVALID_UNIT_ID''])) (\<lambda>_.
     Inr \<lparr>bw_binding = bind, bw_failure = failed, bw_units = units, bw_anchor = anchor, bw_state = Frozen, bw_fixed = [],
       bw_cards = [], bw_releases = [], bw_receipts = [], bw_closures = [], bw_assessments = [], bw_alias = None, bw_access = None,
       bw_unblind = None, bw_mechanical = None, bw_input = None, bw_assessment = None, bw_characterization = None,
       bw_closure = None\<rparr>))"

definition pre_mapping_failure :: "string \<Rightarrow> string \<Rightarrow> string \<Rightarrow> string \<Rightarrow> int \<Rightarrow> string \<Rightarrow> string + bundle_workflow" where
  "pre_mapping_failure protocol amendment package manifest position anchor =
     rbind (all_of [require (is_hex 64 manifest) ''INVALID_FROZEN_MANIFEST_HASH'', require (0 < position) ''INVALID_PRIVATE_MANIFEST_POSITION'']) (\<lambda>_.
     BundleWorkflow \<lparr>bb_protocol = protocol, bb_amendment = amendment, bb_package = package,
       bb_review = failure_prefix @ manifest @ '':'' @ dec_int position\<rparr> [] anchor)"

section \<open>The checks every operation makes\<close>

definition binding_check :: "bundle_binding \<Rightarrow> json \<Rightarrow> check" where
  "binding_check b v = all_of (map (\<lambda>(k, x). require (got v k = JStr x) ''CROSS_BUNDLE_BINDING'')
     [(''protocol_id'', bb_protocol b), (''amendment_id'', bb_amendment b), (''package_id'', bb_package b), (''bundle_review_id'', bb_review b)])"

definition verifier_check :: "verifier \<Rightarrow> artifact_snapshot \<Rightarrow> check" where
  "verifier_check vf s = (case vf s of Inl e \<Rightarrow> Inl e | Inr none \<Rightarrow> require none ''INVALID_VERIFIER_CONTRACT'')"

definition data_check :: "libs \<Rightarrow> artifact_snapshot \<Rightarrow> check" where
  "data_check w s = (case snapshot_data w s of Inl e \<Rightarrow> Inl e | Inr _ \<Rightarrow> Inr ())"

definition frozen_check :: "libs \<Rightarrow> verifier \<Rightarrow> string \<times> artifact_snapshot \<times> string \<Rightarrow> check" where
  "frozen_check w vf x = (case x of (k, s, h) \<Rightarrow>
     all_of [require (snap_sha s = h) ''FROZEN_ARTIFACT_CHANGED'', data_check w s, verifier_check vf s])"

definition verify_frozen :: "libs \<Rightarrow> verifier \<Rightarrow> bundle_workflow \<Rightarrow> check" where
  "verify_frozen w vf b = all_of (map (frozen_check w vf) (bw_fixed b))"

definition validate_snapshot :: "libs \<Rightarrow> verifier \<Rightarrow> bundle_workflow \<Rightarrow> string \<Rightarrow> artifact_snapshot \<Rightarrow> string + json" where
  "validate_snapshot w vf b what s =
     rbind (require (snap_kind s = what) ''WRONG_ARTIFACT_KIND'') (\<lambda>_.
     rbind (snapshot_data w s) (\<lambda>v.
     rbind (all_of [(if map_of RQ6_FIELDS what = None then Inr () else validate_artifact what v),
       (if what = ''empty_human_form'' then Inr () else binding_check (bw_binding b) v), verifier_check vf s]) (\<lambda>_. Inr v)))"

definition authorize :: "libs \<Rightarrow> verifier \<Rightarrow> bundle_workflow \<Rightarrow> string \<Rightarrow> string option \<Rightarrow> artifact_snapshot \<Rightarrow> string + json" where
  "authorize w vf b operation unit s =
     rbind (validate_snapshot w vf b ''operation_authorization'' s) (\<lambda>v.
     rbind (all_of [require (got v ''approved'' = JBool True) ''OPERATION_NOT_AUTHORIZED'',
       require (got v ''operation'' = JStr operation) ''WRONG_OPERATION_AUTHORITY'',
       require (got v ''reviewer_unit_id'' = (case unit of None \<Rightarrow> JNull | Some u \<Rightarrow> JStr u)) ''WRONG_UNIT_AUTHORITY'',
       require (truthy (got v ''reviewer'')) ''AUTHORITY_REVIEWER_MISSING'']) (\<lambda>_. Inr v))"

definition current_unit_check :: "bundle_workflow \<Rightarrow> nat \<Rightarrow> json \<Rightarrow> check" where
  "current_unit_check b i v = all_of [require (i < length (bw_units b)) ''NO_UNRELEASED_UNIT'',
     require (got v ''reviewer_unit_id'' = JStr (bw_units b ! i)) ''UNIT_ORDER_VIOLATION'']"

text \<open>\<open>str(value)\<close>; of a container only that its text is no digest.\<close>

fun str_text :: "json \<Rightarrow> string" where
  "str_text (JStr s) = s"
| "str_text (JInt i) = dec_int i"
| "str_text (JNum q t) = (case Decimal t of Some d \<Rightarrow> dec_str d | None \<Rightarrow> t)"
| "str_text JNull = ''None''"
| "str_text (JBool b) = (if b then ''True'' else ''False'')"
| "str_text JNonFinite = ''NaN''"
| "str_text (JList _) = ''[''"
| "str_text (JObj _) = ''{''"

definition asserted :: "'a option \<Rightarrow> string + 'a" where
  "asserted x = (case x of None \<Rightarrow> Inl ''AssertionError'' | Some a \<Rightarrow> Inr a)"

definition nth_or :: "'a list \<Rightarrow> nat \<Rightarrow> string + 'a" where
  "nth_or xs i = (if i < length xs then Inr (xs ! i) else Inl ''IndexError'')"

definition mapping_commitment :: "libs \<Rightarrow> bundle_workflow \<Rightarrow> string + string" where
  "mapping_commitment w b = (case bw_alias b of None \<Rightarrow> Inl ''ALIAS_COMMITMENT_NOT_FIXED''
     | Some a \<Rightarrow> rbind (snapshot_data w a) (\<lambda>v. rbind (item ''mapping_commitment_sha256'' v) (\<lambda>x. Inr (str_text x))))"

definition data_item :: "libs \<Rightarrow> string \<Rightarrow> artifact_snapshot \<Rightarrow> string + json" where
  "data_item w k s = rbind (snapshot_data w s) (item k)"

definition links_check :: "string \<Rightarrow> json \<Rightarrow> (string \<times> json) list \<Rightarrow> check" where
  "links_check code v links = require (list_all (\<lambda>(k, x). py_eq (got v k) x) links) code"

definition hash_list :: "artifact_snapshot list \<Rightarrow> json" where
  "hash_list ss = JList (map (\<lambda>s. JStr (snap_sha s)) ss)"

section \<open>Fixing an artifact\<close>

definition remember :: "string \<times> artifact_snapshot \<Rightarrow> bundle_act" where
  "remember x b = (case x of (k, s) \<Rightarrow>
     if k \<in> set (map fst (bw_fixed b)) then (b, Inl ''IMMUTABLE_ARTIFACT_ALREADY_FIXED'')
     else (b\<lparr>bw_fixed := bw_fixed b @ [(k, s, snap_sha s)]\<rparr>, Inr ()))"

fun remember_all :: "(string \<times> artifact_snapshot) list \<Rightarrow> bundle_act" where
  "remember_all [] b = (b, Inr ())"
| "remember_all (x # xs) b = obind (remember x b) (\<lambda>_. remember_all xs)"

text \<open>An operation: its checks, the artifacts it fixes, the fields it sets.\<close>

definition operate :: "string + (string \<times> artifact_snapshot) list \<times> (bundle_workflow \<Rightarrow> bundle_workflow) \<Rightarrow> bundle_act" where
  "operate r b = (case r of Inl e \<Rightarrow> (b, Inl e)
     | Inr (xs, f) \<Rightarrow> obind (remember_all xs b) (\<lambda>_ b. (f b, Inr ())))"

definition indexed :: "string \<Rightarrow> nat \<Rightarrow> string" where
  "indexed k i = k @ '':'' @ dec_nat i"

section \<open>The operations of a bundle\<close>

definition fix_alias_commitment :: "libs \<Rightarrow> verifier \<Rightarrow> artifact_snapshot \<Rightarrow> artifact_snapshot \<Rightarrow> artifact_snapshot \<Rightarrow> bundle_act" where
  "fix_alias_commitment w vf commitment provenance auth b = operate (
     rbind (all_of [require (\<not> bw_failure b) ''PRE_MAPPING_FAILURE_IS_CUSTODY_ONLY'', require (bw_state b = Frozen) ''REMAPPING_PROHIBITED'',
       verify_frozen w vf b]) (\<lambda>_.
     rbind (validate_snapshot w vf b ''alias_commitment'' commitment) (\<lambda>alias.
     rbind (validate_snapshot w vf b ''reviewer_access_provenance'' provenance) (\<lambda>access.
     rbind (authorize w vf b ''alias_mapping_creation'' None auth) (\<lambda>au.
     rbind (all_of [require (py_eq (got alias ''reviewer_access_policy_sha256'') (got access ''approved_access_policy_sha256'')) ''ACCESS_POLICY_LINK_MISMATCH'',
       require (py_eq (got au ''reviewer'') (got access ''reviewer'')) ''REVIEWER_ACCESS_MISMATCH'']) (\<lambda>_.
     Inr ([(''alias'', commitment), (''access'', provenance), (''alias_authority'', auth)],
       \<lambda>b. b\<lparr>bw_alias := Some commitment, bw_access := Some provenance, bw_state := AliasFixed\<rparr>))))))) b"

definition previous_closure :: "bundle_workflow \<Rightarrow> nat \<Rightarrow> string + json" where
  "previous_closure b i = (if i = 0 then Inr JNull else if bw_closures b = [] then Inl ''IndexError''
     else Inr (JStr (snap_sha (last (bw_closures b)))))"

definition release_unit :: "libs \<Rightarrow> verifier \<Rightarrow> artifact_snapshot \<Rightarrow> artifact_snapshot \<Rightarrow> artifact_snapshot \<Rightarrow> artifact_snapshot \<Rightarrow> bundle_act" where
  "release_unit w vf unit_card empty_form release_receipt auth b = (let i = length (bw_cards b) in operate (
     rbind (all_of [require (\<not> bw_failure b) ''PRE_MAPPING_FAILURE_IS_CUSTODY_ONLY'',
       require (bw_state b = AliasFixed \<or> bw_state b = UnitClosed) ''PREMATURE_UNIT_RELEASE'', verify_frozen w vf b]) (\<lambda>_.
     rbind (validate_snapshot w vf b ''reviewer_card'' unit_card) (\<lambda>evidence.
     rbind (current_unit_check b i evidence) (\<lambda>_.
     rbind (validate_snapshot w vf b ''empty_human_form'' empty_form) (\<lambda>form.
     rbind (validate_snapshot w vf b ''unit_release_receipt'' release_receipt) (\<lambda>release.
     rbind (current_unit_check b i release) (\<lambda>_.
     rbind (authorize w vf b ''unit_release'' (Some (bw_units b ! i)) auth) (\<lambda>au.
     rbind (asserted (bw_access b)) (\<lambda>access.
     rbind (data_item w ''reviewer'' access) (\<lambda>reviewer.
     rbind (all_of [require (py_eq (got au ''reviewer'') reviewer) ''REVIEWER_ACCESS_MISMATCH'',
       require (py_eq (got evidence ''observation_sequence_within_bundle'') (JInt (int i + 1))) ''OBSERVATION_ORDER_VIOLATION'',
       require (got evidence ''blind_alias'' = JStr ''SIDE_1'') ''UNEXPECTED_SOURCE_TOPOLOGY'',
       require (list_all (\<lambda>x. x \<in> {JNull, JStr [], JList []}) (map snd (members_of form))) ''PREPOPULATED_HUMAN_FORM'']) (\<lambda>_.
     rbind (mapping_commitment w b) (\<lambda>commitment.
     rbind (require (got evidence ''mapping_commitment_sha256'' = JStr commitment) ''REMAPPING_PROHIBITED'') (\<lambda>_.
     rbind (previous_closure b i) (\<lambda>previous.
     rbind (all_of [links_check ''RELEASE_LINK_MISMATCH'' release [(''reviewer_card_sha256'', JStr (snap_sha unit_card)),
         (''human_form_sha256'', JStr (snap_sha empty_form)), (''mapping_commitment_sha256'', got evidence ''mapping_commitment_sha256''),
         (''source_link_commitment_sha256'', got evidence ''source_link_commitment_sha256''),
         (''reviewer_access_provenance_sha256'', JStr (snap_sha access)), (''previous_unit_closure_sha256'', previous)],
       require (length (bw_closures b) = i) ''PREVIOUS_UNIT_NOT_CLOSED'']) (\<lambda>_.
     Inr ([(indexed ''card'' i, unit_card), (indexed ''form'' i, empty_form), (indexed ''release'' i, release_receipt),
         (indexed ''release_authority'' i, auth)],
       \<lambda>b. b\<lparr>bw_cards := bw_cards b @ [unit_card], bw_releases := bw_releases b @ [release_receipt], bw_state := UnitReleased\<rparr>)))))))))))))))) b)"

definition fix_human_receipt :: "libs \<Rightarrow> verifier \<Rightarrow> artifact_snapshot \<Rightarrow> bundle_act" where
  "fix_human_receipt w vf receipt b = (let i = length (bw_receipts b) in operate (
     rbind (all_of [require (bw_state b = UnitReleased) ''HUMAN_RECEIPT_OUT_OF_SEQUENCE'', verify_frozen w vf b]) (\<lambda>_.
     rbind (validate_snapshot w vf b ''human_receipt'' receipt) (\<lambda>human.
     rbind (current_unit_check b i human) (\<lambda>_.
     rbind (nth_or (bw_cards b) i) (\<lambda>unit_card.
     rbind (snapshot_data w unit_card) (\<lambda>evidence.
     rbind (asserted (bw_access b)) (\<lambda>access.
     rbind (nth_or (bw_releases b) i) (\<lambda>release.
     rbind (mapping_commitment w b) (\<lambda>commitment.
     rbind (item ''source_link_commitment_sha256'' evidence) (\<lambda>source.
     rbind (item ''blind_alias'' evidence) (\<lambda>side.
     rbind (data_item w ''reviewer'' access) (\<lambda>reviewer.
     rbind (all_of [links_check ''HUMAN_RECEIPT_LINK_MISMATCH'' human [(''reviewer_card_sha256'', JStr (snap_sha unit_card)),
         (''release_receipt_sha256'', JStr (snap_sha release)), (''mapping_commitment_sha256'', JStr commitment),
         (''source_link_commitment_sha256'', source), (''reviewer_access_provenance_sha256'', JStr (snap_sha access)),
         (''blind_alias'', side), (''reviewer'', reviewer)],
       require (got human ''operationally_mapping_blind_at_coding'' = JBool True) ''CODING_NOT_MAPPING_BLIND'',
       require (got human ''mechanical_stability_seen'' = JBool False) ''MECHANICAL_HINDSIGHT'']) (\<lambda>_.
     Inr ([(indexed ''human'' i, receipt)],
       \<lambda>b. b\<lparr>bw_receipts := bw_receipts b @ [receipt], bw_state := ReceiptFixed\<rparr>)))))))))))))) b)"

definition verify_unit_closure :: "libs \<Rightarrow> verifier \<Rightarrow> artifact_snapshot \<Rightarrow> bundle_act" where
  "verify_unit_closure w vf closure b = (let i = length (bw_closures b) in operate (
     rbind (all_of [require (bw_state b = ReceiptFixed) ''UNIT_CLOSURE_OUT_OF_SEQUENCE'', verify_frozen w vf b]) (\<lambda>_.
     rbind (validate_snapshot w vf b ''unit_closure'' closure) (\<lambda>v.
     rbind (current_unit_check b i v) (\<lambda>_.
     rbind (nth_or (bw_cards b) i) (\<lambda>unit_card.
     rbind (snapshot_data w unit_card) (\<lambda>evidence.
     rbind (nth_or (bw_releases b) i) (\<lambda>release.
     rbind (nth_or (bw_receipts b) i) (\<lambda>receipt.
     rbind (mapping_commitment w b) (\<lambda>commitment.
     rbind (item ''source_link_commitment_sha256'' evidence) (\<lambda>source.
     rbind (all_of [links_check ''UNIT_CLOSURE_LINK_MISMATCH'' v [(''reviewer_card_sha256'', JStr (snap_sha unit_card)),
         (''release_receipt_sha256'', JStr (snap_sha release)), (''human_receipt_sha256'', JStr (snap_sha receipt)),
         (''mapping_commitment_sha256'', JStr commitment), (''source_link_commitment_sha256'', source)],
       require (got v ''semantic_coding_frozen'' = JBool True \<and> got v ''unblinded'' = JBool False) ''INVALID_UNIT_FREEZE'',
       require (got v ''state'' = JStr ''SEMANTICALLY_CLOSED_BLINDED'') ''INVALID_UNIT_STATE'']) (\<lambda>_.
     Inr ([(indexed ''unit_closure'' i, closure)],
       \<lambda>b. b\<lparr>bw_closures := bw_closures b @ [closure], bw_state := UnitClosed\<rparr>)))))))))))) b)"

text \<open>The operations that check the frozen artifacts once more at their end have changed the state by then.\<close>

definition then_verify :: "libs \<Rightarrow> verifier \<Rightarrow> (bundle_workflow, string, unit) outcome \<Rightarrow> (bundle_workflow, string, unit) outcome" where
  "then_verify w vf x = obind x (\<lambda>_ b. (b, verify_frozen w vf b))"

definition reveal_mapping :: "libs \<Rightarrow> verifier \<Rightarrow> verifier \<Rightarrow> artifact_snapshot \<Rightarrow> artifact_snapshot \<Rightarrow> bundle_act" where
  "reveal_mapping w vf vf' receipt auth b = then_verify w vf' (operate (
     rbind (all_of [require (bw_state b = UnitClosed) ''PREMATURE_UNBLIND'',
       require (length (bw_closures b) = length (bw_units b)) ''PREMATURE_UNBLIND'', verify_frozen w vf b]) (\<lambda>_.
     rbind (validate_snapshot w vf b ''bundle_unblind_receipt'' receipt) (\<lambda>unblind.
     rbind (authorize w vf b ''bundle_unblind'' None auth) (\<lambda>au.
     rbind (asserted (bw_alias b)) (\<lambda>alias.
     rbind (mapping_commitment w b) (\<lambda>commitment.
     rbind (all_of [require (got unblind ''alias_commitment_sha256'' = JStr commitment) ''UNBLIND_COMMITMENT_MISMATCH'',
       require (py_eq (got unblind ''required_human_receipt_hashes'') (hash_list (bw_receipts b))) ''UNBLIND_RECEIPT_COVERAGE_MISMATCH'',
       require (py_eq (got unblind ''required_unit_closure_hashes'') (hash_list (bw_closures b))) ''UNBLIND_CLOSURE_COVERAGE_MISMATCH'',
       require (got unblind ''human_authorization_receipt_sha256'' = JStr (snap_sha auth)) ''UNBLIND_AUTHORITY_LINK_MISMATCH'',
       require (py_eq (got unblind ''authorized_recipients'') (got au ''authorized_recipients'')) ''UNBLIND_AUDIENCE_MISMATCH'',
       require (truthy (got unblind ''authorized_recipients'')) ''EMPTY_UNBLIND_AUDIENCE'']) (\<lambda>_.
     rbind (data_item w ''reviewer_access_policy_sha256'' alias) (\<lambda>policy.
     rbind (require (py_eq (got unblind ''reviewer_access_policy_sha256'') policy) ''UNBLIND_ACCESS_POLICY_MISMATCH'') (\<lambda>_.
     Inr ([(''unblind'', receipt), (''unblind_authority'', auth)],
       \<lambda>b. b\<lparr>bw_unblind := Some receipt, bw_state := MappingRevealed\<rparr>)))))))))) b)"

definition record_mechanical :: "libs \<Rightarrow> verifier \<Rightarrow> artifact_snapshot \<Rightarrow> artifact_snapshot \<Rightarrow> bundle_act" where
  "record_mechanical w vf comparison auth b = operate (
     rbind (all_of [require (bw_state b = MappingRevealed) ''PREMATURE_MECHANICAL_COMPARISON'', verify_frozen w vf b]) (\<lambda>_.
     rbind (validate_snapshot w vf b ''mechanical_comparison'' comparison) (\<lambda>v.
     rbind (authorize w vf b ''mechanical_comparison'' None auth) (\<lambda>_.
     rbind (asserted (bw_unblind b)) (\<lambda>unblind.
     rbind (all_of [require (got v ''unblind_receipt_sha256'' = JStr (snap_sha unblind)) ''MECHANICAL_UNBLIND_LINK_MISMATCH'',
       require (got v ''primary_anchor_receipt_sha256'' = JStr (bw_anchor b)) ''WRONG_PRIMARY_ANCHOR'',
       require (py_eq (got v ''observation_count'') (JInt 4)) ''INCOMPLETE_MECHANICAL_COVERAGE'']) (\<lambda>_.
     Inr ([(''mechanical'', comparison), (''mechanical_authority'', auth)],
       \<lambda>b. b\<lparr>bw_mechanical := Some comparison, bw_state := MechanicalRecorded\<rparr>))))))) b"

definition assessment_links :: "bundle_workflow \<Rightarrow> artifact_snapshot \<Rightarrow> json \<Rightarrow> check list" where
  "assessment_links b unblind v =
     [require (got v ''unblind_receipt_sha256'' = JStr (snap_sha unblind)) ''ASSESSMENT_UNBLIND_LINK_MISMATCH'',
      require (got v ''primary_anchor_receipt_sha256'' = JStr (bw_anchor b)) ''WRONG_PRIMARY_ANCHOR'',
      require (py_eq (got v ''completed_unit_receipt_hashes'') (hash_list (bw_receipts b))) ''ASSESSMENT_RECEIPT_COVERAGE_MISMATCH'']"

definition card_rationale :: "libs \<Rightarrow> artifact_snapshot \<Rightarrow> string + json" where
  "card_rationale w s = rbind (data_item w ''stored_output'' s) (item ''rationale'')"

definition semantic_projection :: "libs \<Rightarrow> artifact_snapshot \<Rightarrow> string + json" where
  "semantic_projection w s = rbind (each_ok (\<lambda>k. rbind (data_item w k s) (\<lambda>x. Inr (k, x)))
     [''primary_disposition'', ''rationale_propositions'', ''reviewer_reason'']) (\<lambda>ms. Inr (JObj ms))"

definition fix_rationale_assessment :: "libs \<Rightarrow> verifier \<Rightarrow> artifact_snapshot \<Rightarrow> artifact_snapshot \<Rightarrow> bundle_act" where
  "fix_rationale_assessment w vf artifact receipt b = operate (
     rbind (all_of [require (bw_state b = MechanicalRecorded) ''PREMATURE_RATIONALE_ASSESSMENT'', verify_frozen w vf b]) (\<lambda>_.
     rbind (validate_snapshot w vf b ''rationale_variation_assessment_artifact'' artifact) (\<lambda>source.
     rbind (validate_snapshot w vf b ''rationale_variation_assessment_receipt'' receipt) (\<lambda>human.
     rbind (asserted (bw_unblind b)) (\<lambda>unblind.
     rbind (all_of (assessment_links b unblind source @ assessment_links b unblind human
       @ [require (got human ''rationale_artifact_sha256'' = JStr (snap_sha artifact)) ''ASSESSMENT_INPUT_LINK_MISMATCH''])) (\<lambda>_.
     rbind (each_ok (card_rationale w) (bw_cards b)) (\<lambda>rationales.
     rbind (require (py_eq (got source ''repeat_rationales'') (JList rationales)) ''FROZEN_RATIONALE_CHANGED'') (\<lambda>_.
     rbind (each_ok (semantic_projection w) (bw_receipts b)) (\<lambda>projections.
     rbind (require (py_eq (got source ''frozen_repeat_semantic_coding'') (JList projections)) ''FROZEN_SEMANTIC_CODING_CHANGED'') (\<lambda>_.
     Inr ([(''assessment_input'', artifact), (''assessment'', receipt)],
       \<lambda>b. b\<lparr>bw_assessments := bw_assessments b @ [receipt], bw_input := Some artifact, bw_assessment := Some receipt,
         bw_state := AssessmentFixed\<rparr>))))))))))) b"

definition review_deferred :: "json \<Rightarrow> json \<Rightarrow> bool" where
  "review_deferred assessment mechanical \<longleftrightarrow> got assessment ''rationale_variation'' = JStr ''UNRESOLVED''
     \<or> (got mechanical ''class_changed'' = JBool False \<and> got mechanical ''flags_changed'' = JBool False
        \<and> got assessment ''material_boundary_changed'' = JBool True)"

definition fix_characterization :: "libs \<Rightarrow> verifier \<Rightarrow> artifact_snapshot \<Rightarrow> bundle_act" where
  "fix_characterization w vf characterization b = operate (
     rbind (all_of [require (bw_state b = AssessmentFixed) ''CHARACTERIZATION_OUT_OF_SEQUENCE'', verify_frozen w vf b]) (\<lambda>_.
     rbind (validate_snapshot w vf b ''bundle_characterization'' characterization) (\<lambda>v.
     rbind (asserted (bw_mechanical b)) (\<lambda>mech.
     rbind (asserted (bw_assessment b)) (\<lambda>assess.
     rbind (all_of [require (got v ''mechanical_comparison_sha256'' = JStr (snap_sha mech)) ''CHARACTERIZATION_MECHANICAL_LINK_MISMATCH'',
       require (got v ''rationale_variation_assessment_receipt_sha256'' = JStr (snap_sha assess)) ''CHARACTERIZATION_ASSESSMENT_LINK_MISMATCH'']) (\<lambda>_.
     rbind (snapshot_data w assess) (\<lambda>assessment.
     rbind (snapshot_data w mech) (\<lambda>mechanical.
     let d = review_deferred assessment mechanical in
     rbind (if d then require (got v ''review_status'' = JStr DEFERRED \<and> got v ''stability_disposition'' = JNull) ''DEFERRED_NOT_TERMINAL''
            else require (got v ''review_status'' \<noteq> JStr DEFERRED \<and> got v ''stability_disposition'' \<noteq> JNull) ''MISSING_FINAL_CHARACTERIZATION'') (\<lambda>_.
     Inr ([(''characterization'', characterization)],
       \<lambda>b. b\<lparr>bw_characterization := Some characterization, bw_state := (if d then ReviewDeferred else CharacterizationFixed)\<rparr>)))))))))) b"

section \<open>Closing a bundle\<close>

definition close_common_checks :: "libs \<Rightarrow> bundle_workflow \<Rightarrow> bool \<Rightarrow> json \<Rightarrow> check" where
  "close_common_checks w b whole v =
     rbind (all_of [require (py_eq (got v ''reviewer_unit_ids'') (JList (map JStr (take (length (bw_cards b)) (bw_units b))))) ''CLOSURE_UNIT_COVERAGE_MISMATCH'',
       require (py_eq (got v ''human_receipt_hashes'') (hash_list (bw_receipts b))) ''CLOSURE_RECEIPT_COVERAGE_MISMATCH'',
       require (py_eq (got v ''unit_closure_hashes'') (hash_list (bw_closures b))) ''CLOSURE_UNIT_CLOSURE_MISMATCH'']) (\<lambda>_.
     rbind (if bw_alias b = None then Inr JNull else rbind (mapping_commitment w b) (\<lambda>c. Inr (JStr c))) (\<lambda>commitment.
     all_of [require (got v ''alias_commitment_sha256'' = commitment) ''CLOSURE_ALIAS_LINK_MISMATCH'',
       require (\<not> whole \<or> length (bw_closures b) = length (bw_units b)) ''INCOMPLETE_TERMINAL_COVERAGE'']))"

definition closing :: "artifact_snapshot \<Rightarrow> bundle_state \<Rightarrow> (string \<times> artifact_snapshot) list \<times> (bundle_workflow \<Rightarrow> bundle_workflow)" where
  "closing closure st = ([(''bundle_closure'', closure)], \<lambda>b. b\<lparr>bw_closure := Some closure, bw_state := st\<rparr>)"

definition close_bundle :: "libs \<Rightarrow> verifier \<Rightarrow> verifier \<Rightarrow> artifact_snapshot \<Rightarrow> bundle_act" where
  "close_bundle w vf vf' closure b = then_verify w vf' (operate (
     rbind (all_of [require (bw_state b = CharacterizationFixed) ''PREMATURE_BUNDLE_CLOSURE'', verify_frozen w vf b]) (\<lambda>_.
     rbind (validate_snapshot w vf b ''bundle_closure'' closure) (\<lambda>v.
     rbind (asserted (bw_characterization b)) (\<lambda>ch.
     rbind (asserted (bw_unblind b)) (\<lambda>unblind.
     rbind (asserted (bw_assessment b)) (\<lambda>assess.
     rbind (require (got v ''state'' = JStr ''RQ6_BUNDLE_CLOSED'') ''WRONG_TERMINAL_BRANCH'') (\<lambda>_.
     rbind (data_item w ''stability_disposition'' ch) (\<lambda>d.
     rbind (require (py_eq (got v ''stability_disposition'') d) ''CLOSURE_CHARACTERIZATION_MISMATCH'') (\<lambda>_.
     rbind (data_item w ''review_status'' ch) (\<lambda>st.
     rbind (all_of [require (py_eq (got v ''review_status'') st) ''CLOSURE_REVIEW_STATUS_MISMATCH'',
       require (got v ''unblind_receipt_sha256'' = JStr (snap_sha unblind)) ''CLOSURE_UNBLIND_LINK_MISMATCH'',
       require (got v ''rationale_variation_assessment_receipt_sha256'' = JStr (snap_sha assess)) ''CLOSURE_ASSESSMENT_LINK_MISMATCH'']) (\<lambda>_.
     rbind (close_common_checks w b True v) (\<lambda>_. Inr (closing closure BundleClosed))))))))))))) b)"

definition unblind_history :: "libs \<Rightarrow> bundle_workflow \<Rightarrow> json \<Rightarrow> check" where
  "unblind_history w b v = (case bw_unblind b of
       None \<Rightarrow> require (got v ''unblind_receipt_sha256'' = JNull \<and> got v ''revealed_source_mapping'' = JNull) ''INSUFFICIENT_PREMATURE_UNBLIND''
     | Some u \<Rightarrow> if got v ''unblind_receipt_sha256'' \<noteq> JStr (snap_sha u) then Inl ''INSUFFICIENT_UNBLIND_HISTORY_CHANGED''
         else rbind (data_item w ''revealed_current_bundle_mapping'' u) (\<lambda>m.
              if \<not> py_eq (got v ''revealed_source_mapping'') m then Inl ''INSUFFICIENT_UNBLIND_HISTORY_CHANGED''
              else rbind (data_item w ''authorized_recipients'' u) (\<lambda>a.
                require (py_eq (got v ''authorized_identity_audience'') a) ''INSUFFICIENT_UNBLIND_HISTORY_CHANGED'')))"

definition kept_whole :: "json \<Rightarrow> string \<Rightarrow> artifact_snapshot \<Rightarrow> bool" where
  "kept_whole v k s \<longleftrightarrow> exact_json (got v k) = Some (snap_bytes s) \<and> JStr (snap_sha s) \<in> set (elems_of (got v ''provenance_hashes''))"

definition mechanical_history :: "bundle_workflow \<Rightarrow> json \<Rightarrow> check" where
  "mechanical_history b v = (case bw_mechanical b of
       None \<Rightarrow> require (got v ''per_model_primary_repeat_comparison'' = JNull) ''INSUFFICIENT_IMPUTED_MECHANICAL''
     | Some m \<Rightarrow> require (kept_whole v ''per_model_primary_repeat_comparison'' m) ''INSUFFICIENT_MECHANICAL_HISTORY_CHANGED'')"

definition assessment_history :: "bundle_workflow \<Rightarrow> json \<Rightarrow> check" where
  "assessment_history b v = (case bw_assessment b of
       None \<Rightarrow> require (got v ''rationale_variation_assessment_receipt_sha256'' = JNull \<and> got v ''frozen_rationale_variation_record'' = JNull) ''INSUFFICIENT_IMPUTED_ASSESSMENT''
     | Some a \<Rightarrow> require (got v ''rationale_variation_assessment_receipt_sha256'' = JStr (snap_sha a)
         \<and> kept_whole v ''frozen_rationale_variation_record'' a) ''INSUFFICIENT_ASSESSMENT_HISTORY_CHANGED'')"

definition close_insufficient :: "libs \<Rightarrow> verifier \<Rightarrow> verifier \<Rightarrow> artifact_snapshot \<Rightarrow> bundle_act" where
  "close_insufficient w vf vf' closure b = then_verify w vf' (operate (
     rbind (all_of [require (bw_state b \<notin> set TERMINAL_STATES \<and> bw_state b \<noteq> ReviewDeferred) ''INVALID_INSUFFICIENT_TRANSITION'', verify_frozen w vf b]) (\<lambda>_.
     rbind (validate_snapshot w vf b ''bundle_closure'' closure) (\<lambda>v.
     rbind (all_of [require (got v ''state'' = JStr ''RQ6_BUNDLE_CLOSED_INSUFFICIENT_REPEAT_EVIDENCE'') ''WRONG_TERMINAL_BRANCH'',
       require (got v ''stability_disposition'' = JStr INSUFFICIENT) ''INVALID_INSUFFICIENT_DISPOSITION'',
       require (truthy (got v ''missing_evidence'') \<or> truthy (got v ''unusable_evidence'')) ''UNDOCUMENTED_INSUFFICIENCY'',
       require (truthy (got v ''evidence_limitation_reasons'') \<and> truthy (got v ''stability_not_established_reason'')) ''UNDOCUMENTED_INSUFFICIENCY'',
       unblind_history w b v, mechanical_history b v, assessment_history b v, close_common_checks w b False v]) (\<lambda>_.
     Inr (closing closure BundleInsufficient))))) b)"

section \<open>One step of a bundle\<close>

text \<open>
  Every public operation of a bundle, with the artifacts and the verifiers it is called with. A step gives
  the bundle left and the code of the exception, if it raised.
\<close>

datatype bundle_op =
    FixAlias verifier artifact_snapshot artifact_snapshot artifact_snapshot
  | ReleaseUnit verifier artifact_snapshot artifact_snapshot artifact_snapshot artifact_snapshot
  | FixReceipt verifier artifact_snapshot
  | CloseUnit verifier artifact_snapshot
  | RevealMapping verifier verifier artifact_snapshot artifact_snapshot
  | RecordMechanical verifier artifact_snapshot artifact_snapshot
  | FixAssessment verifier artifact_snapshot artifact_snapshot
  | FixCharacterization verifier artifact_snapshot
  | CloseBundle verifier verifier artifact_snapshot
  | CloseInsufficient verifier verifier artifact_snapshot

fun bundle_act :: "libs \<Rightarrow> bundle_op \<Rightarrow> bundle_act" where
  "bundle_act w (FixAlias vf c p a) = fix_alias_commitment w vf c p a"
| "bundle_act w (ReleaseUnit vf c f r a) = release_unit w vf c f r a"
| "bundle_act w (FixReceipt vf r) = fix_human_receipt w vf r"
| "bundle_act w (CloseUnit vf c) = verify_unit_closure w vf c"
| "bundle_act w (RevealMapping vf vf' r a) = reveal_mapping w vf vf' r a"
| "bundle_act w (RecordMechanical vf c a) = record_mechanical w vf c a"
| "bundle_act w (FixAssessment vf a r) = fix_rationale_assessment w vf a r"
| "bundle_act w (FixCharacterization vf c) = fix_characterization w vf c"
| "bundle_act w (CloseBundle vf vf' c) = close_bundle w vf vf' c"
| "bundle_act w (CloseInsufficient vf vf' c) = close_insufficient w vf vf' c"

fun bundle_run :: "libs \<Rightarrow> bundle_op list \<Rightarrow> bundle_workflow \<Rightarrow> bundle_workflow" where
  "bundle_run w [] b = b"
| "bundle_run w (x # xs) b = bundle_run w xs (fst (bundle_act w x b))"

section \<open>The cohort\<close>

text \<open>
  The bundles are objects: the cohort holds a reference to the one it opened, here its position among the
  bundles made. An operation of a bundle acts on the same object.
\<close>

record cohort =
  co_bundles :: "bundle_workflow list"
  co_current :: "nat option"
  co_closed :: "artifact_snapshot list"
  co_aggregate :: "artifact_snapshot option"
  co_review :: "artifact_snapshot option"

definition COHORT_ORDER :: "int list" where "COHORT_ORDER = [1, 2, 3, 4, 5, 6]"

definition CohortWorkflow :: "int list \<Rightarrow> bundle_workflow list \<Rightarrow> string + cohort" where
  "CohortWorkflow order bs = rbind (require (order = COHORT_ORDER) ''INVALID_FROZEN_BUNDLE_COHORT'') (\<lambda>_.
     Inr \<lparr>co_bundles = bs, co_current = None, co_closed = [], co_aggregate = None, co_review = None\<rparr>)"

definition cohort_authority :: "libs \<Rightarrow> verifier \<Rightarrow> string \<Rightarrow> artifact_snapshot \<Rightarrow> string + json" where
  "cohort_authority w vf operation s =
     rbind (require (snap_kind s = ''operation_authorization'') ''WRONG_ARTIFACT_KIND'') (\<lambda>_.
     rbind (snapshot_data w s) (\<lambda>v.
     rbind (all_of [verifier_check vf s, require (got v ''approved'' = JBool True \<and> got v ''operation'' = JStr operation) ''OPERATION_NOT_AUTHORIZED'']) (\<lambda>_.
     Inr v)))"

definition recheck :: "libs \<Rightarrow> verifier \<Rightarrow> artifact_snapshot \<Rightarrow> check" where
  "recheck w vf s = all_of [data_check w s, verifier_check vf s]"

type_synonym cohort_act = "cohort \<Rightarrow> (cohort, string, unit) outcome"

definition settle :: "check \<Rightarrow> (cohort \<Rightarrow> cohort) \<Rightarrow> cohort_act" where
  "settle r f c = (case r of Inl e \<Rightarrow> (c, Inl e) | Inr _ \<Rightarrow> (f c, Inr ()))"

definition open_next_bundle :: "libs \<Rightarrow> verifier \<Rightarrow> nat \<Rightarrow> artifact_snapshot \<Rightarrow> cohort_act" where
  "open_next_bundle w vf i auth c = settle (
     rbind (all_of [require (co_current c = None) ''CURRENT_BUNDLE_NOT_TERMINAL'',
       require (length (co_closed c) < length COHORT_ORDER) ''NO_UNOPENED_BUNDLE'']) (\<lambda>_.
     rbind (nth_or (co_bundles c) i) (\<lambda>b.
     rbind (require (bw_state b = Frozen) ''BUNDLE_ALREADY_INITIALIZED'') (\<lambda>_.
     rbind (cohort_authority w vf ''bundle_open'' auth) (\<lambda>v.
     all_of ([binding_check (bw_binding b) v,
       require (got v ''private_manifest_position'' = JInt (COHORT_ORDER ! length (co_closed c))) ''BUNDLE_ORDER_VIOLATION'']
       @ map (recheck w vf) (co_closed c))))))) (\<lambda>c. c\<lparr>co_current := Some i\<rparr>) c"

definition record_terminal :: "libs \<Rightarrow> verifier \<Rightarrow> verifier \<Rightarrow> nat \<Rightarrow> cohort_act" where
  "record_terminal w vf vb i c = (case co_current c of
       None \<Rightarrow> (c, Inl ''CROSS_BUNDLE_CLOSURE'')
     | Some j \<Rightarrow> if i \<noteq> j then (c, Inl ''CROSS_BUNDLE_CLOSURE'')
         else (case nth_or (co_bundles c) i of Inl e \<Rightarrow> (c, Inl e) | Inr b \<Rightarrow>
           (case bw_closure b of
              None \<Rightarrow> (c, Inl ''CURRENT_BUNDLE_NOT_TERMINAL'')
            | Some closure \<Rightarrow> settle (
                rbind (all_of [require (bw_state b \<in> set TERMINAL_STATES) ''CURRENT_BUNDLE_NOT_TERMINAL'', verify_frozen w vb b,
                  verifier_check vf closure]) (\<lambda>_.
                rbind (data_item w ''frozen_manifest_position'' closure) (\<lambda>p.
                rbind (nth_or COHORT_ORDER (length (co_closed c))) (\<lambda>k.
                require (py_eq p (JInt k)) ''BUNDLE_ORDER_VIOLATION'')))) (\<lambda>c. c\<lparr>co_closed := co_closed c @ [closure], co_current := None\<rparr>) c)))"

definition aggregate_authority :: "libs \<Rightarrow> verifier \<Rightarrow> artifact_snapshot \<Rightarrow> cohort \<Rightarrow> check" where
  "aggregate_authority w vf auth c =
     rbind (require (length (co_closed c) = 6 \<and> co_current c = None) ''AGGREGATE_BEFORE_SIX_TERMINAL_CLOSURES'') (\<lambda>_.
     rbind (cohort_authority w vf ''aggregate_analysis'' auth) (\<lambda>_. all_of (map (recheck w vf) (co_closed c))))"

definition require_aggregate_authority :: "libs \<Rightarrow> verifier \<Rightarrow> artifact_snapshot \<Rightarrow> cohort_act" where
  "require_aggregate_authority w vf auth c = settle (aggregate_authority w vf auth c) id c"

definition record_aggregate_completion :: "libs \<Rightarrow> verifier \<Rightarrow> artifact_snapshot \<Rightarrow> artifact_snapshot \<Rightarrow> cohort_act" where
  "record_aggregate_completion w vf artifact auth c = settle (
     rbind (all_of [aggregate_authority w vf auth c, require (co_aggregate c = None) ''AGGREGATE_ALREADY_FIXED'',
       require (snap_kind artifact = ''aggregate_completion'') ''WRONG_ARTIFACT_KIND'']) (\<lambda>_.
     rbind (snapshot_data w artifact) (\<lambda>v.
     all_of [verifier_check vf artifact, require (py_eq (got v ''terminal_bundle_closure_hashes'') (hash_list (co_closed c))) ''AGGREGATE_CLOSURE_LINK_MISMATCH''])))
     (\<lambda>c. c\<lparr>co_aggregate := Some artifact\<rparr>) c"

definition record_aggregate_review :: "libs \<Rightarrow> verifier \<Rightarrow> artifact_snapshot \<Rightarrow> cohort_act" where
  "record_aggregate_review w vf receipt c = settle (case co_aggregate c of
       None \<Rightarrow> Inl ''REVIEW_BEFORE_AGGREGATE_COMPLETION''
     | Some a \<Rightarrow> rbind (all_of [require (co_review c = None) ''AGGREGATE_REVIEW_ALREADY_FIXED'',
         require (snap_kind receipt = ''aggregate_human_review'') ''WRONG_ARTIFACT_KIND'']) (\<lambda>_.
       rbind (snapshot_data w receipt) (\<lambda>v.
       all_of [verifier_check vf receipt, require (got v ''aggregate_artifact_sha256'' = JStr (snap_sha a)) ''AGGREGATE_REVIEW_LINK_MISMATCH'',
         require (got v ''approved'' = JBool True \<and> truthy (got v ''reviewer'')) ''AGGREGATE_REVIEW_NOT_APPROVED''])))
     (\<lambda>c. c\<lparr>co_review := Some receipt\<rparr>) c"

definition require_judge_authority :: "libs \<Rightarrow> verifier \<Rightarrow> artifact_snapshot \<Rightarrow> cohort_act" where
  "require_judge_authority w vf auth c = settle (case (co_aggregate c, co_review c) of
       (Some a, Some r) \<Rightarrow> rbind (all_of [data_check w a, data_check w r, verifier_check vf a, verifier_check vf r]) (\<lambda>_.
         rbind (cohort_authority w vf ''judge_selection'' auth) (\<lambda>_. Inr ()))
     | _ \<Rightarrow> Inl ''JUDGE_BEFORE_AGGREGATE_HUMAN_REVIEW'') id c"

datatype cohort_op =
    OnBundle nat bundle_op
  | MakeBundle bundle_binding "string list" string
  | OpenBundle verifier nat artifact_snapshot
  | RecordTerminal verifier verifier nat
  | AggregateAuthority verifier artifact_snapshot
  | AggregateCompletion verifier artifact_snapshot artifact_snapshot
  | AggregateReview verifier artifact_snapshot
  | JudgeAuthority verifier artifact_snapshot

fun cohort_act :: "libs \<Rightarrow> cohort_op \<Rightarrow> cohort_act" where
  "cohort_act w (OnBundle i x) c = (case nth_or (co_bundles c) i of Inl e \<Rightarrow> (c, Inl e)
     | Inr b \<Rightarrow> (c\<lparr>co_bundles := (co_bundles c)[i := fst (bundle_act w x b)]\<rparr>, snd (bundle_act w x b)))"
| "cohort_act w (MakeBundle b us a) c = (case BundleWorkflow b us a of Inl e \<Rightarrow> (c, Inl e)
     | Inr x \<Rightarrow> (c\<lparr>co_bundles := co_bundles c @ [x]\<rparr>, Inr ()))"
| "cohort_act w (OpenBundle vf i a) c = open_next_bundle w vf i a c"
| "cohort_act w (RecordTerminal vf vb i) c = record_terminal w vf vb i c"
| "cohort_act w (AggregateAuthority vf a) c = require_aggregate_authority w vf a c"
| "cohort_act w (AggregateCompletion vf x a) c = record_aggregate_completion w vf x a c"
| "cohort_act w (AggregateReview vf r) c = record_aggregate_review w vf r c"
| "cohort_act w (JudgeAuthority vf a) c = require_judge_authority w vf a c"

fun cohort_run :: "libs \<Rightarrow> cohort_op list \<Rightarrow> cohort \<Rightarrow> cohort" where
  "cohort_run w [] c = c"
| "cohort_run w (x # xs) c = cohort_run w xs (fst (cohort_act w x c))"

end
