(* ===== verification/Rq6Safety.thy ===== *)
theory Rq6Safety
  imports Rq6Workflow "HOL-Library.Sublist"
begin

declare all_of.simps [simp del]

text \<open>
  What the sequencing of a bundle and of the cohort promises. The operations refine an abstract protocol,
  an inductive step relation that says which evidence each step adds and what it has to name; the promises
  are invariants of that protocol, by rule induction.
\<close>

section \<open>What an operation does\<close>

definition entries :: "(string \<times> artifact_snapshot) list \<Rightarrow> (string \<times> artifact_snapshot \<times> string) list" where
  "entries xs = map (\<lambda>(k, s). (k, s, snap_sha s)) xs"

lemma remember_all_cases:
  obtains (raised) ys e where "remember_all xs b = (b\<lparr>bw_fixed := bw_fixed b @ ys\<rparr>, Inl e)"
  | (returned) "remember_all xs b = (b\<lparr>bw_fixed := bw_fixed b @ entries xs\<rparr>, Inr ())"
proof (induction xs arbitrary: b thesis)
  case Nil
  show ?case by (rule Nil(2)) (simp add: entries_def)
next
  case (Cons x xs)
  obtain k s where x: "x = (k, s)" by (cases x)
  show ?case
  proof (cases "k \<in> set (map fst (bw_fixed b))")
    case True
    then show ?thesis using Cons.prems(1) [of "[]"] by (simp add: x remember_def)
  next
    case False
    define b1 where "b1 = b\<lparr>bw_fixed := bw_fixed b @ [(k, s, snap_sha s)]\<rparr>"
    have r: "remember_all (x # xs) b = remember_all xs b1" using False by (simp add: x remember_def b1_def)
    show ?thesis
    proof (rule Cons.IH [of b1])
      show thesis if "remember_all xs b1 = (b1\<lparr>bw_fixed := bw_fixed b1 @ ys\<rparr>, Inl e)" for ys e
        using Cons.prems(1) [of "(k, s, snap_sha s) # ys"] that unfolding r by (simp add: b1_def)
      show thesis if "remember_all xs b1 = (b1\<lparr>bw_fixed := bw_fixed b1 @ entries xs\<rparr>, Inr ())"
        using Cons.prems(2) that unfolding r by (simp add: x b1_def entries_def)
    qed
  qed
qed

lemma operate_cases:
  obtains (kept) ys e where "operate r b = (b\<lparr>bw_fixed := bw_fixed b @ ys\<rparr>, Inl e)"
  | (finished) xs f where "r = Inr (xs, f)" "operate r b = (f (b\<lparr>bw_fixed := bw_fixed b @ entries xs\<rparr>), Inr ())"
proof (cases r)
  case (Inl e)
  then show thesis using kept [of "[]"] by (simp add: operate_def)
next
  case (Inr p)
  obtain xs f where p: "p = (xs, f)" by (cases p)
  show thesis
    by (cases rule: remember_all_cases [of xs b]) (use kept finished Inr p in \<open>simp_all add: operate_def\<close>)
qed

lemma operate_via:
  "(\<And>ys. Q (b\<lparr>bw_fixed := bw_fixed b @ ys\<rparr>)) \<Longrightarrow> (\<And>xs f ys. r = Inr (xs, f) \<Longrightarrow> Q (f (b\<lparr>bw_fixed := bw_fixed b @ ys\<rparr>)))
     \<Longrightarrow> Q (fst (operate r b))"
  by (cases rule: operate_cases [of r b]) simp_all

lemma then_verify_fst: "fst (then_verify w vf x) = fst x"
  by (cases x; cases "snd x") (auto simp: then_verify_def)

lemma validate_snapshot_data: "validate_snapshot w vf b k s = Inr v \<Longrightarrow> snapshot_data w s = Inr v"
  by (auto simp: validate_snapshot_def rbind_Inr_iff)

lemma authorize_data: "authorize w vf b op u s = Inr v \<Longrightarrow>
    snapshot_data w s = Inr v \<and> got v ''approved'' = JBool True \<and> got v ''operation'' = JStr op"
  by (auto simp: authorize_def rbind_Inr_iff dest: validate_snapshot_data)

section \<open>The abstract protocol\<close>

definition says :: "libs \<Rightarrow> artifact_snapshot \<Rightarrow> string \<Rightarrow> json \<Rightarrow> bool" where
  "says w s k x \<longleftrightarrow> (case snapshot_data w s of Inl _ \<Rightarrow> False | Inr v \<Rightarrow> py_eq (got v k) x)"

definition names :: "libs \<Rightarrow> artifact_snapshot \<Rightarrow> string \<Rightarrow> artifact_snapshot \<Rightarrow> bool" where
  "names w s k t \<longleftrightarrow> says w s k (JStr (snap_sha t))"

definition approves :: "libs \<Rightarrow> string \<Rightarrow> artifact_snapshot \<Rightarrow> bool" where
  "approves w op s \<longleftrightarrow> says w s ''operation'' (JStr op) \<and> says w s ''approved'' (JBool True)"

definition coded_blind :: "libs \<Rightarrow> artifact_snapshot \<Rightarrow> bool" where
  "coded_blind w s \<longleftrightarrow> says w s ''operationally_mapping_blind_at_coding'' (JBool True) \<and> says w s ''mechanical_stability_seen'' (JBool False)"

inductive review_moves :: "libs \<Rightarrow> bundle_workflow \<Rightarrow> bundle_workflow \<Rightarrow> bool" for w where
  Kept: "review_moves w b (b\<lparr>bw_fixed := bw_fixed b @ ys\<rparr>)"
| Aliased: "\<lbrakk>bw_state b = Frozen; \<not> bw_failure b\<rbrakk> \<Longrightarrow>
    review_moves w b (b\<lparr>bw_fixed := bw_fixed b @ ys, bw_alias := Some c, bw_access := Some p, bw_state := AliasFixed\<rparr>)"
| Released: "\<lbrakk>bw_state b = AliasFixed \<or> bw_state b = UnitClosed; \<not> bw_failure b; i = length (bw_cards b); i = length (bw_closures b);
    i < length (bw_units b); says w s ''reviewer_unit_id'' (JStr (bw_units b ! i)); names w r ''reviewer_card_sha256'' s;
    i = 0 \<or> names w r ''previous_unit_closure_sha256'' (last (bw_closures b))\<rbrakk> \<Longrightarrow>
    review_moves w b (b\<lparr>bw_fixed := bw_fixed b @ ys, bw_cards := bw_cards b @ [s], bw_releases := bw_releases b @ [r], bw_state := UnitReleased\<rparr>)"
| Coded: "\<lbrakk>bw_state b = UnitReleased; i = length (bw_receipts b); i < length (bw_cards b); i < length (bw_releases b); coded_blind w s;
    names w s ''reviewer_card_sha256'' (bw_cards b ! i); names w s ''release_receipt_sha256'' (bw_releases b ! i)\<rbrakk> \<Longrightarrow>
    review_moves w b (b\<lparr>bw_fixed := bw_fixed b @ ys, bw_receipts := bw_receipts b @ [s], bw_state := ReceiptFixed\<rparr>)"
| Closed: "\<lbrakk>bw_state b = ReceiptFixed; i = length (bw_closures b); i < length (bw_receipts b); i < length (bw_cards b);
    names w s ''human_receipt_sha256'' (bw_receipts b ! i)\<rbrakk> \<Longrightarrow>
    review_moves w b (b\<lparr>bw_fixed := bw_fixed b @ ys, bw_closures := bw_closures b @ [s], bw_state := UnitClosed\<rparr>)"
| Revealed: "\<lbrakk>bw_state b = UnitClosed; length (bw_closures b) = length (bw_units b); approves w ''bundle_unblind'' a;
    names w s ''human_authorization_receipt_sha256'' a;
    says w s ''required_human_receipt_hashes'' (hash_list (bw_receipts b)); says w s ''required_unit_closure_hashes'' (hash_list (bw_closures b))\<rbrakk> \<Longrightarrow>
    review_moves w b (b\<lparr>bw_fixed := bw_fixed b @ ys, bw_unblind := Some s, bw_state := MappingRevealed\<rparr>)"
| Compared: "\<lbrakk>bw_state b = MappingRevealed; bw_unblind b = Some u; names w s ''unblind_receipt_sha256'' u\<rbrakk> \<Longrightarrow>
    review_moves w b (b\<lparr>bw_fixed := bw_fixed b @ ys, bw_mechanical := Some s, bw_state := MechanicalRecorded\<rparr>)"
| Assessed: "\<lbrakk>bw_state b = MechanicalRecorded; bw_unblind b = Some u; names w s ''unblind_receipt_sha256'' u\<rbrakk> \<Longrightarrow>
    review_moves w b (b\<lparr>bw_fixed := bw_fixed b @ ys, bw_assessments := bw_assessments b @ [s], bw_input := Some x, bw_assessment := Some s,
      bw_state := AssessmentFixed\<rparr>)"
| Characterized: "\<lbrakk>bw_state b = AssessmentFixed; t = ReviewDeferred \<or> t = CharacterizationFixed\<rbrakk> \<Longrightarrow>
    review_moves w b (b\<lparr>bw_fixed := bw_fixed b @ ys, bw_characterization := Some s, bw_state := t\<rparr>)"
| Finished: "\<lbrakk>bw_state b = CharacterizationFixed; says w s ''human_receipt_hashes'' (hash_list (bw_receipts b));
    says w s ''unit_closure_hashes'' (hash_list (bw_closures b))\<rbrakk> \<Longrightarrow>
    review_moves w b (b\<lparr>bw_fixed := bw_fixed b @ ys, bw_closure := Some s, bw_state := BundleClosed\<rparr>)"
| Limited: "\<lbrakk>bw_state b \<notin> {BundleClosed, BundleInsufficient, ReviewDeferred}; says w s ''human_receipt_hashes'' (hash_list (bw_receipts b));
    says w s ''unit_closure_hashes'' (hash_list (bw_closures b))\<rbrakk> \<Longrightarrow>
    review_moves w b (b\<lparr>bw_fixed := bw_fixed b @ ys, bw_closure := Some s, bw_state := BundleInsufficient\<rparr>)"

lemma says_data: "snapshot_data w s = Inr v \<Longrightarrow> says w s k x \<longleftrightarrow> py_eq (got v k) x"
  by (simp add: says_def)

lemma asserted_Inr [simp]: "asserted x = Inr a \<longleftrightarrow> x = Some a"
  by (cases x) (simp_all add: asserted_def)

lemma nth_or_Inr [simp]: "nth_or xs i = Inr a \<longleftrightarrow> i < length xs \<and> xs ! i = a"
  by (simp add: nth_or_def)

lemma links_check_Inr: "links_check code v ls = Inr u \<longleftrightarrow> list_all (\<lambda>(k, x). py_eq (got v k) x) ls"
  by (simp add: links_check_def)

section \<open>The operations follow the protocol\<close>

lemmas op_facts = rbind_Inr_iff links_check_Inr current_unit_check_def says_data

lemma alias_moves: "review_moves w b (fst (fix_alias_commitment w vf c p a b))"
  unfolding fix_alias_commitment_def
  by (rule operate_via [where Q = "review_moves w b"]) (auto simp: op_facts intro: Kept Aliased)

lemma vs_says: "validate_snapshot w vf b k s = Inr v \<Longrightarrow> says w s f x \<longleftrightarrow> py_eq (got v f) x"
  by (simp add: says_data validate_snapshot_data)

lemma authorize_approves: "authorize w vf b op u s = Inr v \<Longrightarrow> approves w op s"
  using authorize_data [of w vf b op u s v] by (simp add: approves_def says_def)

lemma receipt_moves: "review_moves w b (fst (fix_human_receipt w vf s b))"
  unfolding fix_human_receipt_def Let_def
  by (rule operate_via [where Q = "review_moves w b"])
     (auto simp: op_facts coded_blind_def names_def vs_says intro!: Coded intro: Kept)

lemma unit_closure_moves: "review_moves w b (fst (verify_unit_closure w vf s b))"
  unfolding verify_unit_closure_def Let_def
  by (rule operate_via [where Q = "review_moves w b"])
     (auto simp: op_facts names_def vs_says intro!: Closed intro: Kept)

lemma previous_closure_Inr: "previous_closure b i = Inr p \<Longrightarrow> i = 0 \<or> p = JStr (snap_sha (last (bw_closures b)))"
  by (auto simp: previous_closure_def split: if_splits)

lemma Released_eq:
  assumes "bw_state b = AliasFixed \<or> bw_state b = UnitClosed" "\<not> bw_failure b" "length (bw_cards b) = length (bw_closures b)"
    "length (bw_cards b) < length (bw_units b)" "says w s ''reviewer_unit_id'' (JStr (bw_units b ! length (bw_cards b)))"
    "names w r ''reviewer_card_sha256'' s" "length (bw_cards b) = 0 \<or> names w r ''previous_unit_closure_sha256'' (last (bw_closures b))"
    "b' = b\<lparr>bw_fixed := bw_fixed b @ ys, bw_cards := bw_cards b @ [s], bw_releases := bw_releases b @ [r], bw_state := UnitReleased\<rparr>"
  shows "review_moves w b b'"
  unfolding assms(8) by (rule Released [OF assms(1,2) refl assms(3-7)])

lemma release_moves: "review_moves w b (fst (release_unit w vf c f r a b))"
  unfolding release_unit_def Let_def
proof (rule operate_via [where Q = "review_moves w b"], rule Kept)
qed (rule Released_eq [where s = c and r = r], auto simp: op_facts names_def vs_says simp del: length_0_conv dest!: previous_closure_Inr)

lemma reveal_moves: "review_moves w b (fst (reveal_mapping w vf vf' s a b))"
  unfolding reveal_mapping_def then_verify_fst
  by (rule operate_via [where Q = "review_moves w b"])
     (auto simp: op_facts names_def vs_says intro!: Revealed intro: Kept authorize_approves)

lemma mechanical_moves: "review_moves w b (fst (record_mechanical w vf s a b))"
  unfolding record_mechanical_def
  by (rule operate_via [where Q = "review_moves w b"])
     (auto simp: op_facts names_def vs_says intro!: Compared intro: Kept)

lemma assessment_moves: "review_moves w b (fst (fix_rationale_assessment w vf x s b))"
  unfolding fix_rationale_assessment_def
  by (rule operate_via [where Q = "review_moves w b"])
     (auto simp: op_facts names_def vs_says assessment_links_def intro!: Assessed intro: Kept)

lemma characterization_moves: "review_moves w b (fst (fix_characterization w vf s b))"
  unfolding fix_characterization_def Let_def
  by (rule operate_via [where Q = "review_moves w b"])
     (auto simp: op_facts split: if_splits intro!: Characterized intro: Kept)

lemma close_common_says: "close_common_checks w b whole v = Inr u \<Longrightarrow>
    py_eq (got v ''human_receipt_hashes'') (hash_list (bw_receipts b)) \<and> py_eq (got v ''unit_closure_hashes'') (hash_list (bw_closures b))"
  by (auto simp: close_common_checks_def op_facts)

lemma close_moves: "review_moves w b (fst (close_bundle w vf vf' s b))"
  unfolding close_bundle_def then_verify_fst
  by (rule operate_via [where Q = "review_moves w b"])
     (auto simp: op_facts vs_says closing_def dest!: close_common_says intro!: Finished intro: Kept)

lemma insufficient_moves: "review_moves w b (fst (close_insufficient w vf vf' s b))"
  unfolding close_insufficient_def then_verify_fst
  by (rule operate_via [where Q = "review_moves w b"])
     (auto simp: op_facts vs_says closing_def TERMINAL_STATES_def dest!: close_common_says intro!: Limited intro: Kept)

text \<open>
  C35. Every operation is a step of the review protocol: it adds fixed evidence and nothing else, or it makes one
  of the protocol's moves, under that move's conditions on the state and with evidence that names what the
  move demands.
\<close>

theorem bundle_refines_protocol: "review_moves w b (fst (bundle_act w x b))"
  by (cases x) (simp_all add: alias_moves release_moves receipt_moves unit_closure_moves reveal_moves mechanical_moves
      assessment_moves characterization_moves close_moves insufficient_moves)

section \<open>Invariants\<close>

definition early :: "bundle_workflow \<Rightarrow> bool" where
  "early b \<longleftrightarrow> bw_state b \<in> {Frozen, AliasFixed, UnitReleased, ReceiptFixed, UnitClosed}"

definition phase :: "bundle_workflow \<Rightarrow> bool" where
  "phase b \<longleftrightarrow> (case bw_state b of
       Frozen \<Rightarrow> bw_cards b = [] | AliasFixed \<Rightarrow> bw_cards b = []
     | UnitReleased \<Rightarrow> length (bw_cards b) = length (bw_closures b) + 1 \<and> length (bw_receipts b) = length (bw_closures b)
     | ReceiptFixed \<Rightarrow> length (bw_cards b) = length (bw_closures b) + 1 \<and> length (bw_receipts b) = length (bw_cards b)
     | UnitClosed \<Rightarrow> length (bw_cards b) = length (bw_closures b)
     | BundleInsufficient \<Rightarrow> True | _ \<Rightarrow> bw_unblind b \<noteq> None)"

definition counts :: "bundle_workflow \<Rightarrow> bool" where
  "counts b \<longleftrightarrow> length (bw_units b) = (if bw_failure b then 0 else 3) \<and> length (bw_releases b) = length (bw_cards b)
     \<and> length (bw_closures b) \<le> length (bw_receipts b) \<and> length (bw_receipts b) \<le> length (bw_cards b)
     \<and> length (bw_cards b) \<le> length (bw_closures b) + 1 \<and> length (bw_cards b) \<le> length (bw_units b)
     \<and> (bw_failure b \<longrightarrow> bw_state b = Frozen \<or> bw_state b = BundleInsufficient) \<and> phase b"

definition revealed_rightly :: "libs \<Rightarrow> bundle_workflow \<Rightarrow> bool" where
  "revealed_rightly w b \<longleftrightarrow> (case bw_unblind b of None \<Rightarrow> True
     | Some s \<Rightarrow> \<not> early b \<and> \<not> bw_failure b \<and> length (bw_closures b) = 3 \<and> length (bw_receipts b) = 3
         \<and> says w s ''required_human_receipt_hashes'' (hash_list (bw_receipts b))
         \<and> says w s ''required_unit_closure_hashes'' (hash_list (bw_closures b)))"

definition unit_linked :: "libs \<Rightarrow> bundle_workflow \<Rightarrow> nat \<Rightarrow> bool" where
  "unit_linked w b i \<longleftrightarrow> says w (bw_cards b ! i) ''reviewer_unit_id'' (JStr (bw_units b ! i))
     \<and> names w (bw_releases b ! i) ''reviewer_card_sha256'' (bw_cards b ! i)
     \<and> (i = 0 \<or> names w (bw_releases b ! i) ''previous_unit_closure_sha256'' (bw_closures b ! (i - 1)))"

definition coding_linked :: "libs \<Rightarrow> bundle_workflow \<Rightarrow> nat \<Rightarrow> bool" where
  "coding_linked w b i \<longleftrightarrow> coded_blind w (bw_receipts b ! i)
     \<and> names w (bw_receipts b ! i) ''reviewer_card_sha256'' (bw_cards b ! i)
     \<and> names w (bw_receipts b ! i) ''release_receipt_sha256'' (bw_releases b ! i)"

definition linked :: "libs \<Rightarrow> bundle_workflow \<Rightarrow> bool" where
  "linked w b \<longleftrightarrow> (\<forall>i < length (bw_cards b). unit_linked w b i) \<and> (\<forall>i < length (bw_receipts b). coding_linked w b i)
     \<and> (\<forall>i < length (bw_closures b). names w (bw_closures b ! i) ''human_receipt_sha256'' (bw_receipts b ! i))"

definition review_inv6 :: "libs \<Rightarrow> bundle_workflow \<Rightarrow> bool" where
  "review_inv6 w b \<longleftrightarrow> counts b \<and> revealed_rightly w b \<and> linked w b"

lemma phase_fixed [simp]: "phase (b\<lparr>bw_fixed := x\<rparr>) = phase b"
  by (simp add: phase_def split: bundle_state.split)

lemma counts_moves: "review_moves w b b' \<Longrightarrow> counts b \<Longrightarrow> counts b'"
proof (induction rule: review_moves.induct)
  case (Kept b ys)
  then show ?case by (simp add: counts_def)
qed (auto simp: counts_def phase_def split: if_splits)

lemma revealed_moves: "review_moves w b b' \<Longrightarrow> counts b \<Longrightarrow> revealed_rightly w b \<Longrightarrow> revealed_rightly w b'"
  by (induction rule: review_moves.induct)
     (auto simp: revealed_rightly_def early_def counts_def phase_def split: if_splits option.splits)

lemma nth_snoc: "i < length xs + 1 \<Longrightarrow> (xs @ [x]) ! i = (if i < length xs then xs ! i else x)"
  by (simp add: nth_append)

lemma linked_moves: "review_moves w b b' \<Longrightarrow> counts b \<Longrightarrow> linked w b \<Longrightarrow> linked w b'"
proof (induction rule: review_moves.induct)
  case (Released b i s r ys)
  have r: "length (bw_receipts b) = i" "length (bw_releases b) = i" using Released(3,4,9) by (auto simp: counts_def)
  have last: "i = 0 \<or> names w r ''previous_unit_closure_sha256'' (bw_closures b ! (i - 1))"
    using Released(4,8) last_conv_nth [of "bw_closures b"] by (cases "i = 0") auto
  show ?case
    using Released(6,7,10) r last Released(3,4) [symmetric] by (simp add: linked_def unit_linked_def coding_linked_def nth_append less_Suc_eq)
next
  case (Coded b i s ys)
  then show ?case
    by (auto simp: linked_def unit_linked_def coding_linked_def counts_def nth_append less_Suc_eq)
next
  case (Closed b i s ys)
  then show ?case
    by (auto simp: linked_def unit_linked_def coding_linked_def counts_def nth_append less_Suc_eq)
qed (simp_all add: linked_def unit_linked_def coding_linked_def)

lemma review_inv6_run: "review_inv6 w b \<Longrightarrow> review_inv6 w (bundle_run w xs b)"
proof (induction w xs b rule: bundle_run.induct)
  case (2 w x xs b)
  then show ?case
    using bundle_refines_protocol [of w b x] counts_moves revealed_moves linked_moves by (simp add: review_inv6_def)
qed simp

lemma BundleWorkflow_inv: "BundleWorkflow bind units anchor = Inr b \<Longrightarrow> review_inv6 w b \<and> bw_state b = Frozen \<and> bw_closure b = None"
  by (auto simp: BundleWorkflow_def Let_def rbind_Inr_iff review_inv6_def counts_def phase_def revealed_rightly_def linked_def split: if_splits)

section \<open>Properties of a bundle\<close>

definition reached :: "libs \<Rightarrow> bundle_binding \<Rightarrow> string list \<Rightarrow> string \<Rightarrow> bundle_op list \<Rightarrow> bundle_workflow option" where
  "reached w bind units anchor xs = (case BundleWorkflow bind units anchor of Inl _ \<Rightarrow> None | Inr b \<Rightarrow> Some (bundle_run w xs b))"

lemma reached_inv: "reached w bind units anchor xs = Some b \<Longrightarrow> review_inv6 w b"
  by (auto simp: reached_def BundleWorkflow_inv review_inv6_run split: sum.splits)

text \<open>
  C32. The mapping is revealed only after the coding. Whatever operations are called on a new bundle, with
  whatever artifacts and verifiers, when its mapping is revealed all three units have been coded and closed, the
  receipt that reveals it names exactly the receipts and closures fixed then, none has been added since, and
  every receipt fixed was coded blind to the mapping and to the mechanical result.
\<close>

theorem mapping_revealed_after_coding:
  "case reached w bind units anchor xs of None \<Rightarrow> True
   | Some b \<Rightarrow> list_all (coded_blind w) (bw_receipts b) \<and> (case bw_unblind b of None \<Rightarrow> True
       | Some s \<Rightarrow> length (bw_receipts b) = 3 \<and> length (bw_closures b) = 3
           \<and> says w s ''required_human_receipt_hashes'' (hash_list (bw_receipts b))
           \<and> says w s ''required_unit_closure_hashes'' (hash_list (bw_closures b)))"
proof (cases "reached w bind units anchor xs")
  case (Some b)
  then have "review_inv6 w b" by (rule reached_inv)
  then have "revealed_rightly w b" "\<forall>i < length (bw_receipts b). coded_blind w (bw_receipts b ! i)"
    by (simp_all add: review_inv6_def linked_def coding_linked_def)
  then show ?thesis by (auto simp: Some revealed_rightly_def list_all_length split: option.splits)
qed simp

text \<open>
  C33. Units are reviewed one at a time and in order. In every bundle reached a unit is released only when the
  one before it is closed: at most one is open, the card of a release is that of the scheduled unit, each
  release names its card and the closure of the unit before, each receipt its card and its release, each
  closure its receipt.
\<close>

theorem units_reviewed_in_order:
  "case reached w bind units anchor xs of None \<Rightarrow> True
   | Some b \<Rightarrow> length (bw_closures b) \<le> length (bw_receipts b) \<and> length (bw_receipts b) \<le> length (bw_cards b)
       \<and> length (bw_cards b) \<le> length (bw_closures b) + 1 \<and> length (bw_cards b) \<le> length (bw_units b)
       \<and> list_all (unit_linked w b) [0..<length (bw_cards b)] \<and> list_all (coding_linked w b) [0..<length (bw_receipts b)]
       \<and> list_all2 (\<lambda>c r. names w c ''human_receipt_sha256'' r) (bw_closures b) (take (length (bw_closures b)) (bw_receipts b))"
proof (cases "reached w bind units anchor xs")
  case (Some b)
  then have "review_inv6 w b" by (rule reached_inv)
  then show ?thesis by (auto simp: Some review_inv6_def counts_def linked_def list_all_iff list_all2_conv_all_nth)
qed simp

section \<open>What is fixed stays\<close>

definition evidence_grows :: "bundle_workflow \<Rightarrow> bundle_workflow \<Rightarrow> bool" where
  "evidence_grows b b' \<longleftrightarrow> prefix (bw_fixed b) (bw_fixed b') \<and> prefix (bw_cards b) (bw_cards b') \<and> prefix (bw_releases b) (bw_releases b')
     \<and> prefix (bw_receipts b) (bw_receipts b') \<and> prefix (bw_closures b) (bw_closures b') \<and> bw_units b' = bw_units b \<and> bw_binding b' = bw_binding b"

lemma grows_moves: "review_moves w b b' \<Longrightarrow> evidence_grows b b'"
  by (induction rule: review_moves.induct) (simp_all add: evidence_grows_def)

lemma evidence_grows_trans: "evidence_grows a b \<Longrightarrow> evidence_grows b c \<Longrightarrow> evidence_grows a c"
  by (auto simp: evidence_grows_def intro: prefix_order.trans)

lemma run_grows: "evidence_grows b (bundle_run w xs b)"
proof (induction w xs b rule: bundle_run.induct)
  case (1 w b)
  show ?case by (simp add: evidence_grows_def)
next
  case (2 w x xs b)
  show ?case using evidence_grows_trans [OF grows_moves [OF bundle_refines_protocol] 2] by simp
qed

definition settled :: "bundle_workflow \<Rightarrow> bool" where
  "settled b \<longleftrightarrow> bw_state b \<in> {BundleClosed, BundleInsufficient, ReviewDeferred}"

lemma operate_stuck: "(\<And>p. r \<noteq> Inr p) \<Longrightarrow> fst (operate r b) = b"
  by (cases r) (auto simp: operate_def)

lemma settled_stays: "settled b \<Longrightarrow> fst (bundle_act w x b) = b"
  by (cases x; simp only: bundle_act.simps fix_alias_commitment_def release_unit_def fix_human_receipt_def verify_unit_closure_def
      reveal_mapping_def record_mechanical_def fix_rationale_assessment_def fix_characterization_def close_bundle_def
      close_insufficient_def then_verify_fst Let_def; rule operate_stuck;
      auto simp: settled_def rbind_Inr_iff TERMINAL_STATES_def)

lemma settled_run: "settled b \<Longrightarrow> bundle_run w xs b = b"
  by (induction xs) (simp_all add: settled_stays)

text \<open>
  C34. What is fixed stays fixed. No sequence of operations takes an artifact from the fixed evidence, from the
  cards, releases, receipts or closures, or changes their order; and a bundle that is closed, closed for
  insufficient evidence or deferred is never changed again.
\<close>

theorem fixed_evidence_stays:
  "if bw_state b \<in> {BundleClosed, BundleInsufficient, ReviewDeferred} then bundle_run w xs b = b
   else prefix (bw_fixed b) (bw_fixed (bundle_run w xs b)) \<and> prefix (bw_cards b) (bw_cards (bundle_run w xs b))
      \<and> prefix (bw_releases b) (bw_releases (bundle_run w xs b)) \<and> prefix (bw_receipts b) (bw_receipts (bundle_run w xs b))
      \<and> prefix (bw_closures b) (bw_closures (bundle_run w xs b))"
  using run_grows [of b w xs] settled_run [of b w xs] by (simp add: evidence_grows_def settled_def)

section \<open>The cohort\<close>

definition closed_as :: "libs \<Rightarrow> cohort \<Rightarrow> nat \<Rightarrow> artifact_snapshot \<Rightarrow> bool" where
  "closed_as w c i s \<longleftrightarrow> i < length (co_bundles c)
     \<and> bw_state (co_bundles c ! i) \<in> {BundleClosed, BundleInsufficient} \<and> bw_closure (co_bundles c ! i) = Some s"

definition closed_in_order :: "libs \<Rightarrow> cohort \<Rightarrow> bool" where
  "closed_in_order w c \<longleftrightarrow> (\<exists>is. distinct is \<and> list_all2 (closed_as w c) is (co_closed c)
     \<and> (case co_current c of None \<Rightarrow> True | Some i \<Rightarrow> i \<notin> set is))"

definition positions_say :: "libs \<Rightarrow> artifact_snapshot list \<Rightarrow> bool" where
  "positions_say w ss \<longleftrightarrow> list_all2 (\<lambda>s k. says w s ''frozen_manifest_position'' (JInt k)) ss (take (length ss) COHORT_ORDER)"

definition aggregate_rightly :: "libs \<Rightarrow> cohort \<Rightarrow> bool" where
  "aggregate_rightly w c \<longleftrightarrow> (case co_aggregate c of None \<Rightarrow> co_review c = None
     | Some a \<Rightarrow> length (co_closed c) = 6 \<and> co_current c = None \<and> says w a ''terminal_bundle_closure_hashes'' (hash_list (co_closed c))
         \<and> (case co_review c of None \<Rightarrow> True | Some r \<Rightarrow> names w r ''aggregate_artifact_sha256'' a \<and> says w r ''approved'' (JBool True)))"

definition cohort_inv :: "libs \<Rightarrow> cohort \<Rightarrow> bool" where
  "cohort_inv w c \<longleftrightarrow> closed_in_order w c \<and> positions_say w (co_closed c) \<and> length (co_closed c) \<le> 6
     \<and> aggregate_rightly w c \<and> list_all (review_inv6 w) (co_bundles c)
     \<and> (case co_current c of None \<Rightarrow> True | Some i \<Rightarrow> length (co_closed c) < 6)"

lemma cohort_inv_frame:
  assumes "cohort_inv w c" "co_bundles c' = co_bundles c" "co_current c' = co_current c" "co_closed c' = co_closed c"
    "aggregate_rightly w c'"
  shows "cohort_inv w c'"
  using assms by (auto simp: cohort_inv_def closed_in_order_def closed_as_def cong: list.rel_cong split: option.splits)

lemma settle_via: "Q c \<Longrightarrow> (r = Inr () \<Longrightarrow> Q (f c)) \<Longrightarrow> Q (fst (settle r f c))"
  by (cases r) (auto simp: settle_def)

lemma COHORT_ORDER_length [simp]: "length COHORT_ORDER = 6"
  by (simp add: COHORT_ORDER_def)

lemma closed_as_update:
  assumes "list_all2 (closed_as w c) is ss" "\<And>j. j \<in> set is \<Longrightarrow> j < length (co_bundles c) \<Longrightarrow> bs ! j = co_bundles c ! j"
    "length (co_bundles c) \<le> length bs"
  shows "list_all2 (closed_as w (c\<lparr>co_bundles := bs\<rparr>)) is ss"
  using assms(1)
proof (rule list.rel_mono_strong)
  fix i s
  assume "i \<in> set is" "closed_as w c i s"
  then show "closed_as w (c\<lparr>co_bundles := bs\<rparr>) i s" using assms(2) [of i] assms(3) by (simp add: closed_as_def)
qed

lemma bundles_inv:
  assumes "cohort_inv w c" "\<And>is. list_all2 (closed_as w c) is (co_closed c) \<Longrightarrow> \<forall>j \<in> set is. j < length (co_bundles c) \<longrightarrow> bs ! j = co_bundles c ! j"
    "length (co_bundles c) \<le> length bs" "list_all (review_inv6 w) bs"
  shows "cohort_inv w (c\<lparr>co_bundles := bs\<rparr>)"
proof -
  have "closed_in_order w (c\<lparr>co_bundles := bs\<rparr>)"
    using assms(1) closed_as_update [OF _ _ assms(3)] assms(2) unfolding cohort_inv_def closed_in_order_def by fastforce
  then show ?thesis using assms(1,4) by (simp add: cohort_inv_def aggregate_rightly_def split: option.splits)
qed

lemma closed_as_settled: "list_all2 (closed_as w c) is ss \<Longrightarrow> j \<in> set is \<Longrightarrow> settled (co_bundles c ! j)"
  by (auto simp: list_all2_conv_all_nth in_set_conv_nth closed_as_def settled_def)

lemma on_bundle_inv: "cohort_inv w c \<Longrightarrow> cohort_inv w (fst (cohort_act w (OnBundle i x) c))"
proof (cases "i < length (co_bundles c)")
  case True
  assume inv: "cohort_inv w c"
  let ?bs = "(co_bundles c)[i := fst (bundle_act w x (co_bundles c ! i))]"
  have "cohort_inv w (c\<lparr>co_bundles := ?bs\<rparr>)"
  proof (rule bundles_inv [OF inv])
    show "\<forall>j \<in> set is. j < length (co_bundles c) \<longrightarrow> ?bs ! j = co_bundles c ! j" if "list_all2 (closed_as w c) is (co_closed c)" for "is"
      using closed_as_settled [OF that] settled_stays [of _ w x] by (metis nth_list_update_eq nth_list_update_neq)
    show "list_all (review_inv6 w) ?bs"
      using inv True review_inv6_run [of w "co_bundles c ! i" "[x]"]
      by (auto simp: cohort_inv_def list_all_length nth_list_update)
  qed simp
  then show ?thesis using True by (simp add: nth_or_def)
qed (simp add: nth_or_def)

lemma make_bundle_inv: "cohort_inv w c \<Longrightarrow> cohort_inv w (fst (cohort_act w (MakeBundle b us a) c))"
proof (cases "BundleWorkflow b us a")
  case (Inr x)
  assume inv: "cohort_inv w c"
  have "cohort_inv w (c\<lparr>co_bundles := co_bundles c @ [x]\<rparr>)"
    using inv BundleWorkflow_inv [OF Inr] by (intro bundles_inv) (auto simp: nth_append cohort_inv_def)
  then show ?thesis using Inr by simp
qed simp

lemma nth_fresh: "list_all2 (closed_as w c) is ss \<Longrightarrow> bw_state (co_bundles c ! i) = Frozen \<Longrightarrow> i \<notin> set is"
  by (auto simp: list_all2_conv_all_nth in_set_conv_nth closed_as_def)

lemma closed_as_current [simp]: "closed_as w (c\<lparr>co_current := x\<rparr>) = closed_as w c" "closed_as w (c\<lparr>co_closed := y\<rparr>) = closed_as w c"
    "closed_as w (c\<lparr>co_closed := y, co_current := x\<rparr>) = closed_as w c"
  by (simp_all add: closed_as_def fun_eq_iff)

lemma open_inv:
  assumes "cohort_inv w c"
  shows "cohort_inv w (fst (open_next_bundle w vf i a c))"
  unfolding open_next_bundle_def
proof (rule settle_via [where Q = "cohort_inv w"], rule assms, goal_cases)
  case 1
  then have f: "co_current c = None" "length (co_closed c) < 6" "i < length (co_bundles c)" "bw_state (co_bundles c ! i) = Frozen"
    by (auto simp: rbind_Inr_iff)
  obtain "is" where is0: "distinct is" "list_all2 (closed_as w c) is (co_closed c)" using assms by (auto simp: cohort_inv_def closed_in_order_def)
  then have "closed_in_order w (c\<lparr>co_current := Some i\<rparr>)" using nth_fresh [OF is0(2) f(4)] by (auto simp: closed_in_order_def)
  moreover have "co_aggregate c = None" using assms f(2) by (auto simp: cohort_inv_def aggregate_rightly_def split: option.splits)
  ultimately show ?case using assms f(2) by (simp add: cohort_inv_def aggregate_rightly_def)
qed

lemma record_terminal_inv:
  assumes "cohort_inv w c"
  shows "cohort_inv w (fst (record_terminal w vf vb i c))"
proof (cases "co_current c = Some i \<and> i < length (co_bundles c) \<and> bw_closure (co_bundles c ! i) \<noteq> None")
  case True
  then obtain s where s: "co_current c = Some i" "i < length (co_bundles c)" "bw_closure (co_bundles c ! i) = Some s" by blast
  obtain "is" where is0: "distinct is" "list_all2 (closed_as w c) is (co_closed c)" "i \<notin> set is"
    using assms s(1) by (auto simp: cohort_inv_def closed_in_order_def)
  have n: "nth_or (co_bundles c) i = Inr (co_bundles c ! i)" using s(2) by (simp add: nth_or_def)
  show ?thesis
    unfolding record_terminal_def s(1) option.case(2) n sum.case(2) s(3) simp_thms if_False
  proof (rule settle_via [where Q = "cohort_inv w"], rule assms, goal_cases)
    case 1
    then obtain p k where f: "bw_state (co_bundles c ! i) \<in> {BundleClosed, BundleInsufficient}" "data_item w ''frozen_manifest_position'' s = Inr p"
        "length (co_closed c) < 6" "COHORT_ORDER ! length (co_closed c) = k" "py_eq p (JInt k)"
      by (auto simp: rbind_Inr_iff TERMINAL_STATES_def)
    have "closed_as w c i s" using s(2,3) f(1) by (simp add: closed_as_def)
    then have l: "list_all2 (closed_as w c) (is @ [i]) (co_closed c @ [s])" using is0(2) by (simp add: list_all2_appendI)
    then have o: "closed_in_order w (c\<lparr>co_closed := co_closed c @ [s], co_current := None\<rparr>)"
      unfolding closed_in_order_def by (intro exI [of _ "is @ [i]"]) (simp add: is0)
    have "says w s ''frozen_manifest_position'' (JInt k)"
      using f(2,5) item_got by (auto simp: data_item_def rbind_Inr_iff says_def split: sum.splits)
    then have "positions_say w (co_closed c @ [s])"
      using assms f(3,4) by (auto simp: cohort_inv_def positions_say_def take_Suc_conv_app_nth list_all2_appendI)
    moreover have "co_aggregate c = None" using assms f(3) by (auto simp: cohort_inv_def aggregate_rightly_def split: option.splits)
    ultimately show ?case using assms f(3) o by (simp add: cohort_inv_def aggregate_rightly_def)
  qed
next
  case False
  then have "fst (record_terminal w vf vb i c) = c"
    by (auto simp: record_terminal_def nth_or_def split: option.splits sum.splits)
  then show ?thesis using assms by simp
qed

lemma aggregate_inv:
  assumes "cohort_inv w c"
  shows "cohort_inv w (fst (record_aggregate_completion w vf s a c))"
  unfolding record_aggregate_completion_def
proof (rule settle_via [where Q = "cohort_inv w"], rule assms, goal_cases)
  case 1
  then show ?case
    using assms by (intro cohort_inv_frame [OF assms])
      (auto simp: rbind_Inr_iff aggregate_authority_def says_data cohort_inv_def aggregate_rightly_def)
qed

lemma aggregate_review_inv:
  assumes "cohort_inv w c"
  shows "cohort_inv w (fst (record_aggregate_review w vf s c))"
  unfolding record_aggregate_review_def
proof (rule settle_via [where Q = "cohort_inv w"], rule assms, goal_cases)
  case 1
  then show ?case
    using assms by (intro cohort_inv_frame [OF assms])
      (auto simp: rbind_Inr_iff names_def says_data cohort_inv_def aggregate_rightly_def split: option.splits)
qed

lemma cohort_act_inv: "cohort_inv w c \<Longrightarrow> cohort_inv w (fst (cohort_act w x c))"
proof (cases x)
  case (OnBundle i y)
  then show "cohort_inv w c \<Longrightarrow> cohort_inv w (fst (cohort_act w x c))" using on_bundle_inv by simp
next
  case (MakeBundle b us a)
  then show "cohort_inv w c \<Longrightarrow> cohort_inv w (fst (cohort_act w x c))" using make_bundle_inv by simp
next
  case (AggregateAuthority vf a)
  then show "cohort_inv w c \<Longrightarrow> cohort_inv w (fst (cohort_act w x c))"
    by (auto simp: require_aggregate_authority_def settle_def split: sum.splits)
next
  case (JudgeAuthority vf a)
  then show "cohort_inv w c \<Longrightarrow> cohort_inv w (fst (cohort_act w x c))"
    by (auto simp: require_judge_authority_def settle_def split: sum.splits)
qed (simp_all add: open_inv record_terminal_inv aggregate_inv aggregate_review_inv)

lemma cohort_run_inv: "cohort_inv w c \<Longrightarrow> cohort_inv w (cohort_run w xs c)"
  by (induction w xs c rule: cohort_run.induct) (simp_all add: cohort_act_inv)

definition cohort_reached :: "libs \<Rightarrow> cohort_op list \<Rightarrow> cohort" where
  "cohort_reached w xs = (case CohortWorkflow COHORT_ORDER [] of Inr c \<Rightarrow> cohort_run w xs c)"

lemma cohort_reached_inv: "cohort_inv w (cohort_reached w xs)"
proof -
  have "cohort_inv w \<lparr>co_bundles = [], co_current = None, co_closed = [], co_aggregate = None, co_review = None\<rparr>"
    by (simp add: cohort_inv_def closed_in_order_def positions_say_def aggregate_rightly_def)
  then show ?thesis unfolding cohort_reached_def CohortWorkflow_def require_def by (simp add: cohort_run_inv)
qed

definition six_closed :: "libs \<Rightarrow> cohort \<Rightarrow> bool" where
  "six_closed w c \<longleftrightarrow> (\<exists>is. distinct is \<and> length is = 6 \<and> list_all2 (closed_as w c) is (co_closed c))
     \<and> list_all2 (\<lambda>s k. says w s ''frozen_manifest_position'' (JInt k)) (co_closed c) [1, 2, 3, 4, 5, 6]"

lemma six_closedI:
  assumes "cohort_inv w c" "length (co_closed c) = 6"
  shows "six_closed w c"
proof -
  obtain "is" where "distinct is" "list_all2 (closed_as w c) is (co_closed c)" using assms(1) by (auto simp: cohort_inv_def closed_in_order_def)
  moreover from this(2) have "length is = 6" using assms(2) by (simp add: list_all2_lengthD)
  ultimately show ?thesis using assms by (auto simp: six_closed_def cohort_inv_def positions_say_def COHORT_ORDER_def)
qed

text \<open>
  C36. The aggregate comes after six closures, its review after it. Whatever is done with the bundles of a cohort,
  an aggregate is recorded only when six different bundles have ended, in the frozen order 1 to 6, and it
  names exactly their closures; a review of the aggregate is recorded only for that aggregate and approved;
  the choice of the judge is authorised only after both, with an approval of that operation.
\<close>

theorem judge_after_reviewed_aggregate:
  "(case co_aggregate (cohort_reached w xs) of None \<Rightarrow> co_review (cohort_reached w xs) = None
    | Some a \<Rightarrow> six_closed w (cohort_reached w xs)
        \<and> says w a ''terminal_bundle_closure_hashes'' (hash_list (co_closed (cohort_reached w xs)))
        \<and> (case co_review (cohort_reached w xs) of None \<Rightarrow> True
           | Some r \<Rightarrow> names w r ''aggregate_artifact_sha256'' a \<and> says w r ''approved'' (JBool True)))
   \<and> (case snd (require_judge_authority w vf j (cohort_reached w xs)) of Inl _ \<Rightarrow> True
      | Inr _ \<Rightarrow> co_aggregate (cohort_reached w xs) \<noteq> None \<and> co_review (cohort_reached w xs) \<noteq> None \<and> approves w ''judge_selection'' j)"
proof (intro conjI)
  let ?c = "cohort_reached w xs"
  have inv: "cohort_inv w ?c" by (rule cohort_reached_inv)
  then have "aggregate_rightly w ?c" by (simp add: cohort_inv_def)
  then show "case co_aggregate ?c of None \<Rightarrow> co_review ?c = None
    | Some a \<Rightarrow> six_closed w ?c \<and> says w a ''terminal_bundle_closure_hashes'' (hash_list (co_closed ?c))
        \<and> (case co_review ?c of None \<Rightarrow> True | Some r \<Rightarrow> names w r ''aggregate_artifact_sha256'' a \<and> says w r ''approved'' (JBool True))"
    using six_closedI [OF inv] by (auto simp: aggregate_rightly_def split: option.splits)
  show "case snd (require_judge_authority w vf j ?c) of Inl _ \<Rightarrow> True
      | Inr _ \<Rightarrow> co_aggregate ?c \<noteq> None \<and> co_review ?c \<noteq> None \<and> approves w ''judge_selection'' j"
    by (auto simp: require_judge_authority_def settle_def cohort_authority_def rbind_Inr_iff approves_def says_data
        split: sum.splits option.splits)
qed

end
