(* ===== verification/Rq6Closure.thy ===== *)
theory Rq6Closure
  imports Rq6Schemas
begin

text \<open>
  The contract of a bundle closure, stated apart from the code that checks it: the rule of disposition that the
  locked amendment freezes (\<open>docs/JUDGE_RQ6_AMENDMENT_001.md\<close>) as a relation over the observations, and the
  declared type of each field. The property says that every closure \<open>rq6/schemas.py\<close> accepts keeps both.
\<close>

section \<open>The frozen rule of disposition\<close>

text \<open>
  An axis varies when two observations differ on it. The flags of an observation are a set; \<open>NONE\<close> stands for no
  flag and does not go with others. \<open>varied\<close> and \<open>boundary\<close> are the human finding on the rationales: whether they
  vary materially, and whether that changes a material boundary; \<open>None\<close> is unresolved.
\<close>

definition differ :: "'a list \<Rightarrow> bool" where
  "differ xs \<longleftrightarrow> (\<exists>x \<in> set xs. \<exists>y \<in> set xs. x \<noteq> y)"

definition flags_differ :: "string set list \<Rightarrow> bool" where
  "flags_differ fs \<longleftrightarrow> differ (map (\<lambda>F. F - {''NONE''}) fs)"

definition flags_unmixed :: "string set list \<Rightarrow> bool" where
  "flags_unmixed fs \<longleftrightarrow> (\<forall>F \<in> set fs. ''NONE'' \<in> F \<longrightarrow> F = {''NONE''})"

definition judged :: "bool \<Rightarrow> string set list \<Rightarrow> bool option \<Rightarrow> bool" where
  "judged whole fs boundary \<longleftrightarrow> whole \<and> flags_unmixed fs \<and> boundary \<noteq> None"

inductive frozen_rule :: "bool \<Rightarrow> string list \<Rightarrow> string set list \<Rightarrow> bool option \<Rightarrow> bool option \<Rightarrow> string \<Rightarrow> bool"
  for whole :: bool and cs :: "string list" and fs :: "string set list" and varied :: "bool option" and boundary :: "bool option"
where
  insufficient: "\<not> whole \<Longrightarrow> frozen_rule whole cs fs varied boundary ''INSUFFICIENT_REPEAT_EVIDENCE''"
| both_axes: "judged whole fs boundary \<Longrightarrow> differ cs \<Longrightarrow> flags_differ fs \<Longrightarrow>
    frozen_rule whole cs fs varied boundary ''MULTI_AXIS_VARIABLE''"
| only_class: "judged whole fs boundary \<Longrightarrow> differ cs \<Longrightarrow> \<not> flags_differ fs \<Longrightarrow>
    frozen_rule whole cs fs varied boundary ''CLASSIFICATION_VARIABLE''"
| only_flags: "judged whole fs boundary \<Longrightarrow> \<not> differ cs \<Longrightarrow> flags_differ fs \<Longrightarrow>
    frozen_rule whole cs fs varied boundary ''STRUCTURED_SIGNAL_VARIABLE''"
| only_rationale: "judged whole fs boundary \<Longrightarrow> \<not> differ cs \<Longrightarrow> \<not> flags_differ fs \<Longrightarrow> varied = Some True \<Longrightarrow> boundary = Some False \<Longrightarrow>
    frozen_rule whole cs fs varied boundary ''STABLE_WITH_RATIONALE_VARIATION''"
| nothing_varies: "judged whole fs boundary \<Longrightarrow> \<not> differ cs \<Longrightarrow> \<not> flags_differ fs \<Longrightarrow> varied = Some False \<Longrightarrow> boundary = Some False \<Longrightarrow>
    frozen_rule whole cs fs varied boundary ''STABLE''"

lemmas frozen_rule_simps = frozen_rule.simps [of _ _ _ _ _ d for d]

lemma frozen_rule_unique: "frozen_rule c cs fs x b d \<Longrightarrow> frozen_rule c cs fs x b d' \<Longrightarrow> d = d'"
  by (auto simp: frozen_rule_simps judged_def)

lemma varies_differ: "varies xs \<longleftrightarrow> differ xs"
proof -
  have "1 < card (set xs) \<longleftrightarrow> (\<exists>x \<in> set xs. \<exists>y \<in> set xs. x \<noteq> y)"
    using card_le_Suc0_iff_eq [of "set xs"] by (auto simp: not_le [symmetric])
  then show ?thesis by (simp add: varies_def differ_def length_remdups_card_conv)
qed

lemma differ_map_cong:
  "(\<And>x y. x \<in> set xs \<Longrightarrow> y \<in> set xs \<Longrightarrow> f x = f y \<longleftrightarrow> g x = g y) \<Longrightarrow> differ (map f xs) \<longleftrightarrow> differ (map g xs)"
  unfolding differ_def set_map by blast

section \<open>The declared types\<close>

fun as_bool :: "json \<Rightarrow> bool option" where "as_bool (JBool b) = Some b" | "as_bool _ = None"

fun unit_interval :: "json \<Rightarrow> bool" where
  "unit_interval (JInt i) = (0 \<le> i \<and> i \<le> 1)"
| "unit_interval (JNum r t) = (0 \<le> r \<and> r \<le> 1)"
| "unit_interval _ = False"

definition is_text :: "json \<Rightarrow> bool" where
  "is_text v \<longleftrightarrow> is_str v \<and> strip_space (str_of v) \<noteq> []"

definition is_time :: "json \<Rightarrow> bool" where
  "is_time v \<longleftrightarrow> is_str v \<and> timestamp_shape (str_of v) \<and> calendar_time (str_of v)"

definition is_record :: "json \<Rightarrow> bool" where
  "is_record v \<longleftrightarrow> is_obj v \<and> members_of v \<noteq> []"

definition list_of :: "(json \<Rightarrow> bool) \<Rightarrow> bool \<Rightarrow> json \<Rightarrow> bool" where
  "list_of P full v \<longleftrightarrow> is_list v \<and> list_all P (elems_of v) \<and> (full \<longrightarrow> elems_of v \<noteq> [])"

definition digests :: "bool \<Rightarrow> json \<Rightarrow> bool" where
  "digests full v \<longleftrightarrow> list_of is_hash full v \<and> distinct (elems_of v)"

definition given :: "(json \<Rightarrow> bool) \<Rightarrow> bool \<Rightarrow> json \<Rightarrow> bool" where
  "given P full v \<longleftrightarrow> (if v = JNull then \<not> full else P v)"

definition raw_flags :: "json \<Rightarrow> bool" where
  "raw_flags v \<longleftrightarrow> list_of (one_of RQ6_FLAGS) False v \<and> length (elems_of v) \<le> 8"

definition flag_set :: "json \<Rightarrow> bool" where
  "flag_set v \<longleftrightarrow> list_of (one_of RQ6_FLAGS) False v \<and> sorted (map str_of (elems_of v)) \<and> distinct (map str_of (elems_of v))
     \<and> ''NONE'' \<notin> set (map str_of (elems_of v))"

definition control_results :: "bool \<Rightarrow> json \<Rightarrow> bool" where
  "control_results full v \<longleftrightarrow> is_record v \<and> set (jkeys v) \<subseteq> set VALIDATION_IDS
     \<and> list_all (one_of (if full then [''PASS''] else VALIDATION_STATUSES)) (map snd (members_of v))"

definition text_or_record :: "json \<Rightarrow> bool" where
  "text_or_record v \<longleftrightarrow> (if is_str v then is_text v else is_record v)"

definition bundle_identifier :: "json \<Rightarrow> bool" where
  "bundle_identifier v \<longleftrightarrow> (if is_str v \<and> failure_id (str_of v) then True else is_hash v)"

text \<open>Every declared field of a closure with its type; \<open>full\<close> is whether the repeat evidence is complete.\<close>

definition CLOSURE_TYPES :: "(string \<times> (bool \<Rightarrow> json \<Rightarrow> bool)) list" where
  "CLOSURE_TYPES = [
     (''schema_version'', \<lambda>full v. v = JStr ''judge-repeat-bundle-closure-amendment-001-v1''),
     (''protocol_id'', \<lambda>full v. v = JStr ''CIVICGATE-JUDGE-COMPARISON-V1''),
     (''amendment_id'', \<lambda>full v. v = JStr ''CIVICGATE-RQ6-AMENDMENT-001''),
     (''package_id'', \<lambda>full. is_text), (''bundle_review_id'', \<lambda>full. bundle_identifier),
     (''frozen_manifest_position'', \<lambda>full v. is_int v \<and> 0 < int_of_json v), (''applicable_primary_case_id'', \<lambda>full. is_text),
     (''source_artifact_hashes'', digests), (''reviewer_unit_ids'', digests), (''reviewer_artifact_hashes'', digests),
     (''alias_commitment_sha256'', given is_hash), (''human_receipt_hashes'', digests), (''unit_closure_hashes'', digests),
     (''unblind_receipt_sha256'', given is_hash), (''revealed_source_mapping'', given is_record),
     (''primary_anchor_hashes'', digests), (''stored_classifications'', list_of (one_of RQ6_CLASSIFICATIONS)),
     (''stored_structured_flag_lists'', list_of raw_flags), (''stored_confidences'', list_of unit_interval),
     (''normalized_flag_sets'', list_of flag_set), (''per_model_primary_repeat_comparison'', given is_record),
     (''confidence_descriptive_values_and_range'', given is_record), (''frozen_rationale_variation_record'', given is_record),
     (''review_status'', \<lambda>full v. is_text v \<and> v \<noteq> JStr DEFERRED),
     (''stability_disposition'', \<lambda>full v. v = JStr INSUFFICIENT \<longleftrightarrow> \<not> full),
     (''timestamps'', \<lambda>full v. is_record v \<and> list_all is_time (map snd (members_of v))),
     (''validation_results'', control_results), (''provenance_hashes'', digests),
     (''state'', \<lambda>full v. v = JStr (if full then ''RQ6_BUNDLE_CLOSED'' else ''RQ6_BUNDLE_CLOSED_INSUFFICIENT_REPEAT_EVIDENCE'')),
     (''rationale_variation_assessment_receipt_sha256'', given is_hash), (''reviewer_access_policy_sha256'', \<lambda>full. is_hash),
     (''authorized_identity_audience'', \<lambda>full. list_of text_or_record True), (''expected_evidence'', \<lambda>full. list_of text_or_record True),
     (''available_evidence'', \<lambda>full. list_of text_or_record False), (''missing_evidence'', \<lambda>full. list_of text_or_record False),
     (''unusable_evidence'', \<lambda>full. list_of text_or_record False),
     (''evidence_limitation_reasons'', \<lambda>full. list_of text_or_record (\<not> full)),
     (''relevant_hashes_or_validation_failures'', \<lambda>full. list_of text_or_record (\<not> full)),
     (''stability_not_established_reason'', \<lambda>full v. if full then v \<in> {JNull, JStr []} else is_text v)]"

text \<open>Complete repeat evidence: nothing missing or unusable, three reviewed units, four observations.\<close>

definition evidence_complete :: "json \<Rightarrow> bool" where
  "evidence_complete v \<longleftrightarrow> elems_of (got v ''missing_evidence'') = [] \<and> elems_of (got v ''unusable_evidence'') = []
     \<and> list_all (\<lambda>f. length (elems_of (got v f)) = 3) [''reviewer_unit_ids'', ''human_receipt_hashes'', ''unit_closure_hashes'']
     \<and> list_all (\<lambda>f. length (elems_of (got v f)) = 4) [''stored_classifications'', ''stored_structured_flag_lists'',
          ''stored_confidences'', ''normalized_flag_sets'']"

definition closure_classes :: "json \<Rightarrow> string list" where
  "closure_classes v = map str_of (elems_of (got v ''stored_classifications''))"

definition closure_flags :: "json \<Rightarrow> string set list" where
  "closure_flags v = map (\<lambda>x. set (map str_of (elems_of x))) (elems_of (got v ''normalized_flag_sets''))"

definition closure_finding :: "string \<Rightarrow> json \<Rightarrow> bool option" where
  "closure_finding k v = as_bool (got (got v ''frozen_rationale_variation_record'') k)"

section \<open>What the checks mean\<close>

declare all_of.simps [simp del]

lemma text_check_Inr: "text_check True x = Inr () \<longleftrightarrow> is_text x"
  by (simp add: text_check_def is_text_def)

lemma timestamp_check_Inr: "timestamp_check x = Inr () \<longleftrightarrow> is_time x"
  by (simp add: timestamp_check_def is_time_def)

lemma hash_check6_Inr: "hash_check6 x = Inr () \<longleftrightarrow> is_hash x"
  by (simp add: hash_check6_def)

lemma array_check_Inr: "array_check ne x = Inr () \<longleftrightarrow> is_list x \<and> (ne \<longrightarrow> elems_of x \<noteq> [])"
  by (auto simp: array_check_def)

lemma hashes_check_Inr: "hashes_check ne x = Inr () \<longleftrightarrow> digests ne x"
  by (auto simp: hashes_check_def digests_def list_of_def array_check_Inr hash_check6_Inr list_all_iff)

lemma each_check_Inr: "each_check ne f x = Inr () \<longleftrightarrow> list_of (\<lambda>y. f y = Inr ()) ne x"
  by (auto simp: each_check_def list_of_def array_check_Inr list_all_iff)

lemma confidence_check_Inr: "confidence_check x = Inr () \<longleftrightarrow> unit_interval x"
  by (cases x) simp_all

lemma sorted_distinct_iff: "xs = sort (remdups xs) \<longleftrightarrow> sorted xs \<and> distinct xs"
  by (metis distinct_remdups distinct_remdups_id distinct_sort sorted_sort sorted_sort_id)

lemma flags_strings: "list_all (one_of ss) xs \<Longrightarrow> JStr s \<in> set xs \<longleftrightarrow> s \<in> str_of ` set xs"
proof (induction xs)
  case (Cons x xs)
  then show ?case by (cases x) (auto simp: one_of_def)
qed simp

lemma flags_check_Inr: "flags_check False x = Inr () \<longleftrightarrow> raw_flags x" "flags_check True x = Inr () \<longleftrightarrow> flag_set x"
  by (auto simp: flags_check_def raw_flags_def flag_set_def list_of_def array_check_Inr sorted_distinct_iff flags_strings)

lemma results_check_Inr: "results_check full x = Inr () \<Longrightarrow> control_results full x"
  by (auto simp: results_check_def control_results_def is_record_def object_check_def one_of_def list_all_iff)

lemma recipient_check_Inr: "recipient_check x = Inr () \<Longrightarrow> text_or_record x"
  by (auto simp: recipient_check_def text_or_record_def is_record_def object_check_def text_check_Inr split: if_splits)

lemma evidence_item_Inr: "evidence_item_check x = Inr () \<Longrightarrow> text_or_record x"
  by (auto simp: evidence_item_check_def text_or_record_def is_record_def text_check_Inr split: if_splits)

lemma list_of_mono: "list_of P full x \<Longrightarrow> (\<And>y. P y \<Longrightarrow> Q y) \<Longrightarrow> list_of Q full x"
  by (auto simp: list_of_def list_all_iff)

lemma recipients_check_Inr: "recipients_check x = Inr () \<Longrightarrow> list_of text_or_record True x"
  by (auto simp: recipients_check_def list_of_def array_check_Inr list_all_iff intro: recipient_check_Inr)

lemma evidence_check_Inr: "evidence_check ne x = Inr () \<Longrightarrow> list_of text_or_record ne x"
  by (auto simp: evidence_check_def list_of_def array_check_Inr list_all_iff intro: evidence_item_Inr)

lemma record_check_Inr:
  "closure_record_check ins v f = Inr () \<Longrightarrow> \<not> ends_with ''_sha256'' f \<Longrightarrow> given is_record (\<not> ins) (got v f)"
  by (auto simp: closure_record_check_def given_def is_record_def Let_def split: if_splits)

lemma got_member:
  assumes "same_keys v ks" "f \<in> set ks"
  shows "(f, got v f) \<in> set (members_of v)"
proof -
  obtain ms where v: "v = JObj ms" using assms(1) by (cases v) (auto simp: same_keys_def)
  then have "f \<in> fst ` set ms" using assms by (auto simp: same_keys_def)
  then obtain x where "map_of ms f = Some x" by (metis map_of_eq_None_iff option.exhaust)
  then show ?thesis using map_of_SomeD [of ms f x] by (simp add: v jget_or_def)
qed

lemma sha_field:
  assumes "common_check what v = Inr ()" "same_keys v ks" "f \<in> set ks" "ends_with ''_sha256'' f"
  shows "given is_hash (\<not> nullable_hash what v f) (got v f)"
proof -
  have "field_check what v (f, got v f) = Inr ()"
    using assms(1) got_member [OF assms(2,3)] by (auto simp: common_check_def)
  then show ?thesis using assms(4) by (auto simp: field_check_def given_def hash_check6_Inr split: if_splits)
qed

lemma header_fields:
  assumes "common_check ''bundle_closure'' v = Inr ()"
  shows "got v ''schema_version'' = JStr ''judge-repeat-bundle-closure-amendment-001-v1''"
    "got v ''protocol_id'' = JStr ''CIVICGATE-JUDGE-COMPARISON-V1''" "got v ''amendment_id'' = JStr ''CIVICGATE-RQ6-AMENDMENT-001''"
    "is_text (got v ''package_id'')" "bundle_identifier (got v ''bundle_review_id'')"
proof -
  have "header_check ''bundle_closure'' v = Inr ()" using assms by (simp add: common_check_def)
  then show "got v ''schema_version'' = JStr ''judge-repeat-bundle-closure-amendment-001-v1''"
      "got v ''protocol_id'' = JStr ''CIVICGATE-JUDGE-COMPARISON-V1''" "got v ''amendment_id'' = JStr ''CIVICGATE-RQ6-AMENDMENT-001''"
      "is_text (got v ''package_id'')" "bundle_identifier (got v ''bundle_review_id'')"
    by (auto simp: header_check_def SCHEMA_VERSIONS_def PROTOCOL_ID_def AMENDMENT_ID_def text_check_Inr hash_check6_Inr
        bundle_identifier_def split: if_splits)
qed

section \<open>An accepted closure\<close>

text \<open>The gates an accepted closure has passed.\<close>

lemma accepted_gates:
  assumes "validate_artifact ''bundle_closure'' v = Inr u"
  defines "ins \<equiv> got v ''stability_disposition'' = JStr INSUFFICIENT"
  obtains "same_keys v (map fst CLOSURE_TYPES)" "finite_json v" "common_check ''bundle_closure'' v = Inr ()"
    "one_of STABILITY_DISPOSITIONS (got v ''stability_disposition'')"
    "got v ''state'' = JStr (if ins then ''RQ6_BUNDLE_CLOSED_INSUFFICIENT_REPEAT_EVIDENCE'' else ''RQ6_BUNDLE_CLOSED'')"
    "\<forall>x \<in> set (closure_fields_checks ins v). x = Inr ()" "\<forall>x \<in> set (closure_failure_checks ins v). x = Inr ()"
    "\<forall>x \<in> set (if ins then insufficient_checks v else complete_checks v). x = Inr ()"
proof -
  have f: "map_of RQ6_FIELDS ''bundle_closure'' = Some (map fst CLOSURE_TYPES)"
    by (simp add: RQ6_FIELDS_def CLOSURE_TYPES_def HEADER_FIELDS_def)
  have a: "fields_check (map fst CLOSURE_TYPES) v = Inr ()" "json_check v = Inr ()" "common_check ''bundle_closure'' v = Inr ()"
    "kind_check ''bundle_closure'' v = Inr ()"
    using assms(1) by (simp_all add: validate_artifact_def f)
  then have c: "closure_check v = Inr ()" by (simp add: kind_check_def)
  show thesis
    using a(1-3) c unfolding closure_check_def Let_def ins_def [symmetric]
    by (intro that) (auto simp: fields_check_def json_check_def)
qed

lemma field_types:
  assumes "\<forall>x \<in> set (closure_fields_checks ins v). x = Inr ()"
  shows "is_text (got v ''review_status'')" "got v ''review_status'' \<noteq> JStr DEFERRED"
    "is_int (got v ''frozen_manifest_position'')" "0 < int_of_json (got v ''frozen_manifest_position'')" "is_text (got v ''applicable_primary_case_id'')"
    "list_all (\<lambda>f. digests (\<not> ins) (got v f)) [''source_artifact_hashes'', ''reviewer_artifact_hashes'', ''human_receipt_hashes'',
       ''unit_closure_hashes'', ''primary_anchor_hashes'', ''provenance_hashes'', ''reviewer_unit_ids'']"
    "list_of (one_of RQ6_CLASSIFICATIONS) (\<not> ins) (got v ''stored_classifications'')"
    "list_of raw_flags (\<not> ins) (got v ''stored_structured_flag_lists'')" "list_of unit_interval (\<not> ins) (got v ''stored_confidences'')"
    "list_of flag_set (\<not> ins) (got v ''normalized_flag_sets'')"
    "is_record (got v ''timestamps'')" "list_all is_time (map snd (members_of (got v ''timestamps'')))"
    "control_results (\<not> ins) (got v ''validation_results'')" "list_of text_or_record True (got v ''authorized_identity_audience'')"
    "list_of text_or_record True (got v ''expected_evidence'')"
    "list_all (\<lambda>f. list_of text_or_record False (got v f)) [''available_evidence'', ''missing_evidence'', ''unusable_evidence'',
       ''evidence_limitation_reasons'', ''relevant_hashes_or_validation_failures'']"
    "list_all (\<lambda>f. given is_record (\<not> ins) (got v f)) [''revealed_source_mapping'', ''frozen_rationale_variation_record'',
       ''per_model_primary_repeat_comparison'', ''confidence_descriptive_values_and_range'']"
proof -
  note a = assms [unfolded closure_fields_checks_def]
  show "is_text (got v ''review_status'')" "got v ''review_status'' \<noteq> JStr DEFERRED"
    "is_int (got v ''frozen_manifest_position'')" "0 < int_of_json (got v ''frozen_manifest_position'')" "is_text (got v ''applicable_primary_case_id'')"
    "list_all (\<lambda>f. digests (\<not> ins) (got v f)) [''source_artifact_hashes'', ''reviewer_artifact_hashes'', ''human_receipt_hashes'',
       ''unit_closure_hashes'', ''primary_anchor_hashes'', ''provenance_hashes'', ''reviewer_unit_ids'']"
    using a by (simp_all add: text_check_Inr positive_check_def hashes_check_Inr each_check_Inr hash_check6_Inr)
      (simp add: digests_def list_of_def)
  show "list_of (one_of RQ6_CLASSIFICATIONS) (\<not> ins) (got v ''stored_classifications'')"
    "list_of raw_flags (\<not> ins) (got v ''stored_structured_flag_lists'')" "list_of unit_interval (\<not> ins) (got v ''stored_confidences'')"
    "list_of flag_set (\<not> ins) (got v ''normalized_flag_sets'')"
    using a by (simp_all add: each_check_Inr confidence_check_Inr flags_check_Inr)
  show "is_record (got v ''timestamps'')" "list_all is_time (map snd (members_of (got v ''timestamps'')))"
    using a by (simp_all add: object_check_def is_record_def timestamp_check_Inr list_all_iff)
  show "control_results (\<not> ins) (got v ''validation_results'')" "list_of text_or_record True (got v ''authorized_identity_audience'')"
    using a by (simp_all add: results_check_Inr recipients_check_Inr)
  show "list_of text_or_record True (got v ''expected_evidence'')"
    "list_all (\<lambda>f. list_of text_or_record False (got v f)) [''available_evidence'', ''missing_evidence'', ''unusable_evidence'',
       ''evidence_limitation_reasons'', ''relevant_hashes_or_validation_failures'']"
    using a by (simp_all add: evidence_check_Inr)
  show "list_all (\<lambda>f. given is_record (\<not> ins) (got v f)) [''revealed_source_mapping'', ''frozen_rationale_variation_record'',
       ''per_model_primary_repeat_comparison'', ''confidence_descriptive_values_and_range'']"
    using a by (simp_all add: record_check_Inr ends_with_def)
qed

lemma digest_types:
  assumes "common_check ''bundle_closure'' v = Inr ()" "same_keys v (map fst CLOSURE_TYPES)"
  defines "ins \<equiv> got v ''stability_disposition'' = JStr INSUFFICIENT"
  shows "list_all (\<lambda>f. given is_hash (\<not> ins) (got v f)) [''alias_commitment_sha256'', ''unblind_receipt_sha256'',
      ''rationale_variation_assessment_receipt_sha256'']" "is_hash (got v ''reviewer_access_policy_sha256'')"
proof -
  note sha = sha_field [OF assms(1,2)]
  have n: "nullable_hash ''bundle_closure'' v f \<longleftrightarrow> ins \<and> f \<in> {''alias_commitment_sha256'', ''unblind_receipt_sha256'',
      ''rationale_variation_assessment_receipt_sha256''}" for f
    by (simp add: nullable_hash_def ins_def)
  show "list_all (\<lambda>f. given is_hash (\<not> ins) (got v f)) [''alias_commitment_sha256'', ''unblind_receipt_sha256'',
      ''rationale_variation_assessment_receipt_sha256'']"
    using sha [of "''alias_commitment_sha256''"] sha [of "''unblind_receipt_sha256''"] sha [of "''rationale_variation_assessment_receipt_sha256''"]
    by (simp add: n CLOSURE_TYPES_def ends_with_def)
  have "given is_hash True (got v ''reviewer_access_policy_sha256'')"
    using sha [of "''reviewer_access_policy_sha256''"] by (simp add: n CLOSURE_TYPES_def ends_with_def)
  then show "is_hash (got v ''reviewer_access_policy_sha256'')" by (simp add: given_def split: if_splits)
qed

lemma truthy_list: "is_list x \<Longrightarrow> truthy x \<longleftrightarrow> elems_of x \<noteq> []"
  by (cases x) simp_all

text \<open>The axes of the closure, as the code and as the rule compare them.\<close>

lemma class_axis:
  assumes "list_of (one_of ss) full x"
  shows "varies (elems_of x) \<longleftrightarrow> differ (map str_of (elems_of x))"
proof -
  have "a = b \<longleftrightarrow> str_of a = str_of b" if "a \<in> set (elems_of x)" "b \<in> set (elems_of x)" for a b
    using assms that by (cases a; cases b) (auto simp: list_of_def list_all_iff one_of_def)
  then show ?thesis using differ_map_cong [of "elems_of x" id str_of] by (simp add: varies_differ)
qed

lemma flag_set_determined:
  assumes "flag_set a" "flag_set b"
  shows "elems_of a = elems_of b \<longleftrightarrow> set (map str_of (elems_of a)) = set (map str_of (elems_of b))"
proof
  assume "set (map str_of (elems_of a)) = set (map str_of (elems_of b))"
  then have m: "map str_of (elems_of a) = map str_of (elems_of b)"
    using assms by (intro sorted_distinct_set_unique) (simp_all add: flag_set_def)
  have r: "map JStr (map str_of (elems_of x)) = elems_of x" if "flag_set x" for x
  proof -
    have "JStr (str_of y) = y" if "y \<in> set (elems_of x)" for y
      using \<open>flag_set x\<close> that by (cases y) (auto simp: flag_set_def list_of_def list_all_iff one_of_def)
    then show ?thesis by (simp add: map_idI)
  qed
  from m r [OF assms(1)] r [OF assms(2)] show "elems_of a = elems_of b" by metis
qed simp

lemma flag_axis:
  assumes "list_of flag_set full x"
  shows "varies (map elems_of (elems_of x)) \<longleftrightarrow> flags_differ (map (\<lambda>y. set (map str_of (elems_of y))) (elems_of x))"
    "flags_unmixed (map (\<lambda>y. set (map str_of (elems_of y))) (elems_of x))"
proof -
  have n: "''NONE'' \<notin> set (map str_of (elems_of y))" if "y \<in> set (elems_of x)" for y
    using assms that by (auto simp: list_of_def list_all_iff flag_set_def)
  then show "flags_unmixed (map (\<lambda>y. set (map str_of (elems_of y))) (elems_of x))" by (auto simp: flags_unmixed_def)
  have "elems_of a = elems_of b \<longleftrightarrow> set (map str_of (elems_of a)) - {''NONE''} = set (map str_of (elems_of b)) - {''NONE''}"
    if "a \<in> set (elems_of x)" "b \<in> set (elems_of x)" for a b
    using flag_set_determined [of a b] assms that n [OF that(1)] n [OF that(2)] by (auto simp: list_of_def list_all_iff)
  then show "varies (map elems_of (elems_of x)) \<longleftrightarrow> flags_differ (map (\<lambda>y. set (map str_of (elems_of y))) (elems_of x))"
    using differ_map_cong [of "elems_of x" elems_of "\<lambda>y. set (map str_of (elems_of y)) - {''NONE''}"]
    by (simp add: varies_differ flags_differ_def comp_def)
qed

lemma evidence_stated:
  assumes "validate_artifact ''bundle_closure'' v = Inr u"
  shows "got v ''stability_disposition'' = JStr INSUFFICIENT \<longleftrightarrow> \<not> evidence_complete v"
proof (cases rule: accepted_gates [OF assms])
  case 1
  note t = field_types(16) [OF 1(6)]
  then have l: "is_list (got v ''missing_evidence'')" "is_list (got v ''unusable_evidence'')" by (simp_all add: list_of_def)
  show ?thesis
    using 1(8) truthy_list [OF l(1)] truthy_list [OF l(2)]
    by (auto simp: evidence_complete_def insufficient_checks_def complete_checks_def Let_def split: if_splits)
qed

lemma accepted_types:
  assumes "validate_artifact ''bundle_closure'' v = Inr u"
  shows "list_all (\<lambda>(f, t). t (evidence_complete v) (got v f)) CLOSURE_TYPES"
proof (cases rule: accepted_gates [OF assms])
  case 1
  let ?ins = "got v ''stability_disposition'' = JStr INSUFFICIENT"
  note e = evidence_stated [OF assms]
  note f = field_types [OF 1(6)] and d = digest_types [OF 1(3,1)] and h = header_fields [OF 1(3)]
  have s: "got v ''state'' = JStr (if evidence_complete v then ''RQ6_BUNDLE_CLOSED'' else ''RQ6_BUNDLE_CLOSED_INSUFFICIENT_REPEAT_EVIDENCE'')"
    using 1(5) e by simp
  have r: "if evidence_complete v then got v ''stability_not_established_reason'' \<in> {JNull, JStr []}
      else is_text (got v ''stability_not_established_reason'')"
    using 1(8) e by (auto simp: insufficient_checks_def complete_checks_def Let_def text_check_Inr split: if_splits)
  have x: "list_of text_or_record (\<not> evidence_complete v) (got v k)"
    if "k \<in> {''evidence_limitation_reasons'', ''relevant_hashes_or_validation_failures''}" for k
  proof -
    have k: "list_of text_or_record False (got v k)" using f(16) that by auto
    then have "is_list (got v k)" by (simp add: list_of_def)
    then have "\<not> evidence_complete v \<longrightarrow> elems_of (got v k) \<noteq> []"
      using 1(8) e that truthy_list [of "got v k"] by (auto simp: insufficient_checks_def split: if_splits)
    with k show ?thesis by (simp add: list_of_def)
  qed
  have ins: "(\<not> ?ins) = evidence_complete v" using e by simp
  show ?thesis
    using f [unfolded ins] d [unfolded ins] h s r x by (simp add: CLOSURE_TYPES_def e)
qed

lemma accepted_disposition:
  assumes "validate_artifact ''bundle_closure'' v = Inr u"
  shows "frozen_rule (evidence_complete v) (closure_classes v) (closure_flags v)
      (closure_finding ''material_rationale_variation_confirmed'' v) (closure_finding ''material_boundary_changed'' v)
      (str_of (got v ''stability_disposition''))"
proof (cases rule: accepted_gates [OF assms])
  case 1
  note e = evidence_stated [OF assms]
  show ?thesis
  proof (cases "evidence_complete v")
    case False
    then have "str_of (got v ''stability_disposition'') = ''INSUFFICIENT_REPEAT_EVIDENCE''" using e by (simp add: INSUFFICIENT_def)
    with False show ?thesis by (simp add: insufficient)
  next
    case True
    let ?r = "got v ''frozen_rationale_variation_record''" and ?d = "str_of (got v ''stability_disposition'')"
    have c: "\<forall>x \<in> set (complete_checks v). x = Inr ()" using 1(8) e True by simp
    then have g: "axis_coherent v" "is_bool (got ?r ''material_boundary_changed'')"
      "?d \<noteq> ''STABLE_WITH_RATIONALE_VARIATION''
        \<or> got ?r ''material_rationale_variation_confirmed'' = JBool True \<and> got ?r ''material_boundary_changed'' = JBool False"
      "?d \<noteq> ''STABLE''
        \<or> got ?r ''material_rationale_variation_confirmed'' = JBool False \<and> got ?r ''material_boundary_changed'' = JBool False"
      by (simp_all add: complete_checks_def Let_def boolean_check_def)
    note f = field_types(7,10) [OF 1(6)]
    have axes: "varies (elems_of (got v ''stored_classifications'')) \<longleftrightarrow> differ (closure_classes v)"
      "varies (map elems_of (elems_of (got v ''normalized_flag_sets''))) \<longleftrightarrow> flags_differ (closure_flags v)"
      "flags_unmixed (closure_flags v)"
      using class_axis [OF f(1)] flag_axis [OF f(2)] by (simp_all add: closure_classes_def closure_flags_def)
    have b: "closure_finding ''material_boundary_changed'' v \<noteq> None"
      using g(2) by (cases "got ?r ''material_boundary_changed''") (simp_all add: closure_finding_def)
    have j: "judged (evidence_complete v) (closure_flags v) (closure_finding ''material_boundary_changed'' v)"
      using True axes(3) b by (simp add: judged_def)
    show ?thesis
      using g(1) unfolding axis_coherent_def axes(1,2) Let_def
      by (cases "differ (closure_classes v)"; cases "flags_differ (closure_flags v)")
         (use j g(3,4) in \<open>auto simp: frozen_rule_simps closure_finding_def\<close>)
  qed
qed

text \<open>
  C37. An accepted closure is what the contract declares. A closure the schema accepts has exactly the 39 declared
  fields, each of its declared type, without a non-finite number; and its disposition is the one the frozen
  rule gives for the observations and the human finding it carries: insufficient if and only if evidence is
  missing or unusable or a unit or observation is lacking, otherwise by the axes on which two observations differ,
  and stable only under the finding the rule asks for. A closure under the identifier of a custody failure
  has incomplete evidence and no mapping commitment, and one with fewer than three closed units reveals no mapping.
\<close>

theorem accepted_closure_coherent:
  "case validate_artifact ''bundle_closure'' v of Inl _ \<Rightarrow> True
   | Inr _ \<Rightarrow> same_keys v (map fst CLOSURE_TYPES) \<and> length CLOSURE_TYPES = 39 \<and> finite_json v
      \<and> list_all (\<lambda>(f, t). t (evidence_complete v) (got v f)) CLOSURE_TYPES
      \<and> frozen_rule (evidence_complete v) (closure_classes v) (closure_flags v)
          (closure_finding ''material_rationale_variation_confirmed'' v) (closure_finding ''material_boundary_changed'' v)
          (str_of (got v ''stability_disposition''))
      \<and> (if failure_id (str_of (got v ''bundle_review_id''))
         then \<not> evidence_complete v \<and> got v ''alias_commitment_sha256'' = JNull
            \<and> int (undec (failure_position (str_of (got v ''bundle_review_id'')))) = int_of_json (got v ''frozen_manifest_position'')
         else got v ''alias_commitment_sha256'' \<noteq> JNull)
      \<and> (if length (elems_of (got v ''unit_closure_hashes'')) < 3
         then got v ''unblind_receipt_sha256'' = JNull \<and> got v ''revealed_source_mapping'' = JNull else True)"
proof (cases "validate_artifact ''bundle_closure'' v")
  case (Inr u)
  note e = evidence_stated [OF Inr]
  have "if failure_id (str_of (got v ''bundle_review_id''))
         then \<not> evidence_complete v \<and> got v ''alias_commitment_sha256'' = JNull
            \<and> int (undec (failure_position (str_of (got v ''bundle_review_id'')))) = int_of_json (got v ''frozen_manifest_position'')
         else got v ''alias_commitment_sha256'' \<noteq> JNull"
    by (rule accepted_gates [OF Inr]) (use e in \<open>auto simp: closure_failure_checks_def Let_def split: if_splits\<close>)
  moreover have "if length (elems_of (got v ''unit_closure_hashes'')) < 3
         then got v ''unblind_receipt_sha256'' = JNull \<and> got v ''revealed_source_mapping'' = JNull else True"
    by (rule accepted_gates [OF Inr]) (use e in \<open>auto simp: insufficient_checks_def evidence_complete_def split: if_splits\<close>)
  moreover have "same_keys v (map fst CLOSURE_TYPES)" "finite_json v" by (rule accepted_gates [OF Inr], assumption)+
  moreover have "length CLOSURE_TYPES = 39" by (simp add: CLOSURE_TYPES_def)
  ultimately show ?thesis using accepted_types [OF Inr] accepted_disposition [OF Inr] by (simp add: Inr)
qed simp

end
