(* ===== verification/Rq6Stability.thy ===== *)
theory Rq6Stability
  imports Rq6Closure
begin

text \<open>
  \<open>rq6/stability.py\<close>: the literal characterisation of four stored observations and a human finding. The values
  of an observation are JSON values, since the code checks their types; a confidence is no \<open>Decimal\<close>. The last section relates it to
  the frozen rule and to the closure the schema accepts, which is written by other code.
\<close>

section \<open>Observations\<close>

record observation =
  ob_class :: json
  ob_flags :: json
  ob_confidence :: json
  ob_usable :: json

text \<open>\<open>normalize_flags\<close>: sorted, without repetition, the lone \<open>NONE\<close> as no flag.\<close>

definition flag_texts_ok :: "json \<Rightarrow> bool" where
  "flag_texts_ok v \<longleftrightarrow> is_list v \<and> list_all (\<lambda>x. is_str x \<and> str_of x \<noteq> []) (elems_of v)"

definition normalize_flags :: "json \<Rightarrow> string + string list" where
  "normalize_flags v = (let fs = sort (remdups (map str_of (elems_of v))) in
     if \<not> flag_texts_ok v then Inl ''INVALID_FLAGS''
     else if ''NONE'' \<in> set fs \<and> fs \<noteq> [''NONE''] then Inl ''MIXED_NONE_FLAGS''
     else Inr (if fs = [''NONE''] then [] else fs))"

definition usable :: "observation option \<Rightarrow> bool" where
  "usable x = (case x of None \<Rightarrow> False | Some b \<Rightarrow> ob_usable b = JBool True \<and> is_str (ob_class b) \<and> str_of (ob_class b) \<noteq> []
     \<and> flag_texts_ok (ob_flags b) \<and> unit_interval (ob_confidence b))"

section \<open>The characterisation\<close>

record stability =
  st_disposition :: "string option"
  st_status :: string
  st_confidences :: "json list"
  st_range :: "(json \<times> json) option"

definition VARIATION :: "(string \<times> json) list" where
  "VARIATION = [(''NONE'', JBool False), (''MATERIAL_VARIATION_WITHOUT_BOUNDARY_CHANGE'', JBool False),
     (''MATERIAL_BOUNDARY_CHANGE'', JBool True), (''UNRESOLVED'', JNull)]"

fun number_of :: "json \<Rightarrow> rat" where
  "number_of (JInt i) = of_int i" | "number_of (JNum r t) = r" | "number_of _ = 0"

text \<open>\<open>min\<close> and \<open>max\<close> keep the first of equal values.\<close>

fun first_best :: "(rat \<Rightarrow> rat \<Rightarrow> bool) \<Rightarrow> json \<Rightarrow> json list \<Rightarrow> json" where
  "first_best better x [] = x"
| "first_best better x (y # ys) = first_best better (if better (number_of y) (number_of x) then y else x) ys"

definition confidence_range :: "json list \<Rightarrow> (json \<times> json) option" where
  "confidence_range cs = (case cs of [] \<Rightarrow> None | x # xs \<Rightarrow> Some (first_best (<) x xs, first_best (>) x xs))"

text \<open>The disposition of usable observations; \<open>None\<close> defers the review.\<close>

definition disposition_of :: "observation list \<Rightarrow> string \<Rightarrow> bool \<Rightarrow> string option" where
  "disposition_of bs variation boundary =
     (case each_ok (\<lambda>b. normalize_flags (ob_flags b)) bs of
        Inl _ \<Rightarrow> None
      | Inr sets \<Rightarrow> (let cv = varies (map ob_class bs); fv = varies sets in
          if cv \<and> fv then Some ''MULTI_AXIS_VARIABLE'' else if cv then Some ''CLASSIFICATION_VARIABLE''
          else if fv then Some ''STRUCTURED_SIGNAL_VARIABLE''
          else if boundary then None
          else if variation = ''MATERIAL_VARIATION_WITHOUT_BOUNDARY_CHANGE'' then Some ''STABLE_WITH_RATIONALE_VARIATION''
          else Some ''STABLE''))"

definition characterize :: "observation option \<Rightarrow> observation option list \<Rightarrow> json \<Rightarrow> json \<Rightarrow> json \<Rightarrow> string + stability" where
  "characterize primary repeats expected variation boundary = (let supplied = primary # repeats;
       cs = map ob_confidence (map the (filter usable supplied));
       out = (\<lambda>d st. \<lparr>st_disposition = d, st_status = st, st_confidences = cs, st_range = confidence_range cs\<rparr>) in
     rbind (all_of [require (is_int expected \<and> 0 < int_of_json expected) ''INVALID_EXPECTED_REPEAT_COUNT'',
       require (one_of (map fst VARIATION) variation) ''INVALID_RATIONALE_VARIATION'',
       require (map_of VARIATION (str_of variation) = Some boundary) ''INCOHERENT_RATIONALE_FINDING'']) (\<lambda>_.
     Inr (if int (length repeats) \<noteq> int_of_json expected \<or> \<not> list_all usable supplied then out (Some INSUFFICIENT) ''RQ6_REVIEW_COMPLETE''
       else if variation = JStr ''UNRESOLVED'' then out None DEFERRED
       else (case disposition_of (map the supplied) (str_of variation) (boundary = JBool True) of
           None \<Rightarrow> out None DEFERRED
         | Some d \<Rightarrow> out (Some d) ''RQ6_REVIEW_COMPLETE''))))"

section \<open>Agreement with the closure\<close>

text \<open>The fields of a closure that the observations and the disposition determine.\<close>

definition observed_closure :: "observation list \<Rightarrow> string \<Rightarrow> json" where
  "observed_closure bs d = JObj [(''stability_disposition'', JStr d), (''stored_classifications'', JList (map ob_class bs)),
     (''normalized_flag_sets'', JList (map (\<lambda>b. case normalize_flags (ob_flags b) of Inl _ \<Rightarrow> JNull | Inr fs \<Rightarrow> JList (map JStr fs)) bs))]"

lemma varies_inj: "inj f \<Longrightarrow> varies (map f xs) = varies xs"
  using card_image [of f "set xs"] by (simp add: varies_def length_remdups_card_conv inj_on_subset)

lemma each_ok_map: "each_ok f xs = Inr ys \<Longrightarrow> map f xs = map Inr ys"
  by (induction xs arbitrary: ys) (auto simp: rbind_Inr_iff)

lemma each_ok_Inl: "each_ok f xs = Inl e \<Longrightarrow> \<exists>x \<in> set xs. f x = Inl e"
  by (induction xs) (auto simp: rbind_def split: sum.splits)

lemma disposition_coherent:
  assumes "disposition_of bs variation boundary = Some d"
  shows "axis_coherent (observed_closure bs d)"
proof -
  obtain sets where s: "each_ok (\<lambda>b. normalize_flags (ob_flags b)) bs = Inr sets" using assms by (auto simp: disposition_of_def split: sum.splits)
  have "map (\<lambda>b. case normalize_flags (ob_flags b) of Inl _ \<Rightarrow> JNull | Inr fs \<Rightarrow> JList (map JStr fs)) bs
      = map (\<lambda>r. case r of Inl _ \<Rightarrow> JNull | Inr fs \<Rightarrow> JList (map JStr fs)) (map (\<lambda>b. normalize_flags (ob_flags b)) bs)" by simp
  also have "\<dots> = map (\<lambda>fs. JList (map JStr fs)) sets" unfolding each_ok_map [OF s] by simp
  finally have f: "map elems_of (elems_of (got (observed_closure bs d) ''normalized_flag_sets'')) = map (map JStr) sets"
    by (simp add: observed_closure_def jget_or_def)
  have "inj (map JStr)" by (simp add: inj_def)
  then have v: "varies (map (map JStr) sets) = varies sets" by (rule varies_inj)
  have g: "elems_of (got (observed_closure bs d) ''stored_classifications'') = map ob_class bs"
    "str_of (got (observed_closure bs d) ''stability_disposition'') = d"
    by (simp_all add: observed_closure_def jget_or_def)
  show ?thesis
    using assms unfolding axis_coherent_def f g v Let_def disposition_of_def s sum.case by (auto split: if_splits)
qed

section \<open>The frozen rule, exactly\<close>

definition evidence_usable :: "observation option \<Rightarrow> observation option list \<Rightarrow> json \<Rightarrow> bool" where
  "evidence_usable primary repeats expected \<longleftrightarrow>
     int (length repeats) = int_of_json expected \<and> list_all usable (primary # repeats)"

definition seen_classes :: "observation list \<Rightarrow> string list" where
  "seen_classes bs = map (\<lambda>b. str_of (ob_class b)) bs"

definition seen_flags :: "observation list \<Rightarrow> string set list" where
  "seen_flags bs = map (\<lambda>b. set (map str_of (elems_of (ob_flags b)))) bs"

text \<open>The finding behind a value of the assessment, in the table of the schema.\<close>

definition found_varied :: "json \<Rightarrow> bool option" where
  "found_varied variation = (case map_of VARIATIONS (str_of variation) of None \<Rightarrow> None | Some (x, y) \<Rightarrow> as_bool x)"

definition found_boundary :: "json \<Rightarrow> bool option" where
  "found_boundary variation = (case map_of VARIATIONS (str_of variation) of None \<Rightarrow> None | Some (x, y) \<Rightarrow> as_bool y)"

text \<open>Flags are normalised exactly when \<open>NONE\<close> stands alone; the result is the sorted list of the set without it.\<close>

lemma sorted_singleton: "sort (remdups xs) = [x] \<longleftrightarrow> set xs = {x}"
proof
  assume "sort (remdups xs) = [x]"
  then have "set (sort (remdups xs)) = {x}" by simp
  then show "set xs = {x}" by simp
next
  assume "set xs = {x}"
  then have "sort (remdups xs) = sorted_list_of_set {x}" by (simp add: sorted_list_of_set_sort_remdups [symmetric])
  then show "sort (remdups xs) = [x]" by simp
qed

lemma normalize_flags_cases:
  assumes "flag_texts_ok v"
  defines "F \<equiv> set (map str_of (elems_of v))"
  shows "normalize_flags v = (if ''NONE'' \<in> F \<and> F \<noteq> {''NONE''} then Inl ''MIXED_NONE_FLAGS'' else Inr (sorted_list_of_set (F - {''NONE''})))"
proof -
  have s: "sort (remdups (map str_of (elems_of v))) = sorted_list_of_set F"
    by (simp only: F_def sorted_list_of_set_sort_remdups)
  have fin: "finite F" by (simp add: F_def)
  have o: "sorted_list_of_set F = [''NONE''] \<longleftrightarrow> F = {''NONE''}"
    using sorted_singleton [of "map str_of (elems_of v)" "''NONE''"] unfolding s F_def .
  show ?thesis
    using assms(1) fin unfolding normalize_flags_def Let_def s o by (auto simp: insert_absorb)
qed

lemma either_Inl: "x = (if P then Inl m else Inr l) \<Longrightarrow> x = Inl e \<Longrightarrow> P"
  and either_Inr: "x = (if P then Inl m else Inr l) \<Longrightarrow> x = Inr y \<Longrightarrow> \<not> P \<and> y = l"
  by (auto split: if_splits)

lemma usable_parts: "usable (Some b) \<Longrightarrow> flag_texts_ok (ob_flags b) \<and> is_str (ob_class b)"
  by (simp add: usable_def)

text \<open>The flag sets the code compares, and the axes as the code and as the rule compare them.\<close>

lemma normalized_mixed:
  assumes "\<And>b. b \<in> set bs \<Longrightarrow> flag_texts_ok (ob_flags b)" "each_ok (\<lambda>b. normalize_flags (ob_flags b)) bs = Inl e"
  shows "\<not> flags_unmixed (seen_flags bs)"
proof -
  from each_ok_Inl [OF assms(2)] obtain b where b: "b \<in> set bs" "normalize_flags (ob_flags b) = Inl e" by blast
  let ?F = "set (map str_of (elems_of (ob_flags b)))"
  have "''NONE'' \<in> ?F \<and> ?F \<noteq> {''NONE''}" by (rule either_Inl [OF normalize_flags_cases [OF assms(1) [OF b(1)]] b(2)])
  moreover have "?F \<in> set (seen_flags bs)" using b(1) by (simp add: seen_flags_def)
  ultimately show ?thesis unfolding flags_unmixed_def by blast
qed

lemma normalized_sets:
  assumes ok: "\<And>b. b \<in> set bs \<Longrightarrow> flag_texts_ok (ob_flags b)" and sets: "each_ok (\<lambda>b. normalize_flags (ob_flags b)) bs = Inr sets"
  shows "flags_unmixed (seen_flags bs)" "sets = map (\<lambda>b. sorted_list_of_set (set (map str_of (elems_of (ob_flags b))) - {''NONE''})) bs"
proof -
  let ?n = "\<lambda>b. normalize_flags (ob_flags b)" and ?F = "\<lambda>b. set (map str_of (elems_of (ob_flags b)))"
  let ?s = "\<lambda>b. sorted_list_of_set (?F b - {''NONE''})"
  have eq: "?n b = Inr (?s b)" "''NONE'' \<in> ?F b \<longrightarrow> ?F b = {''NONE''}" if "b \<in> set bs" for b
  proof -
    have "?n b \<in> set (map Inr sets)" using that each_ok_map [OF sets] by (metis (mono_tags) image_eqI set_map)
    then obtain y where y: "?n b = Inr y" by auto
    note e = either_Inr [OF normalize_flags_cases [OF ok [OF that]] y]
    show "?n b = Inr (?s b)" unfolding y using e by (simp only:)
    show "''NONE'' \<in> ?F b \<longrightarrow> ?F b = {''NONE''}" using e by blast
  qed
  from eq(2) show "flags_unmixed (seen_flags bs)" by (auto simp: flags_unmixed_def seen_flags_def)
  have "map Inr sets = map (\<lambda>b. Inr (?s b) :: string + string list) bs"
    using eq(1) by (simp add: each_ok_map [OF sets, symmetric])
  then have "map projr (map Inr sets :: (string + string list) list) = map projr (map (\<lambda>b. Inr (?s b) :: string + string list) bs)"
    by simp
  then show "sets = map ?s bs" by (simp add: comp_def)
qed

lemma flag_sets_vary:
  "varies (map (\<lambda>b. sorted_list_of_set (set (map str_of (elems_of (ob_flags b))) - {''NONE''})) bs) \<longleftrightarrow> flags_differ (seen_flags bs)"
proof -
  let ?F = "\<lambda>b. set (map str_of (elems_of (ob_flags b)))"
  have "sorted_list_of_set (?F a - {''NONE''}) = sorted_list_of_set (?F b - {''NONE''}) \<longleftrightarrow> ?F a - {''NONE''} = ?F b - {''NONE''}" for a b
    by (metis finite_Diff finite_set set_sorted_list_of_set)
  then have "differ (map (\<lambda>b. sorted_list_of_set (?F b - {''NONE''})) bs) \<longleftrightarrow> differ (map (\<lambda>b. ?F b - {''NONE''}) bs)"
    by (rule differ_map_cong)
  then show ?thesis by (simp add: varies_differ flags_differ_def seen_flags_def comp_def)
qed

lemma classes_vary:
  assumes "\<And>b. b \<in> set bs \<Longrightarrow> is_str (ob_class b)"
  shows "varies (map ob_class bs) \<longleftrightarrow> differ (seen_classes bs)"
proof -
  have "ob_class a = ob_class b \<longleftrightarrow> str_of (ob_class a) = str_of (ob_class b)" if "a \<in> set bs" "b \<in> set bs" for a b
    using assms [OF that(1)] assms [OF that(2)] by (cases "ob_class a"; cases "ob_class b") auto
  then show ?thesis using differ_map_cong [of bs ob_class "\<lambda>b. str_of (ob_class b)"] by (simp add: varies_differ seen_classes_def)
qed

lemma disposition_rule:
  assumes "list_all (\<lambda>b. usable (Some b)) bs" "map_of VARIATION variation = Some boundary" "variation \<noteq> ''UNRESOLVED''"
  shows "disposition_of bs variation (boundary = JBool True) = Some d \<longleftrightarrow>
    frozen_rule True (seen_classes bs) (seen_flags bs) (found_varied (JStr variation)) (found_boundary (JStr variation)) d"
proof -
  let ?n = "\<lambda>b. normalize_flags (ob_flags b)"
  have u: "flag_texts_ok (ob_flags b)" "is_str (ob_class b)" if "b \<in> set bs" for b
    using assms(1) that usable_parts by (auto simp: list_all_iff)
  have finding: "variation = ''NONE'' \<and> boundary = JBool False \<or> variation = ''MATERIAL_VARIATION_WITHOUT_BOUNDARY_CHANGE'' \<and> boundary = JBool False
      \<or> variation = ''MATERIAL_BOUNDARY_CHANGE'' \<and> boundary = JBool True"
    using assms(2,3) by (simp add: VARIATION_def split: if_splits)
  have found: "found_boundary (JStr variation) = Some (boundary = JBool True)"
    "found_varied (JStr variation) = Some (variation \<noteq> ''NONE'')"
    using finding by (elim disjE; simp add: found_boundary_def found_varied_def VARIATIONS_def)+
  show ?thesis
  proof (cases "each_ok ?n bs")
    case (Inl e)
    then show ?thesis using normalized_mixed [OF u(1) Inl] by (simp add: disposition_of_def Inl frozen_rule_simps judged_def)
  next
    case (Inr sets)
    note s = normalized_sets [OF u(1) Inr]
    have v: "varies sets \<longleftrightarrow> flags_differ (seen_flags bs)" "varies (map ob_class bs) \<longleftrightarrow> differ (seen_classes bs)"
      using flag_sets_vary [of bs] classes_vary [OF u(2)] by (simp_all only: s(2))
    have "judged True (seen_flags bs) (found_boundary (JStr variation))" using s(1) by (simp add: judged_def found)
    then show ?thesis
      using finding unfolding disposition_of_def Inr sum.case Let_def v
      by (cases "differ (seen_classes bs)"; cases "flags_differ (seen_flags bs)") (auto simp: frozen_rule_simps found)
  qed
qed

text \<open>
  C38. The characterisation is the frozen rule, and the schema agrees with it. The code raises exactly when the
  expected number is not a positive integer, the variation has no entry in the table, or the finding is not the
  one of the table. Otherwise it gives a disposition if and only if the frozen rule gives that one for the
  observations and the finding: insufficient when a repeat is missing or an observation unusable, else by the axes on which two
  observations differ, none when the finding is unresolved, when the flag for none stands with other flags, or when only the
  rationales vary and change a material boundary; the review is deferred exactly when there is none. A disposition
  of complete evidence is one the schema accepts on the axes of the closure that carries those observations.
\<close>

theorem characterization_agrees_with_closure:
  "case characterize primary repeats expected variation boundary of
     Inl _ \<Rightarrow> \<not> (is_int expected \<and> 0 < int_of_json expected \<and> is_str variation \<and> map_of VARIATION (str_of variation) = Some boundary)
   | Inr r \<Rightarrow> is_int expected \<and> 0 < int_of_json expected \<and> is_str variation \<and> map_of VARIATION (str_of variation) = Some boundary
      \<and> (\<forall>d. st_disposition r = Some d \<longleftrightarrow>
           frozen_rule (evidence_usable primary repeats expected) (seen_classes (map the (primary # repeats)))
             (seen_flags (map the (primary # repeats))) (found_varied variation) (found_boundary variation) d)
      \<and> st_status r = (if st_disposition r = None then DEFERRED else ''RQ6_REVIEW_COMPLETE'')
      \<and> (case st_disposition r of None \<Rightarrow> True
         | Some d \<Rightarrow> d = INSUFFICIENT \<or> axis_coherent (observed_closure (map the (primary # repeats)) d))"
proof -
  let ?bs = "map the (primary # repeats)" and ?c = "evidence_usable primary repeats expected"
  let ?ok = "is_int expected \<and> 0 < int_of_json expected \<and> is_str variation \<and> map_of VARIATION (str_of variation) = Some boundary"
  let ?d = "disposition_of ?bs (str_of variation) (boundary = JBool True)"
  show ?thesis
  proof (cases "characterize primary repeats expected variation boundary")
    case (Inl e)
    have "one_of (map fst VARIATION) variation" if ?ok
      using that by (auto simp: one_of_def dest!: map_of_SomeD intro: rev_image_eqI)
    then show ?thesis using Inl by (auto simp: characterize_def Let_def rbind_def require_def all_of.simps split: sum.splits if_splits)
  next
    case (Inr r)
    have ok: "?ok" "one_of (map fst VARIATION) variation"
      using Inr by (auto simp: characterize_def Let_def rbind_Inr_iff one_of_def)
    then obtain s where s: "variation = JStr s" by (cases variation) auto
    have r: "st_disposition r = (if \<not> ?c then Some INSUFFICIENT else if variation = JStr ''UNRESOLVED'' then None else ?d)"
      "st_status r = (if st_disposition r = None then DEFERRED else ''RQ6_REVIEW_COMPLETE'')"
      using Inr unfolding characterize_def Let_def rbind_Inr_iff evidence_usable_def
      by (auto simp del: list.map list.pred_inject split: if_splits option.splits)
    have u: "list_all (\<lambda>b. usable (Some b)) ?bs" if ?c
    proof -
      have "usable (Some (the x))" if "usable x" for x using that by (cases x) (simp_all add: usable_def)
      then show ?thesis using that by (auto simp: evidence_usable_def list_all_iff)
    qed
    have "st_disposition r = Some d \<longleftrightarrow>
        frozen_rule ?c (seen_classes ?bs) (seen_flags ?bs) (found_varied variation) (found_boundary variation) d" for d
    proof (cases "?c \<and> s \<noteq> ''UNRESOLVED''")
      case True
      then show ?thesis
        using disposition_rule [OF u, of s boundary d] ok r(1) by (simp add: s one_of_def)
    next
      case False
      have "found_boundary (JStr ''UNRESOLVED'') = None" by (simp add: found_boundary_def VARIATIONS_def)
      then show ?thesis using False r(1) by (auto simp: s frozen_rule_simps judged_def INSUFFICIENT_def)
    qed
    moreover have "case st_disposition r of None \<Rightarrow> True | Some d \<Rightarrow> d = INSUFFICIENT \<or> axis_coherent (observed_closure ?bs d)"
      using r(1) disposition_coherent [of ?bs "str_of variation"] by (auto split: option.splits if_splits)
    ultimately show ?thesis using Inr ok(1) r(2) by simp
  qed
qed

end
