(* ===== verification/Rq6Custody.thy ===== *)
theory Rq6Custody
  imports Rq6Workflow Adapter LocalJournal
begin

text \<open>
  \<open>rq6/artifacts.py\<close>: the content-addressed store of artifacts and the chained ledger of events. A directory
  is the list of its files with their bytes; the operations change it themselves, any other change is a change
  of the directory between two operations. What the operating system answers in one operation is a \<open>disk_env\<close>:
  which paths are safe (not redirected, no symbolic link), whether a file can be read, what becomes of a write.
  A verifier raises or returns; here its value is ignored.
\<close>

section \<open>The disk\<close>

datatype write_fate = Written | Unwritten | Torn nat   \<comment> \<open>\<open>Torn n\<close>: raised after \<open>n\<close> bytes\<close>

record disk_env =
  de_safe :: "string \<Rightarrow> bool"
  de_plain :: "string \<Rightarrow> bool"     \<comment> \<open>not a symbolic link\<close>
  de_read :: "string \<Rightarrow> bool"
  de_write :: write_fate

type_synonym disk = "(string \<times> string) list"
type_synonym custody_verifier = "artifact_snapshot \<Rightarrow> string option"   \<comment> \<open>the code it raises\<close>

definition safe_path :: "disk_env \<Rightarrow> string \<Rightarrow> check" where
  "safe_path e p = require (de_safe e p) ''CUSTODY_PATH_REDIRECTION''"

definition read_bytes :: "disk_env \<Rightarrow> disk \<Rightarrow> string \<Rightarrow> string + string" where
  "read_bytes e d p = (case map_of d p of None \<Rightarrow> Inl ''FileNotFoundError''
     | Some t \<Rightarrow> if de_read e p then Inr t else Inl ''OSError'')"

text \<open>Exclusive creation: a file that exists is never opened for writing.\<close>

definition create_file :: "disk_env \<Rightarrow> string \<Rightarrow> string \<Rightarrow> disk \<Rightarrow> (disk, string, unit) outcome" where
  "create_file e p t d = (if map_of d p \<noteq> None then (d, Inl ''FileExistsError'') else (case de_write e of
       Written \<Rightarrow> (d @ [(p, t)], Inr ())
     | Unwritten \<Rightarrow> (d, Inl ''OSError'')
     | Torn n \<Rightarrow> (d @ [(p, take n t)], Inl ''OSError'')))"

definition call_verifier :: "custody_verifier \<Rightarrow> artifact_snapshot \<Rightarrow> check" where
  "call_verifier vf s = (case vf s of None \<Rightarrow> Inr () | Some c \<Rightarrow> Inl c)"

section \<open>The artifact store\<close>

record artifact_store =
  as_root :: string
  as_records :: "(string \<times> string \<times> string) list"   \<comment> \<open>digest to kind and path\<close>
  as_disk :: disk

definition ArtifactStore :: "disk_env \<Rightarrow> string \<Rightarrow> disk \<Rightarrow> string + artifact_store" where
  "ArtifactStore e dir d = rbind (safe_path e dir) (\<lambda>_. Inr \<lparr>as_root = dir, as_records = [], as_disk = d\<rparr>)"

definition read_raw :: "libs \<Rightarrow> disk_env \<Rightarrow> string \<Rightarrow> artifact_store \<Rightarrow> string + artifact_snapshot" where
  "read_raw w e digest st = (case map_of (as_records st) digest of None \<Rightarrow> Inl ''UNKNOWN_ARTIFACT''
     | Some (what, p) \<Rightarrow> rbind (all_of [safe_path e p, require (de_plain e p) ''SYMLINK_ARTIFACT'']) (\<lambda>_.
         rbind (read_bytes e (as_disk st) p) (\<lambda>raw.
         rbind (require (sha256 w raw = digest) ''PERSISTED_ARTIFACT_MUTATION'') (\<lambda>_.
         Inr \<lparr>snap_kind = what, snap_bytes = raw, snap_sha = digest\<rparr>))))"

definition get_artifact :: "libs \<Rightarrow> disk_env \<Rightarrow> custody_verifier \<Rightarrow> string \<Rightarrow> artifact_store \<Rightarrow> string + artifact_snapshot" where
  "get_artifact w e vf digest st = rbind (read_raw w e digest st) (\<lambda>s. rbind (call_verifier vf s) (\<lambda>_. Inr s))"

definition object_path :: "artifact_store \<Rightarrow> string \<Rightarrow> string" where
  "object_path st digest = as_root st @ ''/objects/'' @ digest @ ''.json''"

definition register :: "string \<Rightarrow> string \<Rightarrow> string \<Rightarrow> artifact_store \<Rightarrow> artifact_store" where
  "register digest what p st = st\<lparr>as_records := alist_set digest (what, p) (as_records st)\<rparr>"

definition store_bytes :: "disk_env \<Rightarrow> artifact_snapshot \<Rightarrow> string \<Rightarrow> artifact_store \<Rightarrow> (artifact_store, string, unit) outcome" where
  "store_bytes e s p st = (case map_of (as_disk st) p of
       Some _ \<Rightarrow> (st, rbind (read_bytes e (as_disk st) p) (\<lambda>t. require (t = snap_bytes s) ''ARTIFACT_HASH_MISMATCH''))
     | None \<Rightarrow> (case create_file e p (snap_bytes s) (as_disk st) of (d, r) \<Rightarrow> (st\<lparr>as_disk := d\<rparr>, r)))"

text \<open>The verifier is called at the start and once more on what was read back.\<close>

definition persist :: "libs \<Rightarrow> disk_env \<Rightarrow> custody_verifier \<Rightarrow> custody_verifier \<Rightarrow> artifact_snapshot \<Rightarrow> artifact_store \<Rightarrow> (artifact_store, string, artifact_snapshot) outcome" where
  "persist w e vf vf' s st = (let p = object_path st (snap_sha s) in
     case all_of [call_verifier vf s, require (sha256 w (snap_bytes s) = snap_sha s) ''ARTIFACT_HASH_MISMATCH'', safe_path e p] of
       Inl c \<Rightarrow> (st, Inl c)
     | Inr _ \<Rightarrow>
         if map_of (as_records st) (snap_sha s) \<noteq> None
         then (st, rbind (get_artifact w e vf' (snap_sha s) st) (\<lambda>x. if x = s then Inr x else Inl ''IMMUTABLE_ARTIFACT_CONFLICT''))
         else if \<not> de_plain e p then (st, Inl ''SYMLINK_ARTIFACT'')
         else obind (store_bytes e s p st) (\<lambda>_ st. let st' = register (snap_sha s) (snap_kind s) p st in
                (st', get_artifact w e vf' (snap_sha s) st')))"

definition consume_artifact :: "libs \<Rightarrow> disk_env \<Rightarrow> custody_verifier \<Rightarrow> string \<Rightarrow> string \<Rightarrow> string \<Rightarrow> artifact_store \<Rightarrow> (artifact_store, string, artifact_snapshot) outcome" where
  "consume_artifact w e vf what p digest st =
     (case rbind (safe_path e p) (\<lambda>_. rbind (read_bytes e (as_disk st) p) (\<lambda>raw.
        let s = \<lparr>snap_kind = what, snap_bytes = raw, snap_sha = digest\<rparr> in
        rbind (all_of [require (sha256 w raw = digest) ''ARTIFACT_HASH_MISMATCH'', call_verifier vf s,
          require (case map_of (as_records st) digest of None \<Rightarrow> True | Some r \<Rightarrow> r = (what, p)) ''IMMUTABLE_REGISTRATION_CONFLICT'']) (\<lambda>_. Inr s))) of
       Inl c \<Rightarrow> (st, Inl c)
     | Inr s \<Rightarrow> (register digest what p st, Inr s))"

section \<open>The event ledger\<close>

definition NORMAL_ORDER :: "string list" where
  "NORMAL_ORDER = [''ALIAS_COMMITMENT_FIXED''] @ concat (replicate 3 [''UNIT_RELEASED'', ''HUMAN_RECEIPT_FIXED'', ''UNIT_CLOSURE_VERIFIED''])
     @ [''BUNDLE_MAPPING_REVEALED'', ''MECHANICAL_COMPARISON_RECORDED'', ''RATIONALE_ASSESSMENT_FIXED'', ''BUNDLE_CHARACTERIZATION_FIXED'',
        ''BUNDLE_CLOSURE_VERIFIED'']"

record order_vars =
  or_limited :: bool
  or_terminal :: bool
  or_index :: nat

definition order_step :: "json \<Rightarrow> order_vars \<Rightarrow> string + order_vars" where
  "order_step k v = (if or_terminal v then Inl ''LEDGER_EVENT_AFTER_TERMINAL''
     else if k = JStr ''EVIDENCE_LIMITATION_RECORDED'' then Inr (v\<lparr>or_limited := True\<rparr>)
     else if or_limited v then (if k = JStr ''BUNDLE_CLOSURE_VERIFIED'' then Inr (v\<lparr>or_terminal := True\<rparr>) else Inl ''LEDGER_LIMITATION_NOT_TERMINAL'')
     else if or_index v < length NORMAL_ORDER \<and> k = JStr (NORMAL_ORDER ! or_index v)
       then Inr (v\<lparr>or_index := or_index v + 1, or_terminal := (or_index v + 1 = length NORMAL_ORDER)\<rparr>)
     else Inl ''LEDGER_EVENT_ORDER'')"

definition order_event :: "libs \<Rightarrow> artifact_snapshot \<Rightarrow> order_vars \<Rightarrow> string + order_vars" where
  "order_event w s v = (if or_terminal v then Inl ''LEDGER_EVENT_AFTER_TERMINAL''
     else rbind (data_item w ''event_type'' s) (\<lambda>k. order_step k v))"

fun order_run :: "('a \<Rightarrow> order_vars \<Rightarrow> string + order_vars) \<Rightarrow> 'a list \<Rightarrow> order_vars \<Rightarrow> string + order_vars" where
  "order_run f [] v = Inr v"
| "order_run f (x # xs) v = rbind (f x v) (order_run f xs)"

definition order_start :: order_vars where
  "order_start = \<lparr>or_limited = False, or_terminal = False, or_index = 0\<rparr>"

definition check_order :: "libs \<Rightarrow> artifact_snapshot list \<Rightarrow> check" where
  "check_order w evs = rbind (order_run (order_event w) evs order_start) (\<lambda>_. Inr ())"

record event_ledger =
  el_binding :: "(string \<times> string) list"
  el_count :: nat
  el_tip :: "string option"
  el_root :: string
  el_disk :: disk     \<comment> \<open>the directory, by file name\<close>

definition EventLedger :: "disk_env \<Rightarrow> string \<Rightarrow> disk \<Rightarrow> (string \<times> string) list \<Rightarrow> int \<Rightarrow> string option \<Rightarrow> string + event_ledger" where
  "EventLedger e dir d bind count tip =
     rbind (all_of [safe_path e dir, require (0 \<le> count) ''INVALID_LEDGER_EXPECTATION'', require ((count = 0) = (tip = None)) ''INVALID_LEDGER_EXPECTATION'']) (\<lambda>_.
     Inr \<lparr>el_binding = bind, el_count = nat count, el_tip = tip, el_root = dir, el_disk = d\<rparr>)"

definition event_file :: "nat \<Rightarrow> string" where
  "event_file n = pad 6 (int n) @ ''.json''"

definition bound_to :: "(string \<times> string) list \<Rightarrow> json \<Rightarrow> bool" where
  "bound_to bind v \<longleftrightarrow> list_all (\<lambda>(k, x). got v k = JStr x) bind"

definition event_snapshot :: "libs \<Rightarrow> string \<Rightarrow> artifact_snapshot" where
  "event_snapshot w raw = \<lparr>snap_kind = ''bundle_event_ledger'', snap_bytes = raw, snap_sha = sha256 w raw\<rparr>"

definition hash_or_null :: "string option \<Rightarrow> json" where
  "hash_or_null h = (case h of None \<Rightarrow> JNull | Some x \<Rightarrow> JStr x)"

definition verify_event :: "libs \<Rightarrow> disk_env \<Rightarrow> custody_verifier \<Rightarrow> (string \<times> string) list \<Rightarrow> nat \<Rightarrow> string option \<Rightarrow> string \<times> string \<Rightarrow> string + artifact_snapshot" where
  "verify_event w e vf bind n prev f = (case f of (name, raw) \<Rightarrow>
     rbind (all_of [require (name = event_file n) ''LEDGER_SEQUENCE_GAP'', safe_path e name, require (de_plain e name) ''SYMLINK_ARTIFACT'',
       require (de_read e name) ''OSError'', call_verifier vf (event_snapshot w raw)]) (\<lambda>_.
     rbind (snapshot_data w (event_snapshot w raw)) (\<lambda>v.
     rbind (require (bound_to bind v) ''LEDGER_CROSS_BUNDLE'') (\<lambda>_.
     rbind (item ''event_sequence'' v) (\<lambda>q.
     rbind (require (py_eq q (JInt (int n))) ''LEDGER_SEQUENCE_GAP'') (\<lambda>_.
     rbind (item ''previous_event_sha256'' v) (\<lambda>p.
     rbind (require (p = hash_or_null prev) ''LEDGER_CHAIN_BROKEN'') (\<lambda>_. Inr (event_snapshot w raw)))))))))"

fun verify_events :: "libs \<Rightarrow> disk_env \<Rightarrow> custody_verifier \<Rightarrow> (string \<times> string) list \<Rightarrow> nat \<Rightarrow> string option \<Rightarrow> disk \<Rightarrow> string + artifact_snapshot list" where
  "verify_events w e vf bind n prev [] = Inr []"
| "verify_events w e vf bind n prev (f # fs) = rbind (verify_event w e vf bind n prev f) (\<lambda>s.
     rbind (verify_events w e vf bind (n + 1) (Some (snap_sha s)) fs) (\<lambda>ss. Inr (s # ss)))"

definition tip_of :: "string option \<Rightarrow> artifact_snapshot list \<Rightarrow> string option" where
  "tip_of prev ss = (if ss = [] then prev else Some (snap_sha (last ss)))"

definition verify_ledger :: "libs \<Rightarrow> disk_env \<Rightarrow> custody_verifier \<Rightarrow> event_ledger \<Rightarrow> string + artifact_snapshot list" where
  "verify_ledger w e vf l =
     rbind (safe_path e (el_root l)) (\<lambda>_.
     rbind (verify_events w e vf (el_binding l) 1 None (sort_key fst (filter (\<lambda>f. ends_with ''.json'' (fst f)) (el_disk l)))) (\<lambda>ss.
     rbind (require (length ss = el_count l \<and> tip_of None ss = el_tip l) ''LEDGER_TRUNCATION_OR_REWRITE'') (\<lambda>_.
     rbind (check_order w ss) (\<lambda>_. Inr ss))))"

definition append_checks :: "libs \<Rightarrow> disk_env \<Rightarrow> custody_verifier \<Rightarrow> json \<Rightarrow> event_ledger \<Rightarrow> string + nat \<times> artifact_snapshot" where
  "append_checks w e vf v l = rbind (verify_ledger w e vf l) (\<lambda>existing.
     rbind (all_of [require (py_eq (got v ''event_sequence'') (JInt (int (length existing) + 1))) ''LEDGER_SEQUENCE_GAP'',
       require (got v ''previous_event_sha256'' = hash_or_null (tip_of None existing)) ''LEDGER_CHAIN_BROKEN'',
       require (bound_to (el_binding l) v) ''LEDGER_CROSS_BUNDLE'']) (\<lambda>_.
     rbind (build_artifact w ''bundle_event_ledger'' v) (\<lambda>s.
     rbind (all_of [call_verifier vf s, check_order w (existing @ [s])]) (\<lambda>_. Inr (length existing + 1, s)))))"

text \<open>The write is read back, the expectation moves, and the whole ledger is verified once more (second answers).\<close>

definition append_event :: "libs \<Rightarrow> disk_env \<Rightarrow> disk_env \<Rightarrow> custody_verifier \<Rightarrow> custody_verifier \<Rightarrow> json \<Rightarrow> event_ledger \<Rightarrow> (event_ledger, string, artifact_snapshot) outcome" where
  "append_event w e e' vf vf' v l = (case append_checks w e vf v l of Inl c \<Rightarrow> (l, Inl c)
     | Inr (n, s) \<Rightarrow> (case create_file e (event_file n) (snap_bytes s) (el_disk l) of
         (d, Inl c) \<Rightarrow> (l\<lparr>el_disk := d\<rparr>, Inl c)
       | (d, Inr _) \<Rightarrow> (case rbind (read_bytes e' d (event_file n)) (\<lambda>t. require (t = snap_bytes s) ''LEDGER_WRITE_VERIFICATION_FAILED'') of
           Inl c \<Rightarrow> (l\<lparr>el_disk := d\<rparr>, Inl c)
         | Inr _ \<Rightarrow> (let l' = l\<lparr>el_disk := d, el_count := el_count l + 1, el_tip := Some (snap_sha s)\<rparr> in
             (l', rbind (verify_ledger w e' vf' l') (\<lambda>ss. rbind (require (ss \<noteq> []) ''IndexError'') (\<lambda>_.
                rbind (require (last ss = s) ''LEDGER_WRITE_VERIFICATION_FAILED'') (\<lambda>_. Inr s))))))))"

definition historical_leakage_status :: "libs \<Rightarrow> (json \<Rightarrow> string option) \<Rightarrow> string \<Rightarrow> string \<Rightarrow> string + string" where
  "historical_leakage_status w schema raw digest =
     rbind (require (sha256 w raw = digest) ''HISTORICAL_RECEIPT_HASH_MISMATCH'') (\<lambda>_.
     rbind (case decode_exact raw of None \<Rightarrow> Inl ''JSONDecodeError'' | Some v \<Rightarrow> Inr v) (\<lambda>v.
     rbind (all_of [require (is_obj v) ''INVALID_HISTORICAL_RECEIPT'', (case schema v of None \<Rightarrow> Inr () | Some c \<Rightarrow> Inl c)]) (\<lambda>_.
     case jget ''leakage_validation'' v of
       None \<Rightarrow> Inr ''FIELD_NOT_PRESENT_IN_HISTORICAL_SCHEMA''
     | Some x \<Rightarrow> if x = JStr ''PASS'' then Inr ''PASS'' else Inl ''HISTORICAL_LEAKAGE_FAILURE'')))"

section \<open>What is stored stays, and is what it was\<close>

lemma create_file_adds: "\<exists>ys. fst (create_file e p t d) = d @ ys"
  by (auto simp: create_file_def split: write_fate.split)

lemma store_bytes_adds: "\<exists>ys. as_disk (fst (store_bytes e s p st)) = as_disk st @ ys"
  using create_file_adds [of e p "snap_bytes s" "as_disk st"]
  by (auto simp: store_bytes_def split: option.splits prod.splits)

text \<open>
  The store never changes or removes a file, and what it returns has the digest it was asked for.
\<close>

theorem stored_files_stay:
  "(\<exists>ys. as_disk (fst (persist w e vf vf' s st)) = as_disk st @ ys) \<and> as_disk (fst (consume_artifact w e vf what p digest st)) = as_disk st
   \<and> (case get_artifact w e vf digest st of Inl _ \<Rightarrow> True | Inr x \<Rightarrow> snap_sha x = digest \<and> sha256 w (snap_bytes x) = digest)"
proof (intro conjI)
  obtain st' r where s: "store_bytes e s (object_path st (snap_sha s)) st = (st', r)" by fastforce
  obtain ys where "as_disk st' = as_disk st @ ys" using store_bytes_adds [of e s "object_path st (snap_sha s)" st] s by auto
  then show "\<exists>ys. as_disk (fst (persist w e vf vf' s st)) = as_disk st @ ys"
    by (cases r) (auto simp: persist_def Let_def s register_def split: sum.splits)
qed (auto simp: consume_artifact_def register_def get_artifact_def read_raw_def rbind_Inr_iff Let_def split: sum.splits option.splits)

section \<open>The tip pins the ledger\<close>

definition links_to :: "libs \<Rightarrow> artifact_snapshot \<Rightarrow> string option \<Rightarrow> bool" where
  "links_to w s p \<longleftrightarrow> (case snapshot_data w s of Inl _ \<Rightarrow> False | Inr v \<Rightarrow> got v ''previous_event_sha256'' = hash_or_null p)"

lemma tip_of_simps [simp]: "tip_of p [] = p" "tip_of p (s # ss) = tip_of (Some (snap_sha s)) ss" "tip_of p (ss @ [s]) = Some (snap_sha s)"
  by (simp_all add: tip_of_def)

fun chained :: "libs \<Rightarrow> string option \<Rightarrow> artifact_snapshot list \<Rightarrow> bool" where
  "chained w p [] = True"
| "chained w p (s # ss) = (s = event_snapshot w (snap_bytes s) \<and> links_to w s p \<and> chained w (Some (snap_sha s)) ss)"

lemma verify_event_link: "verify_event w e vf bind n p f = Inr s \<Longrightarrow> s = event_snapshot w (snap_bytes s) \<and> links_to w s p"
  by (cases f) (auto simp: verify_event_def links_to_def rbind_Inr_iff event_snapshot_def dest: item_got)

lemma verify_events_chained: "verify_events w e vf bind n p fs = Inr ss \<Longrightarrow> chained w p ss"
  by (induction w e vf bind n p fs arbitrary: ss rule: verify_events.induct)
     (auto simp: rbind_Inr_iff dest: verify_event_link simp del: split_paired_All)

lemma chained_snoc: "chained w p (ss @ [s]) \<longleftrightarrow> chained w p ss \<and> s = event_snapshot w (snap_bytes s) \<and> links_to w s (tip_of p ss)"
  by (induction w p ss rule: chained.induct) auto

lemma hash_or_null_inject [simp]: "hash_or_null a = hash_or_null b \<longleftrightarrow> a = b"
  by (cases a; cases b) (simp_all add: hash_or_null_def)

lemma tip_determines:
  assumes "\<not> sha_broken w"
  shows "chained w p xs \<Longrightarrow> chained w p ys \<Longrightarrow> length xs = length ys \<Longrightarrow> tip_of p xs = tip_of p ys \<Longrightarrow> xs = ys"
proof (induction xs arbitrary: ys rule: rev_induct)
  case (snoc x xs)
  then obtain y ys' where ys: "ys = ys' @ [y]" by (cases ys rule: rev_cases) auto
  have xy: "x = event_snapshot w (snap_bytes x)" "y = event_snapshot w (snap_bytes y)" "snap_sha x = snap_sha y"
    using snoc.prems by (simp_all add: ys chained_snoc tip_of_def)
  then have "sha256 w (snap_bytes x) = sha256 w (snap_bytes y)" by (metis artifact_snapshot.select_convs(3) event_snapshot_def)
  then have "snap_bytes x = snap_bytes y" using assms by (auto simp: sha_broken_def)
  then have eq: "x = y" using xy by simp
  moreover have "tip_of p xs = tip_of p ys'"
    using snoc.prems(1,2) eq by (auto simp: ys chained_snoc links_to_def split: sum.splits)
  ultimately show ?case using snoc ys by (simp add: chained_snoc)
qed simp

text \<open>
  C39. The expectation pins the ledger. Two directories that verify against the same count and the same tip hold
  the very same events, whatever the answers of the disk, the bindings and the verifiers, unless SHA-256 fails (a
  collision, or a digest of another shape): no event can be dropped, changed, reordered or put in.
\<close>

theorem ledger_tip_pins_events:
  "case (verify_ledger w e vf l, verify_ledger w e' vf' (l'\<lparr>el_count := el_count l, el_tip := el_tip l\<rparr>)) of
     (Inr ss, Inr ss') \<Rightarrow> ss = ss' \<or> sha_broken w
   | _ \<Rightarrow> True"
proof -
  have "ss = ss' \<or> sha_broken w" if v: "verify_ledger w e vf l = Inr ss" "verify_ledger w e' vf' (l'\<lparr>el_count := el_count l, el_tip := el_tip l\<rparr>) = Inr ss'" for ss ss'
  proof (cases "sha_broken w")
    case False
    then show ?thesis
      using v tip_determines [OF False, of None ss ss'] by (auto simp: verify_ledger_def rbind_Inr_iff dest!: verify_events_chained)
  qed simp
  then show ?thesis by (auto split: sum.splits)
qed

section \<open>The order of events\<close>

text \<open>
  The orders that the loop is to accept: an initial part of the normal order; or a proper one, then limitations,
  then at most the closure of the bundle.
\<close>

definition LIMITATION :: json where "LIMITATION = JStr ''EVIDENCE_LIMITATION_RECORDED''"
definition CLOSURE :: json where "CLOSURE = JStr ''BUNDLE_CLOSURE_VERIFIED''"

definition limited_end :: "json list \<Rightarrow> bool" where
  "limited_end ks \<longleftrightarrow> (\<exists>k. ks = replicate k LIMITATION \<or> ks = replicate k LIMITATION @ [CLOSURE])"

definition lawful_order :: "json list \<Rightarrow> json list \<Rightarrow> bool" where
  "lawful_order rest ks \<longleftrightarrow> (\<exists>n \<le> length rest. ks = take n rest)
     \<or> (\<exists>n < length rest. \<exists>e. ks = take n rest @ LIMITATION # e \<and> limited_end e)"

lemma order_step_limited: "or_limited v \<Longrightarrow> \<not> or_terminal v \<Longrightarrow> order_step k v = (if k = LIMITATION then Inr (v\<lparr>or_limited := True\<rparr>)
    else if k = CLOSURE then Inr (v\<lparr>or_terminal := True\<rparr>) else Inl ''LEDGER_LIMITATION_NOT_TERMINAL'')"
  by (simp add: order_step_def LIMITATION_def CLOSURE_def)

lemma order_step_normal: "\<not> or_limited v \<Longrightarrow> \<not> or_terminal v \<Longrightarrow> or_index v < length NORMAL_ORDER \<Longrightarrow>
    order_step k v = (if k = LIMITATION then Inr (v\<lparr>or_limited := True\<rparr>)
    else if k = JStr (NORMAL_ORDER ! or_index v)
      then Inr (v\<lparr>or_index := or_index v + 1, or_terminal := (or_index v + 1 = length NORMAL_ORDER)\<rparr>) else Inl ''LEDGER_EVENT_ORDER'')"
  by (simp add: order_step_def LIMITATION_def)

lemma run_terminal: "or_terminal v \<Longrightarrow> (\<exists>v'. order_run order_step ks v = Inr v') \<longleftrightarrow> ks = []"
  by (cases ks) (auto simp: order_step_def)

lemma limited_end_Nil [simp]: "limited_end []"
  by (auto simp: limited_end_def)

lemma limited_end_Cons: "limited_end (k # ks) \<longleftrightarrow> k = LIMITATION \<and> limited_end ks \<or> k = CLOSURE \<and> ks = []"
proof
  assume "limited_end (k # ks)"
  then obtain n where n: "k # ks = replicate n LIMITATION \<or> k # ks = replicate n LIMITATION @ [CLOSURE]" by (auto simp: limited_end_def)
  then show "k = LIMITATION \<and> limited_end ks \<or> k = CLOSURE \<and> ks = []" by (cases n) (auto simp: limited_end_def)
next
  assume "k = LIMITATION \<and> limited_end ks \<or> k = CLOSURE \<and> ks = []"
  then show "limited_end (k # ks)"
  proof
    assume a: "k = LIMITATION \<and> limited_end ks"
    then obtain n where "ks = replicate n LIMITATION \<or> ks = replicate n LIMITATION @ [CLOSURE]" by (auto simp: limited_end_def)
    then have "k # ks = replicate (Suc n) LIMITATION \<or> k # ks = replicate (Suc n) LIMITATION @ [CLOSURE]" using a by auto
    then show ?thesis unfolding limited_end_def by blast
  next
    assume "k = CLOSURE \<and> ks = []"
    then have "k # ks = replicate 0 LIMITATION @ [CLOSURE]" by simp
    then show ?thesis unfolding limited_end_def by blast
  qed
qed

lemma run_limited:
  "or_limited v \<Longrightarrow> \<not> or_terminal v \<Longrightarrow> (\<exists>v'. order_run order_step ks v = Inr v') \<longleftrightarrow> limited_end ks"
proof (induction ks arbitrary: v)
  case (Cons k ks)
  have "LIMITATION \<noteq> CLOSURE" by (simp add: LIMITATION_def CLOSURE_def)
  then show ?case
    using Cons.prems Cons.IH [of "v\<lparr>or_limited := True\<rparr>"] run_terminal [of "v\<lparr>or_terminal := True\<rparr>" ks]
    by (auto simp: limited_end_Cons order_step_limited)
qed simp

lemma lawful_Nil [simp]: "lawful_order rest []"
  by (auto simp: lawful_order_def)

lemma lawful_Cons: "lawful_order rest (k # ks) \<longleftrightarrow> rest \<noteq> []
    \<and> (k = LIMITATION \<and> limited_end ks \<or> k = hd rest \<and> lawful_order (tl rest) ks)"
proof (cases rest)
  case (Cons r rs)
  have 1: "(\<exists>n \<le> length rest. k # ks = take n rest) \<longleftrightarrow> k = r \<and> (\<exists>n \<le> length rs. ks = take n rs)" (is "?L = ?R")
  proof
    assume ?L
    then obtain n where "n \<le> length rest" "k # ks = take n rest" by blast
    then show ?R by (cases n) (auto simp: Cons)
  next
    assume ?R
    then obtain n where "k = r" "n \<le> length rs" "ks = take n rs" by blast
    then show ?L by (intro exI [of _ "Suc n"]) (simp add: Cons)
  qed
  have 2: "(\<exists>n < length rest. \<exists>e. k # ks = take n rest @ LIMITATION # e \<and> limited_end e)
      \<longleftrightarrow> k = LIMITATION \<and> limited_end ks \<or> k = r \<and> (\<exists>n < length rs. \<exists>e. ks = take n rs @ LIMITATION # e \<and> limited_end e)" (is "?L = ?R")
  proof
    assume ?L
    then obtain n e where n: "n < length rest" "k # ks = take n rest @ LIMITATION # e" "limited_end e" by blast
    then show ?R by (cases n) (auto simp: Cons)
  next
    assume ?R
    then show ?L
    proof
      assume "k = LIMITATION \<and> limited_end ks"
      then show ?L by (intro exI [of _ 0]) (simp add: Cons)
    next
      assume "k = r \<and> (\<exists>n < length rs. \<exists>e. ks = take n rs @ LIMITATION # e \<and> limited_end e)"
      then obtain n e where "k = r" "n < length rs" "ks = take n rs @ LIMITATION # e" "limited_end e" by blast
      then show ?L by (intro exI [of _ "Suc n"]) (simp add: Cons)
    qed
  qed
  show ?thesis unfolding lawful_order_def [of rest] 1 2 by (auto simp: Cons lawful_order_def)
qed (auto simp: lawful_order_def)

lemma run_normal:
  "\<not> or_limited v \<Longrightarrow> or_index v \<le> length NORMAL_ORDER \<Longrightarrow> or_terminal v = (or_index v = length NORMAL_ORDER) \<Longrightarrow>
   (\<exists>v'. order_run order_step ks v = Inr v') \<longleftrightarrow> lawful_order (map JStr (drop (or_index v) NORMAL_ORDER)) ks"
proof (induction ks arbitrary: v)
  case (Cons k ks)
  show ?case
  proof (cases "or_terminal v")
    case False
    let ?i = "or_index v"
    have i: "?i < length NORMAL_ORDER" using Cons.prems False by auto
    then have d: "drop ?i NORMAL_ORDER = NORMAL_ORDER ! ?i # drop (Suc ?i) NORMAL_ORDER" by (rule Cons_nth_drop_Suc [symmetric])
    have n: "LIMITATION \<noteq> JStr (NORMAL_ORDER ! ?i)"
    proof -
      have "''EVIDENCE_LIMITATION_RECORDED'' \<notin> set NORMAL_ORDER" by (simp add: NORMAL_ORDER_def numeral_3_eq_3)
      then have "''EVIDENCE_LIMITATION_RECORDED'' \<noteq> NORMAL_ORDER ! ?i" using i nth_mem by metis
      then show ?thesis by (simp add: LIMITATION_def)
    qed
    show ?thesis
      using Cons.prems False i n run_limited [of "v\<lparr>or_limited := True\<rparr>" ks]
        Cons.IH [of "v\<lparr>or_index := ?i + 1, or_terminal := (?i + 1 = length NORMAL_ORDER)\<rparr>"]
      by (auto simp: lawful_Cons d order_step_normal)
  qed (use Cons.prems in \<open>auto simp: lawful_Cons order_step_def\<close>)
qed simp

lemma order_step_open: "order_step k v = Inr v' \<Longrightarrow> \<not> or_terminal v"
  by (auto simp: order_step_def)

lemma order_event_Inr: "order_event w s v = Inr v' \<longleftrightarrow> (\<exists>k. data_item w ''event_type'' s = Inr k \<and> order_step k v = Inr v')"
  by (auto simp: order_event_def rbind_Inr_iff dest: order_step_open)

lemma order_run_events: "order_run (order_event w) evs v = Inr v' \<longleftrightarrow>
    (\<exists>ks. each_ok (data_item w ''event_type'') evs = Inr ks \<and> order_run order_step ks v = Inr v')"
proof (induction evs arbitrary: v)
  case (Cons s evs)
  show ?case
    by (auto simp: rbind_Inr_iff order_event_Inr Cons.IH)
qed simp

text \<open>
  C40. The order check is exact. It accepts the events of a ledger if and only if the types they carry are an
  initial part of the normal order of a bundle (alias commitment, three units each released, received and closed,
  mapping, comparison, rationale, characterisation, closure), or a proper initial part of it followed by
  recorded limitations and at most the closure; nothing follows a closure.
\<close>

theorem order_check_exact:
  "check_order w evs = Inr () \<longleftrightarrow>
     (\<exists>ks. each_ok (data_item w ''event_type'') evs = Inr ks \<and> lawful_order (map JStr NORMAL_ORDER) ks)"
proof -
  have "(\<exists>v. order_run order_step ks order_start = Inr v) \<longleftrightarrow> lawful_order (map JStr NORMAL_ORDER) ks" for ks
    using run_normal [of order_start ks] by (simp add: order_start_def NORMAL_ORDER_def)
  then show ?thesis by (auto simp: check_order_def rbind_Inr_iff order_run_events)
qed

end
