(* ===== verification/Spec2Isabelle.thy ===== *)
theory Spec2Isabelle
  imports JsonParse Policy Execution Adapter Journal Identity LocalJournal Trace PyDecimal Gateway GatewaySafety Money PgHistory PgLedger PgJournal PgJournalSafety Fencing AttemptBudget FaaAdapter WriteStoreSafety WriteAuthoritySafety WriteGatewaySafety Rq6Safety Rq6Stability Rq6Custody
begin

text \<open>
  A verification development of CIVICGATE, a governed gateway between a language model and public federal
  sources. Paths below are relative to \<open>src/\<close>; the Python package is \<open>src/civicgate\<close>, written \<open>civicgate\<close>.

  1. The program and its parts

  An untrusted agent proposes a tool call for a request in natural language. The gateway gathers signals
  that can only restrict, lets one policy decide, turns a permission into a single-use envelope, records
  the intent to dispatch in a durable journal, consumes the envelope, dispatches once, and verifies and
  labels what came back. Around it stand the journals that survive a crash, the receiver that fences
  effects in a database, the ledger that bounds the attempts of an evaluation run, a second source with an
  exact monetary identity, a synthetic channel for writes with its own authority and store, and the review of
  repeated runs by people, whose artifacts are released, coded, unblinded and closed in a fixed order.

  2. Which theory models which code

  Shared: \<open>Prelude\<close> (the shape of a stateful operation, chains of stop gates), \<open>PyJson\<close> and
  \<open>JsonParse\<close> (Python's JSON values, the canonical encoder, the reader), \<open>PyDecimal\<close>, \<open>Regex\<close> (the used part
  of Python's \<open>re\<close>), \<open>StrictJson\<close> (a reader that rejects double keys and non-finite numbers), \<open>Interfaces\<close> and \<open>Journal\<close> (the contracts, as locales), \<open>Models\<close> (\<open>civicgate/models\<close>).

  Read gateway. \<open>RequestRisk\<close>: \<open>governance/request_risk.py\<close>, \<open>channel_b/invocation_contract_v1.py\<close>.
  \<open>Tripwires\<close>: \<open>governance/authority.py\<close>. \<open>Policy\<close>: \<open>governance/judge.py\<close>, \<open>agent_k.py\<close>, \<open>policy.py\<close>.
  \<open>Execution\<close>: \<open>governance/execution.py\<close>. \<open>Adapter\<close>: \<open>adapters/usaspending.py\<close>. \<open>Identity\<close>:
  \<open>mcp/http_identity.py\<close>. \<open>Trace\<close>: \<open>audit/trace.py\<close>. \<open>Gateway\<close>, \<open>GatewaySafety\<close>: \<open>mcp/tools.py\<close>. One call is
  \<open>Gateway.call\<close>; its steps run in the order of the code and share the state record \<open>gateway\<close>.

  Journals. \<open>Journal\<close>: \<open>audit/dispatch.py\<close>. \<open>LocalJournal\<close>: \<open>audit/local_journal.py\<close>. \<open>PgHistory\<close>,
  \<open>PgLedger\<close>: \<open>audit/postgres_history.py\<close>. \<open>PgJournal\<close>, \<open>PgJournalSafety\<close>: \<open>audit/postgres_journal.py\<close>.
  \<open>Fencing\<close>: \<open>audit/fencing_receiver_experiment_v1.py\<close>. A journal is a record of its rows and what the object
  remembers; an operation is a function to the journal it leaves and its value or exception.

  FAA channel. \<open>Money\<close>: \<open>channel_b/faa_money_v1.py\<close>. \<open>FaaProfile\<close>: \<open>channel_b/faa_profile_v1.py\<close>.
  \<open>FaaAdapter\<close>: \<open>channel_b/faa_adapter_v1.py\<close>, \<open>faa_contract_v1.py\<close>.

  Evaluation. \<open>AttemptBudget\<close>: \<open>evals/harness/attempt_budget_v2.py\<close>.

  Write channel (\<open>evals/write01\<close>). \<open>WriteStore\<close>, \<open>WriteStoreSafety\<close>: \<open>store_v1.py\<close>. \<open>WriteAuthority\<close>,
  \<open>WriteAuthoritySafety\<close>: \<open>contract_v1.py\<close>, \<open>authority_v1.py\<close>. \<open>WriteGateway\<close>, \<open>WriteGatewaySafety\<close>:
  \<open>gateway_v1.py\<close>; a call composes the definitions of the store and of the authority.

  Research review (\<open>civicgate/rq6\<close>). \<open>Rq6Core\<close>: \<open>core.py\<close>, stop gates, exact JSON and snapshots. \<open>Rq6Schemas\<close>:
  \<open>schemas.py\<close>, what an artifact of each kind must be. \<open>Rq6Workflow\<close>, \<open>Rq6Safety\<close>: \<open>workflow.py\<close>, the bundle of
  three units and the cohort of six bundles. \<open>Rq6Closure\<close>: the contract of a closure apart from its checks,
  with the rule of disposition of \<open>docs/JUDGE_RQ6_AMENDMENT_001.md\<close>. \<open>Rq6Stability\<close>: \<open>stability.py\<close>. \<open>Rq6Custody\<close>: \<open>artifacts.py\<close>, the store
  of artifacts and the chained ledger of events.

  Definitions keep the names of the code, with a suffix where HOL or a sibling has the name. A record is
  the state of a class or the row of a table, an \<open>outcome\<close> or a sum holds the exception, and an exception
  leaves the state the code leaves.

  3. What the lemmas show

  Authority: signals only restrict and the judge never lifts a denial (\<open>Policy\<close>); an envelope is redeemed at
  most once and only as permitted (\<open>Execution\<close>); a dispatch has a permission, an intent on record and one
  redeemed envelope, a failure contains the gateway for good (\<open>GatewaySafety\<close>). Evidence: an open journal is
  only appended to, a crash is held at recovery (\<open>LocalJournal\<close>); a replayed ledger is a run of an abstract
  call protocol, whose moves its rows record one by one (\<open>PgLedger\<close>); one owner, unknown commits held, an
  accepted ledger whatever fails (\<open>PgJournalSafety\<close>). Effects: fenced effects are applied once (\<open>Fencing\<close>).
  Bounds: request attempts (\<open>Adapter\<close>), trace window and redaction (\<open>Trace\<close>), attempt caps under any
  interleaving of processes (\<open>AttemptBudget\<close>). Data: the encoder and the reader round-trip and the canonical
  text determines the value (\<open>PyJson\<close>, \<open>JsonParse\<close>); the response identity is blind to the spelling of amounts
  and to nothing else (\<open>Money\<close>); a released page was validated as claimed (\<open>FaaAdapter\<close>). Writes: the store
  validates after any run of any processes, with interrupted commits; an approval is spent once; nothing is
  mutated without one; an answer tells what happened (\<open>WriteStoreSafety\<close>, \<open>WriteAuthoritySafety\<close>,
  \<open>WriteGatewaySafety\<close>). Review: a snapshot gives back what it was built from (\<open>Rq6Core\<close>); every operation of
  a bundle is a step of an abstract review protocol, so the mapping is revealed only after three blind codings,
  units come in order and evidence only grows (\<open>Rq6Safety\<close>); an accepted closure has the declared types and
  the disposition of the frozen rule (\<open>Rq6Closure\<close>); the characterisation is that rule, exactly, and agrees with
  the schema, which is other code (\<open>Rq6Stability\<close>); the stored tip pins the events
  of a ledger and the order check accepts exactly the lawful orders (\<open>Rq6Custody\<close>).

  4. Interfaces

  \<open>single_use\<close>: a handle that is live is consumed at most once along a run; interpreted for envelopes
  (\<open>boundary\<close>), fenced requests (\<open>fenced\<close>), budget admissions (\<open>admissions\<close>), entries into the write adapter
  (\<open>adapter_entries\<close>) and host approvals (\<open>approvals\<close>). \<open>dispatch_journal\<close>: what the gateway relies on;
  interpreted for the local journal (\<open>local\<close>) and the PostgreSQL journal (\<open>pg\<close>), so the properties of a
  gateway with a journal hold for both. \<open>hash_chain\<close>: the last digest pins the rows (\<open>chain\<close>); it is stated as
  equal rows or a collision, with no assumption on the hash. \<open>strict_tokens\<close>: a strict reader for whatever
  scalars reads no more than the plain one and inverts the encoder; \<open>number_tokens\<close> extends it for a reader of
  numbers; interpreted for the FAA profile (\<open>exact_tokens\<close>) and for the artifacts (\<open>decoded\<close>).

  5. Inputs, bounds and fuel

  Code that is not under \<open>src/\<close> is an argument: Unicode tables, SHA-256, the double of a literal and its
  \<open>repr\<close> are the record \<open>libs\<close>; pydantic is \<open>pydantic\<close>, \<open>upstream\<close> or \<open>page_reader\<close>; JSON schemas, PyJWT and
  the verifier of an artifact (\<open>custody_verifier\<close> and the one of a workflow) are arguments, given per operation. What network, disk, SQLite, PostgreSQL and clocks do in one operation is an environment record
  of that component, unconstrained, with the fate of a commit (\<open>commit_fate\<close>: confirmed, lost after it took
  effect, or not made). The only fuel is that of the JSON readers, plain and strict: twice the length of the text
  plus one, proved enough for every text; every other loop is structural or bounded by its code. Widths do not wrap in
  Python; bounds of the code on integers are guards of the model. Hypotheses of a property are discharged at
  a concrete input by its witness.

  6. Limits

  Text is characters below 256. Floats are rationals with their literal. Python's limits on the digits of an
  integer and on nesting are not modelled. A process is killed only where a fate of a commit or a fault says
  so. During one call of the write gateway no other process changes its store, during one operation of custody
  nothing else changes its directory. Locks make a method one step. A stored confidence is no \<open>Decimal\<close>.

  7. Not modelled

  Of \<open>civicgate/rq6\<close>: \<open>validators.py\<close> (controls over a whole package, an argument of the workflow),
  \<open>continuity.py\<close>, \<open>source.py\<close>, \<open>synthetic.py\<close> and \<open>crypto.py\<close> (pinned files, fixtures, a library). \<open>civicgate/mcp\<close>
  apart from the gateway and identity, \<open>civicgate/llm\<close>, \<open>civicgate/agent\<close>: sessions, transports and calls to
  models over libraries; what they return is an untrusted input here. \<open>civicgate/evidence_console\<close>: a
  read-only view. \<open>audit/postgres_transport_guard_v1.py\<close>: a wrapper around a live session. Configuration,
  secrets, command line, \<open>scripts\<close>, \<open>experiments\<close>, the other harnesses, data and proposals of \<open>evals\<close>, the
  demonstration and the transport of the write channel, and the migrations: input and output, composition,
  generated data, or experiments on contracts that are modelled above.
\<close>

end
